(* ===== verification/Prelude.thy ===== *)
theory Prelude
  imports Main "HOL-Library.Word" "HOL-Library.AList" "HOL-Library.Multiset"
begin

text \<open>
  Shared vocabulary of the development: the machine integers of the Rust sources, the
  operations of \<open>Vec\<close>, \<open>Iterator\<close> and \<open>HashMap\<close> the sources use, and the lemmas on them that
  the component theories share.

  Integers.  A signed 64-bit value (\<open>i64\<close>: times, ids, token counts) is an \<open>int\<close>; where the
  source saturates, the model clamps to the range of the type (\<open>sat_i64\<close>), so every result of
  a saturating operation is in range.  Counters of type \<open>u32\<close>/\<open>u64\<close> that saturate are \<open>nat\<close> with
  the bound written out.  Generation and probe numbers, which wrap, are \<open>64 word\<close>.

  Containers.  A \<open>HashMap\<close> that is only read and written by key is a map.  A \<open>HashMap\<close> whose
  length or iteration matters is an association list with distinct keys: the list order stands
  for the (unspecified) iteration order, and the theorems hold for every such list.
\<close>

named_theorems rust_int \<open>unfolding rules for the machine-integer operations\<close>

named_theorems map_len \<open>length facts about association-list maps\<close>

section \<open>Machine integers\<close>

type_synonym u64w = "64 word"

type_synonym millis = int

definition i64_max :: int where
  "i64_max = 9223372036854775807"

definition i64_min :: int where
  "i64_min = - 9223372036854775808"

definition in_i64 :: "int \<Rightarrow> bool" where
  "in_i64 x \<longleftrightarrow> i64_min \<le> x \<and> x \<le> i64_max"

definition sat_i64 :: "int \<Rightarrow> int" where
  "sat_i64 x = max i64_min (min i64_max x)"

definition i64_saturating_add :: "int \<Rightarrow> int \<Rightarrow> int" where
  "i64_saturating_add a b = sat_i64 (a + b)"

definition i64_saturating_sub :: "int \<Rightarrow> int \<Rightarrow> int" where
  "i64_saturating_sub a b = sat_i64 (a - b)"

definition i64_saturating_mul :: "int \<Rightarrow> int \<Rightarrow> int" where
  "i64_saturating_mul a b = sat_i64 (a * b)"

text \<open>\<open>checked_add\<close>/\<open>checked_mul\<close> on \<open>i64\<close>: \<open>None\<close> out of range.\<close>

definition i64_checked_add :: "int \<Rightarrow> int \<Rightarrow> int option" where
  "i64_checked_add a b = (if in_i64 (a + b) then Some (a + b) else None)"

definition i64_checked_mul :: "int \<Rightarrow> int \<Rightarrow> int option" where
  "i64_checked_mul a b = (if in_i64 (a * b) then Some (a * b) else None)"

definition u32_max :: nat where
  "u32_max = 4294967295"

definition u64_max :: nat where
  "u64_max = 18446744073709551615"

definition u32_saturating_add :: "nat \<Rightarrow> nat \<Rightarrow> nat" where
  "u32_saturating_add a b = min u32_max (a + b)"

definition u64_saturating_add :: "nat \<Rightarrow> nat \<Rightarrow> nat" where
  "u64_saturating_add a b = min u64_max (a + b)"

text \<open>\<open>w.wrapping_add(1).max(1)\<close> on \<open>u64\<close>: the successor that skips zero.\<close>

definition next_u64 :: "u64w \<Rightarrow> u64w" where
  "next_u64 w = max (w + 1) 1"

text \<open>Division of signed integers truncates towards zero in Rust.\<close>

definition trunc_div :: "int \<Rightarrow> int \<Rightarrow> int" where
  "trunc_div a b = sgn a * sgn b * (\<bar>a\<bar> div \<bar>b\<bar>)"

section \<open>Options\<close>

definition opt_or :: "'a option \<Rightarrow> 'a option \<Rightarrow> 'a option" where
  "opt_or a b = (case a of Some _ \<Rightarrow> a | None \<Rightarrow> b)"

definition unwrap_or :: "'a option \<Rightarrow> 'a \<Rightarrow> 'a" where
  "unwrap_or a d = (case a of Some x \<Rightarrow> x | None \<Rightarrow> d)"

definition is_some_and :: "'a option \<Rightarrow> ('a \<Rightarrow> bool) \<Rightarrow> bool" where
  "is_some_and a p = (case a of Some x \<Rightarrow> p x | None \<Rightarrow> False)"

definition is_none_or :: "'a option \<Rightarrow> ('a \<Rightarrow> bool) \<Rightarrow> bool" where
  "is_none_or a p = (case a of Some x \<Rightarrow> p x | None \<Rightarrow> True)"

definition opt_filter :: "('a \<Rightarrow> bool) \<Rightarrow> 'a option \<Rightarrow> 'a option" where
  "opt_filter p a = (case a of Some x \<Rightarrow> (if p x then Some x else None) | None \<Rightarrow> None)"

section \<open>Iterators and vectors\<close>

text \<open>
  \<open>flatten\<close> of a list of options; \<open>min\<close>/\<open>max\<close> of an iterator (\<open>None\<close> when empty);
  \<open>min_by_key\<close> keeps the first minimum, \<open>max_by_key\<close> the last maximum; \<open>position\<close> and
  \<open>rposition\<close> give the first and the last index that satisfies a predicate.
\<close>

fun somes :: "'a option list \<Rightarrow> 'a list" where
  "somes [] = []"
| "somes (None # xs) = somes xs"
| "somes (Some x # xs) = x # somes xs"

fun iter_min :: "'a::linorder list \<Rightarrow> 'a option" where
  "iter_min [] = None"
| "iter_min (x # xs) = (case iter_min xs of None \<Rightarrow> Some x | Some m \<Rightarrow> Some (min x m))"

fun iter_max :: "'a::linorder list \<Rightarrow> 'a option" where
  "iter_max [] = None"
| "iter_max (x # xs) = (case iter_max xs of None \<Rightarrow> Some x | Some m \<Rightarrow> Some (max x m))"

fun min_by_key :: "('a \<Rightarrow> 'k::linorder) \<Rightarrow> 'a list \<Rightarrow> 'a option" where
  "min_by_key f [] = None"
| "min_by_key f (x # xs) =
     (case min_by_key f xs of None \<Rightarrow> Some x | Some m \<Rightarrow> Some (if f m < f x then m else x))"

fun max_by_key :: "('a \<Rightarrow> 'k::linorder) \<Rightarrow> 'a list \<Rightarrow> 'a option" where
  "max_by_key f [] = None"
| "max_by_key f (x # xs) =
     (case max_by_key f xs of None \<Rightarrow> Some x | Some m \<Rightarrow> Some (if f m < f x then x else m))"

fun position :: "('a \<Rightarrow> bool) \<Rightarrow> 'a list \<Rightarrow> nat option" where
  "position p [] = None"
| "position p (x # xs) = (if p x then Some 0 else map_option Suc (position p xs))"

fun rposition :: "('a \<Rightarrow> bool) \<Rightarrow> 'a list \<Rightarrow> nat option" where
  "rposition p [] = None"
| "rposition p (x # xs) =
     (case rposition p xs of Some i \<Rightarrow> Some (Suc i) | None \<Rightarrow> (if p x then Some 0 else None))"

text \<open>\<open>Vec::swap_remove\<close>: the last element takes the place of the removed one.\<close>

definition swap_remove :: "nat \<Rightarrow> 'a list \<Rightarrow> 'a list" where
  "swap_remove i xs = (butlast xs)[i := last xs]"

section \<open>Lemmas\<close>

lemmas sat_defs = sat_i64_def i64_max_def i64_min_def in_i64_def

declare i64_saturating_add_def [rust_int]
  and i64_saturating_sub_def [rust_int]
  and i64_saturating_mul_def [rust_int]
  and sat_i64_def [rust_int]
  and i64_max_def [rust_int]
  and i64_min_def [rust_int]
  and in_i64_def [rust_int]
  and u32_saturating_add_def [rust_int]
  and u64_saturating_add_def [rust_int]
  and u32_max_def [rust_int]
  and u64_max_def [rust_int]

lemma sat_i64_in: "in_i64 (sat_i64 x)"
  by (auto simp: rust_int)

lemma sat_i64_id: "in_i64 x \<Longrightarrow> sat_i64 x = x"
  by (auto simp: rust_int)

lemma sat_i64_mono: "x \<le> y \<Longrightarrow> sat_i64 x \<le> sat_i64 y"
  by (auto simp: rust_int)

lemma saturating_add_ge: "in_i64 a \<Longrightarrow> 0 \<le> b \<Longrightarrow> a \<le> i64_saturating_add a b"
  by (auto simp: rust_int)

lemma saturating_add_gt: "a < i64_max \<Longrightarrow> 0 < b \<Longrightarrow> a < i64_saturating_add a b"
  by (auto simp: rust_int)

lemma next_u64_neq: "next_u64 w \<noteq> w"
proof (cases "w + 1 = 0")
  case True
  then have "next_u64 w = 1" by (simp add: next_u64_def)
  moreover have "w = - 1" using True by (simp add: eq_neg_iff_add_eq_0)
  ultimately show ?thesis by simp
next
  case False
  then have "1 \<le> w + 1" by (simp add: word_less_1 not_less [symmetric])
  then have "next_u64 w = w + 1" by (simp add: next_u64_def max_def)
  then show ?thesis by simp
qed

lemma next_u64_nonzero: "next_u64 w \<noteq> 0"
proof -
  have "1 \<le> next_u64 w" by (simp add: next_u64_def)
  then show ?thesis by auto
qed

lemma iter_min_None [simp]: "iter_min xs = None \<longleftrightarrow> xs = []"
  by (cases xs) (auto split: option.splits)

lemma iter_max_None [simp]: "iter_max xs = None \<longleftrightarrow> xs = []"
  by (cases xs) (auto split: option.splits)

lemma iter_min_Some: "iter_min xs = Some m \<longleftrightarrow> xs \<noteq> [] \<and> m = Min (set xs)"
proof (induction xs arbitrary: m)
  case (Cons x xs)
  then show ?case by (cases "xs = []") (auto split: option.splits)
qed simp

lemma iter_max_Some: "iter_max xs = Some m \<longleftrightarrow> xs \<noteq> [] \<and> m = Max (set xs)"
proof (induction xs arbitrary: m)
  case (Cons x xs)
  then show ?case by (cases "xs = []") (auto split: option.splits)
qed simp

lemma min_by_key_None [simp]: "min_by_key f xs = None \<longleftrightarrow> xs = []"
  by (cases xs) (auto split: option.splits)

lemma min_by_key_mem: "min_by_key f xs = Some m \<Longrightarrow> m \<in> set xs"
  by (induction xs arbitrary: m) (auto split: option.splits if_splits)

lemma min_by_key_le: "min_by_key f xs = Some m \<Longrightarrow> x \<in> set xs \<Longrightarrow> f m \<le> f x"
  by (induction xs arbitrary: m) (fastforce split: option.splits if_splits)+

lemma max_by_key_mem: "max_by_key f xs = Some m \<Longrightarrow> m \<in> set xs"
  by (induction xs arbitrary: m) (auto split: option.splits if_splits)

lemma set_somes: "set (somes xs) = {x. Some x \<in> set xs}"
  by (induction xs rule: somes.induct) auto

lemma somes_append: "somes (xs @ ys) = somes xs @ somes ys"
  by (induction xs rule: somes.induct) auto

lemma position_lt: "position p xs = Some i \<Longrightarrow> i < length xs \<and> p (xs ! i)"
  by (induction xs arbitrary: i) (auto split: if_splits)

lemma position_None: "position p xs = None \<longleftrightarrow> (\<forall>x \<in> set xs. \<not> p x)"
  by (induction xs) auto

lemma rposition_Some_iff:
  "rposition p xs = Some i \<longleftrightarrow>
     i < length xs \<and> p (xs ! i) \<and> (\<forall>j < length xs. i < j \<longrightarrow> \<not> p (xs ! j))"
proof (induction xs arbitrary: i)
  case (Cons x xs)
  show ?case
  proof (cases "rposition p xs")
    case None
    then have none: "\<And>j. j < length xs \<Longrightarrow> \<not> p (xs ! j)"
    proof (induction xs)
      case (Cons y ys)
      then show ?case by (auto split: option.splits if_splits simp: nth_Cons split: nat.splits)
    qed simp
    with None show ?thesis
      by (auto simp: nth_Cons split: nat.splits if_splits)
  next
    case (Some k)
    with Cons.IH have k: "k < length xs" "p (xs ! k)" by auto
    have "rposition p (x # xs) = Some i \<longleftrightarrow> (\<exists>i'. i = Suc i' \<and> rposition p xs = Some i')"
      using Some by auto
    also have "\<dots> \<longleftrightarrow> i < length (x # xs) \<and> p ((x # xs) ! i) \<and>
        (\<forall>j < length (x # xs). i < j \<longrightarrow> \<not> p ((x # xs) ! j))"
      using Cons.IH k
      by (cases i) (auto simp: nth_Cons less_Suc_eq_0_disj split: nat.splits)
    finally show ?thesis .
  qed
qed simp

lemma mset_swap_remove:
  assumes "i < length xs"
  shows "add_mset (xs ! i) (mset (swap_remove i xs)) = mset xs"
proof -
  obtain ys z where xs: "xs = ys @ [z]"
    using assms by (cases xs rule: rev_cases) auto
  show ?thesis
  proof (cases "i < length ys")
    case True
    then show ?thesis by (simp add: xs swap_remove_def mset_update nth_append)
  next
    case False
    with assms have "i = length ys" by (simp add: xs)
    then show ?thesis by (simp add: xs swap_remove_def list_update_beyond)
  qed
qed

lemma length_swap_remove [simp]: "length (swap_remove i xs) = length xs - 1"
  by (simp add: swap_remove_def)

lemma length_alist_update [map_len]:
  "length (AList.update k v xs) = (if k \<in> fst ` set xs then length xs else Suc (length xs))"
  by (induction xs) auto

lemma length_alist_delete [map_len]:
  "distinct (map fst xs) \<Longrightarrow>
   length (AList.delete k xs) = (if k \<in> fst ` set xs then length xs - 1 else length xs)"
proof (induction xs)
  case (Cons x xs)
  obtain a b where x: "x = (a, b)" by (cases x)
  show ?case
  proof (cases "k = a")
    case True
    with Cons.prems have "k \<notin> fst ` set xs" by (simp add: x)
    then show ?thesis using True by (simp add: x delete_idem)
  next
    case False
    then show ?thesis using Cons by (cases xs) (auto simp: x)
  qed
qed simp

lemma map_of_filter_keys:
  "distinct (map fst xs) \<Longrightarrow>
   map_of (filter (\<lambda>kv. P (snd kv)) xs) k = opt_filter P (map_of xs k)"
proof (induction xs)
  case (Cons x xs)
  obtain a b where x: "x = (a, b)" by (cases x)
  have "a \<notin> fst ` set xs" using Cons.prems by (simp add: x)
  then have "map_of (filter (\<lambda>kv. P (snd kv)) xs) a = None"
    by (auto simp: map_of_eq_None_iff)
  then show ?case using Cons by (auto simp: x opt_filter_def)
qed (simp add: opt_filter_def)

lemma distinct_filter_keys: "distinct (map fst xs) \<Longrightarrow> distinct (map fst (filter P xs))"
  by (rule distinct_map_filter)

lemma mset_map_partition:
  "(\<And>x. x \<in> set xs \<Longrightarrow> Q x \<longleftrightarrow> \<not> P x) \<Longrightarrow>
   mset (map f xs) = mset (map f (filter P xs)) + mset (map f (filter Q xs))"
  by (induction xs) auto

end
