(* ===== verification/Float64.thy ===== *)
theory Float64
  imports Prelude Complex_Main "HOL-Library.Log_Nat"
begin

text \<open>
  The \<open>f64\<close> arithmetic of the sources: IEEE-754 binary64 with round-to-nearest,
  ties-to-even.  A finite value is the rational it denotes (the two zeros are one value: no
  code modelled here looks at the sign of a zero); infinities and NaN are constructors.
  \<open>rnd64\<close> rounds a rational to the nearest multiple of its unit in the last place (53 significant
  bits, subnormal spacing \<open>2 ^ -1074\<close> below), and \<open>f64_of_rat\<close> sends what exceeds the range to
  an infinity.
\<close>

datatype f64 = Fin rat | PInf | NInf | NaN

definition pow2 :: "int \<Rightarrow> rat" where
  "pow2 e = (if 0 \<le> e then 2 ^ nat e else 1 / 2 ^ nat (- e))"

definition round_half_even :: "rat \<Rightarrow> int" where
  "round_half_even x =
     (let f = \<lfloor>x\<rfloor>; d = x - of_int f
      in if d < 1 / 2 then f else if 1 / 2 < d then f + 1 else if even f then f else f + 1)"

text \<open>The exponent of the leading bit of a positive rational, from the lengths of its parts.\<close>

definition ilog2 :: "rat \<Rightarrow> int" where
  "ilog2 x =
     (case quotient_of x of (p, q) \<Rightarrow>
       (let e = bitlen p - bitlen q in if pow2 e \<le> x then e else e - 1))"

definition ulp64 :: "rat \<Rightarrow> rat" where
  "ulp64 x = pow2 (max (ilog2 \<bar>x\<bar> - 52) (- 1074))"

definition rnd64 :: "rat \<Rightarrow> rat" where
  "rnd64 x = (if x = 0 then 0 else of_int (round_half_even (x / ulp64 x)) * ulp64 x)"

definition f64_limit :: rat where
  "f64_limit = 2 ^ 1024"

definition f64_of_rat :: "rat \<Rightarrow> f64" where
  "f64_of_rat x =
     (let r = rnd64 x in if f64_limit \<le> r then PInf else if r \<le> - f64_limit then NInf else Fin r)"

definition f64_of_int :: "int \<Rightarrow> f64" where
  "f64_of_int n = f64_of_rat (of_int n)"

fun f64_neg :: "f64 \<Rightarrow> f64" where
  "f64_neg (Fin a) = Fin (- a)"
| "f64_neg PInf = NInf"
| "f64_neg NInf = PInf"
| "f64_neg NaN = NaN"

fun f64_add :: "f64 \<Rightarrow> f64 \<Rightarrow> f64" where
  "f64_add (Fin a) (Fin b) = f64_of_rat (a + b)"
| "f64_add NaN _ = NaN"
| "f64_add _ NaN = NaN"
| "f64_add PInf NInf = NaN"
| "f64_add NInf PInf = NaN"
| "f64_add PInf _ = PInf"
| "f64_add _ PInf = PInf"
| "f64_add NInf _ = NInf"
| "f64_add _ NInf = NInf"

definition f64_sub :: "f64 \<Rightarrow> f64 \<Rightarrow> f64" where
  "f64_sub a b = f64_add a (f64_neg b)"

fun f64_is_neg :: "f64 \<Rightarrow> bool" where
  "f64_is_neg (Fin a) = (a < 0)"
| "f64_is_neg PInf = False"
| "f64_is_neg NInf = True"
| "f64_is_neg NaN = False"

definition f64_signed_inf :: "bool \<Rightarrow> f64" where
  "f64_signed_inf neg = (if neg then NInf else PInf)"

fun f64_mul :: "f64 \<Rightarrow> f64 \<Rightarrow> f64" where
  "f64_mul (Fin a) (Fin b) = f64_of_rat (a * b)"
| "f64_mul NaN _ = NaN"
| "f64_mul _ NaN = NaN"
| "f64_mul (Fin a) y = (if a = 0 then NaN else f64_signed_inf ((a < 0) \<noteq> f64_is_neg y))"
| "f64_mul x (Fin b) = (if b = 0 then NaN else f64_signed_inf (f64_is_neg x \<noteq> (b < 0)))"
| "f64_mul x y = f64_signed_inf (f64_is_neg x \<noteq> f64_is_neg y)"

text \<open>Comparisons: false when either side is NaN.\<close>

fun f64_less :: "f64 \<Rightarrow> f64 \<Rightarrow> bool" where
  "f64_less (Fin a) (Fin b) = (a < b)"
| "f64_less NaN _ = False"
| "f64_less _ NaN = False"
| "f64_less NInf y = (y \<noteq> NInf)"
| "f64_less _ NInf = False"
| "f64_less PInf _ = False"
| "f64_less (Fin _) PInf = True"

definition f64_le :: "f64 \<Rightarrow> f64 \<Rightarrow> bool" where
  "f64_le a b \<longleftrightarrow> f64_less a b \<or> (a = b \<and> a \<noteq> NaN)"

fun f64_is_finite :: "f64 \<Rightarrow> bool" where
  "f64_is_finite (Fin _) = True"
| "f64_is_finite _ = False"

text \<open>\<open>f64::round\<close>: to the nearest integer, half-way cases away from zero.\<close>

fun f64_round :: "f64 \<Rightarrow> f64" where
  "f64_round (Fin a) = Fin (if 0 \<le> a then of_int \<lfloor>a + 1 / 2\<rfloor> else - of_int \<lfloor>- a + 1 / 2\<rfloor>)"
| "f64_round x = x"

text \<open>\<open>x as i64\<close>: truncation, saturating at the range; NaN gives 0.\<close>

fun f64_to_i64 :: "f64 \<Rightarrow> int" where
  "f64_to_i64 (Fin a) = sat_i64 (if 0 \<le> a then \<lfloor>a\<rfloor> else - \<lfloor>- a\<rfloor>)"
| "f64_to_i64 PInf = i64_max"
| "f64_to_i64 NInf = i64_min"
| "f64_to_i64 NaN = 0"

text \<open>A finite value that is not negative: the shape of every latency average.\<close>

fun f64_nonneg :: "f64 \<Rightarrow> bool" where
  "f64_nonneg (Fin a) = (0 \<le> a)"
| "f64_nonneg PInf = True"
| "f64_nonneg _ = False"

section \<open>Lemmas\<close>

lemma pow2_pos: "0 < pow2 e"
  by (simp add: pow2_def)

lemma ulp64_pos: "0 < ulp64 x"
  by (simp add: ulp64_def pow2_pos)

lemma round_half_even_nonneg: "0 \<le> x \<Longrightarrow> 0 \<le> round_half_even x"
  by (auto simp: round_half_even_def Let_def)

lemma round_half_even_error: "\<bar>of_int (round_half_even x) - x\<bar> \<le> 1 / 2"
proof -
  let ?d = "x - of_int \<lfloor>x\<rfloor>"
  have d: "0 \<le> ?d" "?d < 1" by linarith+
  consider "?d < 1 / 2" | "1 / 2 < ?d" | "?d = 1 / 2" by linarith
  then show ?thesis
  proof cases
    case 1
    then have "round_half_even x = \<lfloor>x\<rfloor>" by (simp add: round_half_even_def)
    with 1 d show ?thesis by linarith
  next
    case 2
    then have "round_half_even x = \<lfloor>x\<rfloor> + 1" by (simp add: round_half_even_def Let_def)
    with 2 d show ?thesis by linarith
  next
    case 3
    then have "round_half_even x = \<lfloor>x\<rfloor> \<or> round_half_even x = \<lfloor>x\<rfloor> + 1"
      by (auto simp: round_half_even_def Let_def)
    with 3 show ?thesis by (elim disjE; simp add: abs_if)
  qed
qed

lemma rnd64_nonneg: "0 \<le> x \<Longrightarrow> 0 \<le> rnd64 x"
  using ulp64_pos [of x]
  by (auto simp: rnd64_def less_imp_le intro!: mult_nonneg_nonneg round_half_even_nonneg divide_nonneg_pos)

text \<open>The rounding error is at most half a unit in the last place.\<close>

lemma rnd64_error: "\<bar>rnd64 x - x\<bar> \<le> ulp64 x / 2"
proof (cases "x = 0")
  case True
  then show ?thesis using ulp64_pos [of x] by (simp add: rnd64_def less_imp_le)
next
  case False
  let ?u = "ulp64 x"
  let ?n = "of_int (round_half_even (x / ?u)) :: rat"
  have u: "0 < ?u" by (rule ulp64_pos)
  have "\<bar>?n - x / ?u\<bar> * ?u \<le> 1 / 2 * ?u"
    using round_half_even_error u by (intro mult_right_mono) auto
  moreover have "\<bar>?n - x / ?u\<bar> * ?u = \<bar>(?n - x / ?u) * ?u\<bar>"
    using u by (simp add: abs_mult)
  moreover have "(?n - x / ?u) * ?u = rnd64 x - x"
    using u False by (simp add: rnd64_def left_diff_distrib)
  ultimately show ?thesis by simp
qed

lemma f64_limit_pos: "0 < f64_limit"
  unfolding f64_limit_def by (rule zero_less_power) (rule zero_less_numeral)

lemma f64_of_rat_nonneg: "0 \<le> x \<Longrightarrow> f64_nonneg (f64_of_rat x)"
  using rnd64_nonneg [of x] f64_limit_pos by (auto simp: f64_of_rat_def Let_def)

lemma f64_of_int_nonneg: "0 \<le> n \<Longrightarrow> f64_nonneg (f64_of_int n)"
  by (simp add: f64_of_int_def f64_of_rat_nonneg)

lemma f64_add_nonneg: "f64_nonneg a \<Longrightarrow> f64_nonneg b \<Longrightarrow> f64_nonneg (f64_add a b)"
  by (cases a; cases b) (auto simp: f64_of_rat_nonneg)

lemma f64_mul_nonneg_pos: "f64_nonneg a \<Longrightarrow> 0 < c \<Longrightarrow> f64_nonneg (f64_mul a (Fin c))"
  by (cases a) (auto simp: f64_of_rat_nonneg f64_signed_inf_def)

lemma f64_round_nonneg: "f64_nonneg a \<Longrightarrow> 0 \<le> f64_to_i64 (f64_round a)"
  by (cases a) (auto simp: sat_i64_def i64_max_def i64_min_def)

text \<open>The constants \<open>1\<close>, \<open>0.2\<close> and the rounded difference of the two.\<close>

lemma f64_of_rat_eq: "rnd64 x = r \<Longrightarrow> \<bar>r\<bar> \<le> 2 ^ 64 \<Longrightarrow> f64_of_rat x = Fin r"
  by (auto simp: f64_of_rat_def f64_limit_def Let_def)

lemma rnd64_one: "rnd64 1 = 1"
  by code_simp

lemma rnd64_fifth: "rnd64 (1 / 5) = 3602879701896397 / 18014398509481984"
  by code_simp

lemma rnd64_four_fifths:
  "rnd64 (14411518807585587 / 18014398509481984) = 3602879701896397 / 4503599627370496"
  by code_simp

lemma f64_constants:
  "f64_of_rat 1 = Fin 1"
  "f64_of_rat (1 / 5) = Fin (3602879701896397 / 18014398509481984)"
  "f64_of_rat (14411518807585587 / 18014398509481984) = Fin (3602879701896397 / 4503599627370496)"
  by (rule f64_of_rat_eq [OF rnd64_one], simp, rule f64_of_rat_eq [OF rnd64_fifth], simp,
      rule f64_of_rat_eq [OF rnd64_four_fifths], simp)

text \<open>Integers below \<open>2 ^ 53\<close> are represented exactly.\<close>

lemma round_half_even_of_int: "round_half_even (of_int k) = k"
  by (simp add: round_half_even_def Let_def)

lemma ilog2_int_le: "0 < k \<Longrightarrow> k < 2 ^ 53 \<Longrightarrow> ilog2 (of_int k) \<le> 52"
proof -
  assume "0 < k" "k < 2 ^ 53"
  then have "bitlen k \<le> 53" by (simp add: bitlen_le_iff_power)
  moreover have "bitlen 1 = 1" by code_simp
  ultimately show ?thesis by (simp add: ilog2_def quotient_of_int Let_def)
qed

lemma ulp64_int: "0 < k \<Longrightarrow> k < 2 ^ 53 \<Longrightarrow> \<exists>n. ulp64 (of_int k) = 1 / of_int (2 ^ n)"
proof -
  assume "0 < k" "k < 2 ^ 53"
  then have "max (ilog2 \<bar>of_int k\<bar> - 52) (- 1074) \<le> 0" using ilog2_int_le [of k] by simp
  then show ?thesis
    by (intro exI [of _ "nat (- max (ilog2 \<bar>of_int k\<bar> - 52) (- 1074))"])
      (auto simp: ulp64_def pow2_def)
qed

lemma rnd64_int: "0 \<le> k \<Longrightarrow> k < 2 ^ 53 \<Longrightarrow> rnd64 (of_int k) = of_int k"
proof (cases "k = 0")
  case False
  assume k: "0 \<le> k" "k < 2 ^ 53"
  then obtain n where n: "ulp64 (of_int k) = 1 / of_int (2 ^ n)" using ulp64_int [of k] False by auto
  then have "(of_int k :: rat) / ulp64 (of_int k) = of_int (k * 2 ^ n)" by simp
  then have "rnd64 (of_int k) = of_int (round_half_even (of_int (k * 2 ^ n))) * ulp64 (of_int k)"
    using False by (simp add: rnd64_def)
  then show ?thesis by (simp only: round_half_even_of_int n) simp
qed (simp add: rnd64_def)

lemma f64_of_int_exact: "0 \<le> k \<Longrightarrow> k < 2 ^ 53 \<Longrightarrow> f64_of_rat (of_int k) = Fin (of_int k)"
proof -
  assume k: "0 \<le> k" "k < 2 ^ 53"
  then have "\<bar>of_int k :: rat\<bar> \<le> of_int (2 ^ 64)" by (simp only: of_int_abs [symmetric] of_int_le_iff) simp
  then show ?thesis using k by (intro f64_of_rat_eq rnd64_int) simp_all
qed

end
