(* ===== verification/Text.thy ===== *)
theory Text
  imports Prelude "HOL-Library.Char_ord" "HOL-Library.List_Lexorder"
begin

text \<open>
  Rust strings.  A \<open>str\<close> is its UTF-8 byte sequence, a \<open>string\<close> of 8-bit characters, so
  \<open>length\<close> is \<open>str::len\<close> and the order of lists is the order of \<open>str\<close>.  \<open>trim\<close> removes the
  Unicode white space of \<open>char::is_whitespace\<close>, whose encodings have one, two or three bytes;
  the ASCII operations and the integer parsers of the standard library follow.
\<close>

definition byte :: "char \<Rightarrow> nat" where
  "byte c = of_char c"

definition ws1 :: "char \<Rightarrow> bool" where
  "ws1 a \<longleftrightarrow> (9 \<le> byte a \<and> byte a \<le> 13) \<or> byte a = 32"

definition ws2 :: "char \<Rightarrow> char \<Rightarrow> bool" where
  "ws2 a b \<longleftrightarrow> byte a = 194 \<and> (byte b = 133 \<or> byte b = 160)"

definition ws3 :: "char \<Rightarrow> char \<Rightarrow> char \<Rightarrow> bool" where
  "ws3 a b c \<longleftrightarrow>
     (byte a = 225 \<and> byte b = 154 \<and> byte c = 128) \<or>
     (byte a = 226 \<and> byte b = 128 \<and>
       ((128 \<le> byte c \<and> byte c \<le> 138) \<or> byte c = 168 \<or> byte c = 169 \<or> byte c = 175)) \<or>
     (byte a = 226 \<and> byte b = 129 \<and> byte c = 159) \<or>
     (byte a = 227 \<and> byte b = 128 \<and> byte c = 128)"

fun strip_ws :: "(char \<Rightarrow> char \<Rightarrow> bool) \<Rightarrow> (char \<Rightarrow> char \<Rightarrow> char \<Rightarrow> bool) \<Rightarrow> string \<Rightarrow> string" where
  "strip_ws w2 w3 [] = []"
| "strip_ws w2 w3 [a] = (if ws1 a then [] else [a])"
| "strip_ws w2 w3 [a, b] =
     (if ws1 a then strip_ws w2 w3 [b] else if w2 a b then [] else [a, b])"
| "strip_ws w2 w3 (a # b # c # s) =
     (if ws1 a then strip_ws w2 w3 (b # c # s)
      else if w2 a b then strip_ws w2 w3 (c # s)
      else if w3 a b c then strip_ws w2 w3 s
      else a # b # c # s)"

definition trim_start :: "string \<Rightarrow> string" where
  "trim_start s = strip_ws ws2 ws3 s"

definition trim_end :: "string \<Rightarrow> string" where
  "trim_end s = rev (strip_ws (\<lambda>a b. ws2 b a) (\<lambda>a b c. ws3 c b a) (rev s))"

definition trim :: "string \<Rightarrow> string" where
  "trim s = trim_end (trim_start s)"

definition ascii_lower :: "char \<Rightarrow> char" where
  "ascii_lower c = (if 65 \<le> byte c \<and> byte c \<le> 90 then char_of (byte c + 32) else c)"

definition to_ascii_lowercase :: "string \<Rightarrow> string" where
  "to_ascii_lowercase s = map ascii_lower s"

definition eq_ignore_ascii_case :: "string \<Rightarrow> string \<Rightarrow> bool" where
  "eq_ignore_ascii_case a b \<longleftrightarrow> to_ascii_lowercase a = to_ascii_lowercase b"

definition is_ascii_digit :: "char \<Rightarrow> bool" where
  "is_ascii_digit c \<longleftrightarrow> 48 \<le> byte c \<and> byte c \<le> 57"

definition starts_with :: "string \<Rightarrow> string \<Rightarrow> bool" where
  "starts_with p s \<longleftrightarrow> take (length p) s = p"

definition ends_with :: "string \<Rightarrow> string \<Rightarrow> bool" where
  "ends_with p s \<longleftrightarrow> length p \<le> length s \<and> drop (length s - length p) s = p"

definition strip_prefix :: "string \<Rightarrow> string \<Rightarrow> string option" where
  "strip_prefix p s = (if starts_with p s then Some (drop (length p) s) else None)"

definition strip_suffix :: "string \<Rightarrow> string \<Rightarrow> string option" where
  "strip_suffix p s = (if ends_with p s then Some (take (length s - length p) s) else None)"

section \<open>Integers as text\<close>

definition digit :: "nat \<Rightarrow> char" where
  "digit d = char_of (48 + d)"

fun show_nat :: "nat \<Rightarrow> string" where
  "show_nat n = (if n < 10 then [digit n] else show_nat (n div 10) @ [digit (n mod 10)])"

declare show_nat.simps [simp del]

definition show_int :: "int \<Rightarrow> string" where
  "show_int i = (if i < 0 then CHR ''-'' # show_nat (nat (- i)) else show_nat (nat i))"

fun digits_value :: "nat \<Rightarrow> string \<Rightarrow> nat option" where
  "digits_value acc [] = Some acc"
| "digits_value acc (c # s) =
     (if is_ascii_digit c then digits_value (10 * acc + (byte c - 48)) s else None)"

definition parse_digits :: "string \<Rightarrow> nat option" where
  "parse_digits s = (if s = [] then None else digits_value 0 s)"

text \<open>\<open>str::parse::<u64>\<close> (an optional plus sign) and \<open>str::parse::<i64>\<close> (either sign).\<close>

definition parse_u64 :: "string \<Rightarrow> nat option" where
  "parse_u64 s =
     (case parse_digits (case s of c # r \<Rightarrow> (if c = CHR ''+'' then r else s) | [] \<Rightarrow> []) of
       None \<Rightarrow> None
     | Some n \<Rightarrow> (if n \<le> u64_max then Some n else None))"

definition parse_i64 :: "string \<Rightarrow> int option" where
  "parse_i64 s =
     (case (case s of
              c # r \<Rightarrow>
                (if c = CHR ''-'' then map_option (\<lambda>n. - int n) (parse_digits r)
                 else if c = CHR ''+'' then map_option int (parse_digits r)
                 else map_option int (parse_digits s))
            | [] \<Rightarrow> None) of
       None \<Rightarrow> None
     | Some i \<Rightarrow> (if in_i64 i then Some i else None))"

section \<open>Lemmas\<close>

lemma byte_digit: "d < 10 \<Longrightarrow> byte (digit d) = 48 + d"
  by (simp add: byte_def digit_def)

lemma is_digit_digit: "d < 10 \<Longrightarrow> is_ascii_digit (digit d)"
  by (simp add: is_ascii_digit_def byte_digit)

lemma digits_value_append:
  "digits_value acc (s @ t) =
     (case digits_value acc s of None \<Rightarrow> None | Some a \<Rightarrow> digits_value a t)"
  by (induction s arbitrary: acc) auto

lemma digits_value_show: "digits_value 0 (show_nat n) = Some n"
proof (induction n rule: show_nat.induct)
  case (1 n)
  show ?case
  proof (cases "n < 10")
    case True
    then show ?thesis by (simp add: show_nat.simps [of n] is_digit_digit byte_digit)
  next
    case False
    with "1.IH" show ?thesis
      by (simp add: show_nat.simps [of n] digits_value_append is_digit_digit byte_digit)
  qed
qed

lemma show_nat_nonempty: "show_nat n \<noteq> []"
  by (subst show_nat.simps) simp

lemma show_nat_digits: "c \<in> set (show_nat n) \<Longrightarrow> is_ascii_digit c"
proof (induction n rule: show_nat.induct)
  case (1 n)
  then show ?case
    by (cases "n < 10") (auto simp: show_nat.simps [of n] is_digit_digit)
qed

lemma parse_digits_show: "parse_digits (show_nat n) = Some n"
  by (simp add: parse_digits_def show_nat_nonempty digits_value_show)

lemma parse_u64_show: "n \<le> u64_max \<Longrightarrow> parse_u64 (show_nat n) = Some n"
proof -
  assume "n \<le> u64_max"
  obtain c r where s: "show_nat n = c # r" using show_nat_nonempty [of n] by (cases "show_nat n") auto
  then have "is_ascii_digit c" using show_nat_digits [of c n] by simp
  then have "c \<noteq> CHR ''+''" by (auto simp: is_ascii_digit_def byte_def)
  then show ?thesis using \<open>n \<le> u64_max\<close> parse_digits_show [of n] by (simp add: parse_u64_def s)
qed

lemma parse_u64_bound: "parse_u64 s = Some n \<Longrightarrow> n \<le> u64_max"
  by (auto simp: parse_u64_def split: option.splits if_splits)

lemma parse_i64_bound: "parse_i64 s = Some i \<Longrightarrow> in_i64 i"
  by (auto simp: parse_i64_def split: option.splits if_splits)

lemma parse_i64_show: "in_i64 i \<Longrightarrow> parse_i64 (show_int i) = Some i"
proof -
  assume i: "in_i64 i"
  show ?thesis
  proof (cases "i < 0")
    case True
    then show ?thesis using i by (simp add: parse_i64_def show_int_def parse_digits_show)
  next
    case False
    obtain c r where s: "show_nat (nat i) = c # r"
      using show_nat_nonempty [of "nat i"] by (cases "show_nat (nat i)") auto
    then have "is_ascii_digit c" using show_nat_digits [of c "nat i"] by simp
    then have "c \<noteq> CHR ''+''" "c \<noteq> CHR ''-''" by (auto simp: is_ascii_digit_def byte_def)
    then show ?thesis using False i parse_digits_show [of "nat i"]
      by (simp add: parse_i64_def show_int_def s)
  qed
qed

text \<open>Digits are not white space, so the text of a number is its own trim.\<close>

lemma strip_ws_digit:
  "is_ascii_digit c \<Longrightarrow> (\<And>b. \<not> w2 c b) \<Longrightarrow> (\<And>b d. \<not> w3 c b d) \<Longrightarrow> strip_ws w2 w3 (c # s) = c # s"
proof -
  assume a: "is_ascii_digit c" "\<And>b. \<not> w2 c b" "\<And>b d. \<not> w3 c b d"
  then have "\<not> ws1 c" by (auto simp: is_ascii_digit_def ws1_def)
  with a show ?thesis by (cases "(w2, w3, c # s)" rule: strip_ws.cases) auto
qed

lemma trim_digits:
  assumes "s \<noteq> []" and "is_ascii_digit (hd s)" and "is_ascii_digit (last s)"
  shows "trim s = s"
proof -
  obtain c r where s: "s = c # r" using assms(1) by (cases s) auto
  have start: "trim_start s = s" unfolding s trim_start_def
    using assms(2) by (intro strip_ws_digit) (auto simp: s is_ascii_digit_def ws2_def ws3_def)
  obtain d t where t: "rev s = d # t" using assms(1) by (cases "rev s") auto
  then have "is_ascii_digit d" using assms(3) by (metis hd_rev list.sel(1))
  then have "strip_ws (\<lambda>a b. ws2 b a) (\<lambda>a b c. ws3 c b a) (rev s) = rev s" unfolding t
    by (intro strip_ws_digit) (auto simp: is_ascii_digit_def ws2_def ws3_def)
  then show ?thesis using start by (simp add: trim_def trim_end_def)
qed

lemma trim_show_nat: "trim (show_nat n) = show_nat n"
  by (rule trim_digits)
    (simp_all add: show_nat_nonempty show_nat_digits [of "hd (show_nat n)" n]
      show_nat_digits [of "last (show_nat n)" n])

end
