(* ===== verification/Headers.thy ===== *)
theory Headers
  imports Text
begin

text \<open>
  The HTTP header maps the handlers pass around (\<open>hyper::HeaderMap\<close>), as the list of their
  fields in order: names are lower case, values are bytes.  \<open>header_get\<close> is \<open>get\<close> (the first
  value of the name), \<open>header_to_str\<close> is \<open>HeaderValue::to_str\<close>, which refuses a value with a byte
  outside visible ASCII, space and tab.
\<close>

type_synonym headers = "(string \<times> string) list"

definition header_get :: "headers \<Rightarrow> string \<Rightarrow> string option" where
  "header_get h name = map_of h name"

definition header_to_str :: "string \<Rightarrow> string option" where
  "header_to_str v =
     (if list_all (\<lambda>c. byte c = 9 \<or> (32 \<le> byte c \<and> byte c \<le> 126)) v then Some v else None)"

text \<open>\<open>headers.get(name)?.to_str().ok()?.trim()\<close>\<close>

definition header_str :: "headers \<Rightarrow> string \<Rightarrow> string option" where
  "header_str h name = map_option trim (Option.bind (header_get h name) header_to_str)"

end
