(* ===== verification/Json.thy ===== *)
theory Json
  imports Text
begin

text \<open>
  The JSON values the sources read and build with \<open>serde_json\<close> (feature
  \<open>arbitrary_precision\<close>: a number is kept as its text).  An object is an ordered map: the list
  of its members with strictly increasing keys.  The accessors are those the sources call on
  \<open>Value\<close> and \<open>Map\<close>; parsing and printing are not modelled here (where code calls them they
  are arguments of the definitions).
\<close>

datatype json =
    JNull
  | JBool bool
  | JNumber string
  | JString string
  | JArray "json list"
  | JObject "(string \<times> json) list"

type_synonym json_map = "(string \<times> json) list"

definition map_get :: "json_map \<Rightarrow> string \<Rightarrow> json option" where
  "map_get m k = map_of m k"

definition map_contains_key :: "json_map \<Rightarrow> string \<Rightarrow> bool" where
  "map_contains_key m k \<longleftrightarrow> map_of m k \<noteq> None"

fun map_insert :: "string \<Rightarrow> json \<Rightarrow> json_map \<Rightarrow> json_map" where
  "map_insert k v [] = [(k, v)]"
| "map_insert k v ((k', v') # m) =
     (if k = k' then (k, v) # m
      else if k < k' then (k, v) # (k', v') # m
      else (k', v') # map_insert k v m)"

definition map_remove :: "string \<Rightarrow> json_map \<Rightarrow> json_map" where
  "map_remove k m = filter (\<lambda>kv. fst kv \<noteq> k) m"

definition map_from_list :: "(string \<times> json) list \<Rightarrow> json_map" where
  "map_from_list kvs = fold (\<lambda>(k, v) m. map_insert k v m) kvs []"

text \<open>The object a \<open>json!\<close> literal builds from its members in source order.\<close>

definition json_obj :: "(string \<times> json) list \<Rightarrow> json" where
  "json_obj kvs = JObject (map_from_list kvs)"

fun json_get :: "json \<Rightarrow> string \<Rightarrow> json option" where
  "json_get (JObject m) k = map_get m k"
| "json_get _ _ = None"

text \<open>\<open>pointer\<close>, for the constant paths of object keys the sources use.\<close>

fun json_pointer :: "json \<Rightarrow> string list \<Rightarrow> json option" where
  "json_pointer v [] = Some v"
| "json_pointer v (k # ks) =
     (case json_get v k of None \<Rightarrow> None | Some w \<Rightarrow> json_pointer w ks)"

fun as_str :: "json \<Rightarrow> string option" where
  "as_str (JString s) = Some s"
| "as_str _ = None"

fun as_bool :: "json \<Rightarrow> bool option" where
  "as_bool (JBool b) = Some b"
| "as_bool _ = None"

fun as_array :: "json \<Rightarrow> json list option" where
  "as_array (JArray xs) = Some xs"
| "as_array _ = None"

fun as_object :: "json \<Rightarrow> json_map option" where
  "as_object (JObject m) = Some m"
| "as_object _ = None"

fun as_i64 :: "json \<Rightarrow> int option" where
  "as_i64 (JNumber t) = parse_i64 t"
| "as_i64 _ = None"

fun as_u64 :: "json \<Rightarrow> nat option" where
  "as_u64 (JNumber t) = parse_u64 t"
| "as_u64 _ = None"

definition json_int :: "int \<Rightarrow> json" where
  "json_int i = JNumber (show_int i)"

definition json_nat :: "nat \<Rightarrow> json" where
  "json_nat n = JNumber (show_nat n)"

definition json_opt :: "('a \<Rightarrow> json) \<Rightarrow> 'a option \<Rightarrow> json" where
  "json_opt f x = (case x of None \<Rightarrow> JNull | Some v \<Rightarrow> f v)"

text \<open>Well-formed values: the members of every object have strictly increasing keys.\<close>

definition map_ok :: "json_map \<Rightarrow> bool" where
  "map_ok m \<longleftrightarrow> sorted_wrt (<) (map fst m)"

section \<open>Lemmas\<close>

lemma map_get_insert: "map_get (map_insert k v m) k' = (if k = k' then Some v else map_get m k')"
  by (induction k v m rule: map_insert.induct) (auto simp: map_get_def)

lemma keys_map_insert: "fst ` set (map_insert k v m) = insert k (fst ` set m)"
  by (induction k v m rule: map_insert.induct) auto

lemma map_ok_Nil [simp]: "map_ok []"
  by (simp add: map_ok_def)

lemma map_ok_Cons: "map_ok ((k, v) # m) \<longleftrightarrow> (\<forall>k' \<in> fst ` set m. k < k') \<and> map_ok m"
  by (auto simp: map_ok_def)

lemma map_ok_insert: "map_ok m \<Longrightarrow> map_ok (map_insert k v m)"
proof (induction k v m rule: map_insert.induct)
  case (2 k v k' v' m)
  consider "k = k'" | "k < k'" | "k' < k" by (rule linorder_cases)
  then show ?case
  proof cases
    case 1
    then show ?thesis using "2.prems" by (simp add: map_ok_Cons)
  next
    case 2
    then show ?thesis using "2.prems" by (auto simp: map_ok_Cons intro: less_trans)
  next
    case 3
    then have "map_insert k v ((k', v') # m) = (k', v') # map_insert k v m" by auto
    moreover have "map_ok (map_insert k v m)"
      using 3 "2.IH" "2.prems" by (simp add: map_ok_Cons)
    ultimately show ?thesis using 3 "2.prems" by (simp add: map_ok_Cons keys_map_insert)
  qed
qed (simp add: map_ok_def)

lemma map_ok_remove: "map_ok m \<Longrightarrow> map_ok (map_remove k m)"
  by (induction m) (auto simp: map_remove_def map_ok_def)

lemma map_get_remove: "map_get (map_remove k m) k' = (if k = k' then None else map_get m k')"
  by (induction m) (auto simp: map_get_def map_remove_def)

lemma map_ok_from_list: "map_ok (map_from_list kvs)"
proof -
  have "map_ok m \<Longrightarrow> map_ok (fold (\<lambda>(k, v) m. map_insert k v m) kvs m)" for m
    by (induction kvs arbitrary: m) (auto simp: map_ok_insert)
  then show ?thesis by (simp add: map_from_list_def)
qed

lemma as_i64_json_int: "in_i64 i \<Longrightarrow> as_i64 (json_int i) = Some i"
  by (simp add: json_int_def parse_i64_show)

lemma as_u64_json_nat: "n \<le> u64_max \<Longrightarrow> as_u64 (json_nat n) = Some n"
  by (simp add: json_nat_def parse_u64_show)

lemma map_get_from_list: "map_get (map_from_list kvs) k = map_of (rev kvs) k"
proof -
  have "map_get (fold (\<lambda>(k, v) m. map_insert k v m) kvs m) k =
      (case map_of (rev kvs) k of Some v \<Rightarrow> Some v | None \<Rightarrow> map_get m k)" for m
    by (induction kvs arbitrary: m) (auto simp: map_get_insert split: option.splits)
  then show ?thesis by (simp add: map_from_list_def map_get_def split: option.splits)
qed

lemma json_get_obj: "json_get (json_obj kvs) k = map_of (rev kvs) k"
  by (simp add: json_obj_def map_get_from_list)

lemma as_object_obj: "as_object (json_obj kvs) = Some (map_from_list kvs)"
  by (simp add: json_obj_def)

lemmas json_obj_simps = map_get_from_list json_get_obj as_object_obj

end
