(* ===== verification/Types.thy ===== *)
theory Types
  imports Json
begin

text \<open>
  The data of \<open>types.rs\<close> the routing core works on, with the rule types of
  \<open>request_overrides.rs\<close> a provider carries and the route policies of \<open>db/upstream_config.rs\<close>.
  A field keeps its source name behind a one-letter prefix of its struct.  \<open>i32\<close> and \<open>i64\<close> fields
  are \<open>int\<close>, \<open>u64\<close> fields \<open>nat\<close>.
\<close>

datatype api_format = ChatCompletions | Responses

datatype override_scope = ScopeAll | ScopeChatCompletions | ScopeResponses

datatype override_operation = OpSet | OpRemove

record header_override =
  ho_scope :: override_scope
  ho_operation :: override_operation
  ho_name :: string
  ho_value :: string

record body_override =
  bo_scope :: override_scope
  bo_operation :: override_operation
  bo_path :: string
  bo_value :: json

record request_overrides =
  ro_headers :: "header_override list"
  ro_body :: "body_override list"

record provider_group_ref =
  g_id :: int
  g_name :: string

record api_key_auth =
  ak_id :: int
  ak_enabled :: bool
  ak_expires_at_ms :: "int option"
  ak_log_enabled :: bool
  ak_name :: string
  ak_provider_groups :: "provider_group_ref list"
  ak_allowed_provider_ids :: "int list"

record upstream_provider =
  p_request_timeout_ms :: "nat option"
  p_endpoint_failover :: bool
  p_id :: int
  p_name :: string
  p_provider_type :: string
  p_enabled :: bool
  p_priority :: int
  p_weight :: int
  p_supports_include_usage :: bool
  p_websocket_enabled :: bool
  p_beta_features :: "string list"
  p_request_overrides :: request_overrides
  p_key_selection_strategy :: string
  p_max_attempts :: int
  p_max_concurrency :: "int option"
  p_circuit_breaker_enabled :: bool
  p_circuit_breaker_failure_threshold :: int
  p_circuit_breaker_open_ms :: int
  p_circuit_breaker_half_open_success_threshold :: int

record provider_group_membership =
  gm_group_id :: int
  gm_group_name :: string
  gm_priority_override :: "int option"

record upstream_key =
  k_id :: int
  k_provider_id :: int
  k_name :: string
  k_secret :: string
  k_enabled :: bool
  k_priority :: int
  k_weight :: int

record upstream_key_model =
  km_id :: int
  km_upstream_key_id :: int
  km_model_name :: string
  km_enabled :: bool
  km_created_at_ms :: int
  km_updated_at_ms :: int

record upstream_endpoint =
  e_id :: int
  e_provider_id :: int
  e_name :: string
  e_base_url :: string
  e_enabled :: bool
  e_priority :: int
  e_weight :: int

record provider_model =
  pm_id :: int
  pm_provider_id :: int
  pm_upstream_model :: string
  pm_alias :: "string option"
  pm_enabled :: bool
  pm_available :: bool
  pm_responses_via_chat_enabled :: bool
  pm_created_at_ms :: int
  pm_updated_at_ms :: int

record gateway_model_policy =
  gp_model_name :: string
  gp_enabled :: bool
  gp_created_at_ms :: int
  gp_updated_at_ms :: int

record model_route =
  r_id :: int
  r_model_name :: string
  r_enabled :: bool
  r_provider_ids :: "int list"

record model_alias =
  a_id :: int
  a_name :: string
  a_enabled :: bool
  a_mode :: string
  a_created_at_ms :: int
  a_updated_at_ms :: int

record model_alias_target =
  t_id :: int
  t_alias_id :: int
  t_provider_id :: int
  t_upstream_model :: string
  t_enabled :: bool
  t_priority :: int
  t_weight :: int
  t_created_at_ms :: int
  t_updated_at_ms :: int

record route_target =
  rt_provider_id :: int
  rt_priority :: int
  rt_weight :: int

record route_policy =
  rp_model_name :: string
  rp_mode :: string
  rp_sticky :: bool
  rp_failover :: bool
  rp_targets :: "route_target list"

record usage =
  u_input_tokens :: int
  u_output_tokens :: int
  u_cache_read_input_tokens :: int
  u_cache_creation_input_tokens :: int
  u_reasoning_output_tokens :: int

text \<open>Every \<open>i32\<close> of a value read from the database is in range.\<close>

definition in_i32 :: "int \<Rightarrow> bool" where
  "in_i32 x \<longleftrightarrow> - 2147483648 \<le> x \<and> x \<le> 2147483647"

end
