(* ===== verification/Breaker.thy ===== *)
theory Breaker
  imports Prelude
begin

text \<open>
  The interface the two circuit breakers of the gateway share (endpoint and key health in
  \<open>health.rs\<close>, provider breaker in \<open>provider_runtime.rs\<close>): an attempt begins and receives a
  token (a generation number, and a probe number when the breaker is half open), the guard
  that holds the token finishes exactly once with some outcome, and an operator may reset or
  defer the breaker.  \<open>breaker_run\<close> runs such a history over a breaker and the list of tokens
  of the live guards.  The locale \<open>circuit_breaker\<close> states what a breaker promises of its
  generation, probe owner and probe counter; inside it the history theorems are proved once.
\<close>

datatype circuit_state = Closed | Open | HalfOpen

record attempt_token =
  tk_generation :: u64w
  tk_probe_id :: "u64w option"

text \<open>The events of a history: begin at a time, finish of the \<open>i\<close>-th live guard, control.\<close>

datatype ('o, 'c) breaker_event = EBegin int | EFinish nat 'o | EControl 'c

definition token_matches :: "u64w \<Rightarrow> u64w option \<Rightarrow> attempt_token \<Rightarrow> bool" where
  "token_matches gen owner t \<longleftrightarrow>
     gen = tk_generation t \<and> is_none_or (tk_probe_id t) (\<lambda>p. owner = Some p)"

definition remove_nth :: "nat \<Rightarrow> 'a list \<Rightarrow> 'a list" where
  "remove_nth i xs = take i xs @ drop (Suc i) xs"

fun breaker_step ::
  "('s \<Rightarrow> int \<Rightarrow> attempt_token option \<times> 's) \<Rightarrow> ('s \<Rightarrow> attempt_token \<Rightarrow> 'o \<Rightarrow> 's) \<Rightarrow> ('s \<Rightarrow> 'c \<Rightarrow> 's) \<Rightarrow>
   's \<times> attempt_token list \<Rightarrow> ('o, 'c) breaker_event \<Rightarrow> 's \<times> attempt_token list" where
  "breaker_step beg fin ctl (s, live) (EBegin now) =
     (case beg s now of (None, s') \<Rightarrow> (s', live) | (Some t, s') \<Rightarrow> (s', t # live))"
| "breaker_step beg fin ctl (s, live) (EFinish i out) =
     (if i < length live then (fin s (live ! i) out, remove_nth i live) else (s, live))"
| "breaker_step beg fin ctl (s, live) (EControl c) = (ctl s c, live)"

fun breaker_run ::
  "('s \<Rightarrow> int \<Rightarrow> attempt_token option \<times> 's) \<Rightarrow> ('s \<Rightarrow> attempt_token \<Rightarrow> 'o \<Rightarrow> 's) \<Rightarrow> ('s \<Rightarrow> 'c \<Rightarrow> 's) \<Rightarrow>
   's \<times> attempt_token list \<Rightarrow> ('o, 'c) breaker_event list \<Rightarrow> 's \<times> attempt_token list" where
  "breaker_run beg fin ctl sl [] = sl"
| "breaker_run beg fin ctl sl (e # es) = breaker_run beg fin ctl (breaker_step beg fin ctl sl e) es"

text \<open>The live guards whose token is a probe the breaker would still accept.\<close>

definition live_probes :: "u64w \<Rightarrow> u64w option \<Rightarrow> attempt_token list \<Rightarrow> attempt_token list" where
  "live_probes gen owner live = filter (\<lambda>t. tk_probe_id t \<noteq> None \<and> token_matches gen owner t) live"

text \<open>
  The invariant of a history of \<open>n\<close> events: the two counters have not wrapped, live tokens are
  not from the future, live probe numbers are distinct, and the owner of the probe is live.
\<close>

definition probe_ids :: "attempt_token list \<Rightarrow> u64w list" where
  "probe_ids live = somes (map tk_probe_id live)"

definition breaker_inv :: "u64w \<Rightarrow> u64w option \<Rightarrow> u64w \<Rightarrow> nat \<Rightarrow> attempt_token list \<Rightarrow> bool" where
  "breaker_inv gen owner next_probe n live \<longleftrightarrow>
     unat gen \<le> n + 1 \<and> unat next_probe \<le> n \<and>
     (\<forall>t \<in> set live. unat (tk_generation t) \<le> unat gen) \<and>
     distinct (probe_ids live) \<and>
     (\<forall>p \<in> set (probe_ids live). unat p \<le> unat next_probe) \<and>
     (\<forall>p. owner = Some p \<longrightarrow>
        (\<exists>t \<in> set live. tk_generation t = gen \<and> tk_probe_id t = Some p))"

section \<open>Lemmas\<close>

lemma unat_next_u64: "unat w < 2 ^ 64 - 1 \<Longrightarrow> unat (next_u64 w) = unat w + 1"
proof -
  assume w: "unat w < 2 ^ 64 - 1"
  then have u: "unat (w + 1) = unat w + 1"
    by (simp add: unat_word_ariths)
  then have "1 \<le> w + 1" by (simp add: word_le_nat_alt)
  then show ?thesis using u by (simp add: next_u64_def max_def)
qed

lemma unat_u64_less: "unat (w :: u64w) < 2 ^ 64"
proof -
  have "unat w < 2 ^ LENGTH(64)" by (rule unsigned_less)
  then show ?thesis by simp
qed

lemma unat_next_u64_le: "unat (next_u64 w) \<le> unat w + 1"
proof (cases "unat w < 2 ^ 64 - 1")
  case True
  then show ?thesis by (simp add: unat_next_u64)
next
  case False
  then have "unat w = 2 ^ 64 - 1" using unat_u64_less [of w] by simp
  moreover have "unat (next_u64 w) < 2 ^ 64" by (rule unat_u64_less)
  ultimately show ?thesis by simp
qed

lemma set_remove_nth: "set (remove_nth i xs) \<subseteq> set xs"
  by (auto simp: remove_nth_def dest: in_set_takeD in_set_dropD)

lemma split_at: "i < length xs \<Longrightarrow> xs = take i xs @ xs ! i # drop (Suc i) xs"
  by (rule id_take_nth_drop)

lemma probe_ids_Cons:
  "probe_ids (t # live) = (case tk_probe_id t of None \<Rightarrow> probe_ids live | Some p \<Rightarrow> p # probe_ids live)"
  by (simp add: probe_ids_def split: option.splits)

lemma probe_ids_remove:
  assumes "i < length live" and "distinct (probe_ids live)"
  shows "distinct (probe_ids (remove_nth i live)) \<and>
         set (probe_ids (remove_nth i live)) \<subseteq> set (probe_ids live) - set (probe_ids [live ! i])"
proof -
  have "probe_ids live =
      probe_ids (take i live) @ probe_ids [live ! i] @ probe_ids (drop (Suc i) live)"
    by (subst split_at [OF assms(1)])
      (cases "tk_probe_id (live ! i)"; simp add: probe_ids_def somes_append)
  with assms(2) show ?thesis
    by (auto simp: remove_nth_def probe_ids_def somes_append)
qed

lemma mem_probe_ids: "p \<in> set (probe_ids live) \<longleftrightarrow> (\<exists>t \<in> set live. tk_probe_id t = Some p)"
  by (force simp: probe_ids_def set_somes image_iff)

lemma mem_remove_nth:
  "t \<in> set live \<Longrightarrow> i < length live \<Longrightarrow> t \<noteq> live ! i \<Longrightarrow> t \<in> set (remove_nth i live)"
  by (subst (asm) split_at [of i live]) (auto simp: remove_nth_def)

text \<open>Distinct probe numbers: at most one live guard can own the probe.\<close>

lemma live_probes_le_1:
  assumes "distinct (probe_ids live)"
  shows "length (live_probes gen owner live) \<le> 1"
  using assms
proof (induction live)
  case (Cons t live)
  show ?case
  proof (cases "tk_probe_id t")
    case None
    with Cons show ?thesis by (simp add: live_probes_def probe_ids_Cons)
  next
    case (Some p)
    with Cons.prems have fresh: "p \<notin> set (probe_ids live)" and d: "distinct (probe_ids live)"
      by (auto simp: probe_ids_Cons)
    show ?thesis
    proof (cases "token_matches gen owner t")
      case True
      with Some have "owner = Some p" by (simp add: token_matches_def is_none_or_def)
      then have "live_probes gen owner live = []"
        using fresh by (auto simp: live_probes_def filter_empty_conv token_matches_def
            is_none_or_def mem_probe_ids)
      then show ?thesis by (simp add: live_probes_def)
    next
      case False
      then show ?thesis using Cons.IH d by (simp add: live_probes_def)
    qed
  qed
qed (simp add: live_probes_def)

section \<open>The interface\<close>

locale circuit_breaker =
  fixes kind :: "'s \<Rightarrow> int \<Rightarrow> circuit_state"
    and gen :: "'s \<Rightarrow> u64w"
    and owner :: "'s \<Rightarrow> u64w option"
    and next_probe :: "'s \<Rightarrow> u64w"
    and beg :: "'s \<Rightarrow> int \<Rightarrow> attempt_token option \<times> 's"
    and fin :: "'s \<Rightarrow> attempt_token \<Rightarrow> 'o \<Rightarrow> 's"
    and ctl :: "'s \<Rightarrow> 'c \<Rightarrow> 's"
    and init :: 's
  assumes init_gen: "gen init = 1"
    and init_owner: "owner init = None"
    and init_probe: "next_probe init = 0"
    and beg_open: "kind s now = Open \<Longrightarrow> beg s now = (None, s)"
    and beg_closed: "kind s now = Closed \<Longrightarrow>
      beg s now = (Some \<lparr>tk_generation = gen s, tk_probe_id = None\<rparr>, s)"
    and beg_busy: "kind s now = HalfOpen \<Longrightarrow> owner s \<noteq> None \<Longrightarrow> beg s now = (None, s)"
    and beg_probe: "kind s now = HalfOpen \<Longrightarrow> owner s = None \<Longrightarrow>
      \<exists>s'. beg s now = (Some \<lparr>tk_generation = gen s, tk_probe_id = Some (next_u64 (next_probe s))\<rparr>, s')
        \<and> gen s' = gen s \<and> owner s' = Some (next_u64 (next_probe s))
        \<and> next_probe s' = next_u64 (next_probe s)"
    and fin_probe: "next_probe (fin s t out) = next_probe s"
    and fin_stale: "\<not> token_matches (gen s) (owner s) t \<Longrightarrow>
      gen (fin s t out) = gen s \<and> owner (fin s t out) = owner s \<and> kind (fin s t out) now = kind s now"
    and fin_match: "token_matches (gen s) (owner s) t \<Longrightarrow>
      (gen (fin s t out) = next_u64 (gen s) \<and> owner (fin s t out) = None) \<or>
      (gen (fin s t out) = gen s \<and>
        (owner (fin s t out) = None \<or> (tk_probe_id t = None \<and> owner (fin s t out) = owner s)))"
    and ctl_probe: "next_probe (ctl s c) = next_probe s"
    and ctl_gen: "gen (ctl s c) = next_u64 (gen s) \<and> owner (ctl s c) = None"

context circuit_breaker begin

abbreviation inv :: "nat \<Rightarrow> 's \<times> attempt_token list \<Rightarrow> bool" where
  "inv n sl \<equiv> breaker_inv (gen (fst sl)) (owner (fst sl)) (next_probe (fst sl)) n (snd sl)"

lemma inv_init: "inv 0 (init, [])"
  by (simp add: breaker_inv_def init_gen init_owner init_probe probe_ids_def)

lemma step_begin:
  assumes "inv n (s, live)" and "n < 2 ^ 64 - 2"
  shows "inv (Suc n) (breaker_step beg fin ctl (s, live) (EBegin now))"
proof (cases "kind s now = HalfOpen \<and> owner s = None")
  case True
  let ?p = "next_u64 (next_probe s)"
  obtain s' where b: "beg s now = (Some \<lparr>tk_generation = gen s, tk_probe_id = Some ?p\<rparr>, s')"
    and s': "gen s' = gen s" "owner s' = Some ?p" "next_probe s' = ?p"
    using beg_probe [of s now] True by auto
  have p: "unat ?p = unat (next_probe s) + 1"
    using assms by (intro unat_next_u64) (auto simp: breaker_inv_def)
  then have "?p \<notin> set (probe_ids live)"
    using assms(1) by (auto simp: breaker_inv_def)
  then show ?thesis using assms(1) b s' p True
    by (auto simp: breaker_inv_def probe_ids_Cons)
next
  case False
  have "beg s now = (None, s) \<or> beg s now = (Some \<lparr>tk_generation = gen s, tk_probe_id = None\<rparr>, s)"
    using False beg_open [of s now] beg_closed [of s now] beg_busy [of s now]
    by (cases "kind s now") auto
  then show ?thesis using assms(1)
    by (auto simp: breaker_inv_def probe_ids_Cons)
qed

lemma step_finish:
  assumes inv: "inv n (s, live)" and bound: "n < 2 ^ 64 - 2" and i: "i < length live"
  shows "inv (Suc n) (breaker_step beg fin ctl (s, live) (EFinish i out))"
proof -
  let ?t = "live ! i" and ?s = "fin s (live ! i) out" and ?live = "remove_nth i live"
  have ids: "distinct (probe_ids ?live)"
      "set (probe_ids ?live) \<subseteq> set (probe_ids live) - set (probe_ids [?t])"
    using probe_ids_remove [OF i] inv by (auto simp: breaker_inv_def)
  have g: "unat (gen s) \<le> n + 1" using inv by (simp add: breaker_inv_def)
  have nx: "unat (next_u64 (gen s)) = unat (gen s) + 1"
    using g bound by (intro unat_next_u64) simp
  have le: "\<forall>t \<in> set ?live. unat (tk_generation t) \<le> unat (gen s)"
    using inv set_remove_nth [of i live] by (auto simp: breaker_inv_def)
  have own: "\<exists>t \<in> set ?live. tk_generation t = gen s \<and> tk_probe_id t = Some p"
    if o: "owner s = Some p" and "\<not> (token_matches (gen s) (owner s) ?t \<and> tk_probe_id ?t \<noteq> None)" for p
  proof -
    obtain t where t: "t \<in> set live" "tk_generation t = gen s" "tk_probe_id t = Some p"
      using inv o by (auto simp: breaker_inv_def)
    then have "t \<noteq> ?t" using that by (auto simp: token_matches_def is_none_or_def)
    then show ?thesis using t mem_remove_nth [OF t(1) i] by auto
  qed
  show ?thesis
  proof (cases "token_matches (gen s) (owner s) ?t")
    case False
    then have "gen ?s = gen s" "owner ?s = owner s" using fin_stale by auto
    then show ?thesis using inv ids le own False i
      by (auto simp: breaker_inv_def fin_probe)
  next
    case True
    from fin_match [OF True, of out] consider
      "gen ?s = next_u64 (gen s)" "owner ?s = None" |
      "gen ?s = gen s" "owner ?s = None" |
      "gen ?s = gen s" "tk_probe_id ?t = None" "owner ?s = owner s" by auto
    then show ?thesis
    proof cases
      case 1
      then show ?thesis using inv ids le nx i by (auto simp: breaker_inv_def fin_probe)
    next
      case 2
      then show ?thesis using inv ids le i by (auto simp: breaker_inv_def fin_probe)
    next
      case 3
      then show ?thesis using inv ids le own i by (auto simp: breaker_inv_def fin_probe)
    qed
  qed
qed

lemma step_control:
  assumes "inv n (s, live)" and "n < 2 ^ 64 - 2"
  shows "inv (Suc n) (breaker_step beg fin ctl (s, live) (EControl c))"
proof -
  have "unat (next_u64 (gen s)) = unat (gen s) + 1"
    using assms by (intro unat_next_u64) (auto simp: breaker_inv_def)
  then show ?thesis using assms(1) ctl_gen [of s c]
    by (auto simp: breaker_inv_def ctl_probe)
qed

lemma step_inv:
  assumes "inv n sl" and "n < 2 ^ 64 - 2"
  shows "inv (Suc n) (breaker_step beg fin ctl sl e)"
proof (cases sl)
  case (Pair s live)
  show ?thesis
  proof (cases e)
    case (EBegin now)
    then show ?thesis using step_begin [where now = now and live = live and s = s and n = n] assms by (simp only: Pair)
  next
    case (EControl c)
    then show ?thesis using step_control [where c = c and live = live and s = s and n = n] assms by (simp only: Pair)
  next
    case (EFinish i out)
    show ?thesis
    proof (cases "i < length live")
      case True
      then show ?thesis using step_finish [where out = out and i = i and live = live and s = s and n = n] assms by (simp only: Pair EFinish)
    next
      case False
      then show ?thesis using assms by (auto simp: Pair EFinish breaker_inv_def)
    qed
  qed
qed

lemma run_inv:
  "inv n sl \<Longrightarrow> n + length es \<le> 2 ^ 64 - 2 \<Longrightarrow> inv (n + length es) (breaker_run beg fin ctl sl es)"
proof (induction es arbitrary: n sl)
  case (Cons e es)
  then have "inv (Suc n) (breaker_step beg fin ctl sl e)"
    by (intro step_inv) auto
  from Cons.IH [OF this] Cons.prems(2) show ?case by simp
qed simp

lemma run_init_inv:
  "length es \<le> 2 ^ 64 - 2 \<Longrightarrow> inv (length es) (breaker_run beg fin ctl (init, []) es)"
  using run_inv [OF inv_init, of es] by simp

text \<open>Whatever happened before, at most one live guard holds a probe the breaker accepts.\<close>

lemma single_probe:
  assumes "length es \<le> 2 ^ 64 - 2" and "breaker_run beg fin ctl (init, []) es = (s, live)"
  shows "length (live_probes (gen s) (owner s) live) \<le> 1"
proof -
  have "distinct (probe_ids live)"
    using run_init_inv [OF assms(1)] assms(2) by (simp add: breaker_inv_def)
  then show ?thesis by (rule live_probes_le_1)
qed

text \<open>With no live guard the probe is free, so a half-open breaker admits the next attempt.\<close>

lemma no_lost_probe:
  assumes "length es \<le> 2 ^ 64 - 2" and "breaker_run beg fin ctl (init, []) es = (s, [])"
    and "kind s now = HalfOpen"
  shows "fst (beg s now) \<noteq> None"
proof -
  have "owner s = None"
    using run_init_inv [OF assms(1)] assms(2) by (cases "owner s") (auto simp: breaker_inv_def)
  then show ?thesis using beg_probe [OF assms(3)] by auto
qed

text \<open>When the generation moves on, no guard begun before is accepted any more.\<close>

lemma advance_makes_stale:
  assumes "length es < 2 ^ 64 - 2" and "breaker_run beg fin ctl (init, []) es = (s, live)"
    and "gen s' = next_u64 (gen s)" and "t \<in> set live"
  shows "\<not> token_matches (gen s') (owner s') t"
proof -
  have inv: "inv (length es) (s, live)" using run_init_inv [of es] assms by simp
  then have "unat (gen s) \<le> length es + 1" by (simp add: breaker_inv_def)
  then have "unat (next_u64 (gen s)) = unat (gen s) + 1"
    using assms(1) by (intro unat_next_u64) simp
  moreover have "unat (tk_generation t) \<le> unat (gen s)"
    using inv assms(4) by (auto simp: breaker_inv_def)
  ultimately show ?thesis using assms(3) by (auto simp: token_matches_def)
qed

end

end
