(* ===== verification/Resilience.thy ===== *)
theory Resilience
  imports Headers
begin

text \<open>
  \<open>src/backend/src/resilience.rs\<close>: the exponential cooldown every breaker uses, the attempt
  budget one request owns (deadline, number of sends, per-provider sends, the credit for a
  WebSocket set-up), and the reading of a \<open>Retry-After\<close> header.

  Instants are nanoseconds (\<open>int\<close>).  \<open>begin\<close> reads the clock up to three times: before the
  check, before the back-off and after the sleep; the three readings are its argument
  \<open>clk\<close>, and \<open>jitter\<close> is the value \<open>fastrand::u64(0..=250)\<close> returned.
\<close>

definition MAX_ATTEMPTS :: nat where
  "MAX_ATTEMPTS = 3"

definition COOLDOWN_BASE_MS :: int where
  "COOLDOWN_BASE_MS = 30000"

definition COOLDOWN_MAX_MS :: int where
  "COOLDOWN_MAX_MS = 300000"

definition cooldown_ms :: "int \<Rightarrow> nat \<Rightarrow> int" where
  "cooldown_ms configured_ms failures =
     (let base = max configured_ms COOLDOWN_BASE_MS
      in min (i64_saturating_mul base (2 ^ min (failures - 1) 10)) (max COOLDOWN_MAX_MS base))"

section \<open>The attempt budget\<close>

record attempt_budget =
  used :: nat
  deadline :: int
  setup_credit :: bool
  sent_by_provider :: "int \<rightharpoonup> nat"

type_synonym clock_readings = "int \<times> int \<times> int"

definition budget_new :: "int \<Rightarrow> int \<Rightarrow> attempt_budget" where
  "budget_new now timeout =
     \<lparr>used = 0, deadline = now + timeout, setup_credit = False, sent_by_provider = Map.empty\<rparr>"

definition budget_remaining :: "attempt_budget \<Rightarrow> int \<Rightarrow> int" where
  "budget_remaining b now = max 0 (deadline b - now)"

definition budget_available :: "attempt_budget \<Rightarrow> int \<Rightarrow> bool" where
  "budget_available b now \<longleftrightarrow> used b < MAX_ATTEMPTS \<and> budget_remaining b now \<noteq> 0"

definition provider_available :: "attempt_budget \<Rightarrow> int \<Rightarrow> int \<Rightarrow> bool" where
  "provider_available b provider_id configured_max \<longleftrightarrow>
     unwrap_or (sent_by_provider b provider_id) 0 < nat (max configured_max 1)"

definition note_send :: "attempt_budget \<Rightarrow> int \<Rightarrow> attempt_budget" where
  "note_send b provider_id =
     b\<lparr>sent_by_provider :=
         (sent_by_provider b)(provider_id \<mapsto> unwrap_or (sent_by_provider b provider_id) 0 + 1)\<rparr>"

definition credit_connected_setup :: "attempt_budget \<Rightarrow> attempt_budget" where
  "credit_connected_setup b = b\<lparr>setup_credit := True\<rparr>"

definition backoff_delay_ns :: "nat \<Rightarrow> nat \<Rightarrow> int" where
  "backoff_delay_ns used_before jitter =
     int (push_bit (used_before - 1) (500 :: nat) + jitter) * 1000000"

definition begin_send :: "attempt_budget \<Rightarrow> clock_readings \<Rightarrow> nat \<Rightarrow> bool \<times> attempt_budget" where
  "begin_send b0 clk jitter =
     (case clk of (t0, t1, t2) \<Rightarrow>
       (let b = b0\<lparr>setup_credit := False\<rparr> in
        if \<not> budget_available b t0 then (False, b)
        else if 0 < used b \<and> budget_remaining b t1 \<le> backoff_delay_ns (used b) jitter then (False, b)
        else if budget_remaining b t2 = 0 then (False, b)
        else (True, b\<lparr>used := used b + 1\<rparr>)))"

definition begin_turn :: "attempt_budget \<Rightarrow> clock_readings \<Rightarrow> nat \<Rightarrow> bool \<times> attempt_budget" where
  "begin_turn b clk jitter =
     (if setup_credit b
      then (budget_remaining b (fst clk) \<noteq> 0, b\<lparr>setup_credit := False\<rparr>)
      else begin_send b clk jitter)"

definition begin_for_provider ::
  "attempt_budget \<Rightarrow> int \<Rightarrow> int \<Rightarrow> bool \<Rightarrow> clock_readings \<Rightarrow> nat \<Rightarrow> bool \<times> attempt_budget" where
  "begin_for_provider b provider_id configured_max turn clk jitter =
     (if turn \<and> setup_credit b then begin_turn b clk jitter
      else if provider_available b provider_id configured_max then begin_send b clk jitter
      else (False, b))"

section \<open>Retry-After\<close>

text \<open>
  \<open>parse_http_date\<close> stands for \<open>httpdate::parse_http_date\<close>: the milliseconds since the epoch of
  a valid HTTP date (negative before it), \<open>None\<close> for anything else.
\<close>

definition retry_after_ms :: "(string \<Rightarrow> int option) \<Rightarrow> headers \<Rightarrow> int \<Rightarrow> int option" where
  "retry_after_ms parse_http_date h now =
     (case header_str h ''retry-after'' of
       None \<Rightarrow> None
     | Some value \<Rightarrow>
         (case parse_u64 value of
           Some seconds \<Rightarrow> Some (min (int (min u64_max (seconds * 1000))) i64_max)
         | None \<Rightarrow>
             (case parse_http_date value of
               None \<Rightarrow> None
             | Some ts \<Rightarrow>
                 (if ts < 0 then None
                  else Some (max (i64_saturating_sub (min ts i64_max) now) 0)))))"

section \<open>A request's use of its budget\<close>

text \<open>
  The operations a request performs on its budget, in any order.  \<open>budget_run\<close> counts the
  admissions (\<open>True\<close> answers of the three \<open>begin\<close> operations).
\<close>

datatype budget_op =
    OpBegin clock_readings nat
  | OpTurn clock_readings nat
  | OpForProvider int int bool clock_readings nat
  | OpNoteSend int
  | OpCredit

fun do_budget_op :: "attempt_budget \<Rightarrow> budget_op \<Rightarrow> bool \<times> attempt_budget" where
  "do_budget_op b (OpBegin clk j) = begin_send b clk j"
| "do_budget_op b (OpTurn clk j) = begin_turn b clk j"
| "do_budget_op b (OpForProvider p m turn clk j) = begin_for_provider b p m turn clk j"
| "do_budget_op b (OpNoteSend p) = (False, note_send b p)"
| "do_budget_op b OpCredit = (False, credit_connected_setup b)"

fun budget_run :: "attempt_budget \<Rightarrow> budget_op list \<Rightarrow> nat \<times> attempt_budget" where
  "budget_run b [] = (0, b)"
| "budget_run b (x # xs) =
     (let (ok, b') = do_budget_op b x; (n, b'') = budget_run b' xs
      in ((if ok then 1 else 0) + n, b''))"

definition is_credit :: "budget_op \<Rightarrow> bool" where
  "is_credit x \<longleftrightarrow> x = OpCredit"

section \<open>Lemmas\<close>

lemmas cooldown_defs =
  cooldown_ms_def COOLDOWN_BASE_MS_def COOLDOWN_MAX_MS_def Let_def

lemma cooldown_base_pos: "0 < max c COOLDOWN_BASE_MS"
  by (simp add: COOLDOWN_BASE_MS_def)

lemma saturating_mul_ge:
  "0 < a \<Longrightarrow> a \<le> i64_max \<Longrightarrow> 1 \<le> k \<Longrightarrow> a \<le> i64_saturating_mul a k"
proof -
  assume a: "0 < a" "a \<le> i64_max" "1 \<le> k"
  then have "a \<le> a * k" by (simp add: mult_le_cancel_left1)
  then have "a \<le> min i64_max (a * k)" using a by simp
  then show ?thesis by (simp add: i64_saturating_mul_def sat_i64_def le_max_iff_disj)
qed

lemma saturating_mul_mono:
  "0 < a \<Longrightarrow> k \<le> l \<Longrightarrow> i64_saturating_mul a k \<le> i64_saturating_mul a l"
  by (simp add: i64_saturating_mul_def sat_i64_mono mult_left_mono)

lemma cooldown_ge:
  assumes "c \<le> i64_max"
  shows "max c COOLDOWN_BASE_MS \<le> cooldown_ms c n"
proof -
  have "max c COOLDOWN_BASE_MS \<le> i64_max"
    using assms by (simp add: COOLDOWN_BASE_MS_def i64_max_def)
  then show ?thesis
    unfolding cooldown_ms_def Let_def
    by (simp add: saturating_mul_ge cooldown_base_pos del: max.bounded_iff)
qed

lemma cooldown_le: "cooldown_ms c n \<le> max COOLDOWN_MAX_MS (max c COOLDOWN_BASE_MS)"
  by (simp add: cooldown_ms_def Let_def)

lemma cooldown_pos: "c \<le> i64_max \<Longrightarrow> 0 < cooldown_ms c n"
  using cooldown_ge [of c n] cooldown_base_pos [of c] by linarith

lemma cooldown_mono: "m \<le> n \<Longrightarrow> cooldown_ms c m \<le> cooldown_ms c n"
proof -
  assume "m \<le> n"
  then have "(2::int) ^ min (m - 1) 10 \<le> 2 ^ min (n - 1) 10"
    by (intro power_increasing) auto
  then show ?thesis
    unfolding cooldown_ms_def Let_def
    by (intro min.mono saturating_mul_mono cooldown_base_pos) auto
qed

lemma begin_send_used:
  "begin_send b clk j = (ok, b') \<Longrightarrow>
   used b' = (if ok then used b + 1 else used b) \<and> (ok \<longrightarrow> used b < MAX_ATTEMPTS)
   \<and> \<not> setup_credit b' \<and> deadline b' = deadline b"
  by (auto simp: begin_send_def budget_available_def Let_def split: prod.splits if_splits)

text \<open>The potential of a budget: what is left of the limit, plus the credit in hand.\<close>

definition budget_slack :: "attempt_budget \<Rightarrow> nat" where
  "budget_slack b = (MAX_ATTEMPTS - used b) + (if setup_credit b then 1 else 0)"

lemma budget_op_slack:
  "do_budget_op b x = (ok, b') \<Longrightarrow>
   (if ok then 1 else 0) + budget_slack b' \<le> budget_slack b + (if is_credit x then 1 else 0)"
  by (cases x)
    (auto simp: begin_turn_def begin_for_provider_def note_send_def credit_connected_setup_def
      budget_slack_def is_credit_def split: if_splits dest!: begin_send_used)

lemma budget_op_used: "do_budget_op b x = (ok, b') \<Longrightarrow> used b \<le> MAX_ATTEMPTS \<Longrightarrow> used b' \<le> MAX_ATTEMPTS"
  by (cases x)
    (auto simp: begin_turn_def begin_for_provider_def note_send_def credit_connected_setup_def
      split: if_splits dest!: begin_send_used)

lemma budget_run_slack:
  "budget_run b xs = (n, b') \<Longrightarrow>
   n + budget_slack b' \<le> budget_slack b + length (filter is_credit xs)"
proof (induction xs arbitrary: b n)
  case (Cons x xs)
  obtain ok b1 where op: "do_budget_op b x = (ok, b1)" by (cases "do_budget_op b x")
  obtain m b2 where run: "budget_run b1 xs = (m, b2)" by (cases "budget_run b1 xs")
  from Cons.prems op run have n: "n = (if ok then 1 else 0) + m" and b': "b' = b2" by auto
  have "m + budget_slack b2 \<le> budget_slack b1 + length (filter is_credit xs)"
    using Cons.IH [of b1 m] run b' by simp
  with budget_op_slack [OF op] show ?case by (auto simp: n b' split: if_splits)
qed simp

lemma budget_run_used: "used b \<le> MAX_ATTEMPTS \<Longrightarrow> used (snd (budget_run b xs)) \<le> MAX_ATTEMPTS"
proof (induction xs arbitrary: b)
  case (Cons x xs)
  obtain ok b1 where op: "do_budget_op b x = (ok, b1)" by (cases "do_budget_op b x")
  from Cons.prems op have "used b1 \<le> MAX_ATTEMPTS" by (metis budget_op_used)
  from Cons.IH [OF this] show ?case by (auto simp: op split: prod.splits)
qed simp

section \<open>Properties\<close>

text \<open>The cooldown after the \<open>n\<close>-th failure in a row grows with \<open>n\<close>, is never below the larger
  of 30 seconds and the configured duration, and never above the larger of five minutes and the
  configured duration, whatever the configured value (saturating arithmetic included).\<close>

theorem cooldown_bounds:
  assumes "configured \<le> i64_max" and "m \<le> n"
  shows "max configured COOLDOWN_BASE_MS \<le> cooldown_ms configured m \<and>
         cooldown_ms configured m \<le> cooldown_ms configured n \<and>
         cooldown_ms configured n \<le> max configured COOLDOWN_MAX_MS"
  using cooldown_ge [OF assms(1), of m] cooldown_mono [OF assms(2)] cooldown_le [of configured n]
  by (auto simp: COOLDOWN_BASE_MS_def COOLDOWN_MAX_MS_def)

theorem cooldown_bounds_witness:
  "cooldown_ms 1000 1 = 30000 \<and> cooldown_ms 1000 3 = 120000 \<and> cooldown_ms 1000 20 = 300000 \<and>
   max 1000 COOLDOWN_BASE_MS \<le> cooldown_ms 1000 1 \<and> cooldown_ms 1000 1 \<le> cooldown_ms 1000 20 \<and>
   cooldown_ms 1000 20 \<le> max 1000 COOLDOWN_MAX_MS"
proof -
  have "cooldown_ms 1000 1 = 30000 \<and> cooldown_ms 1000 3 = 120000 \<and> cooldown_ms 1000 20 = 300000"
    by code_simp
  then show ?thesis
    using cooldown_bounds [of 1000 1 20] by (simp add: i64_max_def del: max.bounded_iff)
qed

text \<open>One request makes at most three upstream sends, plus one for every WebSocket set-up it was
  credited with, in any order of its budget operations and at any clock readings; the counter of
  sends never exceeds three.\<close>

theorem request_send_bound:
  assumes "budget_run (budget_new now timeout) ops = (admitted, b)"
  shows "admitted \<le> MAX_ATTEMPTS + length (filter is_credit ops) \<and> used b \<le> MAX_ATTEMPTS"
proof -
  have "admitted + budget_slack b \<le> budget_slack (budget_new now timeout) + length (filter is_credit ops)"
    by (rule budget_run_slack [OF assms])
  moreover have "used b \<le> MAX_ATTEMPTS"
    using budget_run_used [of "budget_new now timeout" ops] assms by (simp add: budget_new_def)
  ultimately show ?thesis by (simp add: budget_slack_def budget_new_def)
qed

definition wit_ops :: "budget_op list" where
  "wit_ops = [OpBegin (0, 0, 0) 0, OpBegin (1, 1, 500000001) 0, OpBegin (2, 2, 1000000002) 0,
     OpBegin (3, 3, 3) 0, OpCredit, OpTurn (4, 4, 4) 0, OpTurn (5, 5, 5) 0]"

lemma wit_ops_admits:
  "fst (budget_run (budget_new 0 120000000000) wit_ops) = 4"
  by code_simp

theorem request_send_bound_witness:
  "fst (budget_run (budget_new 0 120000000000) wit_ops) = 4 \<and>
   fst (budget_run (budget_new 0 120000000000) wit_ops)
     \<le> MAX_ATTEMPTS + length (filter is_credit wit_ops)"
  using request_send_bound [of 0 120000000000 wit_ops] wit_ops_admits
  by (cases "budget_run (budget_new 0 120000000000) wit_ops") auto

text \<open>A \<open>Retry-After\<close> given in seconds is honoured in full: the delay is the seconds times 1000,
  cut only at the largest \<open>i64\<close>; a date gives the time left to it, never negative.\<close>

theorem retry_after_is_lower_bound:
  assumes "header_str h ''retry-after'' = Some v" and "in_i64 now"
  shows "(\<forall>s. parse_u64 v = Some s \<longrightarrow> retry_after_ms http_date h now = Some (min (int s * 1000) i64_max)) \<and>
         (\<forall>d. parse_u64 v = None \<longrightarrow> http_date v = Some d \<longrightarrow> 0 \<le> d \<longrightarrow> d \<le> i64_max \<longrightarrow> 0 \<le> now \<longrightarrow>
            retry_after_ms http_date h now = Some (max (d - now) 0))"
  using assms
  by (auto simp: retry_after_ms_def i64_saturating_sub_def sat_i64_def u64_max_def i64_max_def
      i64_min_def in_i64_def)

theorem retry_after_is_lower_bound_witness:
  "retry_after_ms (\<lambda>_. None) [(''retry-after'', ''3600'')] 0 = Some 3600000"
proof -
  have h: "header_str [(''retry-after'', ''3600'')] ''retry-after'' = Some ''3600''" by code_simp
  have p: "parse_u64 ''3600'' = Some 3600"
    by (simp add: parse_u64_def parse_digits_def is_ascii_digit_def byte_def u64_max_def)
  show ?thesis
    using retry_after_is_lower_bound [OF h, of 0 "\<lambda>_. None"] p by (simp add: in_i64_def i64_max_def i64_min_def)
qed

end
