(* ===== verification/Health.thy ===== *)
theory Health
  imports Types Resilience Breaker Float64
begin

text \<open>
  \<open>src/backend/src/health.rs\<close>: the breaker of every endpoint and upstream key.  The book maps
  an id to its state; an attempt begins with a token, and its guard finishes it as success,
  failure or neutral (dropping an unfinished guard is neutral).  \<open>now_ms\<close>, which the sources
  pass or read from the clock, is always an argument.  Operations on one state come first,
  then the book operations that look the state up (creating the default one where the source
  does), then the guard and the summary of a provider's children.
\<close>

section \<open>State and views\<close>

record health_state =
  hs_generation :: u64w
  hs_next_probe_id :: u64w
  hs_probe_owner :: "u64w option"
  hs_consecutive_failures :: nat
  hs_success_count :: nat
  hs_failure_count :: nat
  hs_last_status :: "int option"
  hs_last_error_type :: "string option"
  hs_last_error_message :: "string option"
  hs_latency_ewma_ms :: "f64 option"
  hs_open_until_ms :: "int option"
  hs_last_success_at_ms :: "int option"
  hs_last_failure_at_ms :: "int option"
  hs_updated_at_ms :: "int option"

definition health_default :: health_state where
  "health_default =
     \<lparr>hs_generation = 1, hs_next_probe_id = 0, hs_probe_owner = None,
      hs_consecutive_failures = 0, hs_success_count = 0, hs_failure_count = 0,
      hs_last_status = None, hs_last_error_type = None, hs_last_error_message = None,
      hs_latency_ewma_ms = None, hs_open_until_ms = None, hs_last_success_at_ms = None,
      hs_last_failure_at_ms = None, hs_updated_at_ms = None\<rparr>"

record health_view =
  hv_state :: circuit_state
  hv_available :: bool
  hv_consecutive_failures :: nat
  hv_success_count :: nat
  hv_failure_count :: nat
  hv_last_status :: "int option"
  hv_last_error_type :: "string option"
  hv_last_error_message :: "string option"
  hv_latency_ewma_ms :: "int option"
  hv_open_until_ms :: "int option"
  hv_last_success_at_ms :: "int option"
  hv_last_failure_at_ms :: "int option"
  hv_updated_at_ms :: "int option"

definition health_view_default :: health_view where
  "health_view_default =
     \<lparr>hv_state = Closed, hv_available = True, hv_consecutive_failures = 0,
      hv_success_count = 0, hv_failure_count = 0, hv_last_status = None,
      hv_last_error_type = None, hv_last_error_message = None, hv_latency_ewma_ms = None,
      hv_open_until_ms = None, hv_last_success_at_ms = None, hv_last_failure_at_ms = None,
      hv_updated_at_ms = None\<rparr>"

record health_book =
  hb_failure_threshold :: nat
  hb_open_duration_ms :: int
  hb_by_id :: "int \<rightharpoonup> health_state"

definition health_book_new :: "nat \<Rightarrow> int \<Rightarrow> health_book" where
  "health_book_new failure_threshold open_duration_ms =
     \<lparr>hb_failure_threshold = max failure_threshold 1,
      hb_open_duration_ms = max open_duration_ms 1,
      hb_by_id = Map.empty\<rparr>"

text \<open>The constant \<open>0.2\<close> of the moving average, as a double.\<close>

definition ewma_alpha :: f64 where
  "ewma_alpha = f64_of_rat (1 / 5)"

definition ewma_next :: "f64 option \<Rightarrow> int option \<Rightarrow> f64 option" where
  "ewma_next current observed_latency_ms =
     (case opt_filter (\<lambda>v. 0 \<le> v) observed_latency_ms of
       None \<Rightarrow> current
     | Some latency_ms \<Rightarrow>
         Some (case current of
                 Some c \<Rightarrow>
                   f64_add (f64_mul c (f64_sub (f64_of_rat 1) ewma_alpha))
                     (f64_mul (f64_of_int latency_ms) ewma_alpha)
               | None \<Rightarrow> f64_of_int latency_ms))"

section \<open>One state\<close>

definition state_kind :: "health_state \<Rightarrow> int \<Rightarrow> circuit_state" where
  "state_kind s now_ms =
     (case hs_open_until_ms s of
       Some open_until_ms \<Rightarrow> (if now_ms < open_until_ms then Open else HalfOpen)
     | None \<Rightarrow> Closed)"

definition attempt_token_matches :: "health_state \<Rightarrow> attempt_token \<Rightarrow> bool" where
  "attempt_token_matches s token \<longleftrightarrow>
     hs_generation s = tk_generation token \<and>
     is_none_or (tk_probe_id token) (\<lambda>probe_id. hs_probe_owner s = Some probe_id)"

definition release_probe_owner :: "health_state \<Rightarrow> attempt_token \<Rightarrow> bool \<times> health_state" where
  "release_probe_owner s token =
     (if is_some_and (tk_probe_id token) (\<lambda>probe_id. hs_probe_owner s = Some probe_id)
      then (True, s\<lparr>hs_probe_owner := None\<rparr>) else (False, s))"

definition advance_generation :: "health_state \<Rightarrow> health_state" where
  "advance_generation s =
     s\<lparr>hs_generation := next_u64 (hs_generation s), hs_probe_owner := None\<rparr>"

definition health_begin :: "health_state \<Rightarrow> int \<Rightarrow> attempt_token option \<times> health_state" where
  "health_begin s now_ms =
     (case state_kind s now_ms of
       Closed \<Rightarrow> (Some \<lparr>tk_generation = hs_generation s, tk_probe_id = None\<rparr>, s)
     | Open \<Rightarrow> (None, s)
     | HalfOpen \<Rightarrow>
         (if hs_probe_owner s \<noteq> None then (None, s)
          else
            (let p = next_u64 (hs_next_probe_id s);
                 s' = s\<lparr>hs_next_probe_id := p, hs_probe_owner := Some p,
                        hs_updated_at_ms := Some now_ms\<rparr>
             in (Some \<lparr>tk_generation = hs_generation s', tk_probe_id = Some p\<rparr>, s'))))"

definition health_neutral :: "health_state \<Rightarrow> attempt_token \<Rightarrow> int \<Rightarrow> health_state" where
  "health_neutral s token now_ms =
     (if attempt_token_matches s token then
        (case release_probe_owner s token of
          (True, s') \<Rightarrow> s'\<lparr>hs_updated_at_ms := Some now_ms\<rparr>
        | (False, s') \<Rightarrow> s')
      else s)"

definition health_success ::
  "health_state \<Rightarrow> attempt_token \<Rightarrow> int option \<Rightarrow> int option \<Rightarrow> int \<Rightarrow> health_state" where
  "health_success s0 token status observed_latency_ms now_ms =
     (let s = s0\<lparr>hs_success_count := u64_saturating_add (hs_success_count s0) 1,
                 hs_latency_ewma_ms := ewma_next (hs_latency_ewma_ms s0) observed_latency_ms\<rparr>
      in if \<not> attempt_token_matches s token then s
         else
           (let previous_kind = state_kind s now_ms;
                s1 = s\<lparr>hs_consecutive_failures := 0, hs_last_status := status,
                       hs_last_error_type := None, hs_last_error_message := None,
                       hs_open_until_ms := None, hs_last_success_at_ms := Some now_ms,
                       hs_updated_at_ms := Some now_ms\<rparr>;
                s2 = snd (release_probe_owner s1 token)
            in if previous_kind = HalfOpen then advance_generation s2 else s2))"

definition health_failure ::
  "nat \<Rightarrow> int \<Rightarrow> health_state \<Rightarrow> attempt_token \<Rightarrow> int option \<Rightarrow> string option \<Rightarrow> string option \<Rightarrow> int
     \<Rightarrow> health_state" where
  "health_failure failure_threshold open_duration_ms s0 token status error_type error_message now_ms =
     (let s = s0\<lparr>hs_failure_count := u64_saturating_add (hs_failure_count s0) 1\<rparr>
      in if \<not> attempt_token_matches s token then s
         else
           (let previous_kind = state_kind s now_ms;
                s1 = s\<lparr>hs_last_status := status, hs_last_error_type := error_type,
                       hs_last_error_message := error_message,
                       hs_last_failure_at_ms := Some now_ms, hs_updated_at_ms := Some now_ms\<rparr>;
                s2 = snd (release_probe_owner s1 token);
                s3 = s2\<lparr>hs_consecutive_failures :=
                          u32_saturating_add (hs_consecutive_failures s2) 1\<rparr>;
                configured =
                  (if failure_threshold \<le> hs_consecutive_failures s3 \<or> previous_kind = HalfOpen
                   then open_duration_ms else 0)
            in advance_generation
                 (s3\<lparr>hs_open_until_ms :=
                       Some (i64_saturating_add now_ms
                               (cooldown_ms configured (hs_consecutive_failures s3)))\<rparr>)))"

definition health_reset :: "health_state \<Rightarrow> health_state" where
  "health_reset s =
     (advance_generation s)\<lparr>hs_consecutive_failures := 0, hs_open_until_ms := None,
        hs_last_error_type := None, hs_last_error_message := None\<rparr>"

definition health_defer :: "health_state \<Rightarrow> int \<Rightarrow> health_state" where
  "health_defer s until_ms =
     advance_generation
       (s\<lparr>hs_open_until_ms := Some (max (unwrap_or (hs_open_until_ms s) 0) until_ms)\<rparr>)"

definition to_view :: "health_state \<Rightarrow> int \<Rightarrow> health_view" where
  "to_view s now_ms =
     (let kind = state_kind s now_ms in
      \<lparr>hv_state = kind,
       hv_available =
         (case kind of Closed \<Rightarrow> True | Open \<Rightarrow> False | HalfOpen \<Rightarrow> hs_probe_owner s = None),
       hv_consecutive_failures = hs_consecutive_failures s,
       hv_success_count = hs_success_count s,
       hv_failure_count = hs_failure_count s,
       hv_last_status = hs_last_status s,
       hv_last_error_type = hs_last_error_type s,
       hv_last_error_message = hs_last_error_message s,
       hv_latency_ewma_ms = map_option (\<lambda>v. f64_to_i64 (f64_round v)) (hs_latency_ewma_ms s),
       hv_open_until_ms = (case kind of Open \<Rightarrow> hs_open_until_ms s | _ \<Rightarrow> None),
       hv_last_success_at_ms = hs_last_success_at_ms s,
       hv_last_failure_at_ms = hs_last_failure_at_ms s,
       hv_updated_at_ms = hs_updated_at_ms s\<rparr>)"

section \<open>The book\<close>

definition hb_entry :: "health_book \<Rightarrow> int \<Rightarrow> health_state" where
  "hb_entry book i = unwrap_or (hb_by_id book i) health_default"

definition hb_put :: "health_book \<Rightarrow> int \<Rightarrow> health_state \<Rightarrow> health_book" where
  "hb_put book i s = book\<lparr>hb_by_id := (hb_by_id book)(i \<mapsto> s)\<rparr>"

definition hb_snapshot :: "health_book \<Rightarrow> int \<Rightarrow> int \<Rightarrow> health_view" where
  "hb_snapshot book i now_ms =
     (case hb_by_id book i of None \<Rightarrow> health_view_default | Some s \<Rightarrow> to_view s now_ms)"

record health_guard =
  hg_id :: int
  hg_token :: attempt_token
  hg_active :: bool

definition hb_try_begin_attempt ::
  "health_book \<Rightarrow> int \<Rightarrow> int \<Rightarrow> health_guard option \<times> health_book" where
  "hb_try_begin_attempt book i now_ms =
     (case health_begin (hb_entry book i) now_ms of
       (None, s) \<Rightarrow> (None, hb_put book i s)
     | (Some token, s) \<Rightarrow>
         (Some \<lparr>hg_id = i, hg_token = token, hg_active = True\<rparr>, hb_put book i s))"

definition hb_finish_neutral :: "health_book \<Rightarrow> int \<Rightarrow> attempt_token \<Rightarrow> int \<Rightarrow> health_book" where
  "hb_finish_neutral book i token now_ms =
     (case hb_by_id book i of
       None \<Rightarrow> book
     | Some s \<Rightarrow> hb_put book i (health_neutral s token now_ms))"

definition hb_finish_success ::
  "health_book \<Rightarrow> int \<Rightarrow> attempt_token \<Rightarrow> int option \<Rightarrow> int option \<Rightarrow> int \<Rightarrow> health_book" where
  "hb_finish_success book i token status latency now_ms =
     hb_put book i (health_success (hb_entry book i) token status latency now_ms)"

definition hb_finish_failure ::
  "health_book \<Rightarrow> int \<Rightarrow> attempt_token \<Rightarrow> int option \<Rightarrow> string option \<Rightarrow> string option \<Rightarrow> int
     \<Rightarrow> health_book" where
  "hb_finish_failure book i token status error_type error_message now_ms =
     hb_put book i
       (health_failure (hb_failure_threshold book) (hb_open_duration_ms book) (hb_entry book i)
          token status error_type error_message now_ms)"

definition hb_reset :: "health_book \<Rightarrow> int \<Rightarrow> health_book" where
  "hb_reset book i = hb_put book i (health_reset (hb_entry book i))"

definition hb_defer_until :: "health_book \<Rightarrow> int \<Rightarrow> int \<Rightarrow> health_book" where
  "hb_defer_until book i until_ms = hb_put book i (health_defer (hb_entry book i) until_ms)"

section \<open>The attempt guard\<close>

text \<open>A guard's methods consume it; dropping a guard that is still active finishes it neutrally.\<close>

definition guard_is_current :: "health_book \<Rightarrow> health_guard \<Rightarrow> bool" where
  "guard_is_current book g =
     is_some_and (hb_by_id book (hg_id g)) (\<lambda>s. attempt_token_matches s (hg_token g))"

definition guard_drop :: "health_book \<Rightarrow> health_guard \<Rightarrow> int \<Rightarrow> health_book" where
  "guard_drop book g now_ms =
     (if hg_active g then hb_finish_neutral book (hg_id g) (hg_token g) now_ms else book)"

definition guard_success ::
  "health_book \<Rightarrow> health_guard \<Rightarrow> int option \<Rightarrow> int option \<Rightarrow> int \<Rightarrow> health_book" where
  "guard_success book g status latency now_ms =
     (let g' = g\<lparr>hg_active := False\<rparr>;
          book' = hb_finish_success book (hg_id g') (hg_token g') status latency now_ms
      in guard_drop book' g' now_ms)"

definition guard_failure ::
  "health_book \<Rightarrow> health_guard \<Rightarrow> int option \<Rightarrow> string option \<Rightarrow> string option \<Rightarrow> int \<Rightarrow> health_book" where
  "guard_failure book g status error_type error_message now_ms =
     (let g' = g\<lparr>hg_active := False\<rparr>;
          book' = hb_finish_failure book (hg_id g') (hg_token g') status error_type error_message now_ms
      in guard_drop book' g' now_ms)"

definition guard_neutral :: "health_book \<Rightarrow> health_guard \<Rightarrow> int \<Rightarrow> health_book" where
  "guard_neutral book g now_ms =
     (let g' = g\<lparr>hg_active := False\<rparr>;
          book' = hb_finish_neutral book (hg_id g') (hg_token g') now_ms
      in guard_drop book' g' now_ms)"

section \<open>Provider summary\<close>

record health_counts =
  hc_total :: nat
  hc_disabled :: nat
  hc_closed :: nat
  hc_half_open :: nat
  hc_open :: nat
  hc_available :: nat

definition health_counts_default :: health_counts where
  "health_counts_default =
     \<lparr>hc_total = 0, hc_disabled = 0, hc_closed = 0, hc_half_open = 0, hc_open = 0,
      hc_available = 0\<rparr>"

record provider_health_view =
  phv_state :: circuit_state
  phv_available :: bool
  phv_consecutive_failures :: nat
  phv_success_count :: nat
  phv_failure_count :: nat
  phv_last_status :: "int option"
  phv_last_error_type :: "string option"
  phv_last_error_message :: "string option"
  phv_latency_ewma_ms :: "int option"
  phv_open_until_ms :: "int option"
  phv_last_success_at_ms :: "int option"
  phv_last_failure_at_ms :: "int option"
  phv_updated_at_ms :: "int option"
  phv_endpoint_counts :: health_counts
  phv_key_counts :: health_counts

definition count_view :: "health_counts \<Rightarrow> health_view \<Rightarrow> health_counts" where
  "count_view c v =
     (let c1 = (if hv_available v then c\<lparr>hc_available := u32_saturating_add (hc_available c) 1\<rparr> else c)
      in case hv_state v of
           Closed \<Rightarrow> c1\<lparr>hc_closed := u32_saturating_add (hc_closed c1) 1\<rparr>
         | HalfOpen \<Rightarrow> c1\<lparr>hc_half_open := u32_saturating_add (hc_half_open c1) 1\<rparr>
         | Open \<Rightarrow> c1\<lparr>hc_open := u32_saturating_add (hc_open c1) 1\<rparr>)"

fun summarize_children ::
  "('a \<Rightarrow> int) \<Rightarrow> ('a \<Rightarrow> bool) \<Rightarrow> health_book \<Rightarrow> int \<Rightarrow> 'a list
     \<Rightarrow> health_counts \<times> health_view list \<Rightarrow> health_counts \<times> health_view list" where
  "summarize_children ident enabled book now_ms [] acc = acc"
| "summarize_children ident enabled book now_ms (item # items) (counts, views) =
     (let counts = counts\<lparr>hc_total := u32_saturating_add (hc_total counts) 1\<rparr> in
      if \<not> enabled item
      then summarize_children ident enabled book now_ms items
             (counts\<lparr>hc_disabled := u32_saturating_add (hc_disabled counts) 1\<rparr>, views)
      else
        (let view = hb_snapshot book (ident item) now_ms
         in summarize_children ident enabled book now_ms items
              (count_view counts view, views @ [view])))"

text \<open>The sums of the success and failure counters are \<open>u64\<close> additions (release build: wrapping).\<close>

definition sum_u64 :: "nat list \<Rightarrow> nat" where
  "sum_u64 xs = sum_list xs mod 2 ^ 64"

definition summarize_provider_health ::
  "upstream_endpoint list \<Rightarrow> upstream_key list \<Rightarrow> health_book \<Rightarrow> health_book \<Rightarrow> int
     \<Rightarrow> provider_health_view" where
  "summarize_provider_health endpoints keys endpoint_health key_health now_ms =
     (let (endpoint_counts, endpoint_views) =
            summarize_children e_id e_enabled endpoint_health now_ms endpoints (health_counts_default, []);
          (key_counts, key_views) =
            summarize_children k_id k_enabled key_health now_ms keys (health_counts_default, []);
          available = (0 < hc_available endpoint_counts \<and> 0 < hc_available key_counts);
          state = (if \<not> available then Open
                   else if 0 < hc_closed endpoint_counts \<and> 0 < hc_closed key_counts then Closed
                   else HalfOpen);
          views = endpoint_views @ key_views;
          latest = max_by_key (\<lambda>v. unwrap_or (hv_updated_at_ms v) 0)
                     (filter (\<lambda>v. hv_updated_at_ms v \<noteq> None) views)
      in \<lparr>phv_state = state,
          phv_available = available,
          phv_consecutive_failures = unwrap_or (iter_max (map hv_consecutive_failures views)) 0,
          phv_success_count = sum_u64 (map hv_success_count views),
          phv_failure_count = sum_u64 (map hv_failure_count views),
          phv_last_status = Option.bind latest hv_last_status,
          phv_last_error_type = Option.bind latest hv_last_error_type,
          phv_last_error_message = Option.bind latest hv_last_error_message,
          phv_latency_ewma_ms = iter_min (somes (map hv_latency_ewma_ms endpoint_views)),
          phv_open_until_ms = iter_max (somes (map hv_open_until_ms views)),
          phv_last_success_at_ms = iter_max (somes (map hv_last_success_at_ms views)),
          phv_last_failure_at_ms = iter_max (somes (map hv_last_failure_at_ms views)),
          phv_updated_at_ms = iter_max (somes (map hv_updated_at_ms views)),
          phv_endpoint_counts = endpoint_counts,
          phv_key_counts = key_counts\<rparr>)"

section \<open>The history of one state\<close>

datatype health_outcome =
    HSuccess "int option" "int option" int
  | HFailure "int option" "string option" "string option" int
  | HNeutral int

datatype health_ctl = HReset | HDefer int

fun health_finish :: "nat \<Rightarrow> int \<Rightarrow> health_state \<Rightarrow> attempt_token \<Rightarrow> health_outcome \<Rightarrow> health_state" where
  "health_finish thr dur s t (HSuccess status lat now) = health_success s t status lat now"
| "health_finish thr dur s t (HFailure status et em now) = health_failure thr dur s t status et em now"
| "health_finish thr dur s t (HNeutral now) = health_neutral s t now"

fun health_control :: "health_state \<Rightarrow> health_ctl \<Rightarrow> health_state" where
  "health_control s HReset = health_reset s"
| "health_control s (HDefer until) = health_defer s until"

definition health_history ::
  "nat \<Rightarrow> int \<Rightarrow> (health_outcome, health_ctl) breaker_event list
     \<Rightarrow> health_state \<times> attempt_token list" where
  "health_history thr dur es =
     breaker_run health_begin (health_finish thr dur) health_control (health_default, []) es"

section \<open>Lemmas\<close>

lemma attempt_token_matches_iff:
  "attempt_token_matches s t = token_matches (hs_generation s) (hs_probe_owner s) t"
  by (simp add: attempt_token_matches_def token_matches_def)

lemma matches_bookkeeping [simp]:
  "attempt_token_matches (s\<lparr>hs_success_count := a\<rparr>) t = attempt_token_matches s t"
  "attempt_token_matches (s\<lparr>hs_success_count := a, hs_latency_ewma_ms := e\<rparr>) t
     = attempt_token_matches s t"
  "attempt_token_matches (s\<lparr>hs_failure_count := a\<rparr>) t = attempt_token_matches s t"
  by (simp_all add: attempt_token_matches_def)

lemma state_kind_cong: "hs_open_until_ms s = hs_open_until_ms s' \<Longrightarrow> state_kind s now = state_kind s' now"
  by (simp add: state_kind_def)

lemma release_probe_owner_sel:
  "hs_generation (snd (release_probe_owner s t)) = hs_generation s"
  "hs_next_probe_id (snd (release_probe_owner s t)) = hs_next_probe_id s"
  "hs_open_until_ms (snd (release_probe_owner s t)) = hs_open_until_ms s"
  "hs_consecutive_failures (snd (release_probe_owner s t)) = hs_consecutive_failures s"
  "hs_probe_owner (snd (release_probe_owner s t)) =
     (if is_some_and (tk_probe_id t) (\<lambda>p. hs_probe_owner s = Some p) then None else hs_probe_owner s)"
  by (auto simp: release_probe_owner_def)

lemma advance_generation_sel:
  "hs_generation (advance_generation s) = next_u64 (hs_generation s)"
  "hs_probe_owner (advance_generation s) = None"
  "hs_next_probe_id (advance_generation s) = hs_next_probe_id s"
  "hs_open_until_ms (advance_generation s) = hs_open_until_ms s"
  "hs_consecutive_failures (advance_generation s) = hs_consecutive_failures s"
  by (simp_all add: advance_generation_def)

lemmas health_sel = release_probe_owner_sel advance_generation_sel

lemma health_neutral_eq:
  "health_neutral s t now =
     (if attempt_token_matches s t \<and> tk_probe_id t \<noteq> None
      then s\<lparr>hs_probe_owner := None, hs_updated_at_ms := Some now\<rparr> else s)"
  by (auto simp: health_neutral_def release_probe_owner_def attempt_token_matches_def
      is_some_and_def is_none_or_def split: option.splits)

interpretation hb: circuit_breaker
  state_kind hs_generation hs_probe_owner hs_next_probe_id
  health_begin "health_finish thr dur" health_control health_default
  for thr dur
proof (unfold_locales, goal_cases)
  case (8 s t out)
  then show ?case
    by (cases out)
      (auto simp: health_success_def health_failure_def health_neutral_eq Let_def health_sel)
next
  case (9 s t out now)
  then have "\<not> attempt_token_matches s t" by (simp add: attempt_token_matches_iff)
  then show ?case
    by (cases out)
      (simp_all add: health_success_def health_failure_def health_neutral_def Let_def state_kind_def)
next
  case (10 s t out)
  then have m: "attempt_token_matches s t" by (simp add: attempt_token_matches_iff)
  show ?case
  proof (cases out)
    case (HSuccess status lat now)
    then show ?thesis using m
      by (auto simp: health_success_def Let_def health_sel attempt_token_matches_def
          is_some_and_def is_none_or_def split: option.splits)
  next
    case (HFailure status et em now)
    then show ?thesis using m
      by (auto simp: health_failure_def Let_def health_sel attempt_token_matches_def)
  next
    case (HNeutral now)
    then show ?thesis using m by (auto simp: health_neutral_eq)
  qed
next
  case (11 s c)
  then show ?case
    by (cases c) (auto simp: health_reset_def health_defer_def health_sel)
next
  case (12 s c)
  then show ?case
    by (cases c) (auto simp: health_reset_def health_defer_def health_sel)
qed (auto simp: health_default_def health_begin_def Let_def)

lemma health_begin_open: "state_kind s now = Open \<Longrightarrow> health_begin s now = (None, s)"
  by (rule hb.beg_open)

text \<open>What a failure of the token holder writes: the next opening, a new generation.\<close>

lemma health_failure_matching:
  assumes "attempt_token_matches s t"
  shows "\<exists>c. hs_open_until_ms (health_failure thr dur s t st et em now) =
               Some (i64_saturating_add now (cooldown_ms c (hs_consecutive_failures
                 (health_failure thr dur s t st et em now))))
           \<and> (c = dur \<or> c = 0)"
  using assms
  by (auto simp: health_failure_def Let_def health_sel attempt_token_matches_def)

lemma health_failure_generation:
  assumes "attempt_token_matches s t"
  shows "hs_generation (health_failure thr dur s t st et em now) = next_u64 (hs_generation s)"
  using assms by (auto simp: health_failure_def Let_def health_sel attempt_token_matches_def)

lemma ewma_alpha_value: "ewma_alpha = Fin (3602879701896397 / 18014398509481984)"
  by (simp add: ewma_alpha_def f64_constants)

lemma one_minus_alpha_value: "f64_sub (f64_of_rat 1) ewma_alpha = Fin (3602879701896397 / 4503599627370496)"
  by (simp add: ewma_alpha_value f64_sub_def f64_constants)

lemma f64_mul_alpha_nonneg:
  "f64_nonneg x \<Longrightarrow> f64_nonneg (f64_mul x ewma_alpha)"
  "f64_nonneg x \<Longrightarrow> f64_nonneg (f64_mul x (f64_sub (f64_of_rat 1) ewma_alpha))"
  using f64_mul_nonneg_pos [of x "3602879701896397 / 18014398509481984"]
    f64_mul_nonneg_pos [of x "3602879701896397 / 4503599627370496"]
  by (simp_all only: one_minus_alpha_value) (simp_all add: ewma_alpha_value)

text \<open>The moving average never goes below zero and never becomes NaN.\<close>

lemma ewma_next_nonneg:
  assumes "\<forall>c. current = Some c \<longrightarrow> f64_nonneg c" and "ewma_next current lat = Some v"
  shows "f64_nonneg v"
  using assms
  by (auto simp: ewma_next_def opt_filter_def split: option.splits if_splits
      intro!: f64_add_nonneg f64_mul_alpha_nonneg f64_of_int_nonneg)

lemma hb_entry_put [simp]: "hb_entry (hb_put book i s) i = s"
  by (simp add: hb_entry_def hb_put_def unwrap_or_def)

lemma hb_entry_put_other [simp]: "i \<noteq> j \<Longrightarrow> hb_entry (hb_put book i s) j = hb_entry book j"
  by (simp add: hb_entry_def hb_put_def)

lemma hb_snapshot_put [simp]: "hb_snapshot (hb_put book i s) i now = to_view s now"
  by (simp add: hb_snapshot_def hb_put_def)

lemma hb_try_begin_iff:
  "fst (hb_try_begin_attempt book i now) = None \<longleftrightarrow> fst (health_begin (hb_entry book i) now) = None"
  by (auto simp: hb_try_begin_attempt_def split: prod.splits option.splits)

lemma to_view_available:
  "hv_available (to_view s now) \<longleftrightarrow> fst (health_begin s now) \<noteq> None"
  by (auto simp: to_view_def health_begin_def Let_def split: circuit_state.splits)

text \<open>A snapshot says available exactly when an attempt would be admitted.\<close>

lemma hb_snapshot_available:
  "hv_available (hb_snapshot book i now) \<longleftrightarrow> fst (hb_try_begin_attempt book i now) \<noteq> None"
proof (cases "hb_by_id book i")
  case None
  then show ?thesis
    by (simp add: hb_snapshot_def health_view_default_def hb_try_begin_iff hb_entry_def
        unwrap_or_def health_begin_def state_kind_def health_default_def)
next
  case (Some s)
  then show ?thesis
    by (simp add: hb_snapshot_def hb_try_begin_iff hb_entry_def unwrap_or_def to_view_available)
qed

lemma sat_counter: "u32_saturating_add (min u32_max (a + b)) 1 = min u32_max (a + Suc b)"
  by (simp add: u32_saturating_add_def)

text \<open>The counts of the children, and the views of the enabled ones, in order.\<close>

lemma summarize_children_views:
  "snd (summarize_children ident enabled book now xs (c, vs)) =
     vs @ map (\<lambda>x. hb_snapshot book (ident x) now) (filter enabled xs)"
  by (induction xs arbitrary: c vs) (simp_all add: Let_def)

lemma count_view_available:
  "hc_available (count_view c v) =
     (if hv_available v then u32_saturating_add (hc_available c) 1 else hc_available c)"
  by (cases "hv_state v") (simp_all add: count_view_def Let_def)

lemma summarize_children_available_pos:
  "0 < hc_available (fst (summarize_children ident enabled book now xs (c, vs))) \<longleftrightarrow>
     0 < hc_available c \<or> (\<exists>x \<in> set xs. enabled x \<and> hv_available (hb_snapshot book (ident x) now))"
  by (induction xs arbitrary: c vs)
    (auto simp: Let_def count_view_available u32_saturating_add_def u32_max_def)

lemma summarize_children_closed_pos:
  "0 < hc_closed (fst (summarize_children ident enabled book now xs (c, vs))) \<longleftrightarrow>
     0 < hc_closed c \<or> (\<exists>x \<in> set xs. enabled x \<and> hv_state (hb_snapshot book (ident x) now) = Closed)"
  by (induction xs arbitrary: c vs)
    (auto simp: Let_def count_view_def u32_saturating_add_def u32_max_def split: circuit_state.splits)

text \<open>Each child is counted in one of the four states, as long as the counter has room.\<close>

definition states_sum :: "health_counts \<Rightarrow> nat" where
  "states_sum c = hc_disabled c + hc_closed c + hc_half_open c + hc_open c"

lemma states_sum_count_view:
  "states_sum c < u32_max \<Longrightarrow> states_sum (count_view c v) = Suc (states_sum c)"
  "hc_total (count_view c v) = hc_total c"
  by (cases "hv_state v"; simp add: states_sum_def count_view_def Let_def u32_saturating_add_def)+

lemma states_sum_updates [simp]:
  "states_sum (c\<lparr>hc_total := n\<rparr>) = states_sum c"
  "states_sum c < u32_max \<Longrightarrow>
     states_sum (c\<lparr>hc_total := n, hc_disabled := u32_saturating_add (hc_disabled c) 1\<rparr>) = Suc (states_sum c)"
  by (simp_all add: states_sum_def u32_saturating_add_def)

lemma summarize_children_partition:
  "hc_total c + length xs \<le> u32_max \<Longrightarrow> states_sum c = hc_total c \<Longrightarrow>
   hc_total (fst (summarize_children ident enabled book now xs (c, vs))) = hc_total c + length xs \<and>
   states_sum (fst (summarize_children ident enabled book now xs (c, vs))) = hc_total c + length xs"
proof (induction xs arbitrary: c vs)
  case (Cons x xs)
  let ?v = "hb_snapshot book (ident x) now"
  let ?c = "c\<lparr>hc_total := u32_saturating_add (hc_total c) 1\<rparr>"
  let ?d = "?c\<lparr>hc_disabled := u32_saturating_add (hc_disabled ?c) 1\<rparr>"
  have room: "u32_saturating_add (hc_total c) 1 = Suc (hc_total c)" "states_sum c < u32_max"
    using Cons.prems by (simp_all add: u32_saturating_add_def)
  then have d: "hc_total ?d = Suc (hc_total c)" "states_sum ?d = Suc (hc_total c)"
    using Cons.prems(2) by (simp_all del: One_nat_def)
  have e: "hc_total (count_view ?c ?v) = Suc (hc_total c)"
    "states_sum (count_view ?c ?v) = Suc (hc_total c)"
    using room Cons.prems(2) states_sum_count_view [of ?c ?v] by simp_all
  show ?case
  proof (cases "enabled x")
    case True
    then show ?thesis
      using Cons.IH [of "count_view ?c ?v" "vs @ [?v]"] Cons.prems(1) e
      by (simp add: Let_def del: One_nat_def)
  next
    case False
    then show ?thesis
      using Cons.IH [of ?d vs] Cons.prems(1) d
      by (simp add: Let_def del: One_nat_def)
  qed
qed simp

lemma health_counts_default_sel [simp]:
  "hc_available health_counts_default = 0" "hc_total health_counts_default = 0"
  "states_sum health_counts_default = 0"
  by (simp_all add: health_counts_default_def states_sum_def)

section \<open>Properties\<close>


text \<open>C40: no probe is lost. Once every guard of an endpoint or key has been finished or dropped,
  a half-open breaker admits the next attempt.\<close>

theorem health_no_lost_probe:
  assumes "length es \<le> 2 ^ 64 - 2" and "health_history thr dur es = (s, [])"
    and "state_kind s now = HalfOpen"
  shows "fst (health_begin s now) \<noteq> None"
  using assms unfolding health_history_def by (rule hb.no_lost_probe)

text \<open>A failure reported by a current guard puts the endpoint or key out of use at once, for
  at least 30 seconds and at most the larger of five minutes and the configured duration; until
  then no attempt is admitted and the snapshot says unavailable, from then on one is.\<close>

theorem health_failure_cools_down:
  assumes "attempt_token_matches (hb_entry book i) token"
    and "book' = hb_finish_failure book i token status et em now"
    and "0 \<le> now" and "now + max COOLDOWN_MAX_MS (hb_open_duration_ms book) \<le> i64_max"
  shows "\<exists>until. now + COOLDOWN_BASE_MS \<le> until \<and>
           until \<le> now + max COOLDOWN_MAX_MS (hb_open_duration_ms book) \<and>
           (\<forall>now'. (fst (hb_try_begin_attempt book' i now') \<noteq> None \<longleftrightarrow> until \<le> now') \<and>
                   (hv_available (hb_snapshot book' i now') \<longleftrightarrow> until \<le> now'))"
proof -
  let ?s = "health_failure (hb_failure_threshold book) (hb_open_duration_ms book) (hb_entry book i)
      token status et em now"
  have entry: "hb_entry book' i = ?s" by (simp add: assms(2) hb_finish_failure_def)
  obtain c where c: "c = hb_open_duration_ms book \<or> c = 0"
    and until: "hs_open_until_ms ?s =
        Some (i64_saturating_add now (cooldown_ms c (hs_consecutive_failures ?s)))"
    using health_failure_matching [OF assms(1), of "hb_failure_threshold book"
        "hb_open_duration_ms book" status et em now] by auto
  define d where "d = cooldown_ms c (hs_consecutive_failures ?s)"
  have "c \<le> i64_max" using c assms(3,4) by (auto simp: i64_max_def)
  then have d: "COOLDOWN_BASE_MS \<le> d" "d \<le> max COOLDOWN_MAX_MS (hb_open_duration_ms book)"
    using c cooldown_ge [of c "hs_consecutive_failures ?s"] cooldown_le [of c "hs_consecutive_failures ?s"]
    by (auto simp: d_def COOLDOWN_BASE_MS_def COOLDOWN_MAX_MS_def)
  then have sum: "i64_saturating_add now d = now + d"
    using assms(3,4) by (auto simp: i64_saturating_add_def sat_i64_def i64_min_def COOLDOWN_BASE_MS_def)
  have owner: "hs_probe_owner ?s = None"
    using assms(1) by (simp add: health_failure_def Let_def health_sel)
  have "fst (health_begin ?s now') \<noteq> None \<longleftrightarrow> now + d \<le> now'" for now'
    using until sum owner by (auto simp: health_begin_def state_kind_def d_def Let_def)
  then show ?thesis
    using d by (intro exI [of _ "now + d"]) (simp add: hb_snapshot_available hb_try_begin_iff entry)
qed

text \<open>Results that arrive late are ignored. After a current guard reports a failure, no other
  guard begun before it can change the breaker state, its generation or its probe owner,
  whatever its outcome.\<close>

theorem health_late_results_ignored:
  assumes "length es < 2 ^ 64 - 2" and "health_history thr dur es = (s, live)"
    and "i < length live" and "attempt_token_matches s (live ! i)"
    and "s' = health_failure thr dur s (live ! i) status et em now" and "t \<in> set live"
  shows "state_kind (health_finish thr dur s' t out) now' = state_kind s' now' \<and>
         hs_generation (health_finish thr dur s' t out) = hs_generation s' \<and>
         hs_probe_owner (health_finish thr dur s' t out) = hs_probe_owner s'"
proof -
  have "hs_generation s' = next_u64 (hs_generation s)"
    using assms(4,5) health_failure_generation by simp
  then have "\<not> token_matches (hs_generation s') (hs_probe_owner s') t"
    using hb.advance_makes_stale [OF assms(1), of thr dur s live s' t] assms(2,6)
    by (simp add: health_history_def)
  then show ?thesis using hb.fin_stale [of s' t thr dur out now'] by simp
qed

text \<open>The recovery cycle. When the cooldown is over and no probe is out, one attempt is
  admitted as the probe, further attempts are refused while it runs, and its success closes the
  breaker with the failure count cleared.\<close>

theorem health_probe_cycle:
  assumes "state_kind s now = HalfOpen" and "hs_probe_owner s = None" and "now \<le> now2"
  shows "\<exists>t s1. health_begin s now = (Some t, s1) \<and> fst (health_begin s1 now2) = None \<and>
           state_kind (health_success s1 t status lat now2) now3 = Closed \<and>
           hs_consecutive_failures (health_success s1 t status lat now2) = 0 \<and>
           fst (health_begin (health_success s1 t status lat now2) now3) \<noteq> None"
proof -
  obtain u where u: "hs_open_until_ms s = Some u" "u \<le> now"
    using assms(1) by (auto simp: state_kind_def split: option.splits if_splits)
  show ?thesis using assms(2,3) u
    by (auto simp: health_begin_def health_success_def state_kind_def Let_def health_sel
        attempt_token_matches_def is_none_or_def is_some_and_def)
qed

text \<open>The health summary of a provider says available exactly when some enabled endpoint and
  some enabled key would admit an attempt, and the four state counts add up to the number of
  children.\<close>

theorem provider_health_available:
  assumes "length endpoints \<le> u32_max" and "length keys \<le> u32_max"
    and "v = summarize_provider_health endpoints keys eh kh now"
  shows "(phv_available v \<longleftrightarrow>
            (\<exists>e \<in> set endpoints. e_enabled e \<and> fst (hb_try_begin_attempt eh (e_id e) now) \<noteq> None) \<and>
            (\<exists>k \<in> set keys. k_enabled k \<and> fst (hb_try_begin_attempt kh (k_id k) now) \<noteq> None)) \<and>
         (phv_state v = Open \<longleftrightarrow> \<not> phv_available v) \<and>
         hc_total (phv_endpoint_counts v) = length endpoints \<and>
         hc_disabled (phv_endpoint_counts v) + hc_closed (phv_endpoint_counts v)
           + hc_half_open (phv_endpoint_counts v) + hc_open (phv_endpoint_counts v) = length endpoints"
proof -
  obtain ec ev where ev: "summarize_children e_id e_enabled eh now endpoints (health_counts_default, []) = (ec, ev)"
    by fastforce
  obtain kc kv where kv: "summarize_children k_id k_enabled kh now keys (health_counts_default, []) = (kc, kv)"
    by fastforce
  have "0 < hc_available ec \<longleftrightarrow>
      (\<exists>e \<in> set endpoints. e_enabled e \<and> fst (hb_try_begin_attempt eh (e_id e) now) \<noteq> None)"
    using summarize_children_available_pos [of e_id e_enabled eh now endpoints health_counts_default "[]"]
    by (simp add: ev hb_snapshot_available)
  moreover have "0 < hc_available kc \<longleftrightarrow>
      (\<exists>k \<in> set keys. k_enabled k \<and> fst (hb_try_begin_attempt kh (k_id k) now) \<noteq> None)"
    using summarize_children_available_pos [of k_id k_enabled kh now keys health_counts_default "[]"]
    by (simp add: kv hb_snapshot_available)
  moreover have "hc_total ec = length endpoints \<and>
      hc_disabled ec + hc_closed ec + hc_half_open ec + hc_open ec = hc_total ec"
    using summarize_children_partition [of health_counts_default endpoints e_id e_enabled eh now "[]"]
      assms(1) by (simp add: ev) (simp add: states_sum_def)
  moreover have "phv_available v \<longleftrightarrow> 0 < hc_available ec \<and> 0 < hc_available kc"
      "phv_state v = Open \<longleftrightarrow> \<not> phv_available v" "phv_endpoint_counts v = ec"
    by (simp_all add: assms(3) summarize_provider_health_def ev kv Let_def)
  ultimately show ?thesis by simp
qed

section \<open>The properties at concrete inputs\<close>

text \<open>A deferred breaker, its probe, and a second attempt that is refused.\<close>

definition wit_probe_events :: "(health_outcome, health_ctl) breaker_event list" where
  "wit_probe_events = [EControl (HDefer 5), EBegin 10, EBegin 11]"


definition wit_dropped_probe_events :: "(health_outcome, health_ctl) breaker_event list" where
  "wit_dropped_probe_events = [EControl (HDefer 5), EBegin 10, EFinish 0 (HNeutral 11)]"

lemma wit_dropped_probe:
  "snd (health_history 2 1000 wit_dropped_probe_events) = []"
  "state_kind (fst (health_history 2 1000 wit_dropped_probe_events)) 12 = HalfOpen"
  by (code_simp, code_simp)

theorem health_no_lost_probe_witness:
  "fst (health_begin (fst (health_history 2 1000 wit_dropped_probe_events)) 12) \<noteq> None"
  by (rule health_no_lost_probe [of wit_dropped_probe_events 2 1000])
    (simp_all add: wit_dropped_probe wit_dropped_probe_events_def prod_eq_iff
      wit_dropped_probe [unfolded wit_dropped_probe_events_def])

definition wit_token :: attempt_token where
  "wit_token = \<lparr>tk_generation = 1, tk_probe_id = None\<rparr>"

theorem health_failure_cools_down_witness:
  "\<exists>until. 1000 + COOLDOWN_BASE_MS \<le> until \<and>
     until \<le> 1000 + max COOLDOWN_MAX_MS (hb_open_duration_ms (health_book_new 5 60000)) \<and>
     (\<forall>now'.
       (fst (hb_try_begin_attempt
          (hb_finish_failure (health_book_new 5 60000) 7 wit_token (Some 500) None None 1000) 7 now') \<noteq> None
          \<longleftrightarrow> until \<le> now') \<and>
       (hv_available (hb_snapshot
          (hb_finish_failure (health_book_new 5 60000) 7 wit_token (Some 500) None None 1000) 7 now')
          \<longleftrightarrow> until \<le> now'))"
  by (rule health_failure_cools_down [of "health_book_new 5 60000" 7 wit_token _ "Some 500" None None])
    (simp_all add: attempt_token_matches_def hb_entry_def health_book_new_def unwrap_or_def
      health_default_def wit_token_def is_none_or_def COOLDOWN_MAX_MS_def i64_max_def)

text \<open>Two attempts of one generation: the first fails, the success of the second is ignored.\<close>

definition wit_two_attempts :: "(health_outcome, health_ctl) breaker_event list" where
  "wit_two_attempts = [EBegin 0, EBegin 1]"

lemma wit_two_attempts_run:
  "health_history 2 1000 wit_two_attempts = (health_default, [wit_token, wit_token])"
  by (simp add: wit_two_attempts_def health_history_def health_begin_def state_kind_def
      health_default_def wit_token_def)

theorem health_late_results_ignored_witness:
  "state_kind (health_finish 2 1000 (health_failure 2 1000 health_default wit_token None None None 2)
      wit_token (HSuccess (Some 200) None 3)) 4 =
    state_kind (health_failure 2 1000 health_default wit_token None None None 2) 4"
  using health_late_results_ignored [of wit_two_attempts 2 1000 health_default "[wit_token, wit_token]" 0
      "health_failure 2 1000 health_default wit_token None None None 2" None None None 2 wit_token
      "HSuccess (Some 200) None 3" 4]
  by (simp add: wit_two_attempts_run attempt_token_matches_def health_default_def wit_token_def
      is_none_or_def del: health_finish.simps) (simp add: wit_two_attempts_def)

theorem health_probe_cycle_witness:
  "\<exists>t s1. health_begin (health_defer health_default 5) 10 = (Some t, s1) \<and>
     fst (health_begin s1 11) = None \<and>
     state_kind (health_success s1 t (Some 200) None 11) 12 = Closed \<and>
     hs_consecutive_failures (health_success s1 t (Some 200) None 11) = 0 \<and>
     fst (health_begin (health_success s1 t (Some 200) None 11) 12) \<noteq> None"
  by (rule health_probe_cycle)
    (simp_all add: state_kind_def health_defer_def advance_generation_def health_default_def unwrap_or_def)

definition wit_endpoint :: upstream_endpoint where
  "wit_endpoint =
     \<lparr>e_id = 3, e_provider_id = 1, e_name = ''e'', e_base_url = ''https://e'', e_enabled = True,
      e_priority = 0, e_weight = 1\<rparr>"

definition wit_key :: upstream_key where
  "wit_key =
     \<lparr>k_id = 4, k_provider_id = 1, k_name = ''k'', k_secret = ''s'', k_enabled = True,
      k_priority = 0, k_weight = 1\<rparr>"

theorem provider_health_available_witness:
  "phv_available (summarize_provider_health [wit_endpoint] [wit_key]
      (health_book_new 5 60000) (health_book_new 5 60000) 0)"
  using provider_health_available [of "[wit_endpoint]" "[wit_key]"
      "summarize_provider_health [wit_endpoint] [wit_key] (health_book_new 5 60000) (health_book_new 5 60000) 0"
      "health_book_new 5 60000" "health_book_new 5 60000" 0]
  by (simp add: wit_endpoint_def wit_key_def u32_max_def hb_try_begin_iff hb_entry_def
      health_book_new_def unwrap_or_def health_default_def health_begin_def state_kind_def)

end
