(* ===== verification/Provider_Runtime.thy ===== *)
theory Provider_Runtime
  imports Types Resilience Breaker Float64
begin

text \<open>
  The provider half of \<open>src/backend/src/provider_runtime.rs\<close>: the in-flight counter and its
  permits, the circuit breaker whose thresholds are fields of the provider (and which can be
  switched off there), its attempt guards, and the ring of the 50 most recent errors.  A guard
  carries the provider it was begun with.  Operations on one state come first, then the book.
\<close>

section \<open>State and views\<close>

record provider_runtime_state =
  rs_in_flight :: nat
  rs_generation :: u64w
  rs_next_probe_id :: u64w
  rs_probe_owner :: "u64w option"
  rs_consecutive_failures :: nat
  rs_success_count :: nat
  rs_failure_count :: nat
  rs_half_open_successes :: nat
  rs_latency_ewma_ms :: "f64 option"
  rs_open_until_ms :: "int option"
  rs_last_status :: "int option"
  rs_last_error_type :: "string option"
  rs_last_error_message :: "string option"
  rs_last_success_at_ms :: "int option"
  rs_last_failure_at_ms :: "int option"

definition runtime_default :: provider_runtime_state where
  "runtime_default =
     \<lparr>rs_in_flight = 0, rs_generation = 1, rs_next_probe_id = 0, rs_probe_owner = None,
      rs_consecutive_failures = 0, rs_success_count = 0, rs_failure_count = 0,
      rs_half_open_successes = 0, rs_latency_ewma_ms = None, rs_open_until_ms = None,
      rs_last_status = None, rs_last_error_type = None, rs_last_error_message = None,
      rs_last_success_at_ms = None, rs_last_failure_at_ms = None\<rparr>"

record provider_runtime_view =
  rv_state :: circuit_state
  rv_available :: bool
  rv_in_flight :: nat
  rv_max_concurrency :: "int option"
  rv_consecutive_failures :: nat
  rv_success_count :: nat
  rv_failure_count :: nat
  rv_half_open_successes :: nat
  rv_latency_ewma_ms :: "int option"
  rv_open_until_ms :: "int option"
  rv_last_status :: "int option"
  rv_last_error_type :: "string option"
  rv_last_error_message :: "string option"
  rv_last_success_at_ms :: "int option"
  rv_last_failure_at_ms :: "int option"

datatype breaker_transition = Unchanged | Opened

record runtime_error =
  re_time_ms :: int
  re_endpoint_id :: int
  re_key_id :: int
  re_category :: string
  re_status :: "int option"
  re_summary :: string

record provider_runtime_book =
  prb_errors :: "int \<rightharpoonup> runtime_error list"
  prb_by_provider :: "int \<rightharpoonup> provider_runtime_state"

definition runtime_book_new :: provider_runtime_book where
  "runtime_book_new = \<lparr>prb_errors = Map.empty, prb_by_provider = Map.empty\<rparr>"

text \<open>\<open>n.max(k) as u32\<close> for the \<open>i32\<close> limits of a provider.\<close>

definition threshold :: "int \<Rightarrow> int \<Rightarrow> nat" where
  "threshold n k = nat (max n k)"

text \<open>What the admin interface accepts for the resilience fields (\<open>admin.rs\<close>).\<close>

definition validate_provider_resilience ::
  "int \<Rightarrow> int option \<Rightarrow> int \<Rightarrow> int \<Rightarrow> int \<Rightarrow> string + unit" where
  "validate_provider_resilience max_attempts max_concurrency failure_threshold open_ms
       half_open_success_threshold =
     (if \<not> (1 \<le> max_attempts \<and> max_attempts \<le> 10)
      then Inl ''max_attempts must be between 1 and 10''
      else if is_some_and max_concurrency (\<lambda>v. \<not> (1 \<le> v \<and> v \<le> 100000))
      then Inl ''max_concurrency must be null or between 1 and 100000''
      else if \<not> (1 \<le> failure_threshold \<and> failure_threshold \<le> 100)
      then Inl ''circuit breaker failure threshold must be between 1 and 100''
      else if \<not> (1000 \<le> open_ms \<and> open_ms \<le> 86400000)
      then Inl ''circuit breaker open duration must be between 1000 and 86400000 ms''
      else if \<not> (1 \<le> half_open_success_threshold \<and> half_open_success_threshold \<le> 20)
      then Inl ''half-open success threshold must be between 1 and 20''
      else Inr ())"

text \<open>A provider that passed it.\<close>

definition resilience_valid :: "upstream_provider \<Rightarrow> bool" where
  "resilience_valid p \<longleftrightarrow>
     validate_provider_resilience (p_max_attempts p) (p_max_concurrency p)
       (p_circuit_breaker_failure_threshold p) (p_circuit_breaker_open_ms p)
       (p_circuit_breaker_half_open_success_threshold p) = Inr ()"

section \<open>One state\<close>

definition circuit_state_of :: "upstream_provider \<Rightarrow> provider_runtime_state \<Rightarrow> int \<Rightarrow> circuit_state" where
  "circuit_state_of provider s now_ms =
     (if \<not> p_circuit_breaker_enabled provider then Closed
      else case rs_open_until_ms s of
             Some until_ms \<Rightarrow> (if now_ms < until_ms then Open else HalfOpen)
           | None \<Rightarrow> Closed)"

definition runtime_token_matches :: "provider_runtime_state \<Rightarrow> attempt_token \<Rightarrow> bool" where
  "runtime_token_matches s token \<longleftrightarrow>
     rs_generation s = tk_generation token \<and>
     is_none_or (tk_probe_id token) (\<lambda>probe_id. rs_probe_owner s = Some probe_id)"

definition runtime_release_probe :: "provider_runtime_state \<Rightarrow> attempt_token \<Rightarrow> provider_runtime_state" where
  "runtime_release_probe s token =
     (if is_some_and (tk_probe_id token) (\<lambda>probe_id. rs_probe_owner s = Some probe_id)
      then s\<lparr>rs_probe_owner := None\<rparr> else s)"

definition runtime_advance_generation :: "provider_runtime_state \<Rightarrow> provider_runtime_state" where
  "runtime_advance_generation s =
     s\<lparr>rs_generation := next_u64 (rs_generation s), rs_probe_owner := None\<rparr>"

definition clear_breaker_state :: "provider_runtime_state \<Rightarrow> provider_runtime_state" where
  "clear_breaker_state s =
     s\<lparr>rs_consecutive_failures := 0, rs_open_until_ms := None, rs_half_open_successes := 0,
       rs_probe_owner := None\<rparr>"

definition runtime_begin ::
  "upstream_provider \<Rightarrow> provider_runtime_state \<Rightarrow> int \<Rightarrow> attempt_token option \<times> provider_runtime_state" where
  "runtime_begin provider s now_ms =
     (case circuit_state_of provider s now_ms of
       Closed \<Rightarrow> (Some \<lparr>tk_generation = rs_generation s, tk_probe_id = None\<rparr>, s)
     | Open \<Rightarrow> (None, s)
     | HalfOpen \<Rightarrow>
         (if rs_probe_owner s \<noteq> None then (None, s)
          else
            (let p = next_u64 (rs_next_probe_id s);
                 s' = s\<lparr>rs_next_probe_id := p, rs_probe_owner := Some p\<rparr>
             in (Some \<lparr>tk_generation = rs_generation s', tk_probe_id = Some p\<rparr>, s'))))"

definition runtime_ewma_alpha :: f64 where
  "runtime_ewma_alpha = f64_of_rat (1 / 5)"

definition runtime_ewma :: "f64 option \<Rightarrow> int option \<Rightarrow> f64 option" where
  "runtime_ewma current latency_ms =
     (case opt_filter (\<lambda>v. 0 \<le> v) latency_ms of
       None \<Rightarrow> current
     | Some l \<Rightarrow>
         Some (case current of
                 Some c \<Rightarrow>
                   f64_add (f64_mul c (f64_sub (f64_of_rat 1) runtime_ewma_alpha))
                     (f64_mul (f64_of_int l) runtime_ewma_alpha)
               | None \<Rightarrow> f64_of_int l))"

definition runtime_success ::
  "upstream_provider \<Rightarrow> provider_runtime_state \<Rightarrow> attempt_token \<Rightarrow> int option \<Rightarrow> int option \<Rightarrow> int
     \<Rightarrow> provider_runtime_state" where
  "runtime_success provider s0 token status latency_ms now_ms =
     (let s = s0\<lparr>rs_success_count := u64_saturating_add (rs_success_count s0) 1,
                 rs_latency_ewma_ms := runtime_ewma (rs_latency_ewma_ms s0) latency_ms\<rparr>
      in if \<not> runtime_token_matches s token then s
         else
           (let previous_state = circuit_state_of provider s now_ms;
                s1 = s\<lparr>rs_last_status := status, rs_last_error_type := None,
                       rs_last_error_message := None, rs_last_success_at_ms := Some now_ms\<rparr>;
                s2 = runtime_release_probe s1 token
            in if \<not> p_circuit_breaker_enabled provider then clear_breaker_state s2
               else if previous_state = HalfOpen then
                 (let s3 = s2\<lparr>rs_half_open_successes :=
                               u32_saturating_add (rs_half_open_successes s2) 1\<rparr>
                  in if threshold (p_circuit_breaker_half_open_success_threshold provider) 1
                         \<le> rs_half_open_successes s3
                     then clear_breaker_state (runtime_advance_generation s3) else s3)
               else s2\<lparr>rs_consecutive_failures := 0, rs_open_until_ms := None,
                       rs_half_open_successes := 0\<rparr>))"

definition runtime_failure ::
  "upstream_provider \<Rightarrow> provider_runtime_state \<Rightarrow> attempt_token \<Rightarrow> int option \<Rightarrow> string \<Rightarrow> string \<Rightarrow> int
     \<Rightarrow> breaker_transition \<times> provider_runtime_state" where
  "runtime_failure provider s0 token status error_type error_message now_ms =
     (let s = s0\<lparr>rs_failure_count := u64_saturating_add (rs_failure_count s0) 1\<rparr>
      in if \<not> runtime_token_matches s token then (Unchanged, s)
         else
           (let previous_state = circuit_state_of provider s now_ms;
                s1 = s\<lparr>rs_last_status := status, rs_last_error_type := Some error_type,
                       rs_last_error_message := Some error_message,
                       rs_last_failure_at_ms := Some now_ms\<rparr>;
                s2 = runtime_release_probe s1 token;
                s3 = s2\<lparr>rs_consecutive_failures :=
                          u32_saturating_add (rs_consecutive_failures s2) 1\<rparr>;
                limit = threshold (p_circuit_breaker_failure_threshold provider) 1
            in if \<not> p_circuit_breaker_enabled provider then
                 (Unchanged, s3\<lparr>rs_open_until_ms := None, rs_half_open_successes := 0\<rparr>)
               else
                 (let s4 = (if previous_state = HalfOpen
                            then s3\<lparr>rs_consecutive_failures := max (rs_consecutive_failures s3) limit\<rparr>
                            else s3)
                  in if limit \<le> rs_consecutive_failures s4 then
                       (Opened,
                        runtime_advance_generation
                          (s4\<lparr>rs_open_until_ms :=
                                Some (i64_saturating_add now_ms
                                  (cooldown_ms (p_circuit_breaker_open_ms provider)
                                     ((rs_consecutive_failures s4 - limit) + 1))),
                              rs_half_open_successes := 0\<rparr>))
                     else (Unchanged, s4))))"

definition runtime_neutral :: "provider_runtime_state \<Rightarrow> attempt_token \<Rightarrow> provider_runtime_state" where
  "runtime_neutral s token =
     (if runtime_token_matches s token then runtime_release_probe s token else s)"

definition runtime_reset :: "provider_runtime_state \<Rightarrow> provider_runtime_state" where
  "runtime_reset s =
     (runtime_advance_generation s)
       \<lparr>rs_consecutive_failures := 0, rs_half_open_successes := 0, rs_probe_owner := None,
        rs_open_until_ms := None, rs_last_status := None, rs_last_error_type := None,
        rs_last_error_message := None, rs_last_failure_at_ms := None\<rparr>"

definition runtime_to_view :: "upstream_provider \<Rightarrow> provider_runtime_state \<Rightarrow> int \<Rightarrow> provider_runtime_view" where
  "runtime_to_view provider s now_ms =
     (let state = circuit_state_of provider s now_ms;
          capacity_available =
            is_none_or (p_max_concurrency provider) (\<lambda>limit. rs_in_flight s < threshold limit 0)
      in \<lparr>rv_state = state,
          rv_available =
            p_enabled provider \<and> capacity_available \<and>
            (case state of Closed \<Rightarrow> True | Open \<Rightarrow> False | HalfOpen \<Rightarrow> rs_probe_owner s = None),
          rv_in_flight = rs_in_flight s,
          rv_max_concurrency = p_max_concurrency provider,
          rv_consecutive_failures = rs_consecutive_failures s,
          rv_success_count = rs_success_count s,
          rv_failure_count = rs_failure_count s,
          rv_half_open_successes = rs_half_open_successes s,
          rv_latency_ewma_ms = map_option (\<lambda>v. f64_to_i64 (f64_round v)) (rs_latency_ewma_ms s),
          rv_open_until_ms = (if state = Open then rs_open_until_ms s else None),
          rv_last_status = rs_last_status s,
          rv_last_error_type = rs_last_error_type s,
          rv_last_error_message = rs_last_error_message s,
          rv_last_success_at_ms = rs_last_success_at_ms s,
          rv_last_failure_at_ms = rs_last_failure_at_ms s\<rparr>)"

section \<open>The book\<close>

definition prb_entry :: "provider_runtime_book \<Rightarrow> int \<Rightarrow> provider_runtime_state" where
  "prb_entry book i = unwrap_or (prb_by_provider book i) runtime_default"

definition prb_put :: "provider_runtime_book \<Rightarrow> int \<Rightarrow> provider_runtime_state \<Rightarrow> provider_runtime_book" where
  "prb_put book i s = book\<lparr>prb_by_provider := (prb_by_provider book)(i \<mapsto> s)\<rparr>"

definition recent_errors :: "provider_runtime_book \<Rightarrow> int \<Rightarrow> runtime_error list" where
  "recent_errors book i = (case prb_errors book i of Some v \<Rightarrow> rev v | None \<Rightarrow> [])"

definition record_error ::
  "provider_runtime_book \<Rightarrow> int \<Rightarrow> int \<Rightarrow> int \<Rightarrow> string \<Rightarrow> int option \<Rightarrow> int \<Rightarrow> provider_runtime_book" where
  "record_error book i endpoint key category status now_ms =
     (let entries = unwrap_or (prb_errors book i) [];
          entries = (if length entries = 50 then tl entries else entries)
      in book\<lparr>prb_errors := (prb_errors book)(i \<mapsto> entries @
           [\<lparr>re_time_ms = now_ms, re_endpoint_id = endpoint, re_key_id = key, re_category = category,
             re_status = status, re_summary = ''Upstream attempt failed''\<rparr>])\<rparr>)"

definition prb_snapshot :: "provider_runtime_book \<Rightarrow> upstream_provider \<Rightarrow> int \<Rightarrow> provider_runtime_view" where
  "prb_snapshot book provider now_ms =
     (case prb_by_provider book (p_id provider) of
       None \<Rightarrow>
         \<lparr>rv_state = Closed, rv_available = p_enabled provider, rv_in_flight = 0,
          rv_max_concurrency = p_max_concurrency provider, rv_consecutive_failures = 0,
          rv_success_count = 0, rv_failure_count = 0, rv_half_open_successes = 0,
          rv_latency_ewma_ms = None, rv_open_until_ms = None, rv_last_status = None,
          rv_last_error_type = None, rv_last_error_message = None, rv_last_success_at_ms = None,
          rv_last_failure_at_ms = None\<rparr>
     | Some s \<Rightarrow> runtime_to_view provider s now_ms)"

text \<open>A capacity permit is the id of the provider it was acquired for; dropping it releases it.\<close>

definition try_acquire_capacity ::
  "provider_runtime_book \<Rightarrow> upstream_provider \<Rightarrow> int option \<times> provider_runtime_book" where
  "try_acquire_capacity book provider =
     (let s = prb_entry book (p_id provider) in
      if is_some_and (p_max_concurrency provider) (\<lambda>limit. threshold limit 0 \<le> rs_in_flight s)
      then (None, prb_put book (p_id provider) s)
      else (Some (p_id provider),
            prb_put book (p_id provider) (s\<lparr>rs_in_flight := u32_saturating_add (rs_in_flight s) 1\<rparr>)))"

definition release_capacity :: "provider_runtime_book \<Rightarrow> int \<Rightarrow> provider_runtime_book" where
  "release_capacity book i =
     (case prb_by_provider book i of
       None \<Rightarrow> book
     | Some s \<Rightarrow> prb_put book i (s\<lparr>rs_in_flight := rs_in_flight s - 1\<rparr>))"

record provider_guard =
  pg_provider :: upstream_provider
  pg_token :: attempt_token
  pg_active :: bool

definition prb_try_begin_attempt ::
  "provider_runtime_book \<Rightarrow> upstream_provider \<Rightarrow> int \<Rightarrow> provider_guard option \<times> provider_runtime_book" where
  "prb_try_begin_attempt book provider now_ms =
     (case runtime_begin provider (prb_entry book (p_id provider)) now_ms of
       (None, s) \<Rightarrow> (None, prb_put book (p_id provider) s)
     | (Some token, s) \<Rightarrow>
         (Some \<lparr>pg_provider = provider, pg_token = token, pg_active = True\<rparr>,
          prb_put book (p_id provider) s))"

definition prb_finish_success ::
  "provider_runtime_book \<Rightarrow> upstream_provider \<Rightarrow> attempt_token \<Rightarrow> int option \<Rightarrow> int option \<Rightarrow> int
     \<Rightarrow> provider_runtime_book" where
  "prb_finish_success book provider token status latency_ms now_ms =
     prb_put book (p_id provider)
       (runtime_success provider (prb_entry book (p_id provider)) token status latency_ms now_ms)"

definition prb_finish_failure ::
  "provider_runtime_book \<Rightarrow> upstream_provider \<Rightarrow> attempt_token \<Rightarrow> int option \<Rightarrow> string \<Rightarrow> string \<Rightarrow> int
     \<Rightarrow> breaker_transition \<times> provider_runtime_book" where
  "prb_finish_failure book provider token status error_type error_message now_ms =
     (let (transition, s) = runtime_failure provider (prb_entry book (p_id provider)) token status
            error_type error_message now_ms
      in (transition, prb_put book (p_id provider) s))"

definition prb_reset :: "provider_runtime_book \<Rightarrow> int \<Rightarrow> provider_runtime_book" where
  "prb_reset book i = prb_put book i (runtime_reset (prb_entry book i))"

definition purge_provider :: "provider_runtime_book \<Rightarrow> int \<Rightarrow> provider_runtime_book" where
  "purge_provider book i =
     book\<lparr>prb_errors := (prb_errors book)(i := None),
          prb_by_provider := (prb_by_provider book)(i := None)\<rparr>"

definition prb_finish_neutral :: "provider_runtime_book \<Rightarrow> int \<Rightarrow> attempt_token \<Rightarrow> provider_runtime_book" where
  "prb_finish_neutral book i token =
     (case prb_by_provider book i of
       None \<Rightarrow> book
     | Some s \<Rightarrow> prb_put book i (runtime_neutral s token))"

section \<open>The attempt guard\<close>

definition pguard_is_current :: "provider_runtime_book \<Rightarrow> provider_guard \<Rightarrow> bool" where
  "pguard_is_current book g =
     is_some_and (prb_by_provider book (p_id (pg_provider g))) (\<lambda>s. runtime_token_matches s (pg_token g))"

definition is_half_open_probe :: "provider_guard \<Rightarrow> bool" where
  "is_half_open_probe g \<longleftrightarrow> tk_probe_id (pg_token g) \<noteq> None"

definition pguard_drop :: "provider_runtime_book \<Rightarrow> provider_guard \<Rightarrow> provider_runtime_book" where
  "pguard_drop book g =
     (if pg_active g then prb_finish_neutral book (p_id (pg_provider g)) (pg_token g) else book)"

definition pguard_success ::
  "provider_runtime_book \<Rightarrow> provider_guard \<Rightarrow> int option \<Rightarrow> int option \<Rightarrow> int \<Rightarrow> provider_runtime_book" where
  "pguard_success book g status latency_ms now_ms =
     (let g' = g\<lparr>pg_active := False\<rparr>
      in pguard_drop
           (prb_finish_success book (pg_provider g') (pg_token g') status latency_ms now_ms) g')"

definition pguard_failure ::
  "provider_runtime_book \<Rightarrow> provider_guard \<Rightarrow> int option \<Rightarrow> string \<Rightarrow> string \<Rightarrow> int
     \<Rightarrow> breaker_transition \<times> provider_runtime_book" where
  "pguard_failure book g status error_type error_message now_ms =
     (let g' = g\<lparr>pg_active := False\<rparr>;
          (transition, book') = prb_finish_failure book (pg_provider g') (pg_token g') status
             error_type error_message now_ms
      in (transition, pguard_drop book' g'))"

definition pguard_neutral :: "provider_runtime_book \<Rightarrow> provider_guard \<Rightarrow> provider_runtime_book" where
  "pguard_neutral book g =
     (let g' = g\<lparr>pg_active := False\<rparr>
      in pguard_drop (prb_finish_neutral book (p_id (pg_provider g')) (pg_token g')) g')"

section \<open>Histories\<close>

text \<open>An outcome carries the provider of its guard, which may be an older configuration.\<close>

datatype runtime_outcome =
    RSuccess upstream_provider "int option" "int option" int
  | RFailure upstream_provider "int option" string string int
  | RNeutral

datatype runtime_ctl = RReset

fun runtime_finish :: "provider_runtime_state \<Rightarrow> attempt_token \<Rightarrow> runtime_outcome \<Rightarrow> provider_runtime_state" where
  "runtime_finish s t (RSuccess p status lat now) = runtime_success p s t status lat now"
| "runtime_finish s t (RFailure p status et em now) = snd (runtime_failure p s t status et em now)"
| "runtime_finish s t RNeutral = runtime_neutral s t"

fun runtime_control :: "provider_runtime_state \<Rightarrow> runtime_ctl \<Rightarrow> provider_runtime_state" where
  "runtime_control s RReset = runtime_reset s"

definition runtime_history ::
  "upstream_provider \<Rightarrow> (runtime_outcome, runtime_ctl) breaker_event list
     \<Rightarrow> provider_runtime_state \<times> attempt_token list" where
  "runtime_history p es = breaker_run (runtime_begin p) runtime_finish runtime_control (runtime_default, []) es"

text \<open>
  What happens to the capacity of one provider: permits are acquired (possibly under different
  configurations of the provider), live permits are dropped, attempts begin and finish, errors
  are recorded and the breaker is reset in between.
\<close>

datatype capacity_event =
    CAcquire upstream_provider
  | CDrop nat
  | CBegin upstream_provider int
  | CFinish attempt_token runtime_outcome
  | CReset
  | CError int int string "int option" int

fun capacity_step :: "int \<Rightarrow> provider_runtime_book \<times> int list \<Rightarrow> capacity_event \<Rightarrow> provider_runtime_book \<times> int list" where
  "capacity_step i (book, live) (CAcquire p) =
     (case try_acquire_capacity book (p\<lparr>p_id := i\<rparr>) of
       (None, book') \<Rightarrow> (book', live) | (Some permit, book') \<Rightarrow> (book', permit # live))"
| "capacity_step i (book, live) (CDrop k) =
     (if k < length live then (release_capacity book (live ! k), remove_nth k live) else (book, live))"
| "capacity_step i (book, live) (CBegin p now) = (snd (prb_try_begin_attempt book (p\<lparr>p_id := i\<rparr>) now), live)"
| "capacity_step i (book, live) (CFinish t out) =
     (case out of
       RSuccess p status lat now \<Rightarrow> (prb_finish_success book (p\<lparr>p_id := i\<rparr>) t status lat now, live)
     | RFailure p status et em now \<Rightarrow> (snd (prb_finish_failure book (p\<lparr>p_id := i\<rparr>) t status et em now), live)
     | RNeutral \<Rightarrow> (prb_finish_neutral book i t, live))"
| "capacity_step i (book, live) CReset = (prb_reset book i, live)"
| "capacity_step i (book, live) (CError ep key cat status now) = (record_error book i ep key cat status now, live)"

definition capacity_run :: "int \<Rightarrow> capacity_event list \<Rightarrow> provider_runtime_book \<times> int list" where
  "capacity_run i es = foldl (capacity_step i) (runtime_book_new, []) es"

section \<open>Lemmas\<close>

lemma runtime_token_matches_iff:
  "runtime_token_matches s t = token_matches (rs_generation s) (rs_probe_owner s) t"
  by (simp add: runtime_token_matches_def token_matches_def)

lemma runtime_matches_bookkeeping [simp]:
  "runtime_token_matches (s\<lparr>rs_success_count := a, rs_latency_ewma_ms := e\<rparr>) t = runtime_token_matches s t"
  "runtime_token_matches (s\<lparr>rs_failure_count := a\<rparr>) t = runtime_token_matches s t"
  by (simp_all add: runtime_token_matches_def)

lemma runtime_release_sel:
  "rs_generation (runtime_release_probe s t) = rs_generation s"
  "rs_next_probe_id (runtime_release_probe s t) = rs_next_probe_id s"
  "rs_open_until_ms (runtime_release_probe s t) = rs_open_until_ms s"
  "rs_consecutive_failures (runtime_release_probe s t) = rs_consecutive_failures s"
  "rs_half_open_successes (runtime_release_probe s t) = rs_half_open_successes s"
  "rs_in_flight (runtime_release_probe s t) = rs_in_flight s"
  "rs_probe_owner (runtime_release_probe s t) =
     (if is_some_and (tk_probe_id t) (\<lambda>p. rs_probe_owner s = Some p) then None else rs_probe_owner s)"
  by (auto simp: runtime_release_probe_def)

lemma runtime_advance_sel:
  "rs_generation (runtime_advance_generation s) = next_u64 (rs_generation s)"
  "rs_probe_owner (runtime_advance_generation s) = None"
  "rs_next_probe_id (runtime_advance_generation s) = rs_next_probe_id s"
  "rs_open_until_ms (runtime_advance_generation s) = rs_open_until_ms s"
  "rs_consecutive_failures (runtime_advance_generation s) = rs_consecutive_failures s"
  "rs_half_open_successes (runtime_advance_generation s) = rs_half_open_successes s"
  "rs_in_flight (runtime_advance_generation s) = rs_in_flight s"
  by (simp_all add: runtime_advance_generation_def)

lemma clear_breaker_sel:
  "rs_generation (clear_breaker_state s) = rs_generation s"
  "rs_probe_owner (clear_breaker_state s) = None"
  "rs_next_probe_id (clear_breaker_state s) = rs_next_probe_id s"
  "rs_open_until_ms (clear_breaker_state s) = None"
  "rs_consecutive_failures (clear_breaker_state s) = 0"
  "rs_half_open_successes (clear_breaker_state s) = 0"
  "rs_in_flight (clear_breaker_state s) = rs_in_flight s"
  by (simp_all add: clear_breaker_state_def)

lemmas runtime_sel = runtime_release_sel runtime_advance_sel clear_breaker_sel

lemma runtime_success_stale:
  "\<not> runtime_token_matches s t \<Longrightarrow>
   runtime_success p s t status lat now =
     s\<lparr>rs_success_count := u64_saturating_add (rs_success_count s) 1,
       rs_latency_ewma_ms := runtime_ewma (rs_latency_ewma_ms s) lat\<rparr>"
  by (simp add: runtime_success_def Let_def)

lemma runtime_failure_stale:
  "\<not> runtime_token_matches s t \<Longrightarrow>
   runtime_failure p s t status et em now =
     (Unchanged, s\<lparr>rs_failure_count := u64_saturating_add (rs_failure_count s) 1\<rparr>)"
  by (simp add: runtime_failure_def Let_def)

lemma runtime_success_sel:
  "rs_next_probe_id (runtime_success p s t status lat now) = rs_next_probe_id s"
  "rs_in_flight (runtime_success p s t status lat now) = rs_in_flight s"
  by (auto simp: runtime_success_def Let_def runtime_sel)

lemma runtime_failure_sel:
  "rs_next_probe_id (snd (runtime_failure p s t status et em now)) = rs_next_probe_id s"
  "rs_in_flight (snd (runtime_failure p s t status et em now)) = rs_in_flight s"
  by (auto simp: runtime_failure_def Let_def runtime_sel)

lemma runtime_success_match:
  "runtime_token_matches s t \<Longrightarrow>
   (rs_generation (runtime_success p s t status lat now) = next_u64 (rs_generation s) \<and>
      rs_probe_owner (runtime_success p s t status lat now) = None) \<or>
   (rs_generation (runtime_success p s t status lat now) = rs_generation s \<and>
      (rs_probe_owner (runtime_success p s t status lat now) = None \<or>
        (tk_probe_id t = None \<and>
         rs_probe_owner (runtime_success p s t status lat now) = rs_probe_owner s)))"
  by (cases "tk_probe_id t")
    (auto simp: runtime_success_def Let_def runtime_sel runtime_token_matches_def
      is_some_and_def is_none_or_def)

lemma runtime_failure_match:
  "runtime_token_matches s t \<Longrightarrow>
   (rs_generation (snd (runtime_failure p s t status et em now)) = next_u64 (rs_generation s) \<and>
      rs_probe_owner (snd (runtime_failure p s t status et em now)) = None) \<or>
   (rs_generation (snd (runtime_failure p s t status et em now)) = rs_generation s \<and>
      (rs_probe_owner (snd (runtime_failure p s t status et em now)) = None \<or>
        (tk_probe_id t = None \<and>
         rs_probe_owner (snd (runtime_failure p s t status et em now)) = rs_probe_owner s)))"
  by (cases "tk_probe_id t")
    (auto simp: runtime_failure_def Let_def runtime_sel runtime_token_matches_def
      is_some_and_def is_none_or_def)

lemma runtime_neutral_sel:
  "rs_next_probe_id (runtime_neutral s t) = rs_next_probe_id s"
  "rs_in_flight (runtime_neutral s t) = rs_in_flight s"
  "rs_generation (runtime_neutral s t) = rs_generation s"
  "rs_open_until_ms (runtime_neutral s t) = rs_open_until_ms s"
  by (simp_all add: runtime_neutral_def runtime_sel)

interpretation rb: circuit_breaker
  "circuit_state_of p" rs_generation rs_probe_owner rs_next_probe_id
  "runtime_begin p" runtime_finish runtime_control runtime_default
  for p
proof (unfold_locales, goal_cases)
  case (8 s t out)
  then show ?case
    by (cases out) (simp_all add: runtime_success_sel runtime_failure_sel runtime_neutral_sel)
next
  case (9 s t out now)
  then have "\<not> runtime_token_matches s t" by (simp add: runtime_token_matches_iff)
  then show ?case
    by (cases out)
      (simp_all add: runtime_success_stale runtime_failure_stale runtime_neutral_def circuit_state_of_def)
next
  case (10 s t out)
  then have m: "runtime_token_matches s t" by (simp add: runtime_token_matches_iff)
  show ?case
  proof (cases out)
    case (RSuccess p status lat now)
    then show ?thesis using runtime_success_match [OF m, of p status lat now] by simp
  next
    case (RFailure p status et em now)
    then show ?thesis using runtime_failure_match [OF m, of p status et em now] by simp
  next
    case RNeutral
    then show ?thesis using m
      by (cases "tk_probe_id t")
        (auto simp: runtime_neutral_def runtime_sel runtime_token_matches_def is_some_and_def is_none_or_def)
  qed
next
  case (11 s c)
  then show ?case by (cases c) (simp add: runtime_reset_def runtime_sel)
next
  case (12 s c)
  then show ?case by (cases c) (simp add: runtime_reset_def runtime_sel)
qed (auto simp: runtime_default_def runtime_begin_def Let_def)

lemma prb_entry_put [simp]: "prb_entry (prb_put book i s) i = s"
  by (simp add: prb_entry_def prb_put_def unwrap_or_def)

lemma prb_snapshot_put [simp]:
  "prb_snapshot (prb_put book (p_id p) s) p now = runtime_to_view p s now"
  by (simp add: prb_snapshot_def prb_put_def)

text \<open>The in-flight counter is the number of live permits, and only permits move it.\<close>

lemma capacity_in_flight_other:
  "(\<forall>p. e \<noteq> CAcquire p) \<Longrightarrow> (\<forall>k. e \<noteq> CDrop k) \<Longrightarrow>
   rs_in_flight (prb_entry (fst (capacity_step i (book, live) e)) i) = rs_in_flight (prb_entry book i) \<and>
   snd (capacity_step i (book, live) e) = live"
proof (cases e)
  case (CBegin p now)
  then show ?thesis
    by (auto simp: prb_try_begin_attempt_def runtime_begin_def Let_def
        split: prod.splits option.splits circuit_state.splits if_splits)
next
  case (CFinish t out)
  then show ?thesis
    by (cases out)
      (auto simp: prb_finish_success_def prb_finish_failure_def prb_finish_neutral_def prb_entry_def
        prb_put_def unwrap_or_def runtime_success_sel runtime_failure_sel runtime_neutral_sel
        Let_def case_prod_unfold split: option.splits)
next
  case CReset
  then show ?thesis by (simp add: prb_reset_def runtime_reset_def runtime_sel)
next
  case (CError ep key cat status now)
  then show ?thesis by (simp add: record_error_def prb_entry_def Let_def)
qed auto

definition capacity_inv :: "int \<Rightarrow> nat \<Rightarrow> provider_runtime_book \<times> int list \<Rightarrow> bool" where
  "capacity_inv i n bl \<longleftrightarrow>
     rs_in_flight (prb_entry (fst bl) i) = length (snd bl) \<and> length (snd bl) \<le> n \<and>
     set (snd bl) \<subseteq> {i}"

lemma release_capacity_entry:
  "0 < rs_in_flight (prb_entry book i) \<Longrightarrow>
   rs_in_flight (prb_entry (release_capacity book i) i) = rs_in_flight (prb_entry book i) - 1"
  by (auto simp: release_capacity_def prb_entry_def prb_put_def unwrap_or_def runtime_default_def
      split: option.splits)

lemma length_remove_nth: "k < length xs \<Longrightarrow> length (remove_nth k xs) = length xs - 1"
  by (simp add: remove_nth_def)

lemma capacity_step_inv:
  assumes inv: "capacity_inv i n bl" and n: "n < u32_max"
  shows "capacity_inv i (Suc n) (capacity_step i bl e)"
proof -
  obtain book live where bl: "bl = (book, live)" by (cases bl)
  consider (acq) p where "e = CAcquire p" | (drop) k where "e = CDrop k"
    | (other) "\<forall>p. e \<noteq> CAcquire p" "\<forall>k. e \<noteq> CDrop k"
    by (cases e) auto
  then show ?thesis
  proof cases
    case acq
    have "u32_saturating_add (rs_in_flight (prb_entry book i)) 1 = Suc (length live)"
      using inv n by (simp add: capacity_inv_def bl u32_saturating_add_def)
    then show ?thesis using inv
      by (auto simp: acq bl capacity_inv_def try_acquire_capacity_def Let_def)
  next
    case (drop k)
    show ?thesis
    proof (cases "k < length live")
      case True
      have "set live \<subseteq> {i}" using inv by (simp add: capacity_inv_def bl)
      then have "live ! k = i" using nth_mem [OF True] by blast
      moreover have "set (remove_nth k live) \<subseteq> {i}"
        using inv set_remove_nth [of k live] by (auto simp: capacity_inv_def bl)
      moreover have "0 < rs_in_flight (prb_entry book i)"
        using True inv by (auto simp: capacity_inv_def bl)
      ultimately show ?thesis using True inv
        by (simp add: drop bl capacity_inv_def release_capacity_entry length_remove_nth le_SucI le_diff_conv)
    qed (use inv in \<open>simp add: drop bl capacity_inv_def\<close>)
  next
    case other
    then show ?thesis using inv capacity_in_flight_other [of e i book live]
      by (simp add: bl capacity_inv_def)
  qed
qed

lemma capacity_run_inv: "length es \<le> u32_max \<Longrightarrow> capacity_inv i (length es) (capacity_run i es)"
proof (induction es rule: rev_induct)
  case Nil
  then show ?case
    by (simp add: capacity_inv_def capacity_run_def runtime_book_new_def prb_entry_def unwrap_or_def
        runtime_default_def)
next
  case (snoc e es)
  then show ?case using capacity_step_inv [of i "length es" "capacity_run i es" e]
    by (simp add: capacity_run_def)
qed

text \<open>A permit is only granted below the limit, so live permits stay below the largest one.\<close>

lemma capacity_step_limit:
  assumes "capacity_inv i n bl" and "length (snd bl) \<le> m"
    and "\<forall>p. e = CAcquire p \<longrightarrow> (\<exists>l. p_max_concurrency p = Some l \<and> threshold l 0 \<le> m)"
  shows "length (snd (capacity_step i bl e)) \<le> m"
proof -
  obtain book live where bl: "bl = (book, live)" by (cases bl)
  consider (acq) p where "e = CAcquire p" | (drop) k where "e = CDrop k"
    | (other) "\<forall>p. e \<noteq> CAcquire p" "\<forall>k. e \<noteq> CDrop k"
    by (cases e) auto
  then show ?thesis
  proof cases
    case acq
    then show ?thesis using assms
      by (auto simp: bl capacity_inv_def try_acquire_capacity_def Let_def is_some_and_def)
  next
    case (drop k)
    then show ?thesis using assms(2) by (auto simp: bl length_remove_nth)
  next
    case other
    then show ?thesis using capacity_in_flight_other [of e i book live] assms(2) by (simp add: bl)
  qed
qed

lemma capacity_run_limit:
  "length es \<le> u32_max \<Longrightarrow>
   \<forall>p. CAcquire p \<in> set es \<longrightarrow> (\<exists>l. p_max_concurrency p = Some l \<and> threshold l 0 \<le> m) \<Longrightarrow>
   length (snd (capacity_run i es)) \<le> m"
proof (induction es rule: rev_induct)
  case Nil
  then show ?case by (simp add: capacity_run_def)
next
  case (snoc e es)
  then have "length (snd (capacity_step i (capacity_run i es) e)) \<le> m"
    by (intro capacity_step_limit [OF capacity_run_inv]) auto
  then show ?case by (simp add: capacity_run_def)
qed

lemma resilience_valid_bounds:
  assumes "resilience_valid p"
  shows "1 \<le> p_max_attempts p \<and> p_max_attempts p \<le> 10"
    and "p_max_concurrency p = Some l \<Longrightarrow> 1 \<le> l \<and> l \<le> 100000"
    and "1 \<le> p_circuit_breaker_failure_threshold p \<and> p_circuit_breaker_failure_threshold p \<le> 100"
    and "1000 \<le> p_circuit_breaker_open_ms p \<and> p_circuit_breaker_open_ms p \<le> 86400000"
    and "1 \<le> p_circuit_breaker_half_open_success_threshold p \<and>
         p_circuit_breaker_half_open_success_threshold p \<le> 20"
  using assms
  by (simp_all add: resilience_valid_def validate_provider_resilience_def is_some_and_def
      split: if_splits option.splits)

lemma runtime_failure_cases:
  assumes "p_circuit_breaker_enabled p" and "runtime_token_matches s t"
    and "rs_consecutive_failures s < u32_max"
    and "runtime_failure p s t status et em now = (tr, s')"
    and "limit = threshold (p_circuit_breaker_failure_threshold p) 1"
  shows "(tr = Opened \<longleftrightarrow> limit \<le> rs_consecutive_failures s + 1 \<or> circuit_state_of p s now = HalfOpen) \<and>
         (tr = Opened \<longrightarrow>
            rs_open_until_ms s' = Some (i64_saturating_add now
              (cooldown_ms (p_circuit_breaker_open_ms p) (rs_consecutive_failures s' - limit + 1))) \<and>
            rs_probe_owner s' = None) \<and>
         (tr = Unchanged \<longrightarrow>
            rs_open_until_ms s' = rs_open_until_ms s \<and>
            rs_consecutive_failures s' = rs_consecutive_failures s + 1)"
proof -
  have "u32_saturating_add (rs_consecutive_failures s) 1 = rs_consecutive_failures s + 1"
    using assms(3) by (simp add: u32_saturating_add_def)
  moreover have "circuit_state_of p (s\<lparr>rs_failure_count := x\<rparr>) now = circuit_state_of p s now" for x
    by (simp add: circuit_state_of_def)
  ultimately show ?thesis using assms
    by (auto simp: runtime_failure_def Let_def runtime_sel split: if_splits)
qed

text \<open>One probe of a half-open provider that succeeds.\<close>

definition probe_cycle :: "upstream_provider \<Rightarrow> int \<Rightarrow> provider_runtime_state \<Rightarrow> provider_runtime_state" where
  "probe_cycle p now s =
     (case runtime_begin p s now of
       (Some t, s') \<Rightarrow> runtime_success p s' t None None now
     | (None, s') \<Rightarrow> s')"

lemma probe_cycle_half_open:
  assumes "p_circuit_breaker_enabled p" and "circuit_state_of p s now = HalfOpen"
    and "rs_probe_owner s = None" and "rs_half_open_successes s < u32_max"
    and "limit = threshold (p_circuit_breaker_half_open_success_threshold p) 1"
  shows "(rs_half_open_successes s + 1 < limit \<longrightarrow>
            circuit_state_of p (probe_cycle p now s) now = HalfOpen \<and>
            rs_probe_owner (probe_cycle p now s) = None \<and>
            rs_half_open_successes (probe_cycle p now s) = rs_half_open_successes s + 1) \<and>
         (limit \<le> rs_half_open_successes s + 1 \<longrightarrow>
            (\<forall>now'. circuit_state_of p (probe_cycle p now s) now' = Closed) \<and>
            rs_consecutive_failures (probe_cycle p now s) = 0)"
proof -
  obtain u where u: "rs_open_until_ms s = Some u" "u \<le> now"
    using assms(1,2) by (auto simp: circuit_state_of_def split: option.splits if_splits)
  have "u32_saturating_add (rs_half_open_successes s) 1 = rs_half_open_successes s + 1"
    using assms(4) by (simp add: u32_saturating_add_def)
  then show ?thesis using assms u
    by (auto simp: probe_cycle_def runtime_begin_def runtime_success_def runtime_token_matches_def
        circuit_state_of_def runtime_sel Let_def is_none_or_def is_some_and_def)
qed

text \<open>A snapshot says available exactly when an enabled provider would admit a request.\<close>

lemma prb_snapshot_available:
  assumes "resilience_valid p"
  shows "rv_available (prb_snapshot book p now) \<longleftrightarrow>
     p_enabled p \<and> fst (try_acquire_capacity book p) \<noteq> None \<and>
     fst (prb_try_begin_attempt book p now) \<noteq> None"
proof (cases "prb_by_provider book (p_id p)")
  case None
  then show ?thesis using assms resilience_valid_bounds(2) [OF assms]
    by (auto simp: prb_snapshot_def try_acquire_capacity_def prb_entry_def unwrap_or_def Let_def
        prb_try_begin_attempt_def runtime_begin_def runtime_default_def circuit_state_of_def
        is_none_or_def is_some_and_def threshold_def split: option.splits)
next
  case (Some s)
  then show ?thesis
    by (auto simp: prb_snapshot_def runtime_to_view_def Let_def try_acquire_capacity_def prb_entry_def
        unwrap_or_def prb_try_begin_attempt_def runtime_begin_def is_some_and_def is_none_or_def
        not_less split: circuit_state.splits option.splits if_splits)
qed

section \<open>Properties\<close>


text \<open>When a matching attempt fails under an enabled breaker, the breaker opens exactly when
  the failures in a row reach the provider's threshold or the attempt was a half-open probe; it
  then refuses every attempt for at least 30 seconds and admits one again afterwards. Below the
  threshold the breaker state is kept and only the count grows.\<close>

theorem provider_breaker_opens:
  assumes "p_circuit_breaker_enabled p" and "runtime_token_matches s t"
    and "rs_consecutive_failures s < u32_max"
    and "runtime_failure p s t status et em now = (tr, s')"
    and "0 \<le> now" and "now + max COOLDOWN_MAX_MS (p_circuit_breaker_open_ms p) \<le> i64_max"
  shows "(tr = Opened \<longleftrightarrow>
            p_circuit_breaker_failure_threshold p \<le> int (rs_consecutive_failures s) + 1 \<or>
            circuit_state_of p s now = HalfOpen) \<and>
         (tr = Opened \<longrightarrow> (\<exists>until \<ge> now + COOLDOWN_BASE_MS.
            \<forall>now'. fst (runtime_begin p s' now') \<noteq> None \<longleftrightarrow> until \<le> now')) \<and>
         (tr = Unchanged \<longrightarrow>
            circuit_state_of p s' now' = circuit_state_of p s now' \<and>
            rs_consecutive_failures s' = rs_consecutive_failures s + 1)"
proof -
  define limit where "limit = threshold (p_circuit_breaker_failure_threshold p) 1"
  note c = runtime_failure_cases [OF assms(1-4) limit_def]
  define d where "d = cooldown_ms (p_circuit_breaker_open_ms p) (rs_consecutive_failures s' - limit + 1)"
  have "p_circuit_breaker_open_ms p \<le> i64_max" using assms(5,6) by simp
  then have d: "COOLDOWN_BASE_MS \<le> d" "d \<le> max COOLDOWN_MAX_MS (p_circuit_breaker_open_ms p)"
    using cooldown_ge [of "p_circuit_breaker_open_ms p" "rs_consecutive_failures s' - limit + 1"]
      cooldown_le [of "p_circuit_breaker_open_ms p" "rs_consecutive_failures s' - limit + 1"]
    by (auto simp: d_def COOLDOWN_BASE_MS_def COOLDOWN_MAX_MS_def)
  then have sum: "i64_saturating_add now d = now + d"
    using assms(5,6) by (auto simp: i64_saturating_add_def sat_i64_def i64_min_def COOLDOWN_BASE_MS_def)
  have "limit \<le> rs_consecutive_failures s + 1 \<longleftrightarrow>
      p_circuit_breaker_failure_threshold p \<le> int (rs_consecutive_failures s) + 1"
    by (auto simp: limit_def threshold_def)
  moreover have "fst (runtime_begin p s' now') \<noteq> None \<longleftrightarrow> now + d \<le> now'" if "tr = Opened" for now'
    using that c assms(1) sum
    by (auto simp: runtime_begin_def circuit_state_of_def d_def Let_def)
  moreover have "circuit_state_of p s' now' = circuit_state_of p s now'" if "tr = Unchanged" for now'
    using that c by (simp add: circuit_state_of_def)
  ultimately show ?thesis using c d(1) by (metis add_left_mono)
qed

text \<open>A half-open provider is closed by exactly as many successful probes in a row as its
  half-open threshold says (at least one): after fewer it is still half open and counts them, with
  the last one it is closed and its failures are forgotten.\<close>

theorem provider_half_open_recovery:
  assumes "p_circuit_breaker_enabled p" and "resilience_valid p"
    and "circuit_state_of p s now = HalfOpen" and "rs_probe_owner s = None"
    and "rs_half_open_successes s = 0"
    and "n = threshold (p_circuit_breaker_half_open_success_threshold p) 1"
  shows "(\<forall>k < n. circuit_state_of p ((probe_cycle p now ^^ k) s) now = HalfOpen \<and>
                  rs_half_open_successes ((probe_cycle p now ^^ k) s) = k) \<and>
         circuit_state_of p ((probe_cycle p now ^^ n) s) now' = Closed \<and>
         rs_consecutive_failures ((probe_cycle p now ^^ n) s) = 0"
proof -
  have n: "0 < n" "n \<le> 2147483647"
    using resilience_valid_bounds(5) [OF assms(2)] assms(6) by (auto simp: threshold_def)
  have below: "circuit_state_of p ((probe_cycle p now ^^ k) s) now = HalfOpen \<and>
      rs_probe_owner ((probe_cycle p now ^^ k) s) = None \<and>
      rs_half_open_successes ((probe_cycle p now ^^ k) s) = k" if "k < n" for k
    using that
  proof (induction k)
    case (Suc k)
    then show ?case
      using probe_cycle_half_open [OF assms(1), of "(probe_cycle p now ^^ k) s" now n] n assms(6)
      by (simp add: u32_max_def)
  qed (use assms in simp)
  obtain m where m: "n = Suc m" using n by (cases n) auto
  have "(\<forall>now'. circuit_state_of p ((probe_cycle p now ^^ n) s) now' = Closed) \<and>
      rs_consecutive_failures ((probe_cycle p now ^^ n) s) = 0"
    using probe_cycle_half_open [OF assms(1), of "(probe_cycle p now ^^ m) s" now n]
      below [of m] n m assms(6) by (simp add: u32_max_def)
  then show ?thesis using below by blast
qed

text \<open>C21: concurrency is bounded. Through any sequence of acquisitions, permit drops, attempts,
  results, resets and recorded errors, a provider's in-flight counter is the number of live
  permits, and if every acquisition ran under a limit of at most \<open>m\<close> there are never more than
  \<open>m\<close> (bound: fewer than \<open>2 ^ 32\<close> events, the width of the counter).\<close>

theorem provider_capacity_bound:
  assumes "length es \<le> u32_max" and "capacity_run i es = (book, live)"
    and "\<forall>p. CAcquire p \<in> set es \<longrightarrow> (\<exists>l. p_max_concurrency p = Some l \<and> threshold l 0 \<le> m)"
  shows "rs_in_flight (prb_entry book i) = length live \<and> length live \<le> m"
  using capacity_run_inv [OF assms(1), of i] capacity_run_limit [OF assms(1,3), of i] assms(2)
  by (simp add: capacity_inv_def)

definition record_all ::
  "provider_runtime_book \<Rightarrow> int \<Rightarrow> (int \<times> int \<times> string \<times> int option \<times> int) list \<Rightarrow> provider_runtime_book" where
  "record_all book i xs = foldl (\<lambda>b (ep, key, cat, status, now). record_error b i ep key cat status now) book xs"

definition error_of :: "int \<times> int \<times> string \<times> int option \<times> int \<Rightarrow> runtime_error" where
  "error_of x =
     (case x of (ep, key, cat, status, now) \<Rightarrow>
       \<lparr>re_time_ms = now, re_endpoint_id = ep, re_key_id = key, re_category = cat, re_status = status,
        re_summary = ''Upstream attempt failed''\<rparr>)"

lemma record_error_entry:
  "unwrap_or (prb_errors (record_error b i ep key cat status now) i) [] =
     (let v = unwrap_or (prb_errors b i) [] in if length v = 50 then tl v else v)
       @ [error_of (ep, key, cat, status, now)]"
  by (simp add: record_error_def Let_def error_of_def) (simp add: unwrap_or_def)

lemma record_all_snoc:
  "record_all b i (xs @ [(ep, key, cat, status, now)]) = record_error (record_all b i xs) i ep key cat status now"
  by (simp add: record_all_def)

lemma ring_push:
  assumes "length ys = n"
  shows "(if length (drop (n - 50) ys) = 50 then tl (drop (n - 50) ys) else drop (n - 50) ys) @ [y]
    = drop (Suc n - 50) (ys @ [y])"
proof (cases "50 \<le> n")
  case True
  then have "Suc n - 50 = Suc (n - 50)" by simp
  then show ?thesis using assms True by (simp add: drop_Suc tl_drop tl_append split: list.split)
next
  case False
  then show ?thesis using assms by simp
qed

lemma record_all_errors:
  "unwrap_or (prb_errors (record_all runtime_book_new i xs) i) [] =
     drop (length xs - 50) (map error_of xs)"
proof (induction xs rule: rev_induct)
  case Nil
  then show ?case by (simp add: record_all_def runtime_book_new_def unwrap_or_def)
next
  case (snoc x xs)
  obtain ep key cat status now where x: "x = (ep, key, cat, status, now)" by (cases x) auto
  show ?case
    using ring_push [of "map error_of xs" "length xs" "error_of x"]
    by (simp only: x record_all_snoc record_error_entry snoc.IH Let_def map_append list.map length_append
        length_map list.size add_0_right add_Suc_right)
qed

text \<open>The error timeline of a provider holds its 50 most recent errors, newest first, whatever
  was recorded.\<close>

theorem recent_errors_newest_first:
  "recent_errors (record_all runtime_book_new i xs) i = take 50 (rev (map error_of xs))"
proof -
  have "recent_errors b i = rev (unwrap_or (prb_errors b i) [])" for b
    by (simp add: recent_errors_def unwrap_or_def split: option.splits)
  then have "recent_errors (record_all runtime_book_new i xs) i =
      take (length xs - (length xs - 50)) (rev (map error_of xs))"
    by (simp only: record_all_errors rev_drop length_map)
  also have "\<dots> = take 50 (rev (map error_of xs))"
    by (cases "length xs \<le> 50") auto
  finally show ?thesis .
qed

section \<open>The properties at concrete inputs\<close>

definition wit_provider :: upstream_provider where
  "wit_provider =
     \<lparr>p_request_timeout_ms = None, p_endpoint_failover = True, p_id = 1, p_name = ''p'',
      p_provider_type = ''openai'', p_enabled = True, p_priority = 0, p_weight = 1,
      p_supports_include_usage = True, p_websocket_enabled = False, p_beta_features = [],
      p_request_overrides = \<lparr>ro_headers = [], ro_body = []\<rparr>,
      p_key_selection_strategy = ''weighted'', p_max_attempts = 3, p_max_concurrency = Some 1,
      p_circuit_breaker_enabled = True, p_circuit_breaker_failure_threshold = 2,
      p_circuit_breaker_open_ms = 30000, p_circuit_breaker_half_open_success_threshold = 2\<rparr>"

lemma wit_provider_sel [simp]:
  "p_id wit_provider = 1" "p_enabled wit_provider" "p_max_concurrency wit_provider = Some 1"
  "p_circuit_breaker_enabled wit_provider" "p_circuit_breaker_failure_threshold wit_provider = 2"
  "p_circuit_breaker_open_ms wit_provider = 30000"
  "p_circuit_breaker_half_open_success_threshold wit_provider = 2" "resilience_valid wit_provider"
  by (simp_all add: wit_provider_def resilience_valid_def validate_provider_resilience_def is_some_and_def)

definition wit_fresh_token :: attempt_token where
  "wit_fresh_token = \<lparr>tk_generation = 1, tk_probe_id = None\<rparr>"

text \<open>Two attempts run at once and both end; the second one was still accepted.\<close>

definition wit_runtime_events :: "(runtime_outcome, runtime_ctl) breaker_event list" where
  "wit_runtime_events = [EBegin 0, EBegin 1, EFinish 0 RNeutral]"

lemma wit_runtime_run:
  "runtime_history wit_provider wit_runtime_events = (runtime_default, [wit_fresh_token])"
  by (simp add: wit_runtime_events_def runtime_history_def runtime_begin_def circuit_state_of_def
      runtime_default_def wit_fresh_token_def runtime_neutral_def runtime_release_probe_def
      remove_nth_def is_some_and_def)


lemma wit_runtime_failure:
  "runtime_token_matches runtime_default wit_fresh_token"
  by (simp add: runtime_token_matches_def runtime_default_def wit_fresh_token_def is_none_or_def)

theorem provider_breaker_opens_witness:
  "fst (runtime_failure wit_provider runtime_default wit_fresh_token None ''e'' ''m'' 5) \<noteq> Opened"
  using provider_breaker_opens [of wit_provider runtime_default wit_fresh_token None "''e''" "''m''" 5
      "fst (runtime_failure wit_provider runtime_default wit_fresh_token None ''e'' ''m'' 5)"
      "snd (runtime_failure wit_provider runtime_default wit_fresh_token None ''e'' ''m'' 5)"]
    wit_runtime_failure
  by (simp add: runtime_default_def u32_max_def COOLDOWN_MAX_MS_def i64_max_def circuit_state_of_def)

definition wit_half_open :: provider_runtime_state where
  "wit_half_open = runtime_default\<lparr>rs_open_until_ms := Some 5, rs_consecutive_failures := 2\<rparr>"

theorem provider_half_open_recovery_witness:
  "circuit_state_of wit_provider ((probe_cycle wit_provider 9 ^^ 2) wit_half_open) 10 = Closed"
proof -
  have "circuit_state_of wit_provider wit_half_open 9 = HalfOpen"
    "rs_probe_owner wit_half_open = None" "rs_half_open_successes wit_half_open = 0"
    by (simp_all add: wit_half_open_def circuit_state_of_def runtime_default_def)
  moreover have "2 = threshold (p_circuit_breaker_half_open_success_threshold wit_provider) 1"
    by (simp add: threshold_def)
  ultimately show ?thesis
    using provider_half_open_recovery [of wit_provider wit_half_open 9 2 10] wit_provider_sel by blast
qed

definition wit_capacity_events :: "capacity_event list" where
  "wit_capacity_events = [CAcquire wit_provider, CAcquire wit_provider, CDrop 0, CAcquire wit_provider]"

theorem provider_capacity_bound_witness:
  "rs_in_flight (prb_entry (fst (capacity_run 1 wit_capacity_events)) 1) =
     length (snd (capacity_run 1 wit_capacity_events)) \<and>
   length (snd (capacity_run 1 wit_capacity_events)) \<le> 1"
  using provider_capacity_bound [of wit_capacity_events 1 "fst (capacity_run 1 wit_capacity_events)"
      "snd (capacity_run 1 wit_capacity_events)" 1]
  by (simp add: wit_capacity_events_def u32_max_def threshold_def)

end
