(* ===== verification/Quota.thy ===== *)
theory Quota
  imports Headers Resilience Float64
begin

text \<open>
  The quota half of \<open>src/backend/src/provider_runtime.rs\<close>: per upstream key, the remaining
  requests and tokens an upstream reported, the time its window resets, and the cooldown a 402
  or 429 started.  Every read first forgets what has expired at \<open>now_ms\<close>.  Operations on one
  state come first, then the book.  \<open>rfc3339\<close> stands for \<open>OffsetDateTime::parse(_, &Rfc3339)\<close>
  followed by \<open>unix_timestamp_nanos\<close>, \<open>http_date\<close> for \<open>httpdate::parse_http_date\<close>.
\<close>

section \<open>Reset headers\<close>

text \<open>\<open>str::parse::<f64>\<close>: the decimal grammar of the standard library, correctly rounded.\<close>

definition span_digits :: "string \<Rightarrow> string \<times> string" where
  "span_digits s = (takeWhile is_ascii_digit s, dropWhile is_ascii_digit s)"

definition parse_exponent :: "string \<Rightarrow> int option" where
  "parse_exponent s =
     (case s of
       [] \<Rightarrow> Some 0
     | c # r \<Rightarrow>
         (if c = CHR ''e'' \<or> c = CHR ''E'' then
            (case (strip_prefix ''-'' r, strip_prefix ''+'' r) of
              (Some d, _) \<Rightarrow> map_option (\<lambda>n. - int n) (parse_digits d)
            | (None, Some d) \<Rightarrow> map_option int (parse_digits d)
            | (None, None) \<Rightarrow> map_option int (parse_digits r))
          else None))"

definition parse_decimal :: "string \<Rightarrow> rat option" where
  "parse_decimal s =
     (let (whole, r) = span_digits s;
          (frac, e) = (case strip_prefix ''.'' r of Some r' \<Rightarrow> span_digits r' | None \<Rightarrow> ([], r))
      in if whole = [] \<and> frac = [] then None
         else case (digits_value 0 (whole @ frac), parse_exponent e) of
                (Some m, Some x) \<Rightarrow>
                  (let k = x - int (length frac)
                   in Some (if 0 \<le> k then of_nat m * 10 ^ nat k else of_nat m / 10 ^ nat (- k)))
              | _ \<Rightarrow> None)"

definition parse_f64 :: "string \<Rightarrow> f64 option" where
  "parse_f64 s =
     (let (neg, r) = (case (strip_prefix ''-'' s, strip_prefix ''+'' s) of
                        (Some r, _) \<Rightarrow> (True, r)
                      | (None, Some r) \<Rightarrow> (False, r)
                      | (None, None) \<Rightarrow> (False, s));
          v = (if eq_ignore_ascii_case r ''inf'' \<or> eq_ignore_ascii_case r ''infinity'' then Some PInf
               else if eq_ignore_ascii_case r ''nan'' then Some NaN
               else map_option f64_of_rat (parse_decimal r))
      in map_option (\<lambda>x. if neg then f64_neg x else x) v)"

definition duration_unit :: "string \<Rightarrow> (string \<times> rat) option" where
  "duration_unit value =
     (case strip_suffix ''ms'' value of
       Some number \<Rightarrow> Some (number, 1)
     | None \<Rightarrow>
         (case strip_suffix ''s'' value of
           Some number \<Rightarrow> Some (number, 1000)
         | None \<Rightarrow>
             (case strip_suffix ''m'' value of
               Some number \<Rightarrow> Some (number, 60000)
             | None \<Rightarrow>
                 (case strip_suffix ''h'' value of
                   Some number \<Rightarrow> Some (number, 3600000)
                 | None \<Rightarrow> None))))"

definition parse_relative_duration_ms :: "string \<Rightarrow> int option" where
  "parse_relative_duration_ms value =
     (case duration_unit value of
       None \<Rightarrow> None
     | Some (number, multiplier) \<Rightarrow>
         (case parse_f64 (trim number) of
           None \<Rightarrow> None
         | Some parsed \<Rightarrow>
             (if \<not> f64_is_finite parsed \<or> f64_less parsed (Fin 0) then None
              else
                (let millis = f64_round (f64_mul parsed (Fin multiplier))
                 in if \<not> f64_is_finite millis \<or> f64_less (Fin 9223372036854775808) millis then None
                    else Some (f64_to_i64 millis)))))"

definition first_i64_header :: "headers \<Rightarrow> string list \<Rightarrow> int option" where
  "first_i64_header h names =
     (case somes (map (\<lambda>name. Option.bind (header_str h name) parse_i64) names) of
       [] \<Rightarrow> None
     | v # _ \<Rightarrow> Some v)"

definition reset_header_ms :: "(string \<Rightarrow> int option) \<Rightarrow> headers \<Rightarrow> int \<Rightarrow> string \<Rightarrow> int option" where
  "reset_header_ms rfc3339 h now_ms name =
     (case header_str h name of
       None \<Rightarrow> None
     | Some value \<Rightarrow>
         (case parse_i64 value of
           Some timestamp \<Rightarrow>
             (if timestamp < 0 then None
              else if 10000000000 < timestamp then Some timestamp
              else i64_checked_mul timestamp 1000)
         | None \<Rightarrow>
             (case rfc3339 value of
               Some nanos \<Rightarrow>
                 (let millis = trunc_div nanos 1000000
                  in if in_i64 millis then opt_filter (\<lambda>v. 0 \<le> v) (Some millis) else None)
             | None \<Rightarrow>
                 Option.bind (parse_relative_duration_ms value) (\<lambda>d. i64_checked_add now_ms d))))"

definition first_reset_header_ms ::
  "(string \<Rightarrow> int option) \<Rightarrow> headers \<Rightarrow> string list \<Rightarrow> int \<Rightarrow> int option" where
  "first_reset_header_ms rfc3339 h names now_ms =
     iter_max (somes (map (reset_header_ms rfc3339 h now_ms) names))"

section \<open>State\<close>

record quota_state =
  q_remaining_requests :: "int option"
  q_remaining_tokens :: "int option"
  q_reset_at_ms :: "int option"
  q_cooldown_until_ms :: "int option"
  q_consecutive_rate_limits :: nat
  q_updated_at_ms :: "int option"

text \<open>\<open>QuotaState\<close> and \<open>QuotaRuntimeView\<close> have the same fields and the same default.\<close>

definition quota_default :: quota_state where
  "quota_default =
     \<lparr>q_remaining_requests = None, q_remaining_tokens = None, q_reset_at_ms = None,
      q_cooldown_until_ms = None, q_consecutive_rate_limits = 0, q_updated_at_ms = None\<rparr>"

type_synonym quota_book = "int \<rightharpoonup> quota_state"

definition quota_view_blocked_until :: "quota_state \<Rightarrow> int option" where
  "quota_view_blocked_until v =
     (if is_some_and (q_remaining_requests v) (\<lambda>n. n \<le> 0) \<or> is_some_and (q_remaining_tokens v) (\<lambda>n. n \<le> 0)
      then q_reset_at_ms v else None)"

section \<open>One state\<close>

definition expire_quota_state :: "quota_state \<Rightarrow> int \<Rightarrow> quota_state" where
  "expire_quota_state s0 now_ms =
     (let s = (if is_some_and (q_reset_at_ms s0) (\<lambda>reset_at. reset_at \<le> now_ms)
               then s0\<lparr>q_remaining_requests := None, q_remaining_tokens := None, q_reset_at_ms := None\<rparr>
               else s0)
      in if is_some_and (q_cooldown_until_ms s) (\<lambda>cooldown_until. cooldown_until \<le> now_ms)
         then s\<lparr>q_cooldown_until_ms := None\<rparr> else s)"

definition quota_exhausted :: "quota_state \<Rightarrow> int \<Rightarrow> bool" where
  "quota_exhausted s now_ms =
     (case q_reset_at_ms s of
       Some reset_at \<Rightarrow>
         now_ms < reset_at \<and>
         (is_some_and (q_remaining_requests s) (\<lambda>n. n \<le> 0) \<or>
          is_some_and (q_remaining_tokens s) (\<lambda>n. n \<le> 0))
     | None \<Rightarrow> False)"

definition quota_open :: "quota_state \<Rightarrow> int \<Rightarrow> bool" where
  "quota_open s now_ms \<longleftrightarrow>
     is_none_or (q_cooldown_until_ms s) (\<lambda>until_ms. until_ms \<le> now_ms) \<and> \<not> quota_exhausted s now_ms"

definition quota_reserve :: "quota_state \<Rightarrow> int \<Rightarrow> bool \<times> quota_state" where
  "quota_reserve s0 now_ms =
     (let s = expire_quota_state s0 now_ms in
      if \<not> quota_open s now_ms then (False, s)
      else (True, s\<lparr>q_remaining_requests :=
                     map_option (\<lambda>remaining. i64_saturating_sub remaining 1) (q_remaining_requests s)\<rparr>))"

definition quota_retry_delay ::
  "(string \<Rightarrow> int option) \<Rightarrow> quota_state \<Rightarrow> headers \<Rightarrow> int \<Rightarrow> int \<Rightarrow> int" where
  "quota_retry_delay http_date s h now_ms fallback_ms =
     max (unwrap_or
            (opt_filter (\<lambda>v. 0 < v)
              (iter_max (somes [retry_after_ms http_date h now_ms,
                                map_option (\<lambda>reset. i64_saturating_sub reset now_ms) (q_reset_at_ms s)])))
            (cooldown_ms (min fallback_ms i64_max) (q_consecutive_rate_limits s)))
         1000"

definition quota_observe ::
  "(string \<Rightarrow> int option) \<Rightarrow> (string \<Rightarrow> int option) \<Rightarrow> quota_state \<Rightarrow> int \<Rightarrow> headers \<Rightarrow> int \<Rightarrow> int \<Rightarrow> quota_state" where
  "quota_observe http_date rfc3339 s0 status h now_ms fallback_ms =
     (let s = s0\<lparr>q_remaining_requests :=
                   opt_or (first_i64_header h
                     [''x-ratelimit-remaining-requests'', ''anthropic-ratelimit-requests-remaining''])
                     (q_remaining_requests s0),
                 q_remaining_tokens :=
                   opt_or (first_i64_header h
                     [''x-ratelimit-remaining-tokens'', ''anthropic-ratelimit-tokens-remaining''])
                     (q_remaining_tokens s0),
                 q_reset_at_ms :=
                   opt_or (first_reset_header_ms rfc3339 h
                     [''x-ratelimit-reset-requests'', ''anthropic-ratelimit-requests-reset'',
                      ''x-ratelimit-reset-tokens'', ''anthropic-ratelimit-tokens-reset''] now_ms)
                     (q_reset_at_ms s0),
                 q_updated_at_ms := Some now_ms\<rparr>
      in if status = 402 \<or> status = 429 then
           (let s1 = s\<lparr>q_consecutive_rate_limits :=
                        u32_saturating_add (q_consecutive_rate_limits s) 1\<rparr>
            in s1\<lparr>q_cooldown_until_ms :=
                    Some (max (unwrap_or (q_cooldown_until_ms s1) 0)
                      (i64_saturating_add now_ms (quota_retry_delay http_date s1 h now_ms fallback_ms)))\<rparr>)
         else if status < 400 \<and> is_none_or (q_cooldown_until_ms s) (\<lambda>until. until \<le> now_ms) then
           s\<lparr>q_consecutive_rate_limits := 0, q_cooldown_until_ms := None\<rparr>
         else s)"

definition quota_set_cooldown :: "quota_state \<Rightarrow> int \<Rightarrow> int \<Rightarrow> quota_state" where
  "quota_set_cooldown s0 until_ms now_ms =
     (let s = expire_quota_state s0 now_ms;
          s1 = (if now_ms < until_ms
                then s\<lparr>q_cooldown_until_ms := Some (max (unwrap_or (q_cooldown_until_ms s) 0) until_ms),
                       q_reset_at_ms := Some (max (unwrap_or (q_reset_at_ms s) 0) until_ms),
                       q_remaining_requests := Some 0\<rparr>
                else s)
      in s1\<lparr>q_updated_at_ms := Some now_ms\<rparr>)"

definition quota_clear_cooldown :: "quota_state \<Rightarrow> int \<Rightarrow> quota_state" where
  "quota_clear_cooldown s now_ms =
     s\<lparr>q_cooldown_until_ms := None, q_reset_at_ms := None, q_remaining_requests := None,
       q_remaining_tokens := None, q_updated_at_ms := Some now_ms\<rparr>"

section \<open>The book\<close>

definition quota_entry :: "quota_book \<Rightarrow> int \<Rightarrow> quota_state" where
  "quota_entry book key = unwrap_or (book key) quota_default"

definition quota_is_available :: "quota_book \<Rightarrow> int \<Rightarrow> int \<Rightarrow> bool \<times> quota_book" where
  "quota_is_available book key now_ms =
     (case book key of
       None \<Rightarrow> (True, book)
     | Some s0 \<Rightarrow>
         (let s = expire_quota_state s0 now_ms in (quota_open s now_ms, book(key \<mapsto> s))))"

definition reserve_request :: "quota_book \<Rightarrow> int \<Rightarrow> int \<Rightarrow> bool \<times> quota_book" where
  "reserve_request book key now_ms =
     (let (ok, s) = quota_reserve (quota_entry book key) now_ms in (ok, book(key \<mapsto> s)))"

definition observe_response ::
  "(string \<Rightarrow> int option) \<Rightarrow> (string \<Rightarrow> int option) \<Rightarrow> quota_book \<Rightarrow> int \<Rightarrow> int \<Rightarrow> headers \<Rightarrow> int \<Rightarrow> int \<Rightarrow> quota_book" where
  "observe_response http_date rfc3339 book key status h now_ms fallback_ms =
     book(key \<mapsto> quota_observe http_date rfc3339 (quota_entry book key) status h now_ms fallback_ms)"

definition quota_snapshot :: "quota_book \<Rightarrow> int \<Rightarrow> int \<Rightarrow> quota_state \<times> quota_book" where
  "quota_snapshot book key now_ms =
     (case book key of
       None \<Rightarrow> (quota_default, book)
     | Some s0 \<Rightarrow> (let s = expire_quota_state s0 now_ms in (s, book(key \<mapsto> s))))"

definition set_cooldown_until :: "quota_book \<Rightarrow> int \<Rightarrow> int \<Rightarrow> int \<Rightarrow> quota_book" where
  "set_cooldown_until book key until_ms now_ms =
     book(key \<mapsto> quota_set_cooldown (quota_entry book key) until_ms now_ms)"

definition clear_cooldown :: "quota_book \<Rightarrow> int \<Rightarrow> int \<Rightarrow> quota_book" where
  "clear_cooldown book key now_ms = book(key \<mapsto> quota_clear_cooldown (quota_entry book key) now_ms)"

definition purge_key :: "quota_book \<Rightarrow> int \<Rightarrow> quota_book" where
  "purge_key book key = book(key := None)"

section \<open>Operations on the book in any order\<close>

datatype quota_op =
    QAvailable int int
  | QReserve int int
  | QSnapshot int int
  | QObserve int int headers int int
  | QSetCooldown int int int

fun quota_op_time :: "quota_op \<Rightarrow> int" where
  "quota_op_time (QAvailable key now) = now"
| "quota_op_time (QReserve key now) = now"
| "quota_op_time (QSnapshot key now) = now"
| "quota_op_time (QObserve key status h now fallback) = now"
| "quota_op_time (QSetCooldown key until now) = now"

fun do_quota_op ::
  "(string \<Rightarrow> int option) \<Rightarrow> (string \<Rightarrow> int option) \<Rightarrow> quota_book \<Rightarrow> quota_op \<Rightarrow> quota_book" where
  "do_quota_op dt rf book (QAvailable key now) = snd (quota_is_available book key now)"
| "do_quota_op dt rf book (QReserve key now) = snd (reserve_request book key now)"
| "do_quota_op dt rf book (QSnapshot key now) = snd (quota_snapshot book key now)"
| "do_quota_op dt rf book (QObserve key status h now fallback) =
     observe_response dt rf book key status h now fallback"
| "do_quota_op dt rf book (QSetCooldown key until now) = set_cooldown_until book key until now"

definition quota_run ::
  "(string \<Rightarrow> int option) \<Rightarrow> (string \<Rightarrow> int option) \<Rightarrow> quota_book \<Rightarrow> quota_op list \<Rightarrow> quota_book" where
  "quota_run dt rf book ops = foldl (do_quota_op dt rf) book ops"

text \<open>Reservations one after the other, at the given times; the number of admissions.\<close>

fun reserve_times :: "quota_book \<Rightarrow> int \<Rightarrow> int list \<Rightarrow> nat" where
  "reserve_times book key [] = 0"
| "reserve_times book key (now # nows) =
     (case reserve_request book key now of
       (ok, book') \<Rightarrow> (if ok then 1 else 0) + reserve_times book' key nows)"

section \<open>Lemmas\<close>

lemma expire_idem: "expire_quota_state (expire_quota_state s now) now = expire_quota_state s now"
  by (auto simp: expire_quota_state_def Let_def is_some_and_def split: option.splits)

lemma quota_reserve_fst: "fst (quota_reserve s now) = quota_open (expire_quota_state s now) now"
  by (simp add: quota_reserve_def Let_def)

lemma quota_open_default: "quota_open quota_default now" "expire_quota_state quota_default now = quota_default"
  by (simp_all add: quota_open_def quota_exhausted_def quota_default_def is_none_or_def
      expire_quota_state_def is_some_and_def)

lemma quota_available_entry:
  "fst (quota_is_available book key now) = quota_open (expire_quota_state (quota_entry book key) now) now"
  by (simp add: quota_is_available_def quota_entry_def unwrap_or_def Let_def quota_open_default
      split: option.splits)

lemma quota_open_expired:
  "quota_open (expire_quota_state s now) now \<longleftrightarrow>
     q_cooldown_until_ms (expire_quota_state s now) = None \<and>
     quota_view_blocked_until (expire_quota_state s now) = None"
  by (auto simp: quota_open_def quota_exhausted_def quota_view_blocked_until_def is_none_or_def
      expire_quota_state_def Let_def is_some_and_def split: option.splits if_splits)

text \<open>A cooldown that lies ahead survives every operation but a clear.\<close>

definition cooling :: "quota_state \<Rightarrow> int \<Rightarrow> bool" where
  "cooling s u \<longleftrightarrow> is_some_and (q_cooldown_until_ms s) (\<lambda>c. u \<le> c)"

lemma cooling_expire: "cooling s u \<Longrightarrow> now < u \<Longrightarrow> cooling (expire_quota_state s now) u"
  by (auto simp: cooling_def expire_quota_state_def Let_def is_some_and_def split: option.splits)

lemma cooling_not_open: "cooling s u \<Longrightarrow> now < u \<Longrightarrow> \<not> quota_open s now"
  by (auto simp: cooling_def quota_open_def is_some_and_def is_none_or_def split: option.splits)

lemma cooling_reserve: "cooling s u \<Longrightarrow> now < u \<Longrightarrow> cooling (snd (quota_reserve s now)) u"
  using cooling_expire [of s u now] by (simp add: quota_reserve_def Let_def cooling_def)

lemma cooling_observe: "cooling s u \<Longrightarrow> now < u \<Longrightarrow> cooling (quota_observe dt rf s status h now fb) u"
  by (auto simp: cooling_def quota_observe_def Let_def is_some_and_def is_none_or_def unwrap_or_def
      max_def split: option.splits if_splits)

lemma cooling_set: "cooling s u \<Longrightarrow> now < u \<Longrightarrow> cooling (quota_set_cooldown s until now) u"
  using cooling_expire [of s u now]
  by (auto simp: quota_set_cooldown_def Let_def cooling_def is_some_and_def unwrap_or_def
      split: option.splits)

lemma cooling_op:
  assumes "cooling (quota_entry book key) u" and "quota_op_time x < u"
  shows "cooling (quota_entry (do_quota_op dt rf book x) key) u"
  using assms
  by (cases x)
    (auto simp: quota_is_available_def reserve_request_def quota_snapshot_def observe_response_def
      set_cooldown_until_def quota_entry_def unwrap_or_def Let_def case_prod_unfold
      cooling_expire cooling_reserve [simplified] cooling_observe cooling_set split: option.splits)

lemma cooling_run:
  "cooling (quota_entry book key) u \<Longrightarrow> \<forall>x \<in> set ops. quota_op_time x < u \<Longrightarrow>
   cooling (quota_entry (quota_run dt rf book ops) key) u"
  by (induction ops arbitrary: book) (simp_all add: quota_run_def cooling_op)

lemma quota_retry_delay_ge:
  "1000 \<le> quota_retry_delay dt s h now fb \<and>
   (retry_after_ms dt h now = Some d \<longrightarrow> d \<le> quota_retry_delay dt s h now fb)"
proof -
  let ?xs = "somes [retry_after_ms dt h now,
      map_option (\<lambda>reset. i64_saturating_sub reset now) (q_reset_at_ms s)]"
  have "d \<le> quota_retry_delay dt s h now fb" if d: "retry_after_ms dt h now = Some d"
  proof -
    have mem: "d \<in> set ?xs" using d by (simp add: set_somes)
    then obtain m where m: "iter_max ?xs = Some m" by (metis iter_max_None list.set_cases option.exhaust empty_iff list.set(1))
    then have "d \<le> m" using mem by (simp add: iter_max_Some del: somes.simps)
    then show ?thesis using m
      by (auto simp: quota_retry_delay_def opt_filter_def unwrap_or_def)
  qed
  then show ?thesis by (simp add: quota_retry_delay_def)
qed

lemma observe_rate_limit_cools:
  assumes "status = 402 \<or> status = 429"
  shows "cooling (quota_observe dt rf s status h now fb)
           (i64_saturating_add now (max 1000 (unwrap_or (retry_after_ms dt h now) 0)))"
proof -
  have "max 1000 (unwrap_or (retry_after_ms dt h now) 0) \<le> quota_retry_delay dt s' h now fb" for s'
    using quota_retry_delay_ge [of dt s' h now fb]
    by (auto simp: unwrap_or_def split: option.splits)
  then have "i64_saturating_add now (max 1000 (unwrap_or (retry_after_ms dt h now) 0)) \<le>
      i64_saturating_add now (quota_retry_delay dt s' h now fb)" for s'
    unfolding i64_saturating_add_def by (intro sat_i64_mono) simp
  then show ?thesis using assms
    by (auto simp: quota_observe_def Let_def cooling_def is_some_and_def le_max_iff_disj)
qed

lemma parse_f64_show_nat:
  assumes "int n < 2 ^ 53"
  shows "parse_f64 (show_nat n) = Some (Fin (of_nat n))"
proof -
  obtain c r where s: "show_nat n = c # r" using show_nat_nonempty [of n] by (cases "show_nat n") auto
  have d: "is_ascii_digit c" using show_nat_digits [of c n] s by simp
  then have c: "c \<noteq> CHR ''+''" "c \<noteq> CHR ''-''" by (auto simp: is_ascii_digit_def byte_def)
  have low: "to_ascii_lowercase (c # r) = c # to_ascii_lowercase r"
    using d by (auto simp: to_ascii_lowercase_def ascii_lower_def is_ascii_digit_def)
  have "c \<noteq> CHR ''i''" "c \<noteq> CHR ''n''" using d by (auto simp: is_ascii_digit_def byte_def)
  moreover have "to_ascii_lowercase ''inf'' = ''inf''" "to_ascii_lowercase ''infinity'' = ''infinity''"
    "to_ascii_lowercase ''nan'' = ''nan''" by code_simp+
  ultimately have words: "\<not> eq_ignore_ascii_case (show_nat n) ''inf''"
      "\<not> eq_ignore_ascii_case (show_nat n) ''infinity''" "\<not> eq_ignore_ascii_case (show_nat n) ''nan''"
    by (auto simp: eq_ignore_ascii_case_def s low)
  have all: "takeWhile is_ascii_digit (show_nat n) = show_nat n" "dropWhile is_ascii_digit (show_nat n) = []"
    using show_nat_digits by (auto simp: takeWhile_eq_all_conv)
  have "parse_decimal (show_nat n) = Some (of_nat n)"
    by (simp add: parse_decimal_def span_digits_def all show_nat_nonempty digits_value_show parse_exponent_def
        strip_prefix_def starts_with_def)
  then have "parse_f64 (show_nat n) = map_option f64_of_rat (Some (of_int (int n)))"
    using words c by (simp add: parse_f64_def s strip_prefix_def starts_with_def)
  then show ?thesis using f64_of_int_exact [of "int n"] assms by simp
qed

lemma f64_mul_exact:
  "0 \<le> a \<Longrightarrow> 0 \<le> b \<Longrightarrow> a * b < 2 ^ 53 \<Longrightarrow> f64_mul (Fin (of_int a)) (Fin (of_int b)) = Fin (of_int (a * b))"
  using f64_of_int_exact [of "a * b"] by (simp add: mult_nonneg_nonneg)

lemma f64_round_int: "f64_round (Fin (of_int k)) = Fin (of_int k)"
proof -
  have "\<lfloor>of_int k + 1 / 2 :: rat\<rfloor> = k" "\<lfloor>- of_int k + 1 / 2 :: rat\<rfloor> = - k"
    by (simp_all add: floor_eq_iff)
  then show ?thesis by simp
qed

lemma relative_duration_unit:
  assumes "duration_unit v = Some (show_nat n, of_int m)" and "0 < m" and "int n * m < 2 ^ 53" and "int n < 2 ^ 53"
  shows "parse_relative_duration_ms v = Some (int n * m)"
proof -
  have mul: "f64_mul (Fin (of_nat n)) (Fin (of_int m)) = Fin (of_int (int n * m))"
    using f64_mul_exact [of "int n" m] assms by simp
  have "(of_int (int n * m) :: rat) \<le> of_int (2 ^ 53)"
    using assms(3) by (simp only: of_int_le_iff)
  then have le: "\<not> (9223372036854775808 :: rat) < of_int (int n * m)" by simp
  have nn: "0 \<le> int n * m" using assms(2) by simp
  then have "(0 :: rat) \<le> of_int (int n * m)" by (simp only: of_int_0_le_iff)
  then have "f64_to_i64 (Fin (of_int (int n * m))) = sat_i64 (int n * m)"
    by (simp del: of_int_mult)
  moreover have "sat_i64 (int n * m) = int n * m"
    using nn assms(3) by (intro sat_i64_id) (simp add: in_i64_def i64_max_def i64_min_def)
  ultimately show ?thesis using le
    by (simp add: parse_relative_duration_ms_def assms(1) trim_show_nat parse_f64_show_nat [OF assms(4)]
        mul f64_round_int Let_def del: of_int_mult f64_mul.simps f64_round.simps f64_to_i64.simps)
qed

lemma strip_suffix_append [simp]: "strip_suffix p (s @ p) = Some s"
  by (simp add: strip_suffix_def ends_with_def)

lemma strip_suffix_other: "p \<noteq> [] \<Longrightarrow> c \<noteq> last p \<Longrightarrow> strip_suffix p (s @ [c]) = None"
proof -
  assume p: "p \<noteq> []" and c: "c \<noteq> last p"
  have "drop (length (s @ [c]) - length p) (s @ [c]) \<noteq> p" if "length p \<le> length (s @ [c])"
  proof
    assume "drop (length (s @ [c]) - length p) (s @ [c]) = p"
    moreover have "last (drop (length (s @ [c]) - length p) (s @ [c])) = c"
      using that p by (subst last_drop) auto
    ultimately show False using c by simp
  qed
  then show ?thesis by (auto simp: strip_suffix_def ends_with_def)
qed

lemma strip_ms_none: "strip_suffix ''ms'' (show_nat n @ ''s'') = None"
proof -
  have "last (show_nat n) \<noteq> CHR ''m''"
    using show_nat_digits [of "last (show_nat n)" n] show_nat_nonempty [of n]
    by (auto simp: is_ascii_digit_def byte_def)
  moreover obtain a b where ab: "show_nat n = a @ [b]" using show_nat_nonempty [of n] by (metis rev_exhaust)
  ultimately show ?thesis by (auto simp: strip_suffix_def ends_with_def ab)
qed

lemma duration_units:
  "duration_unit (show_nat n @ ''ms'') = Some (show_nat n, of_int 1)"
  "duration_unit (show_nat n @ ''s'') = Some (show_nat n, of_int 1000)"
  "duration_unit (show_nat n @ ''m'') = Some (show_nat n, of_int 60000)"
  "duration_unit (show_nat n @ ''h'') = Some (show_nat n, of_int 3600000)"
  by (simp_all add: duration_unit_def strip_ms_none strip_suffix_other)

lemma reserve_open_window:
  assumes "q_remaining_requests s = Some n" and "q_reset_at_ms s = Some r" and "now < r"
    and "q_cooldown_until_ms s = None" and "is_none_or (q_remaining_tokens s) (\<lambda>t. 0 < t)"
  shows "quota_reserve s now =
    (if 0 < n then (True, s\<lparr>q_remaining_requests := Some (i64_saturating_sub n 1)\<rparr>) else (False, s))"
  using assms
  by (auto simp: quota_reserve_def Let_def expire_quota_state_def is_some_and_def is_none_or_def
      quota_open_def quota_exhausted_def split: option.splits)

lemma reserve_times_window:
  assumes "quota_entry book key = s"
    and "q_remaining_requests s = Some n" and "0 \<le> n" and "n \<le> i64_max" and "q_reset_at_ms s = Some r"
    and "q_cooldown_until_ms s = None" and "is_none_or (q_remaining_tokens s) (\<lambda>t. 0 < t)"
    and "\<forall>t \<in> set nows. t < r"
  shows "reserve_times book key nows = min (length nows) (nat n)"
  using assms
proof (induction nows arbitrary: book s n)
  case (Cons t nows)
  note r = reserve_open_window [OF Cons.prems(2,5) _ Cons.prems(6,7), of t]
  show ?case
  proof (cases "0 < n")
    case True
    then have "i64_saturating_sub n 1 = n - 1"
      using Cons.prems(4) by (simp add: i64_saturating_sub_def sat_i64_def i64_min_def)
    then have step: "reserve_request book key t =
        (True, book(key \<mapsto> s\<lparr>q_remaining_requests := Some (n - 1)\<rparr>))"
      using r Cons.prems(1,8) True by (simp add: reserve_request_def)
    have "reserve_times (book(key \<mapsto> s\<lparr>q_remaining_requests := Some (n - 1)\<rparr>)) key nows =
        min (length nows) (nat (n - 1))"
      using Cons.prems True
      by (intro Cons.IH [of _ "s\<lparr>q_remaining_requests := Some (n - 1)\<rparr>" "n - 1"])
        (simp_all add: quota_entry_def unwrap_or_def)
    then show ?thesis using True by (simp add: step)
  next
    case False
    then have "n = 0" using Cons.prems(3) by simp
    have step: "reserve_request book key t = (False, book(key \<mapsto> s))"
      using r Cons.prems(1,8) False by (simp add: reserve_request_def)
    have "reserve_times (book(key \<mapsto> s)) key nows = min (length nows) (nat n)"
      using Cons.prems by (intro Cons.IH [of _ s n]) (simp_all add: quota_entry_def unwrap_or_def)
    then show ?thesis using \<open>n = 0\<close> by (simp add: step)
  qed
qed simp

section \<open>Properties\<close>


text \<open>C22: after a 402 or 429 the key is out of use for at least a second and at least the announced
  \<open>Retry-After\<close>; no reservation, response (success included), snapshot or further cooldown that
  happens before that moment, on this or another key, lets a request through early.\<close>

theorem rate_limit_blocks:
  assumes "status = 402 \<or> status = 429"
    and "until = i64_saturating_add now (max 1000 (unwrap_or (retry_after_ms dt h now) 0))"
    and "\<forall>x \<in> set ops. quota_op_time x < until" and "now' < until"
    and "book' = quota_run dt rf (observe_response dt rf book key status h now fallback) ops"
  shows "\<not> fst (quota_is_available book' key now') \<and> \<not> fst (reserve_request book' key now')"
proof -
  have "cooling (quota_entry (observe_response dt rf book key status h now fallback) key) until"
    using observe_rate_limit_cools [OF assms(1)]
    by (simp add: assms(2) observe_response_def quota_entry_def unwrap_or_def)
  then have "cooling (quota_entry book' key) until"
    using cooling_run assms(3,5) by blast
  then have "\<not> quota_open (expire_quota_state (quota_entry book' key) now') now'"
    using assms(4) cooling_expire cooling_not_open by blast
  then show ?thesis
    by (simp add: quota_available_entry reserve_request_def case_prod_unfold quota_reserve_fst)
qed

text \<open>The three views of a key agree at every moment: it is reported available exactly when a
  reservation would be granted, and exactly when its snapshot shows neither a cooldown nor an
  exhausted window.\<close>

theorem quota_views_agree:
  "fst (quota_is_available book key now) = fst (reserve_request book key now) \<and>
   (fst (quota_is_available book key now) \<longleftrightarrow>
      q_cooldown_until_ms (fst (quota_snapshot book key now)) = None \<and>
      quota_view_blocked_until (fst (quota_snapshot book key now)) = None)"
proof -
  have "fst (quota_snapshot book key now) = expire_quota_state (quota_entry book key) now"
    by (simp add: quota_snapshot_def quota_entry_def unwrap_or_def Let_def quota_open_default
        split: option.splits)
  then show ?thesis
    by (simp add: quota_available_entry reserve_request_def case_prod_unfold quota_reserve_fst
        quota_open_expired)
qed

text \<open>The relative reset headers (\<open>250ms\<close>, \<open>6s\<close>, \<open>2m\<close>, \<open>1h\<close>) are read exactly, through the
  floating-point arithmetic of the source, for every whole number up to \<open>2 ^ 31\<close>.\<close>

theorem relative_duration_exact:
  assumes "n \<le> 2 ^ 31"
  shows "parse_relative_duration_ms (show_nat n @ ''ms'') = Some (int n) \<and>
         parse_relative_duration_ms (show_nat n @ ''s'') = Some (int n * 1000) \<and>
         parse_relative_duration_ms (show_nat n @ ''m'') = Some (int n * 60000) \<and>
         parse_relative_duration_ms (show_nat n @ ''h'') = Some (int n * 3600000)"
proof -
  have n: "int n \<le> 2147483648" using assms by simp
  then show ?thesis
    using relative_duration_unit [OF duration_units(1) [of n]]
      relative_duration_unit [OF duration_units(2) [of n]]
      relative_duration_unit [OF duration_units(3) [of n]]
      relative_duration_unit [OF duration_units(4) [of n]]
    by simp
qed

section \<open>The properties at concrete inputs\<close>

definition wit_quota :: quota_state where
  "wit_quota = quota_default\<lparr>q_remaining_requests := Some 2, q_reset_at_ms := Some 100\<rparr>"


theorem rate_limit_blocks_witness:
  "\<not> fst (reserve_request
      (quota_run (\<lambda>_. None) (\<lambda>_. None)
         (observe_response (\<lambda>_. None) (\<lambda>_. None) Map.empty 7 429 [] 10 0)
         [QObserve 7 200 [] 20 0, QReserve 7 30]) 7 40)"
  using rate_limit_blocks [of 429 "i64_saturating_add 10 (max 1000 (unwrap_or (retry_after_ms (\<lambda>_. None) [] 10) 0))"
      10 "\<lambda>_. None" "[]" "[QObserve 7 200 [] 20 0, QReserve 7 30]" 40 _ "\<lambda>_. None" Map.empty 7 0, OF _ _ _ _ refl]
  by (simp add: retry_after_ms_def header_str_def header_get_def unwrap_or_def i64_saturating_add_def
      sat_i64_def i64_max_def i64_min_def)

theorem relative_duration_exact_witness:
  "parse_relative_duration_ms (show_nat 6 @ ''s'') = Some 6000"
  using relative_duration_exact [of 6] by simp

end
