(* ===== verification/Selector.thy ===== *)
theory Selector
  imports Health "HOL-Library.Product_Lexorder"
begin

text \<open>
  \<open>src/backend/src/selector.rs\<close> and \<open>src/backend/src/key_rotation.rs\<close>: the order in which the
  keys and the endpoints of a provider are tried.  Random numbers come from \<open>fastrand\<close>, which is
  not part of the repository: \<open>draw r n\<close> stands for \<open>fastrand::usize(..n)\<close> and
  \<open>fastrand::i32(0..n)\<close> on the generator state \<open>r\<close>, and returns the number and the next state.
  Theorems that need it assume its contract, \<open>draw_ok\<close>: the number is below the bound.
\<close>

type_synonym 'r rng = "'r \<Rightarrow> nat \<Rightarrow> nat \<times> 'r"

definition draw_ok :: "'r rng \<Rightarrow> bool" where
  "draw_ok draw \<longleftrightarrow> (\<forall>r n. 0 < n \<longrightarrow> fst (draw r n) < n)"

section \<open>Weighted order\<close>

text \<open>\<open>i32\<close> addition wraps in the release build.\<close>

definition wrap_i32 :: "int \<Rightarrow> int" where
  "wrap_i32 x = (x + 2147483648) mod 4294967296 - 2147483648"

definition total_weight :: "('a \<times> int) list \<Rightarrow> int" where
  "total_weight items = wrap_i32 (sum_list (map (\<lambda>(_, weight). max weight 0) items))"

text \<open>The index the offset falls on; 0 when it falls on none.\<close>

fun pick_offset :: "nat \<Rightarrow> int \<Rightarrow> ('a \<times> int) list \<Rightarrow> nat" where
  "pick_offset i off [] = 0"
| "pick_offset i off ((_, weight) # items) =
     (if off < max weight 0 then i else pick_offset (Suc i) (off - max weight 0) items)"

definition pick_weighted :: "'r rng \<Rightarrow> 'r \<Rightarrow> ('a \<times> int) list \<Rightarrow> nat \<times> 'r" where
  "pick_weighted draw r items =
     (let total = total_weight items in
      if total \<le> 0 then draw r (length items)
      else (case draw r (nat total) of (off, r') \<Rightarrow> (pick_offset 0 (int off) items, r')))"

function weighted_order_pairs :: "'r rng \<Rightarrow> 'r \<Rightarrow> ('a \<times> int) list \<Rightarrow> 'a list \<times> 'r" where
  "weighted_order_pairs draw r items =
     (if items = [] then ([], r)
      else case pick_weighted draw r items of
             (i, r1) \<Rightarrow>
               (case weighted_order_pairs draw r1 (swap_remove i items) of
                  (out, r2) \<Rightarrow> (fst (items ! i) # out, r2)))"
  by auto

termination
  by (relation "measure (\<lambda>(_, _, items). length items)") auto

declare weighted_order_pairs.simps [simp del]

section \<open>Keys: priority groups, then health\<close>

record item_health =
  d_enabled :: bool
  d_priority :: int
  d_weight :: int
  d_state :: circuit_state
  d_available :: bool

lemma filter_best_shorter:
  "iter_min (map (\<lambda>(_, priority, _). priority) enabled) = Some best \<Longrightarrow>
   length (filter (\<lambda>(_, priority, _). priority \<noteq> best) enabled) < length enabled"
proof -
  assume "iter_min (map (\<lambda>(_, priority, _). priority) enabled) = Some best"
  then have "best \<in> set (map (\<lambda>(_, priority, _). priority) enabled)"
    by (auto simp: iter_min_Some intro: Min_in)
  then have "\<exists>x \<in> set enabled. \<not> (\<lambda>(_, priority, _). priority \<noteq> best) x" by force
  then show ?thesis using length_filter_less by (metis (mono_tags, lifting))
qed

function order_by_priority_weight :: "'r rng \<Rightarrow> 'r \<Rightarrow> ('a \<times> int \<times> int) list \<Rightarrow> 'a list \<times> 'r" where
  "order_by_priority_weight draw r enabled =
     (case iter_min (map (\<lambda>(_, priority, _). priority) enabled) of
       None \<Rightarrow> ([], r)
     | Some best \<Rightarrow>
         (case weighted_order_pairs draw r
                 (map (\<lambda>(item, _, weight). (item, weight)) (filter (\<lambda>(_, priority, _). priority = best) enabled)) of
            (grp, r1) \<Rightarrow>
              (case order_by_priority_weight draw r1 (filter (\<lambda>(_, priority, _). priority \<noteq> best) enabled) of
                 (out, r2) \<Rightarrow> (grp @ out, r2))))"
  by auto

termination
  by (relation "measure (\<lambda>(_, _, enabled). length enabled)") (simp_all add: filter_best_shorter)

declare order_by_priority_weight.simps [simp del]

definition order_by_priority_weight_refs ::
  "'r rng \<Rightarrow> 'r \<Rightarrow> 'a list \<Rightarrow> ('a \<Rightarrow> item_health) \<Rightarrow> 'a list \<times> 'r" where
  "order_by_priority_weight_refs draw r items describe =
     order_by_priority_weight draw r
       (map (\<lambda>item. (item, d_priority (describe item), d_weight (describe item)))
         (filter (\<lambda>item. d_enabled (describe item)) items))"

definition weighted_of :: "('a \<Rightarrow> item_health) \<Rightarrow> circuit_state \<Rightarrow> 'a list \<Rightarrow> ('a \<times> int) list" where
  "weighted_of describe st run =
     map (\<lambda>item. (item, d_weight (describe item)))
       (filter (\<lambda>item. d_available (describe item) \<and> d_state (describe item) = st) run)"

text \<open>One maximal run of equal priority after the other.\<close>

function rank_runs :: "'r rng \<Rightarrow> 'r \<Rightarrow> ('a \<Rightarrow> item_health) \<Rightarrow> 'a list \<Rightarrow> 'a list \<times> 'r" where
  "rank_runs draw r describe prioritized =
     (case prioritized of
       [] \<Rightarrow> ([], r)
     | first # rest \<Rightarrow>
         (let same = (\<lambda>item. d_priority (describe item) = d_priority (describe first));
              run = first # takeWhile same rest;
              (closed, r1) = weighted_order_pairs draw r (weighted_of describe Closed run);
              (half_open, r2) = weighted_order_pairs draw r1 (weighted_of describe HalfOpen run);
              (out, r3) = rank_runs draw r2 describe (dropWhile same rest)
          in (closed @ half_open @ out, r3)))"
  by pat_completeness auto

termination
  by (relation "measure (\<lambda>(_, _, _, prioritized). length prioritized)")
    (auto simp: le_imp_less_Suc length_dropWhile_le)

declare rank_runs.simps [simp del]

definition rank_by_priority_and_health ::
  "'r rng \<Rightarrow> 'r \<Rightarrow> 'a list \<Rightarrow> ('a \<Rightarrow> item_health) \<Rightarrow> 'a list \<times> 'r" where
  "rank_by_priority_and_health draw r items describe =
     (case order_by_priority_weight_refs draw r items describe of
       (prioritized, r1) \<Rightarrow> rank_runs draw r1 describe prioritized)"

definition describe_key :: "health_book \<Rightarrow> int \<Rightarrow> upstream_key \<Rightarrow> item_health" where
  "describe_key health now_ms key =
     (let snapshot = hb_snapshot health (k_id key) now_ms
      in \<lparr>d_enabled = k_enabled key, d_priority = k_priority key, d_weight = k_weight key,
          d_state = hv_state snapshot, d_available = hv_available snapshot\<rparr>)"

definition rank_key_refs_with_health ::
  "'r rng \<Rightarrow> 'r \<Rightarrow> upstream_key list \<Rightarrow> health_book \<Rightarrow> int \<Rightarrow> upstream_key list \<times> 'r" where
  "rank_key_refs_with_health draw r items health now_ms =
     rank_by_priority_and_health draw r items (describe_key health now_ms)"

section \<open>Endpoints\<close>

datatype endpoint_strategy = Weighted | Latency

definition parse_endpoint_strategy :: "string \<Rightarrow> endpoint_strategy option" where
  "parse_endpoint_strategy raw =
     (let v = to_ascii_lowercase (trim raw) in
      if v = ''weighted'' \<or> v = ''weight'' \<or> v = ''random'' then Some Weighted
      else if v = ''latency'' \<or> v = ''lowest_latency'' \<or> v = ''least_latency'' then Some Latency
      else None)"

definition rank_endpoint_refs_with_health ::
  "upstream_endpoint list \<Rightarrow> health_book \<Rightarrow> endpoint_strategy \<Rightarrow> int \<Rightarrow> upstream_endpoint list" where
  "rank_endpoint_refs_with_health items health strategy now_ms =
     sort_key (\<lambda>e. (e_priority e, e_id e))
       (filter (\<lambda>e. e_enabled e \<and> hv_available (hb_snapshot health (e_id e) now_ms)) items)"

section \<open>Key rotation\<close>

type_synonym rotation_book = "int \<rightharpoonup> nat"

definition rotate_provider :: "rotation_book \<Rightarrow> int \<Rightarrow> 'a list \<Rightarrow> 'a list \<times> rotation_book" where
  "rotate_provider offsets provider_id keys =
     (if length keys \<le> 1 then (keys, offsets)
      else
        (let off = unwrap_or (offsets provider_id) 0;
             start = off mod length keys;
             next_off = ((off + 1) mod 2 ^ 64) mod length keys
         in (drop start keys @ take start keys, offsets(provider_id \<mapsto> next_off))))"

section \<open>Lemmas\<close>

lemma pick_offset_bound: "items \<noteq> [] \<Longrightarrow> pick_offset i off items < i + length items \<or> pick_offset i off items = 0"
  by (induction i off items rule: pick_offset.induct) (auto, fastforce)

lemma wrap_i32_small: "- 2147483648 \<le> x \<Longrightarrow> x \<le> 2147483647 \<Longrightarrow> wrap_i32 x = x"
  by (simp add: wrap_i32_def)

lemma pick_weighted_lt:
  assumes "draw_ok draw" and "items \<noteq> []"
  shows "fst (pick_weighted draw r items) < length items"
proof -
  have "pick_offset 0 off items < length items" for off
    using pick_offset_bound [OF assms(2), of 0 off] assms(2) by auto
  then show ?thesis using assms
    by (auto simp: pick_weighted_def Let_def draw_ok_def case_prod_unfold)
qed

text \<open>Drawing in order neither loses nor repeats an item.\<close>

lemma weighted_order_mset:
  assumes "draw_ok draw"
  shows "mset (fst (weighted_order_pairs draw r items)) = mset (map fst items)"
  using assms
proof (induction draw r items rule: weighted_order_pairs.induct)
  case (1 draw r items)
  show ?case
  proof (cases "items = []")
    case True
    then show ?thesis by (simp add: weighted_order_pairs.simps)
  next
    case False
    obtain i r1 where p: "pick_weighted draw r items = (i, r1)" by (cases "pick_weighted draw r items")
    then have i: "i < length items" using pick_weighted_lt [OF "1.prems" False, of r] by simp
    obtain out r2 where out: "weighted_order_pairs draw r1 (swap_remove i items) = (out, r2)"
      by (cases "weighted_order_pairs draw r1 (swap_remove i items)")
    have "mset out = mset (map fst (swap_remove i items))"
      using "1.IH" [OF False p [symmetric] "1.prems"] out by simp
    then have "mset (fst (items ! i) # out) = image_mset fst (add_mset (items ! i) (mset (swap_remove i items)))"
      by simp
    also have "\<dots> = mset (map fst items)" by (simp add: mset_swap_remove [OF i])
    finally show ?thesis using False p out by (simp add: weighted_order_pairs.simps [of draw r items])
  qed
qed

lemma set_weighted_order:
  "draw_ok draw \<Longrightarrow> set (fst (weighted_order_pairs draw r items)) = fst ` set items"
  using weighted_order_mset [of draw r items] by (metis mset_eq_setD set_map)

text \<open>The enabled items by priority: all of them, lowest number first.\<close>

lemma order_by_priority_props:
  assumes "draw_ok draw" and "\<forall>(x, p, w) \<in> set enabled. p = prio x"
  shows "mset (fst (order_by_priority_weight draw r enabled)) = mset (map fst enabled) \<and>
         sorted (map prio (fst (order_by_priority_weight draw r enabled)))"
  using assms
proof (induction draw r enabled rule: order_by_priority_weight.induct)
  case (1 draw r enabled)
  show ?case
  proof (cases "iter_min (map (\<lambda>(_, priority, _). priority) enabled)")
    case None
    then show ?thesis by (simp add: order_by_priority_weight.simps)
  next
    case (Some best)
    let ?in = "filter (\<lambda>(_, priority, _). priority = best) enabled"
    let ?rest = "filter (\<lambda>(_, priority, _). priority \<noteq> best) enabled"
    let ?pairs = "map (\<lambda>(item, _, weight). (item, weight)) ?in"
    obtain grp r1 where g: "weighted_order_pairs draw r ?pairs = (grp, r1)"
      by (cases "weighted_order_pairs draw r ?pairs")
    obtain out r2 where o: "order_by_priority_weight draw r1 ?rest = (out, r2)"
      by (cases "order_by_priority_weight draw r1 ?rest")
    have ih: "mset out = mset (map fst ?rest) \<and> sorted (map prio out)"
      using "1.IH" [OF Some g [symmetric]] "1.prems" o by auto
    have g_mset: "mset grp = mset (map fst ?in)"
      using weighted_order_mset [OF "1.prems"(1), of r ?pairs] g by (simp add: case_prod_unfold comp_def)
    have low: "best \<le> prio x" if "(x, p, w) \<in> set enabled" for x p w
      using that Some "1.prems"(2) by (force simp: iter_min_Some intro: Min_le)
    have "set grp = fst ` set ?in" using g_mset by (metis mset_eq_setD set_map)
    then have grp: "\<forall>x \<in> set grp. prio x = best" using "1.prems"(2) by auto
    have "set out = fst ` set ?rest" using ih by (metis mset_eq_setD set_map)
    then have "\<forall>y \<in> set out. best \<le> prio y" using low by auto
    then have "sorted (map prio (grp @ out))"
      using grp ih by (auto simp: sorted_append sorted_map intro: sorted_wrt_mono_rel [of _ "\<lambda>_ _. True"])
    moreover have "mset (grp @ out) = mset (map fst enabled)"
      using ih g_mset
        mset_map_partition [of enabled "\<lambda>(_, priority, _). priority \<noteq> best" "\<lambda>(_, priority, _). priority = best" fst]
      by (simp only: mset_append) fastforce
    ultimately show ?thesis using Some g o by (simp add: order_by_priority_weight.simps [of draw r enabled])
  qed
qed

text \<open>How two ranked items may stand: by priority, and within one priority closed before half open.\<close>

definition rank_before :: "('a \<Rightarrow> item_health) \<Rightarrow> 'a \<Rightarrow> 'a \<Rightarrow> bool" where
  "rank_before describe a b \<longleftrightarrow>
     d_priority (describe a) < d_priority (describe b) \<or>
     (d_priority (describe a) = d_priority (describe b) \<and>
      (d_state (describe a) = HalfOpen \<longrightarrow> d_state (describe b) = HalfOpen))"

definition routable_item :: "('a \<Rightarrow> item_health) \<Rightarrow> 'a \<Rightarrow> bool" where
  "routable_item describe x \<longleftrightarrow> d_available (describe x) \<and> d_state (describe x) \<noteq> Open"

lemma set_weighted_of:
  "draw_ok draw \<Longrightarrow> set (fst (weighted_order_pairs draw r (weighted_of describe st xs))) =
     {x \<in> set xs. d_available (describe x) \<and> d_state (describe x) = st}"
  by (auto simp: set_weighted_order weighted_of_def image_image)

lemma mset_weighted_of:
  "draw_ok draw \<Longrightarrow> mset (fst (weighted_order_pairs draw r (weighted_of describe st xs))) =
     mset (filter (\<lambda>x. d_available (describe x) \<and> d_state (describe x) = st) xs)"
  by (simp add: weighted_order_mset weighted_of_def comp_def)

lemma mset_routable_split:
  "mset (filter (\<lambda>x. d_available (describe x) \<and> d_state (describe x) = Closed) xs) +
   mset (filter (\<lambda>x. d_available (describe x) \<and> d_state (describe x) = HalfOpen) xs) =
   mset (filter (routable_item describe) xs)"
proof (induction xs)
  case (Cons a xs)
  then show ?case by (cases "d_state (describe a)") (auto simp: routable_item_def)
qed simp

lemma sorted_wrt_block:
  "(\<And>x y. x \<in> set xs \<Longrightarrow> y \<in> set xs \<Longrightarrow> R x y) \<Longrightarrow> sorted_wrt R xs"
  by (induction xs) auto

lemma rank_runs_props:
  assumes "draw_ok draw" and "sorted (map (\<lambda>x. d_priority (describe x)) xs)"
  shows "mset (fst (rank_runs draw r describe xs)) = mset (filter (routable_item describe) xs) \<and>
         sorted_wrt (rank_before describe) (fst (rank_runs draw r describe xs))"
  using assms
proof (induction draw r describe xs rule: rank_runs.induct)
  case (1 draw r describe xs)
  show ?case
  proof (cases xs)
    case Nil
    then show ?thesis by (simp add: rank_runs.simps)
  next
    case (Cons first rest)
    define same where "same = (\<lambda>item. d_priority (describe item) = d_priority (describe first))"
    define run where "run = first # takeWhile same rest"
    define later where "later = dropWhile same rest"
    have xs: "xs = run @ later" by (simp add: Cons run_def later_def)
    obtain c r1 where c: "weighted_order_pairs draw r (weighted_of describe Closed run) = (c, r1)"
      by (cases "weighted_order_pairs draw r (weighted_of describe Closed run)")
    obtain h r2 where h: "weighted_order_pairs draw r1 (weighted_of describe HalfOpen run) = (h, r2)"
      by (cases "weighted_order_pairs draw r1 (weighted_of describe HalfOpen run)")
    obtain out r3 where out: "rank_runs draw r2 describe later = (out, r3)"
      by (cases "rank_runs draw r2 describe later")
    have "sorted (map (\<lambda>x. d_priority (describe x)) later)"
      using "1.prems"(2) by (simp add: xs sorted_append)
    then have ih: "mset out = mset (filter (routable_item describe) later) \<and> sorted_wrt (rank_before describe) out"
      using "1.IH" [OF Cons same_def run_def c [symmetric] refl h [symmetric] refl "1.prems"(1)] out
      by (simp add: later_def)
    have sets: "set c = {x \<in> set run. d_available (describe x) \<and> d_state (describe x) = Closed}"
        "set h = {x \<in> set run. d_available (describe x) \<and> d_state (describe x) = HalfOpen}"
      using set_weighted_of [OF "1.prems"(1), of r describe Closed run]
        set_weighted_of [OF "1.prems"(1), of r1 describe HalfOpen run] c h by simp_all
    have prio: "d_priority (describe x) = d_priority (describe first)" if "x \<in> set run" for x
      using that by (auto simp: run_def same_def dest: set_takeWhileD)
    have "set out = set (filter (routable_item describe) later)" using ih by (metis mset_eq_setD)
    then have after: "x \<in> set out \<Longrightarrow> d_priority (describe first) < d_priority (describe x)" for x
    proof -
      assume "x \<in> set out"
      then have x: "x \<in> set later" using \<open>set out = _\<close> by simp
      then obtain y ys where later: "later = y # ys" by (cases later) auto
      then have "\<not> same y" by (simp add: later_def dropWhile_eq_Cons_conv)
      then have "d_priority (describe first) < d_priority (describe y)"
        using "1.prems"(2) by (auto simp: xs run_def later same_def sorted_append)
      moreover have "d_priority (describe y) \<le> d_priority (describe x)"
        using "1.prems"(2) x by (auto simp: xs later sorted_append)
      ultimately show ?thesis by simp
    qed
    have "sorted_wrt (rank_before describe) c" "sorted_wrt (rank_before describe) h"
      by (rule sorted_wrt_block, use sets prio in \<open>auto simp: rank_before_def\<close>)+
    then have "sorted_wrt (rank_before describe) (c @ h @ out)"
      using ih sets prio after by (auto simp: sorted_wrt_append rank_before_def)
    moreover have "mset (c @ h @ out) = mset (filter (routable_item describe) xs)"
      using ih mset_weighted_of [OF "1.prems"(1), of r describe Closed run]
        mset_weighted_of [OF "1.prems"(1), of r1 describe HalfOpen run]
        mset_routable_split [of describe run] c h by (simp add: xs)
    moreover have "fst (rank_runs draw r describe xs) = c @ h @ out"
      using Cons c h out
      by (simp add: rank_runs.simps [of draw r describe "first # rest"] Let_def same_def run_def later_def)
    ultimately show ?thesis by simp
  qed
qed

lemma key_health_open: "d_available (describe_key health now k) \<Longrightarrow> d_state (describe_key health now k) \<noteq> Open"
  by (auto simp: describe_key_def Let_def hb_snapshot_def health_view_default_def to_view_def
      split: option.splits circuit_state.splits)

text \<open>Every position is hit by exactly its share of the offsets.\<close>

definition weight_before :: "('a \<times> int) list \<Rightarrow> nat \<Rightarrow> int" where
  "weight_before items k = sum_list (map (\<lambda>(_, w). max w 0) (take k items))"

lemma weight_before_simps [simp]:
  "weight_before items 0 = 0"
  "weight_before ((x, w) # items) (Suc k) = max w 0 + weight_before items k"
  by (simp_all add: weight_before_def)

lemma weight_before_Suc:
  "k < length items \<Longrightarrow> weight_before items (Suc k) = weight_before items k + max (snd (items ! k)) 0"
  by (simp add: weight_before_def take_Suc_conv_app_nth case_prod_unfold)

lemma weight_before_mono: "j \<le> k \<Longrightarrow> weight_before items j \<le> weight_before items k"
proof (induction items arbitrary: j k)
  case (Cons a items)
  then show ?case
  proof (cases j)
    case 0
    have "0 \<le> weight_before (a # items) k"
      unfolding weight_before_def by (rule sum_list_nonneg) auto
    then show ?thesis by (simp add: 0)
  next
    case (Suc j')
    then obtain k' where "k = Suc k'" "j' \<le> k'" using Cons.prems by (cases k) auto
    then show ?thesis using Cons.IH [of j' k'] Suc by (cases a) simp
  qed
qed (simp add: weight_before_def)

lemma pick_offset_interval:
  "0 \<le> off \<Longrightarrow> off < weight_before items (length items) \<Longrightarrow>
   \<exists>k < length items. pick_offset i off items = i + k \<and>
     weight_before items k \<le> off \<and> off < weight_before items (Suc k)"
proof (induction i off items rule: pick_offset.induct)
  case (2 i off x weight items)
  show ?case
  proof (cases "off < max weight 0")
    case True
    then show ?thesis using 2(2) by (intro exI [of _ 0]) (simp add: weight_before_def)
  next
    case False
    then have "0 \<le> off - max weight 0" "off - max weight 0 < weight_before items (length items)"
      using 2(2,3) by simp_all
    from "2.IH" [OF False this] obtain k where "k < length items" "pick_offset (Suc i) (off - max weight 0) items = Suc i + k"
        "weight_before items k \<le> off - max weight 0" "off - max weight 0 < weight_before items (Suc k)"
      by auto
    then show ?thesis using False by (intro exI [of _ "Suc k"]) (simp del: max_less_iff_conj)
  qed
qed (simp add: weight_before_def)

lemma pick_offset_iff:
  assumes "0 \<le> off" and "off < weight_before items (length items)" and "k < length items"
  shows "pick_offset 0 off items = k \<longleftrightarrow> weight_before items k \<le> off \<and> off < weight_before items (Suc k)"
proof -
  obtain j where j: "pick_offset 0 off items = j" "weight_before items j \<le> off" "off < weight_before items (Suc j)"
    using pick_offset_interval [OF assms(1,2), of 0] by auto
  have "j = k" if "weight_before items k \<le> off" "off < weight_before items (Suc k)"
    using that j weight_before_mono [of "Suc j" k items] weight_before_mono [of "Suc k" j items]
    by (meson leI le_less_trans not_le Suc_leI antisym)
  then show ?thesis using j by auto
qed

lemma total_weight_eq:
  "weight_before items (length items) \<le> 2147483647 \<Longrightarrow>
   total_weight items = weight_before items (length items)"
proof -
  assume "weight_before items (length items) \<le> 2147483647"
  moreover have "0 \<le> weight_before items (length items)" using weight_before_mono [of 0 "length items" items] by simp
  ultimately show ?thesis by (simp add: total_weight_def wrap_i32_small weight_before_def)
qed

text \<open>Round robin: the \<open>k\<close>-th of a series of calls with the same keys starts \<open>k\<close> places on.\<close>

fun rotate_calls :: "nat \<Rightarrow> rotation_book \<Rightarrow> int \<Rightarrow> 'a list \<Rightarrow> 'a list list" where
  "rotate_calls 0 book i keys = []"
| "rotate_calls (Suc n) book i keys =
     (case rotate_provider book i keys of (out, book') \<Rightarrow> out # rotate_calls n book' i keys)"

lemma rotate_provider_eq:
  "1 < length keys \<Longrightarrow> rotate_provider book i keys =
     (rotate (unwrap_or (book i) 0 mod length keys) keys,
      book(i \<mapsto> ((unwrap_or (book i) 0 + 1) mod 2 ^ 64) mod length keys))"
  by (auto simp: rotate_provider_def Let_def rotate_drop_take)

lemma rotate_calls_nth:
  assumes "1 < length keys" and "length keys < 2 ^ 64" and "unwrap_or (book i) 0 < length keys"
  shows "k < n \<Longrightarrow> rotate_calls n book i keys ! k = rotate (unwrap_or (book i) 0 + k) keys"
  using assms
proof (induction n arbitrary: book k)
  case (Suc n)
  let ?o = "unwrap_or (book i) 0"
  let ?b = "book(i \<mapsto> ((?o + 1) mod 2 ^ 64) mod length keys)"
  have out: "rotate_provider book i keys = (rotate ?o keys, ?b)"
    using Suc.prems by (simp add: rotate_provider_eq)
  have nxt: "unwrap_or (?b i) 0 = (?o + 1) mod length keys"
    using Suc.prems by (simp add: unwrap_or_def)
  show ?case
  proof (cases k)
    case (Suc j)
    have "unwrap_or (?b i) 0 < length keys" unfolding nxt using Suc.prems(2) by (intro mod_less_divisor) auto
    then have below: "unwrap_or (?b i) 0 < length keys" .
    have "rotate_calls n ?b i keys ! j = rotate (unwrap_or (?b i) 0 + j) keys"
      by (rule Suc.IH [where book = ?b and k = j, OF _ Suc.prems(2,3) below]) (use Suc.prems(1) Suc in simp)
    also have "\<dots> = rotate ((?o + 1) mod length keys + j) keys" by (simp only: nxt)
    also have "\<dots> = rotate (((?o + 1) mod length keys + j) mod length keys) keys" by (rule rotate_conv_mod)
    also have "\<dots> = rotate ((?o + k) mod length keys) keys" by (simp add: mod_add_left_eq Suc)
    also have "\<dots> = rotate (?o + k) keys" by (rule rotate_conv_mod [symmetric])
    finally show ?thesis using Suc by (simp add: out)
  qed (simp add: out)
qed simp

lemma mset_rotate: "mset (rotate n xs) = mset xs"
proof (induction n)
  case (Suc n)
  then show ?case by (cases "rotate n xs") auto
qed simp

lemma rotate_calls_length [simp]: "length (rotate_calls n book i keys) = n"
  by (induction n arbitrary: book) (simp_all add: case_prod_unfold)

section \<open>Properties\<close>

lemma rank_keys_props:
  assumes "draw_ok draw" and "out = fst (rank_key_refs_with_health draw r keys health now)"
  shows "mset out = mset (filter (\<lambda>k. k_enabled k \<and> fst (hb_try_begin_attempt health (k_id k) now) \<noteq> None) keys) \<and>
         sorted_wrt (rank_before (describe_key health now)) out"
proof -
  let ?d = "describe_key health now"
  let ?xs = "map (\<lambda>k. (k, d_priority (?d k), d_weight (?d k))) (filter (\<lambda>k. d_enabled (?d k)) keys)"
  obtain ps r1 where ps: "order_by_priority_weight draw r ?xs = (ps, r1)"
    by (cases "order_by_priority_weight draw r ?xs")
  have pr: "mset ps = mset (filter (\<lambda>k. d_enabled (?d k)) keys) \<and> sorted (map (\<lambda>k. d_priority (?d k)) ps)"
    using order_by_priority_props [OF assms(1), of ?xs "\<lambda>k. d_priority (?d k)" r] ps by (auto simp: comp_def)
  have "out = fst (rank_runs draw r1 ?d ps)"
    using ps by (simp add: assms(2) rank_key_refs_with_health_def rank_by_priority_and_health_def
        order_by_priority_weight_refs_def)
  then have "mset out = mset (filter (routable_item ?d) ps)" "sorted_wrt (rank_before ?d) out"
    using rank_runs_props [OF assms(1), of ?d ps r1] pr by simp_all
  moreover have "mset (filter (routable_item ?d) ps) =
      mset (filter (routable_item ?d) (filter (\<lambda>k. d_enabled (?d k)) keys))"
    using pr by (metis mset_filter)
  moreover have "routable_item ?d k \<longleftrightarrow> fst (hb_try_begin_attempt health (k_id k) now) \<noteq> None" for k
    using key_health_open [of health now k] hb_snapshot_available [of health "k_id k" now]
    by (auto simp: routable_item_def) (auto simp: describe_key_def Let_def)
  moreover have "d_enabled (?d k) = k_enabled k" for k by (simp add: describe_key_def Let_def)
  ultimately show ?thesis by (simp add: filter_filter conj_commute)
qed

text \<open>C38: the keys offered for a provider are exactly its enabled keys that would admit an attempt,
  each once; a lower priority number comes first, and within one priority the keys with a closed
  breaker come before the half-open ones, whatever the random draws.\<close>

theorem rank_keys_correct:
  assumes "draw_ok draw" and "out = fst (rank_key_refs_with_health draw r keys health now)"
  shows "mset out = mset (filter (\<lambda>k. k_enabled k \<and> fst (hb_try_begin_attempt health (k_id k) now) \<noteq> None) keys) \<and>
         sorted_wrt (rank_before (describe_key health now)) out"
  by (rule rank_keys_props [OF assms])

lemma offset_interval:
  fixes a b t :: int
  assumes "off < nat t \<Longrightarrow> P \<longleftrightarrow> a \<le> int off \<and> int off < b" and "0 \<le> a" and "a \<le> b" and "b \<le> t"
  shows "off < nat t \<and> P \<longleftrightarrow> nat a \<le> off \<and> off < nat b"
proof (cases "off < nat t")
  case True
  then have "P \<longleftrightarrow> a \<le> int off \<and> int off < b" using assms(1) by blast
  then show ?thesis using True assms(2,3) by linarith
next
  case False
  then show ?thesis using assms(2-4) by linarith
qed

text \<open>The weighted draw is fair. As long as the weights add up within an \<open>i32\<close>, each item is
  picked by exactly as many of the equally likely draws as its weight says, and an item of weight
  zero by none.\<close>

theorem weighted_draw_fair:
  assumes "0 < weight_before items (length items)" and "weight_before items (length items) \<le> 2147483647"
    and "k < length items"
  shows "card {off. off < nat (total_weight items) \<and>
                    fst (pick_weighted (\<lambda>r n. (off, r)) () items) = k} = nat (max (snd (items ! k)) 0)"
proof -
  let ?a = "weight_before items k" and ?b = "weight_before items (Suc k)"
  let ?t = "weight_before items (length items)"
  have t: "total_weight items = ?t" by (rule total_weight_eq [OF assms(2)])
  have ab: "0 \<le> ?a" "?a \<le> ?b" "?b \<le> ?t"
    using weight_before_mono [of 0 k items] weight_before_mono [of k "Suc k" items]
      weight_before_mono [of "Suc k" "length items" items] assms(3) by simp_all
  have "fst (pick_weighted (\<lambda>r n. (off, r)) () items) = pick_offset 0 (int off) items" for off
    using assms(1) by (simp add: pick_weighted_def t)
  then have iff: "fst (pick_weighted (\<lambda>r n. (off, r)) () items) = k \<longleftrightarrow> ?a \<le> int off \<and> int off < ?b"
    if "off < nat ?t" for off
    using pick_offset_iff [of "int off" items k] assms(3) that by simp
  have "off < nat ?t \<and> fst (pick_weighted (\<lambda>r n. (off, r)) () items) = k \<longleftrightarrow> nat ?a \<le> off \<and> off < nat ?b" for off
    by (rule offset_interval [OF iff]) (use ab in simp_all)
  then have "{off. off < nat (total_weight items) \<and>
      fst (pick_weighted (\<lambda>r n. (off, r)) () items) = k} = {nat ?a ..< nat ?b}"
    unfolding t by (intro set_eqI) (simp only: atLeastLessThan_iff mem_Collect_eq)
  then show ?thesis using ab weight_before_Suc [OF assms(3)] by (simp add: nat_diff_distrib)
qed

text \<open>Endpoints are offered in a fixed order: the enabled ones whose breaker would admit an
  attempt, each once, by priority and then by id.\<close>

theorem rank_endpoints_correct:
  "mset (rank_endpoint_refs_with_health es health st now) =
     mset (filter (\<lambda>e. e_enabled e \<and> fst (hb_try_begin_attempt health (e_id e) now) \<noteq> None) es) \<and>
   sorted_wrt (\<lambda>a b. e_priority a < e_priority b \<or> (e_priority a = e_priority b \<and> e_id a \<le> e_id b))
     (rank_endpoint_refs_with_health es health st now)"
proof -
  let ?key = "\<lambda>e. (e_priority e, e_id e)"
  have "sorted_wrt (\<lambda>a b. ?key a \<le> ?key b) (rank_endpoint_refs_with_health es health st now)"
    unfolding rank_endpoint_refs_with_health_def
    using sorted_sort_key [of ?key] by (simp only: sorted_map)
  then show ?thesis
    by (simp add: rank_endpoint_refs_with_health_def hb_snapshot_available less_eq_prod_def less_le_not_le
        cong: conj_cong) (auto elim: sorted_wrt_mono_rel [rotated])
qed

text \<open>Key rotation is a fair round robin: \<open>n\<close> calls in a row for a provider with the same \<open>n\<close>
  keys put every key first exactly once, and every call returns all the keys.\<close>

theorem rotation_fair:
  assumes "1 < length keys" and "length keys < 2 ^ 64" and "unwrap_or (book i) 0 < length keys"
  shows "mset (map hd (rotate_calls (length keys) book i keys)) = mset keys \<and>
         (\<forall>out \<in> set (rotate_calls (length keys) book i keys). mset out = mset keys)"
proof -
  let ?n = "length keys" and ?o = "unwrap_or (book i) 0"
  have nth: "rotate_calls ?n book i keys ! k = rotate (?o + k) keys" if "k < ?n" for k
    using rotate_calls_nth [where n = ?n and k = k and book = book and i = i, OF assms that] .
  have "map hd (rotate_calls ?n book i keys) = rotate ?o keys"
  proof (rule nth_equalityI)
    fix k assume "k < length (map hd (rotate_calls ?n book i keys))"
    then have k: "k < ?n" by simp
    have "keys \<noteq> []" using assms(1) by auto
    then have "hd (rotate (?o + k) keys) = keys ! ((?o + k) mod ?n)" by (simp add: hd_rotate_conv_nth)
    also have "\<dots> = rotate ?o keys ! k" using k by (simp add: nth_rotate add.commute)
    finally show "map hd (rotate_calls ?n book i keys) ! k = rotate ?o keys ! k"
      using k by (simp add: nth)
  qed simp
  then have "mset (map hd (rotate_calls ?n book i keys)) = mset (rotate ?o keys)" by (rule arg_cong)
  moreover have "mset out = mset keys" if "out \<in> set (rotate_calls ?n book i keys)" for out
    using that nth by (auto simp: in_set_conv_nth mset_rotate)
  ultimately show ?thesis by (simp add: mset_rotate)
qed

section \<open>The properties at concrete inputs\<close>

text \<open>A generator that always draws the first position keeps the contract.\<close>

definition wit_draw :: "unit rng" where
  "wit_draw r n = (0, r)"

lemma wit_draw_ok: "draw_ok wit_draw"
  by (simp add: draw_ok_def wit_draw_def)

theorem rank_keys_correct_witness:
  "mset (fst (rank_key_refs_with_health wit_draw () [wit_key, wit_key\<lparr>k_id := 5, k_enabled := False\<rparr>]
      (health_book_new 5 60000) 0)) = {#wit_key#}"
  using rank_keys_correct [OF wit_draw_ok refl, of "()" "[wit_key, wit_key\<lparr>k_id := 5, k_enabled := False\<rparr>]"
      "health_book_new 5 60000" 0]
  by (simp add: wit_key_def hb_try_begin_iff hb_entry_def health_book_new_def unwrap_or_def
      health_default_def health_begin_def state_kind_def)

theorem weighted_draw_fair_witness:
  "card {off. off < nat (total_weight [(''a'', 3), (''b'', 0), (''c'', 5)]) \<and>
     fst (pick_weighted (\<lambda>r n. (off, r)) () [(''a'', 3), (''b'', 0), (''c'', 5)]) = 2} = 5"
  using weighted_draw_fair [of "[(''a'', 3), (''b'', 0), (''c'', 5)]" 2] by (simp add: weight_before_def)

theorem rotation_fair_witness:
  "mset (map hd (rotate_calls 3 Map.empty 1 [10, 20, 30])) = {#10, 20, 30 :: int#}"
  using rotation_fair [of "[10, 20, 30 :: int]" Map.empty 1, THEN conjunct1]
  by (simp add: unwrap_or_def numeral_3_eq_3 del: rotate_calls.simps)

end
