(* ===== verification/Affinity.thy ===== *)
theory Affinity
  imports Headers Json
begin

text \<open>
  \<open>src/backend/src/affinity.rs\<close>: which provider (key, endpoint) a client session is bound to, and
  which provider a session avoids for a while after a failure.  A session is identified by a
  BLAKE3 hash; \<open>blake3\<close> stands for the hash function of the \<open>blake3\<close> crate (32 bytes of the
  bytes it is given), \<open>parse_json\<close> for \<open>serde_json::from_slice\<close>.  The two hash maps are
  association lists with distinct keys, in their iteration order; both are bounded by
  \<open>max_entries\<close>, which is proved below for every sequence of operations.
\<close>

section \<open>Identities\<close>

datatype affinity_source =
    SessionId | SessionIdUnderscore | XSessionId | ThreadId | PromptCacheKey
  | MetadataSessionId | MetadataUserId

type_synonym affinity_key = string

record affinity_identity =
  ai_key :: affinity_key
  ai_routing_key :: affinity_key
  ai_source :: affinity_source
  ai_log_hash :: string

definition hex_digit :: "nat \<Rightarrow> char" where
  "hex_digit n = char_of (if n < 10 then 48 + n else 87 + n)"

definition hex_encode :: "string \<Rightarrow> string" where
  "hex_encode s = concat (map (\<lambda>c. [hex_digit (byte c div 16), hex_digit (byte c mod 16)]) s)"

text \<open>\<open>i64::to_le_bytes\<close>: two's complement, least significant byte first.\<close>

definition to_le_bytes :: "int \<Rightarrow> string" where
  "to_le_bytes i = map (\<lambda>k. char_of (nat ((i mod 2 ^ 64) div 256 ^ k mod 256))) [0..<8]"

definition for_model :: "(string \<Rightarrow> string) \<Rightarrow> affinity_identity \<Rightarrow> string \<Rightarrow> affinity_identity" where
  "for_model blake3 ident model =
     ident\<lparr>ai_routing_key := blake3 (ai_key ident @ [char_of (0 :: nat)] @ model)\<rparr>"

definition derived_prompt_cache_key :: "affinity_identity \<Rightarrow> string" where
  "derived_prompt_cache_key ident = ''lg_'' @ hex_encode (ai_key ident)"

text \<open>\<open>char::is_control\<close> on UTF-8: C0, DEL, and C1 (two bytes, the first 194).\<close>

fun has_control :: "string \<Rightarrow> bool" where
  "has_control [] = False"
| "has_control (c # s) =
     (byte c < 32 \<or> byte c = 127 \<or>
      (byte c = 194 \<and> (case s of d # _ \<Rightarrow> 128 \<le> byte d \<and> byte d \<le> 159 | [] \<Rightarrow> False)) \<or>
      has_control s)"

definition normalize_session_id :: "string \<Rightarrow> string option" where
  "normalize_session_id value0 =
     (let value = trim value0 in
      if value = [] \<or> 256 < length value \<or> has_control value then None else Some value)"

definition build_identity :: "(string \<Rightarrow> string) \<Rightarrow> int \<Rightarrow> string \<Rightarrow> affinity_source \<Rightarrow> affinity_identity" where
  "build_identity blake3 api_key_id session_id source =
     (let hash = blake3 (to_le_bytes api_key_id @ [char_of (0 :: nat)] @ session_id)
      in \<lparr>ai_key = hash, ai_routing_key = hash, ai_source = source,
          ai_log_hash = hex_encode (take 6 hash)\<rparr>)"

text \<open>\<open>s.rsplit_once(pat)\<close>, the part after the last occurrence.\<close>

fun rsplit_after :: "string \<Rightarrow> string \<Rightarrow> string option" where
  "rsplit_after pat [] = (if pat = [] then Some [] else None)"
| "rsplit_after pat (c # s) =
     (case rsplit_after pat s of
       Some r \<Rightarrow> Some r
     | None \<Rightarrow> strip_prefix pat (c # s))"

definition header_session_id :: "headers \<Rightarrow> string \<Rightarrow> string option" where
  "header_session_id h name = Option.bind (Option.bind (header_get h name) header_to_str) normalize_session_id"

definition str_session_id :: "json \<Rightarrow> string \<Rightarrow> string option" where
  "str_session_id v field = Option.bind (Option.bind (json_get v field) as_str) normalize_session_id"

fun first_header_identity :: "headers \<Rightarrow> (string \<times> affinity_source) list \<Rightarrow> (string \<times> affinity_source) option" where
  "first_header_identity h [] = None"
| "first_header_identity h ((name, source) # rest) =
     (case header_session_id h name of
       Some v \<Rightarrow> Some (v, source)
     | None \<Rightarrow> first_header_identity h rest)"

definition extract_session :: "(string \<Rightarrow> json option) \<Rightarrow> headers \<Rightarrow> string \<Rightarrow> (string \<times> affinity_source) option" where
  "extract_session parse_json h body =
     (case first_header_identity h
             [(''session-id'', SessionId), (''session_id'', SessionIdUnderscore),
              (''x-session-id'', XSessionId), (''thread-id'', ThreadId)] of
       Some found \<Rightarrow> Some found
     | None \<Rightarrow>
         (case parse_json body of
           None \<Rightarrow> None
         | Some root \<Rightarrow>
             (case str_session_id root ''prompt_cache_key'' of
               Some v \<Rightarrow> Some (v, PromptCacheKey)
             | None \<Rightarrow>
                 (case Option.bind (json_get root ''metadata'') as_object of
                   None \<Rightarrow> None
                 | Some metadata \<Rightarrow>
                     (case str_session_id (JObject metadata) ''session_id'' of
                       Some v \<Rightarrow> Some (v, MetadataSessionId)
                     | None \<Rightarrow>
                         (case Option.bind (json_get (JObject metadata) ''user_id'') as_str of
                           None \<Rightarrow> None
                         | Some user_id \<Rightarrow>
                             map_option (\<lambda>v. (v, MetadataUserId))
                               (opt_or (Option.bind (parse_json user_id) (\<lambda>v. str_session_id v ''session_id''))
                                 (Option.bind (rsplit_after ''_session_'' user_id) normalize_session_id))))))))"

definition extract_affinity_identity ::
  "(string \<Rightarrow> string) \<Rightarrow> (string \<Rightarrow> json option) \<Rightarrow> headers \<Rightarrow> string \<Rightarrow> int \<Rightarrow> affinity_identity option" where
  "extract_affinity_identity blake3 parse_json h body api_key_id =
     map_option (\<lambda>(value, source). build_identity blake3 api_key_id value source)
       (extract_session parse_json h body)"

section \<open>The book\<close>

record affinity_binding =
  ab_provider_id :: int
  ab_upstream_key_id :: "int option"
  ab_endpoint_id :: "int option"
  ab_generation :: u64w
  ab_confirmed :: bool

record affinity_entry =
  ae_provider_id :: int
  ae_upstream_key_id :: "int option"
  ae_endpoint_id :: "int option"
  ae_generation :: u64w
  ae_confirmed :: bool
  ae_expires_at_ms :: int
  ae_last_seen_ms :: int

record avoid_entry =
  av_provider_id :: int
  av_until_ms :: int
  av_last_seen_ms :: int

record affinity_book =
  af_ttl_ms :: int
  af_max_entries :: nat
  af_entries :: "(affinity_key \<times> affinity_entry) list"
  af_avoided :: "(affinity_key \<times> avoid_entry) list"
  af_next_generation :: u64w

definition affinity_new :: "int \<Rightarrow> nat \<Rightarrow> affinity_book" where
  "affinity_new ttl max_entries =
     \<lparr>af_ttl_ms = min ttl i64_max, af_max_entries = max max_entries 1, af_entries = [],
      af_avoided = [], af_next_generation = 0\<rparr>"

definition affinity_clear :: "affinity_book \<Rightarrow> affinity_book" where
  "affinity_clear b = b\<lparr>af_entries := [], af_avoided := [], af_next_generation := 0\<rparr>"

definition binding_of :: "affinity_entry \<Rightarrow> affinity_binding" where
  "binding_of e =
     \<lparr>ab_provider_id = ae_provider_id e, ab_upstream_key_id = ae_upstream_key_id e,
      ab_endpoint_id = ae_endpoint_id e, ab_generation = ae_generation e,
      ab_confirmed = ae_confirmed e\<rparr>"

definition entry_get :: "affinity_book \<Rightarrow> affinity_key \<Rightarrow> affinity_entry option" where
  "entry_get b k = map_of (af_entries b) k"

definition entry_put :: "affinity_book \<Rightarrow> affinity_key \<Rightarrow> affinity_entry \<Rightarrow> affinity_book" where
  "entry_put b k e = b\<lparr>af_entries := AList.update k e (af_entries b)\<rparr>"

definition entry_remove :: "affinity_book \<Rightarrow> affinity_key \<Rightarrow> affinity_book" where
  "entry_remove b k = b\<lparr>af_entries := AList.delete k (af_entries b)\<rparr>"

definition avoid_remove :: "affinity_book \<Rightarrow> affinity_key \<Rightarrow> affinity_book" where
  "avoid_remove b k = b\<lparr>af_avoided := AList.delete k (af_avoided b)\<rparr>"

text \<open>A touched entry: \<open>expires_at_ms\<close> and \<open>last_seen_ms\<close> move to now.\<close>

definition touch :: "affinity_book \<Rightarrow> int \<Rightarrow> affinity_entry \<Rightarrow> affinity_entry" where
  "touch b now_ms e =
     e\<lparr>ae_expires_at_ms := i64_saturating_add now_ms (af_ttl_ms b), ae_last_seen_ms := now_ms\<rparr>"

definition drop_if_expired :: "affinity_book \<Rightarrow> affinity_key \<Rightarrow> int \<Rightarrow> bool \<times> affinity_book" where
  "drop_if_expired b k now_ms =
     (if is_some_and (entry_get b k) (\<lambda>e. ae_expires_at_ms e \<le> now_ms)
      then (True, entry_remove b k) else (False, b))"

definition affinity_lookup ::
  "affinity_book \<Rightarrow> affinity_identity \<Rightarrow> int \<Rightarrow> affinity_binding option \<times> affinity_book" where
  "affinity_lookup b ident now_ms =
     (let k = ai_routing_key ident in
      case drop_if_expired b k now_ms of
        (True, b') \<Rightarrow> (None, b')
      | (False, b') \<Rightarrow>
          (case entry_get b' k of
            None \<Rightarrow> (None, b')
          | Some e \<Rightarrow> (Some (binding_of e), entry_put b' k (touch b' now_ms e))))"

lemma alist_delete_shorter: "(k, v) \<in> set xs \<Longrightarrow> length (AList.delete k xs) < length xs"
  by (induction xs) (auto simp: le_imp_less_Suc length_delete_le)

function evict_entries ::
  "(affinity_key \<times> affinity_entry) list \<Rightarrow> (affinity_key \<times> avoid_entry) list \<Rightarrow> nat
     \<Rightarrow> (affinity_key \<times> affinity_entry) list \<times> (affinity_key \<times> avoid_entry) list" where
  "evict_entries entries avoided max_entries =
     (if length entries < max_entries then (entries, avoided)
      else (case min_by_key (\<lambda>(_, e). ae_last_seen_ms e) entries of
              None \<Rightarrow> (entries, avoided)
            | Some (oldest, _) \<Rightarrow>
                evict_entries (AList.delete oldest entries) (AList.delete oldest avoided) max_entries))"
  by auto

termination
  by (relation "measure (\<lambda>(entries, _, _). length entries)")
    (auto dest!: min_by_key_mem intro!: alist_delete_shorter)

function evict_avoided :: "(affinity_key \<times> avoid_entry) list \<Rightarrow> nat \<Rightarrow> (affinity_key \<times> avoid_entry) list" where
  "evict_avoided avoided max_entries =
     (if length avoided < max_entries then avoided
      else (case min_by_key (\<lambda>(_, e). av_last_seen_ms e) avoided of
              None \<Rightarrow> avoided
            | Some (oldest, _) \<Rightarrow> evict_avoided (AList.delete oldest avoided) max_entries))"
  by auto

termination
  by (relation "measure (\<lambda>(avoided, _). length avoided)")
    (auto dest!: min_by_key_mem intro!: alist_delete_shorter)

declare evict_entries.simps [simp del] evict_avoided.simps [simp del]

definition ensure_entry_capacity :: "affinity_book \<Rightarrow> int \<Rightarrow> affinity_book" where
  "ensure_entry_capacity b now_ms =
     (if length (af_entries b) < af_max_entries b then b
      else (case evict_entries (filter (\<lambda>(_, e). now_ms < ae_expires_at_ms e) (af_entries b))
                  (af_avoided b) (af_max_entries b) of
              (entries, avoided) \<Rightarrow> b\<lparr>af_entries := entries, af_avoided := avoided\<rparr>))"

definition ensure_avoid_capacity :: "affinity_book \<Rightarrow> int \<Rightarrow> affinity_book" where
  "ensure_avoid_capacity b now_ms =
     (if length (af_avoided b) < af_max_entries b then b
      else b\<lparr>af_avoided :=
               evict_avoided (filter (\<lambda>(_, e). now_ms < av_until_ms e) (af_avoided b)) (af_max_entries b)\<rparr>)"

definition insert_entry ::
  "affinity_book \<Rightarrow> affinity_key \<Rightarrow> int \<Rightarrow> int option \<Rightarrow> int option \<Rightarrow> bool \<Rightarrow> int
     \<Rightarrow> affinity_binding \<times> affinity_book" where
  "insert_entry b k provider_id upstream_key_id endpoint_id confirmed now_ms =
     (let generation = next_u64 (af_next_generation b);
          e = \<lparr>ae_provider_id = provider_id, ae_upstream_key_id = upstream_key_id,
               ae_endpoint_id = endpoint_id, ae_generation = generation, ae_confirmed = confirmed,
               ae_expires_at_ms = i64_saturating_add now_ms (af_ttl_ms b), ae_last_seen_ms = now_ms\<rparr>
      in (binding_of e, entry_put (b\<lparr>af_next_generation := generation\<rparr>) k e))"

definition claim_target ::
  "affinity_book \<Rightarrow> affinity_identity \<Rightarrow> int \<Rightarrow> int option \<Rightarrow> int option \<Rightarrow> int
     \<Rightarrow> affinity_binding \<times> affinity_book" where
  "claim_target b0 ident provider_id upstream_key_id endpoint_id now_ms =
     (let k = ai_routing_key ident; b = snd (drop_if_expired b0 k now_ms) in
      case entry_get b k of
        Some e \<Rightarrow> (binding_of e, entry_put b k (touch b now_ms e))
      | None \<Rightarrow>
          insert_entry (ensure_entry_capacity b now_ms) k provider_id upstream_key_id endpoint_id False now_ms)"

definition claim :: "affinity_book \<Rightarrow> affinity_identity \<Rightarrow> int \<Rightarrow> int \<Rightarrow> affinity_binding \<times> affinity_book" where
  "claim b ident provider_id now_ms = claim_target b ident provider_id None None now_ms"

definition confirm :: "affinity_book \<Rightarrow> affinity_identity \<Rightarrow> affinity_binding \<Rightarrow> int \<Rightarrow> bool \<times> affinity_book" where
  "confirm b ident binding now_ms =
     (let k = ai_routing_key ident in
      case entry_get b k of
        None \<Rightarrow> (False, b)
      | Some e \<Rightarrow>
          (if ae_provider_id e \<noteq> ab_provider_id binding \<or> ae_generation e \<noteq> ab_generation binding
           then (False, b)
           else (True, avoid_remove (entry_put b k (touch b now_ms (e\<lparr>ae_confirmed := True\<rparr>))) k)))"

definition migrate_target ::
  "affinity_book \<Rightarrow> affinity_identity \<Rightarrow> int \<Rightarrow> int option \<Rightarrow> int option \<Rightarrow> int
     \<Rightarrow> affinity_binding \<times> affinity_book" where
  "migrate_target b0 ident provider_id upstream_key_id endpoint_id now_ms =
     (let k = ai_routing_key ident;
          b = (if entry_get b0 k = None then ensure_entry_capacity b0 now_ms else b0)
      in case insert_entry b k provider_id upstream_key_id endpoint_id True now_ms of
           (binding, b') \<Rightarrow> (binding, avoid_remove b' k))"

definition migrate :: "affinity_book \<Rightarrow> affinity_identity \<Rightarrow> int \<Rightarrow> int \<Rightarrow> affinity_binding \<times> affinity_book" where
  "migrate b ident provider_id now_ms = migrate_target b ident provider_id None None now_ms"

definition refresh_if_provider :: "affinity_book \<Rightarrow> affinity_identity \<Rightarrow> int \<Rightarrow> int \<Rightarrow> bool \<times> affinity_book" where
  "refresh_if_provider b ident provider_id now_ms =
     (let k = ai_routing_key ident in
      case entry_get b k of
        None \<Rightarrow> (False, b)
      | Some e \<Rightarrow>
          (if ae_provider_id e \<noteq> provider_id then (False, b)
           else (True, entry_put b k (touch b now_ms (e\<lparr>ae_confirmed := True\<rparr>)))))"

definition refresh_if_target ::
  "affinity_book \<Rightarrow> affinity_identity \<Rightarrow> affinity_binding \<Rightarrow> int \<Rightarrow> bool \<times> affinity_book" where
  "refresh_if_target b ident binding now_ms =
     (let k = ai_routing_key ident in
      case entry_get b k of
        None \<Rightarrow> (False, b)
      | Some e \<Rightarrow>
          (if ae_provider_id e \<noteq> ab_provider_id binding \<or>
              ae_upstream_key_id e \<noteq> ab_upstream_key_id binding \<or>
              ae_endpoint_id e \<noteq> ab_endpoint_id binding \<or>
              ae_generation e \<noteq> ab_generation binding
           then (False, b)
           else (True, entry_put b k (touch b now_ms (e\<lparr>ae_confirmed := True\<rparr>)))))"

definition clear_if_provider :: "affinity_book \<Rightarrow> affinity_identity \<Rightarrow> int \<Rightarrow> bool \<times> affinity_book" where
  "clear_if_provider b ident provider_id =
     (let k = ai_routing_key ident;
          matches = is_some_and (entry_get b k) (\<lambda>e. ae_provider_id e = provider_id)
      in (matches, if matches then entry_remove b k else b))"

definition mark_provider_failed ::
  "affinity_book \<Rightarrow> affinity_identity \<Rightarrow> int \<Rightarrow> int \<Rightarrow> int \<Rightarrow> affinity_book" where
  "mark_provider_failed b0 ident provider_id now_ms avoid_for_ms =
     (let k = ai_routing_key ident;
          avoid_ms = min avoid_for_ms i64_max;
          b1 = snd (clear_if_provider b0 ident provider_id);
          b2 = (if map_of (af_avoided b1) k = None then ensure_avoid_capacity b1 now_ms else b1)
      in b2\<lparr>af_avoided :=
              AList.update k
                \<lparr>av_provider_id = provider_id, av_until_ms = i64_saturating_add now_ms avoid_ms,
                 av_last_seen_ms = now_ms\<rparr> (af_avoided b2)\<rparr>)"

definition is_provider_avoided :: "affinity_book \<Rightarrow> affinity_identity \<Rightarrow> int \<Rightarrow> int \<Rightarrow> bool \<times> affinity_book" where
  "is_provider_avoided b ident provider_id now_ms =
     (let k = ai_routing_key ident in
      case map_of (af_avoided b) k of
        None \<Rightarrow> (False, b)
      | Some e \<Rightarrow>
          (if av_until_ms e \<le> now_ms then (False, avoid_remove b k)
           else (av_provider_id e = provider_id,
                 b\<lparr>af_avoided := AList.update k (e\<lparr>av_last_seen_ms := now_ms\<rparr>) (af_avoided b)\<rparr>)))"

definition affinity_purge_provider :: "affinity_book \<Rightarrow> int \<Rightarrow> affinity_book" where
  "affinity_purge_provider b provider_id =
     b\<lparr>af_entries := filter (\<lambda>(_, e). ae_provider_id e \<noteq> provider_id) (af_entries b),
       af_avoided := filter (\<lambda>(_, e). av_provider_id e \<noteq> provider_id) (af_avoided b)\<rparr>"

definition affinity_purge_upstream_key :: "affinity_book \<Rightarrow> int \<Rightarrow> affinity_book" where
  "affinity_purge_upstream_key b upstream_key_id =
     b\<lparr>af_entries := filter (\<lambda>(_, e). ae_upstream_key_id e \<noteq> Some upstream_key_id) (af_entries b)\<rparr>"

definition affinity_purge_endpoint :: "affinity_book \<Rightarrow> int \<Rightarrow> affinity_book" where
  "affinity_purge_endpoint b endpoint_id =
     b\<lparr>af_entries := filter (\<lambda>(_, e). ae_endpoint_id e \<noteq> Some endpoint_id) (af_entries b)\<rparr>"

definition affinity_remove_expired :: "affinity_book \<Rightarrow> int \<Rightarrow> affinity_book" where
  "affinity_remove_expired b now_ms =
     b\<lparr>af_entries := filter (\<lambda>(_, e). now_ms < ae_expires_at_ms e) (af_entries b),
       af_avoided := filter (\<lambda>(_, e). now_ms < av_until_ms e) (af_avoided b)\<rparr>"

definition binding_counts_by_provider :: "affinity_book \<Rightarrow> int \<Rightarrow> (int \<Rightarrow> nat) \<times> affinity_book" where
  "binding_counts_by_provider b0 now_ms =
     (let b = affinity_remove_expired b0 now_ms
      in (\<lambda>p. length (filter (\<lambda>(_, e). ae_confirmed e \<and> ae_provider_id e = p) (af_entries b)), b))"

section \<open>Lemmas\<close>

text \<open>The invariant: distinct keys, bounded lengths, a positive bound.\<close>

definition affinity_inv :: "affinity_book \<Rightarrow> bool" where
  "affinity_inv b \<longleftrightarrow>
     1 \<le> af_max_entries b \<and>
     distinct (map fst (af_entries b)) \<and> length (af_entries b) \<le> af_max_entries b \<and>
     distinct (map fst (af_avoided b)) \<and> length (af_avoided b) \<le> af_max_entries b"

lemma evict_entries_props:
  "1 \<le> m \<Longrightarrow> evict_entries es av m = (es', av') \<Longrightarrow>
   length es' < m \<and> length av' \<le> length av \<and>
   (distinct (map fst es) \<longrightarrow> distinct (map fst es')) \<and> (distinct (map fst av) \<longrightarrow> distinct (map fst av'))"
proof (induction es av m rule: evict_entries.induct)
  case (1 es av m)
  show ?case
  proof (cases "length es < m")
    case True
    then show ?thesis using "1.prems" by (simp add: evict_entries.simps [of es])
  next
    case False
    then have "es \<noteq> []" using "1.prems"(1) by auto
    then obtain k e where k: "min_by_key (\<lambda>(_, e). ae_last_seen_ms e) es = Some (k, e)"
      by (cases "min_by_key (\<lambda>(_, e). ae_last_seen_ms e) es") auto
    have "evict_entries (AList.delete k es) (AList.delete k av) m = (es', av')"
      using "1.prems"(2) False k by (simp add: evict_entries.simps [of es])
    from "1.IH" [OF False k refl "1.prems"(1) this] show ?thesis
      using length_delete_le [of k av] by (auto simp: distinct_delete)
  qed
qed

lemma evict_avoided_props:
  "1 \<le> m \<Longrightarrow> length (evict_avoided av m) < m \<and>
   (distinct (map fst av) \<longrightarrow> distinct (map fst (evict_avoided av m)))"
proof (induction av m rule: evict_avoided.induct)
  case (1 av m)
  show ?case
  proof (cases "length av < m")
    case True
    then show ?thesis by (simp add: evict_avoided.simps [of av])
  next
    case False
    then have "av \<noteq> []" using "1.prems" by auto
    then obtain k e where k: "min_by_key (\<lambda>(_, e). av_last_seen_ms e) av = Some (k, e)"
      by (cases "min_by_key (\<lambda>(_, e). av_last_seen_ms e) av") auto
    from "1.IH" [OF False k refl "1.prems"] show ?thesis
      using False k by (auto simp: evict_avoided.simps [of av] distinct_delete)
  qed
qed

lemma ensure_entry_capacity_inv:
  "affinity_inv b \<Longrightarrow> affinity_inv (ensure_entry_capacity b now) \<and>
     length (af_entries (ensure_entry_capacity b now)) < af_max_entries b \<and>
     af_max_entries (ensure_entry_capacity b now) = af_max_entries b"
proof -
  assume inv: "affinity_inv b"
  obtain es' av' where e: "evict_entries (filter (\<lambda>(_, e). now < ae_expires_at_ms e) (af_entries b))
      (af_avoided b) (af_max_entries b) = (es', av')" by fastforce
  then show ?thesis using inv evict_entries_props [OF _ e]
    by (auto simp: ensure_entry_capacity_def affinity_inv_def distinct_filter_keys)
qed

lemma ensure_avoid_capacity_inv:
  "affinity_inv b \<Longrightarrow> affinity_inv (ensure_avoid_capacity b now) \<and>
     length (af_avoided (ensure_avoid_capacity b now)) < af_max_entries b \<and>
     af_max_entries (ensure_avoid_capacity b now) = af_max_entries b"
  using evict_avoided_props [of "af_max_entries b" "filter (\<lambda>(_, e). now < av_until_ms e) (af_avoided b)"]
  by (auto simp: ensure_avoid_capacity_def affinity_inv_def distinct_filter_keys)

lemma entry_put_inv:
  "affinity_inv b \<Longrightarrow> entry_get b k \<noteq> None \<or> length (af_entries b) < af_max_entries b \<Longrightarrow>
   affinity_inv (entry_put b k e)"
  by (auto simp: affinity_inv_def entry_put_def entry_get_def length_alist_update distinct_update
      map_of_eq_None_iff)

lemma affinity_remove_inv:
  "affinity_inv b \<Longrightarrow> affinity_inv (entry_remove b k)"
  "affinity_inv b \<Longrightarrow> affinity_inv (avoid_remove b k)"
  using length_delete_le [of k "af_entries b"] length_delete_le [of k "af_avoided b"]
  by (auto simp: affinity_inv_def entry_remove_def avoid_remove_def distinct_delete)

lemma drop_if_expired_inv: "affinity_inv b \<Longrightarrow> affinity_inv (snd (drop_if_expired b k now))"
  by (simp add: drop_if_expired_def affinity_remove_inv)

section \<open>Operations in any order\<close>

datatype affinity_op =
    ALookup affinity_identity int
  | AClaim affinity_identity int "int option" "int option" int
  | AConfirm affinity_identity affinity_binding int
  | AMigrate affinity_identity int "int option" "int option" int
  | ARefreshProvider affinity_identity int int
  | ARefreshTarget affinity_identity affinity_binding int
  | AClearIf affinity_identity int
  | AFailed affinity_identity int int int
  | AIsAvoided affinity_identity int int
  | APurgeProvider int
  | APurgeKey int
  | APurgeEndpoint int
  | ACounts int
  | AClear

fun do_affinity_op :: "affinity_book \<Rightarrow> affinity_op \<Rightarrow> affinity_book" where
  "do_affinity_op b (ALookup i now) = snd (affinity_lookup b i now)"
| "do_affinity_op b (AClaim i p k e now) = snd (claim_target b i p k e now)"
| "do_affinity_op b (AConfirm i bd now) = snd (confirm b i bd now)"
| "do_affinity_op b (AMigrate i p k e now) = snd (migrate_target b i p k e now)"
| "do_affinity_op b (ARefreshProvider i p now) = snd (refresh_if_provider b i p now)"
| "do_affinity_op b (ARefreshTarget i bd now) = snd (refresh_if_target b i bd now)"
| "do_affinity_op b (AClearIf i p) = snd (clear_if_provider b i p)"
| "do_affinity_op b (AFailed i p now avoid) = mark_provider_failed b i p now avoid"
| "do_affinity_op b (AIsAvoided i p now) = snd (is_provider_avoided b i p now)"
| "do_affinity_op b (APurgeProvider p) = affinity_purge_provider b p"
| "do_affinity_op b (APurgeKey k) = affinity_purge_upstream_key b k"
| "do_affinity_op b (APurgeEndpoint e) = affinity_purge_endpoint b e"
| "do_affinity_op b (ACounts now) = snd (binding_counts_by_provider b now)"
| "do_affinity_op b AClear = affinity_clear b"

lemma insert_entry_inv:
  "affinity_inv b \<Longrightarrow> entry_get b k \<noteq> None \<or> length (af_entries b) < af_max_entries b \<Longrightarrow>
   affinity_inv (snd (insert_entry b k p uk e c now))"
  by (auto simp: insert_entry_def Let_def affinity_inv_def entry_put_def entry_get_def
      length_alist_update distinct_update map_of_eq_None_iff)

lemma claim_target_inv: "affinity_inv b \<Longrightarrow> affinity_inv (snd (claim_target b i p k e now))"
proof -
  assume "affinity_inv b"
  then have d: "affinity_inv (snd (drop_if_expired b (ai_routing_key i) now))" by (rule drop_if_expired_inv)
  then show ?thesis
    using ensure_entry_capacity_inv [OF d, of now]
    by (auto simp: claim_target_def Let_def entry_put_inv split: option.splits intro!: insert_entry_inv)
qed

lemma migrate_target_inv: "affinity_inv b \<Longrightarrow> affinity_inv (snd (migrate_target b i p k e now))"
proof -
  assume b: "affinity_inv b"
  let ?b = "if entry_get b (ai_routing_key i) = None then ensure_entry_capacity b now else b"
  have "affinity_inv ?b" "entry_get ?b (ai_routing_key i) \<noteq> None \<or> length (af_entries ?b) < af_max_entries ?b"
    using b ensure_entry_capacity_inv [OF b, of now] by auto
  then have "affinity_inv (snd (insert_entry ?b (ai_routing_key i) p k e True now))" by (rule insert_entry_inv)
  then show ?thesis by (simp add: migrate_target_def Let_def case_prod_unfold affinity_remove_inv)
qed

lemma clear_if_provider_inv: "affinity_inv b \<Longrightarrow> affinity_inv (snd (clear_if_provider b i p))"
  by (simp add: clear_if_provider_def Let_def affinity_remove_inv)

lemma mark_provider_failed_inv: "affinity_inv b \<Longrightarrow> affinity_inv (mark_provider_failed b i p now av)"
proof -
  assume "affinity_inv b"
  then have c: "affinity_inv (snd (clear_if_provider b i p))" by (rule clear_if_provider_inv)
  then show ?thesis
    using ensure_avoid_capacity_inv [OF c, of now]
    by (auto simp: mark_provider_failed_def Let_def affinity_inv_def length_alist_update distinct_update
        map_of_eq_None_iff)
qed

lemma is_provider_avoided_inv: "affinity_inv b \<Longrightarrow> affinity_inv (snd (is_provider_avoided b i p now))"
proof (cases "map_of (af_avoided b) (ai_routing_key i)")
  case (Some e)
  assume b: "affinity_inv b"
  have "ai_routing_key i \<in> fst ` set (af_avoided b)"
    using Some by (metis map_of_eq_None_iff option.distinct(1))
  then show ?thesis using b Some affinity_remove_inv(2) [OF b]
    by (auto simp: is_provider_avoided_def Let_def affinity_inv_def length_alist_update distinct_update)
qed (simp add: is_provider_avoided_def Let_def)

lemma affinity_op_inv: "affinity_inv b \<Longrightarrow> affinity_inv (do_affinity_op b x)"
proof (cases x)
  case (ALookup i now)
  assume b: "affinity_inv b"
  have "affinity_inv (snd (drop_if_expired b (ai_routing_key i) now))" using b by (rule drop_if_expired_inv)
  then show ?thesis
    by (auto simp: ALookup affinity_lookup_def Let_def entry_put_inv split: prod.splits bool.splits option.splits)
next
  case (AConfirm i bd now)
  assume "affinity_inv b"
  then show ?thesis
    by (auto simp: AConfirm confirm_def Let_def entry_put_inv affinity_remove_inv split: option.splits)
next
  case (ARefreshProvider i p now)
  assume "affinity_inv b"
  then show ?thesis
    by (auto simp: ARefreshProvider refresh_if_provider_def Let_def entry_put_inv split: option.splits)
next
  case (ARefreshTarget i bd now)
  assume "affinity_inv b"
  then show ?thesis
    by (auto simp: ARefreshTarget refresh_if_target_def Let_def entry_put_inv split: option.splits)
qed (auto simp: claim_target_inv migrate_target_inv clear_if_provider_inv mark_provider_failed_inv
    is_provider_avoided_inv, auto simp: affinity_inv_def affinity_purge_provider_def
    affinity_purge_upstream_key_def affinity_purge_endpoint_def binding_counts_by_provider_def
    affinity_remove_expired_def affinity_clear_def Let_def distinct_filter_keys
    intro: order_trans [OF length_filter_le])

lemma affinity_op_max: "af_max_entries (do_affinity_op b x) = af_max_entries b"
  by (cases x)
    (auto simp: affinity_lookup_def claim_target_def confirm_def migrate_target_def refresh_if_provider_def
      refresh_if_target_def clear_if_provider_def mark_provider_failed_def is_provider_avoided_def
      affinity_purge_provider_def affinity_purge_upstream_key_def affinity_purge_endpoint_def
      binding_counts_by_provider_def affinity_remove_expired_def affinity_clear_def Let_def
      entry_put_def entry_remove_def avoid_remove_def insert_entry_def ensure_entry_capacity_def
      ensure_avoid_capacity_def drop_if_expired_def split: prod.splits bool.splits option.splits)

lemma affinity_run_inv:
  "affinity_inv b \<Longrightarrow> affinity_inv (foldl do_affinity_op b ops) \<and>
     af_max_entries (foldl do_affinity_op b ops) = af_max_entries b"
  by (induction ops arbitrary: b) (simp_all add: affinity_op_inv affinity_op_max)

lemma entry_get_put [simp]: "entry_get (entry_put b k e) k' = (if k = k' then Some e else entry_get b k')"
  by (simp add: entry_get_def entry_put_def update_conv')

lemma entry_get_avoid_remove [simp]: "entry_get (avoid_remove b k) k' = entry_get b k'"
  by (simp add: entry_get_def avoid_remove_def)

lemma claim_target_entry:
  "\<exists>e. entry_get (snd (claim_target b i p k ep now)) (ai_routing_key i) = Some e \<and>
       binding_of e = fst (claim_target b i p k ep now) \<and>
       ae_expires_at_ms e = i64_saturating_add now (af_ttl_ms (snd (claim_target b i p k ep now)))"
  by (auto simp: claim_target_def Let_def insert_entry_def binding_of_def touch_def entry_put_def
      entry_get_def update_conv' split: option.splits)

section \<open>Properties\<close>

text \<open>Memory is bounded. Through any sequence of operations on an affinity book, neither the
  sessions it remembers nor the providers it avoids exceed the configured maximum, and a session
  has at most one binding and one avoided provider.\<close>

theorem affinity_bounded:
  assumes "b = foldl do_affinity_op (affinity_new ttl max_entries) ops"
  shows "length (af_entries b) \<le> max max_entries 1 \<and> length (af_avoided b) \<le> max max_entries 1 \<and>
         distinct (map fst (af_entries b)) \<and> distinct (map fst (af_avoided b))"
proof -
  have "affinity_inv (affinity_new ttl max_entries)" by (simp add: affinity_inv_def affinity_new_def)
  from affinity_run_inv [OF this, of ops] show ?thesis
    by (simp add: assms affinity_inv_def) (simp add: affinity_new_def)
qed


text \<open>A failed provider is left. After a failure is reported for a session, the session is no
  longer bound to that provider and avoids it until the end of the avoidance time, and a
  confirmation of an attempt that was bound to it before is refused.\<close>

theorem affinity_failure_leaves:
  assumes "b1 = mark_provider_failed b i p now avoid" and "0 \<le> now" and "0 \<le> avoid" and "now + avoid \<le> i64_max"
  shows "(fst (is_provider_avoided b1 i p now2) \<longleftrightarrow> now2 < now + avoid) \<and>
         (ab_provider_id bd = p \<longrightarrow> \<not> fst (confirm b1 i bd now2)) \<and>
         is_none_or (fst (affinity_lookup b1 i now2)) (\<lambda>bd. ab_provider_id bd \<noteq> p)"
proof -
  let ?k = "ai_routing_key i"
  have av: "map_of (af_avoided b1) ?k = Some \<lparr>av_provider_id = p, av_until_ms = now + avoid, av_last_seen_ms = now\<rparr>"
    using assms by (simp add: mark_provider_failed_def Let_def update_conv' i64_saturating_add_def
        sat_i64_id in_i64_def i64_min_def min_def)
  have en: "\<forall>e. entry_get b1 ?k = Some e \<longrightarrow> ae_provider_id e \<noteq> p"
    by (auto simp: assms(1) mark_provider_failed_def Let_def clear_if_provider_def entry_get_def
        entry_remove_def delete_conv' ensure_avoid_capacity_def is_some_and_def split: option.splits)
  show ?thesis using av en
    by (auto simp: is_provider_avoided_def confirm_def affinity_lookup_def drop_if_expired_def Let_def
        is_none_or_def binding_of_def split: option.splits)
qed

section \<open>The properties at concrete inputs\<close>

definition wit_ident :: affinity_identity where
  "wit_ident = \<lparr>ai_key = ''k'', ai_routing_key = ''k'', ai_source = SessionId, ai_log_hash = ''''\<rparr>"

theorem affinity_bounded_witness:
  "length (af_entries (foldl do_affinity_op (affinity_new 1000 1)
     [AClaim wit_ident 1 None None 0, AClaim (wit_ident\<lparr>ai_routing_key := ''l''\<rparr>) 2 None None 1])) \<le> 1"
  using affinity_bounded [OF refl, of 1000 1
      "[AClaim wit_ident 1 None None 0, AClaim (wit_ident\<lparr>ai_routing_key := ''l''\<rparr>) 2 None None 1]"]
  by (simp del: foldl_Cons)


theorem affinity_failure_leaves_witness:
  "fst (is_provider_avoided (mark_provider_failed (affinity_new 1000 10) wit_ident 7 100 50) wit_ident 7 149)"
  using affinity_failure_leaves [OF refl, of 100 50 "affinity_new 1000 10" wit_ident 7 149] by (simp add: i64_max_def)

end
