(* ===== verification/Pricing.thy ===== *)
theory Pricing
  imports Types
begin

text \<open>
  \<open>src/backend/src/pricing.rs\<close>: price cards (base rates and context tiers), their JSON form, the
  tier of a usage and its cost.  \<open>rust_decimal::Decimal\<close> is not part of the repository: its
  values are a type variable and the operations the source calls are the fields of
  \<open>decimal_ops\<close>.  Multiplication, division and addition of decimals panic on overflow, which is
  the value \<open>Panic\<close> of an outcome.
\<close>

datatype 'a outcome = Panic | Done 'a

fun outcome_bind :: "'a outcome \<Rightarrow> ('a \<Rightarrow> 'b outcome) \<Rightarrow> 'b outcome" where
  "outcome_bind Panic f = Panic"
| "outcome_bind (Done x) f = f x"

record 'd decimal_ops =
  dec_zero :: 'd
  dec_of_int :: "int \<Rightarrow> 'd"
  dec_add :: "'d \<Rightarrow> 'd \<Rightarrow> 'd outcome"
  dec_mul :: "'d \<Rightarrow> 'd \<Rightarrow> 'd outcome"
  dec_div :: "'d \<Rightarrow> 'd \<Rightarrow> 'd outcome"
  dec_from_str :: "string \<Rightarrow> 'd option"
  dec_negative :: "'d \<Rightarrow> bool"
  dec_show :: "'d \<Rightarrow> string"

definition TOKENS_PER_MILLION :: int where
  "TOKENS_PER_MILLION = 1000000"

definition PRICE_SCHEMA_VERSION :: nat where
  "PRICE_SCHEMA_VERSION = 2"

definition PRICE_UNIT :: string where
  "PRICE_UNIT = ''usd_per_million_tokens''"

record 'd price_rates =
  pr_input :: "'d option"
  pr_output :: "'d option"
  pr_cache_read :: "'d option"
  pr_cache_write :: "'d option"

definition rates_default :: "'d price_rates" where
  "rates_default = \<lparr>pr_input = None, pr_output = None, pr_cache_read = None, pr_cache_write = None\<rparr>"

record 'd price_tier =
  pt_over_total_input_tokens :: int
  pt_rates :: "'d price_rates"

record 'd price_card =
  pc_base :: "'d price_rates"
  pc_tiers :: "'d price_tier list"

record 'd price_version =
  pv_id :: int
  pv_card :: "'d price_card"

record 'd priced_cost =
  cost_input_usd :: 'd
  cost_output_usd :: 'd

datatype pricing_status = Priced | Unpriced | UsageMissing

record 'd pricing_evaluation =
  pe_tier_index :: "int option"
  pe_cost :: "'d priced_cost option"
  pe_status :: pricing_status

definition usage_missing :: "'d pricing_evaluation" where
  "usage_missing = \<lparr>pe_tier_index = None, pe_cost = None, pe_status = UsageMissing\<rparr>"

section \<open>Reading a card\<close>

definition parse_optional_rate :: "'d decimal_ops \<Rightarrow> json option \<Rightarrow> string \<Rightarrow> string + 'd option" where
  "parse_optional_rate ops value path =
     (case value of
       None \<Rightarrow> Inr None
     | Some JNull \<Rightarrow> Inr None
     | Some v \<Rightarrow>
         (case (case v of JString s \<Rightarrow> Some s | JNumber s \<Rightarrow> Some s | _ \<Rightarrow> None) of
           None \<Rightarrow> Inl (path @ '' must be a decimal string, number, or null'')
         | Some text \<Rightarrow>
             (case dec_from_str ops text of
               None \<Rightarrow> Inl (path @ '' must be a valid decimal'')
             | Some d \<Rightarrow>
                 (if dec_negative ops d then Inl (path @ '' must be greater than or equal to 0'')
                  else Inr (Some d)))))"

definition parse_required_rate :: "'d decimal_ops \<Rightarrow> json_map \<Rightarrow> string \<Rightarrow> string \<Rightarrow> string + 'd option" where
  "parse_required_rate ops obj key path =
     (case map_get obj key of
       None \<Rightarrow> Inl (path @ ''.'' @ key @ '' is required'')
     | Some v \<Rightarrow> parse_optional_rate ops (Some v) (path @ ''.'' @ key))"

fun sum_bind :: "'e + 'a \<Rightarrow> ('a \<Rightarrow> 'e + 'b) \<Rightarrow> 'e + 'b" where
  "sum_bind (Inl e) f = Inl e"
| "sum_bind (Inr x) f = f x"

definition parse_complete_rates :: "'d decimal_ops \<Rightarrow> json \<Rightarrow> string \<Rightarrow> string + 'd price_rates" where
  "parse_complete_rates ops value path =
     (case as_object value of
       None \<Rightarrow> Inl (path @ '' must be an object'')
     | Some obj \<Rightarrow>
         sum_bind (parse_required_rate ops obj ''input'' path) (\<lambda>i.
         sum_bind (parse_required_rate ops obj ''output'' path) (\<lambda>out.
         sum_bind (parse_required_rate ops obj ''cache_read'' path) (\<lambda>cr.
         sum_bind (parse_required_rate ops obj ''cache_write'' path) (\<lambda>cw.
           Inr \<lparr>pr_input = i, pr_output = out, pr_cache_read = cr, pr_cache_write = cw\<rparr>)))))"

definition tier_path :: "nat \<Rightarrow> string" where
  "tier_path index = ''tiers['' @ show_nat index @ '']''"

fun parse_tiers ::
  "'d decimal_ops \<Rightarrow> nat \<Rightarrow> int \<Rightarrow> json list \<Rightarrow> string + 'd price_tier list" where
  "parse_tiers ops index previous [] = Inr []"
| "parse_tiers ops index previous (tier_value # rest) =
     (case as_object tier_value of
       None \<Rightarrow> Inl (tier_path index @ '' must be an object'')
     | Some tier \<Rightarrow>
         (case Option.bind (map_get tier ''over_total_input_tokens'') as_i64 of
           None \<Rightarrow> Inl (tier_path index @ ''.over_total_input_tokens must be an integer'')
         | Some threshold \<Rightarrow>
             (if threshold \<le> 0
              then Inl (tier_path index @ ''.over_total_input_tokens must be greater than 0'')
              else if threshold \<le> previous
              then Inl ''tier thresholds must be unique and strictly increasing''
              else
                (case map_get tier ''rates'' of
                  None \<Rightarrow> Inl (tier_path index @ ''.rates is required'')
                | Some r \<Rightarrow>
                    sum_bind (parse_complete_rates ops r (tier_path index @ ''.rates'')) (\<lambda>rates.
                    sum_bind (parse_tiers ops (Suc index) threshold rest) (\<lambda>tiers.
                      Inr (\<lparr>pt_over_total_input_tokens = threshold, pt_rates = rates\<rparr> # tiers)))))))"

definition from_v2_json :: "'d decimal_ops \<Rightarrow> json \<Rightarrow> string + 'd price_card" where
  "from_v2_json ops value =
     (case as_object value of
       None \<Rightarrow> Inl ''price_data must be an object''
     | Some obj \<Rightarrow>
         (case Option.bind (map_get obj ''schema_version'') as_u64 of
           None \<Rightarrow> Inl ''schema_version must be 2''
         | Some schema_version \<Rightarrow>
             (if schema_version \<noteq> PRICE_SCHEMA_VERSION
              then Inl (''unsupported price schema_version: '' @ show_nat schema_version)
              else if Option.bind (map_get obj ''unit'') as_str \<noteq> Some PRICE_UNIT
              then Inl (''unit must be '' @ PRICE_UNIT)
              else
                (case map_get obj ''base'' of
                  None \<Rightarrow> Inl ''base is required''
                | Some b \<Rightarrow>
                    sum_bind (parse_complete_rates ops b ''base'') (\<lambda>base.
                      (case map_get obj ''tiers'' of
                        None \<Rightarrow> Inl ''tiers is required''
                      | Some t \<Rightarrow>
                          (case as_array t of
                            None \<Rightarrow> Inl ''tiers must be an array''
                          | Some tier_values \<Rightarrow>
                              sum_bind (parse_tiers ops 0 0 tier_values) (\<lambda>tiers.
                                Inr \<lparr>pc_base = base, pc_tiers = tiers\<rparr>))))))))"

definition from_legacy_json :: "'d decimal_ops \<Rightarrow> json \<Rightarrow> string + 'd price_card" where
  "from_legacy_json ops value =
     (case as_object value of
       None \<Rightarrow> Inl ''price_data must be an object''
     | Some obj \<Rightarrow>
         sum_bind
           (if map_contains_key obj ''cache_creation_input_token_cost''
            then parse_optional_rate ops (map_get obj ''cache_creation_input_token_cost'')
                   ''cache_creation_input_token_cost''
            else parse_optional_rate ops (map_get obj ''cache_creation_input_token_cost_above_1hr'')
                   ''cache_creation_input_token_cost_above_1hr'') (\<lambda>cache_write.
         sum_bind (parse_optional_rate ops (map_get obj ''input_cost_per_token'') ''input_cost_per_token'') (\<lambda>i.
         sum_bind (parse_optional_rate ops (map_get obj ''output_cost_per_token'') ''output_cost_per_token'') (\<lambda>out.
         sum_bind (parse_optional_rate ops (map_get obj ''cache_read_input_token_cost'')
                     ''cache_read_input_token_cost'') (\<lambda>cache_read.
           (let base = \<lparr>pr_input = i, pr_output = out, pr_cache_read = cache_read,
                        pr_cache_write = cache_write\<rparr>
            in if base = rates_default then Inl ''price_data must contain at least one price rate''
               else Inr \<lparr>pc_base = base, pc_tiers = []\<rparr>))))))"

definition card_from_json :: "'d decimal_ops \<Rightarrow> json \<Rightarrow> string + 'd price_card" where
  "card_from_json ops value =
     (if json_get value ''schema_version'' \<noteq> None \<or> json_get value ''base'' \<noteq> None
      then from_v2_json ops value else from_legacy_json ops value)"

section \<open>Writing a card\<close>

definition rate_to_json :: "'d decimal_ops \<Rightarrow> 'd option \<Rightarrow> json" where
  "rate_to_json ops rate = (case rate of Some v \<Rightarrow> JString (dec_show ops v) | None \<Rightarrow> JNull)"

definition rates_to_json :: "'d decimal_ops \<Rightarrow> 'd price_rates \<Rightarrow> json" where
  "rates_to_json ops rates =
     json_obj [(''input'', rate_to_json ops (pr_input rates)),
               (''output'', rate_to_json ops (pr_output rates)),
               (''cache_read'', rate_to_json ops (pr_cache_read rates)),
               (''cache_write'', rate_to_json ops (pr_cache_write rates))]"

definition card_to_json :: "'d decimal_ops \<Rightarrow> 'd price_card \<Rightarrow> json" where
  "card_to_json ops pcard =
     json_obj [(''schema_version'', json_nat PRICE_SCHEMA_VERSION),
               (''unit'', JString PRICE_UNIT),
               (''base'', rates_to_json ops (pc_base pcard)),
               (''tiers'', JArray (map (\<lambda>tier.
                  json_obj [(''over_total_input_tokens'', json_int (pt_over_total_input_tokens tier)),
                            (''rates'', rates_to_json ops (pt_rates tier))]) (pc_tiers pcard)))]"

section \<open>Costs\<close>

definition total_input_tokens :: "usage \<Rightarrow> int" where
  "total_input_tokens u =
     i64_saturating_add
       (i64_saturating_add (max (u_input_tokens u) 0) (max (u_cache_read_input_tokens u) 0))
       (max (u_cache_creation_input_tokens u) 0)"

definition tier_index_for_usage :: "'d price_card \<Rightarrow> usage \<Rightarrow> int" where
  "tier_index_for_usage pcard u =
     (case rposition (\<lambda>tier. pt_over_total_input_tokens tier < total_input_tokens u) (pc_tiers pcard) of
       Some index \<Rightarrow> int index + 1
     | None \<Rightarrow> 0)"

definition rates_for_tier :: "'d price_card \<Rightarrow> int \<Rightarrow> 'd price_rates option" where
  "rates_for_tier pcard tier_index =
     (if tier_index = 0 then Some (pc_base pcard)
      else if 0 < tier_index then
        (if nat tier_index - 1 < length (pc_tiers pcard)
         then Some (pt_rates (pc_tiers pcard ! (nat tier_index - 1))) else None)
      else None)"

definition component_cost :: "'d decimal_ops \<Rightarrow> int \<Rightarrow> 'd option \<Rightarrow> 'd option outcome" where
  "component_cost ops tokens0 rate =
     (let tokens = max tokens0 0 in
      if tokens = 0 then Done (Some (dec_zero ops))
      else (case rate of
              None \<Rightarrow> Done None
            | Some v \<Rightarrow>
                outcome_bind (dec_mul ops (dec_of_int ops tokens) v) (\<lambda>m.
                outcome_bind (dec_div ops m (dec_of_int ops TOKENS_PER_MILLION)) (\<lambda>q. Done (Some q)))))"

text \<open>The \<open>?\<close> operator on an optional component inside an outcome.\<close>

definition try_some :: "'a option outcome \<Rightarrow> ('a \<Rightarrow> 'b option outcome) \<Rightarrow> 'b option outcome" where
  "try_some x f = outcome_bind x (\<lambda>v. case v of None \<Rightarrow> Done None | Some y \<Rightarrow> f y)"

definition cost_for_usage :: "'d decimal_ops \<Rightarrow> 'd price_card \<Rightarrow> usage \<Rightarrow> int \<Rightarrow> 'd priced_cost option outcome" where
  "cost_for_usage ops pcard u tier_index =
     try_some (Done (rates_for_tier pcard tier_index)) (\<lambda>rates.
     try_some (component_cost ops (u_input_tokens u) (pr_input rates)) (\<lambda>a.
     try_some (component_cost ops (u_cache_read_input_tokens u) (pr_cache_read rates)) (\<lambda>b.
     outcome_bind (dec_add ops a b) (\<lambda>ab.
     try_some (component_cost ops (u_cache_creation_input_tokens u) (pr_cache_write rates)) (\<lambda>c.
     outcome_bind (dec_add ops ab c) (\<lambda>input_usd.
     try_some (component_cost ops (u_output_tokens u) (pr_output rates)) (\<lambda>output_usd.
       Done (Some \<lparr>cost_input_usd = input_usd, cost_output_usd = output_usd\<rparr>))))))))"

definition validate_complete_rates :: "'d price_rates \<Rightarrow> string \<Rightarrow> string + unit" where
  "validate_complete_rates rates path =
     (case map fst (filter (\<lambda>(_, v). v = None)
             [(''input'', pr_input rates), (''output'', pr_output rates),
              (''cache_read'', pr_cache_read rates), (''cache_write'', pr_cache_write rates)]) of
       [] \<Rightarrow> Inr ()
     | name # _ \<Rightarrow>
         Inl (path @ ''.'' @ name @
              '' must have a price; use 0 when that token category is free''))"

fun validate_tiers :: "nat \<Rightarrow> 'd price_tier list \<Rightarrow> string + unit" where
  "validate_tiers index [] = Inr ()"
| "validate_tiers index (tier # rest) =
     sum_bind (validate_complete_rates (pt_rates tier) (tier_path index @ ''.rates''))
       (\<lambda>_. validate_tiers (Suc index) rest)"

definition validate_complete :: "'d price_card \<Rightarrow> string + unit" where
  "validate_complete pcard =
     sum_bind (validate_complete_rates (pc_base pcard) ''base'') (\<lambda>_. validate_tiers 0 (pc_tiers pcard))"

definition evaluate_price ::
  "'d decimal_ops \<Rightarrow> usage \<Rightarrow> bool \<Rightarrow> 'd price_version option \<Rightarrow> 'd pricing_evaluation outcome" where
  "evaluate_price ops u usage_observed price =
     (if \<not> usage_observed then Done usage_missing
      else (case price of
              None \<Rightarrow> Done \<lparr>pe_tier_index = None, pe_cost = None, pe_status = Unpriced\<rparr>
            | Some p \<Rightarrow>
                (let tier_index = tier_index_for_usage (pv_card p) u
                 in outcome_bind (cost_for_usage ops (pv_card p) u tier_index) (\<lambda>cost.
                      Done \<lparr>pe_tier_index = Some tier_index, pe_cost = cost,
                            pe_status = (if cost \<noteq> None then Priced else Unpriced)\<rparr>))))"

section \<open>Lemmas\<close>

text \<open>The contract of the decimal text form: printing and parsing give the value back.\<close>

definition rate_ok :: "'d decimal_ops \<Rightarrow> 'd option \<Rightarrow> bool" where
  "rate_ok ops r \<longleftrightarrow> is_none_or r (\<lambda>d. dec_from_str ops (dec_show ops d) = Some d \<and> \<not> dec_negative ops d)"

definition rates_ok :: "'d decimal_ops \<Rightarrow> 'd price_rates \<Rightarrow> bool" where
  "rates_ok ops r \<longleftrightarrow>
     rate_ok ops (pr_input r) \<and> rate_ok ops (pr_output r) \<and> rate_ok ops (pr_cache_read r) \<and>
     rate_ok ops (pr_cache_write r)"

text \<open>The thresholds of a card grow strictly from a positive \<open>i64\<close>.\<close>

fun tiers_ok :: "'d decimal_ops \<Rightarrow> int \<Rightarrow> 'd price_tier list \<Rightarrow> bool" where
  "tiers_ok ops prev [] = True"
| "tiers_ok ops prev (t # ts) =
     (0 < pt_over_total_input_tokens t \<and> prev < pt_over_total_input_tokens t \<and>
      in_i64 (pt_over_total_input_tokens t) \<and> rates_ok ops (pt_rates t) \<and>
      tiers_ok ops (pt_over_total_input_tokens t) ts)"

definition card_ok :: "'d decimal_ops \<Rightarrow> 'd price_card \<Rightarrow> bool" where
  "card_ok ops c \<longleftrightarrow> rates_ok ops (pc_base c) \<and> tiers_ok ops 0 (pc_tiers c)"

lemma parse_rate_to_json: "rate_ok ops r \<Longrightarrow> parse_optional_rate ops (Some (rate_to_json ops r)) path = Inr r"
  by (auto simp: parse_optional_rate_def rate_to_json_def rate_ok_def is_none_or_def split: option.splits)

lemma parse_rates_to_json: "rates_ok ops r \<Longrightarrow> parse_complete_rates ops (rates_to_json ops r) path = Inr r"
  by (simp add: parse_complete_rates_def rates_to_json_def json_obj_simps parse_required_rate_def
      parse_rate_to_json rates_ok_def)

lemma parse_tiers_to_json:
  "tiers_ok ops prev ts \<Longrightarrow>
   parse_tiers ops i prev (map (\<lambda>t. json_obj
      [(''over_total_input_tokens'', json_int (pt_over_total_input_tokens t)),
       (''rates'', rates_to_json ops (pt_rates t))]) ts) = Inr ts"
  by (induction ts arbitrary: i prev)
    (simp_all add: json_obj_simps as_i64_json_int parse_rates_to_json)

section \<open>Properties\<close>

text \<open>A price card survives its JSON form: reading what \<open>to_json\<close> wrote gives the card back,
  missing rates and every tier included (for cards whose thresholds grow strictly, the only ones
  \<open>from_json\<close> accepts).\<close>

theorem price_card_roundtrip:
  assumes "card_ok ops c"
  shows "card_from_json ops (card_to_json ops c) = Inr c"
proof -
  have "as_u64 (json_nat PRICE_SCHEMA_VERSION) = Some PRICE_SCHEMA_VERSION"
    by (rule as_u64_json_nat) (simp add: PRICE_SCHEMA_VERSION_def u64_max_def)
  then show ?thesis using assms
    by (simp add: card_from_json_def from_v2_json_def card_to_json_def json_obj_simps card_ok_def
        parse_rates_to_json parse_tiers_to_json)
qed

definition tiers_below :: "int \<Rightarrow> 'd price_tier list \<Rightarrow> nat" where
  "tiers_below tokens tiers = length (filter (\<lambda>t. pt_over_total_input_tokens t < tokens) tiers)"

lemma rposition_sorted:
  "sorted_wrt (<) (map pt_over_total_input_tokens ts) \<Longrightarrow>
   rposition (\<lambda>t. pt_over_total_input_tokens t < tokens) ts =
     (if tiers_below tokens ts = 0 then None else Some (tiers_below tokens ts - 1))"
proof (induction ts)
  case (Cons t ts)
  show ?case
  proof (cases "pt_over_total_input_tokens t < tokens")
    case True
    then show ?thesis using Cons by (auto simp: tiers_below_def)
  next
    case False
    then have "filter (\<lambda>t. pt_over_total_input_tokens t < tokens) ts = []"
      using Cons.prems by (auto simp: filter_empty_conv)
    then show ?thesis using False Cons by (simp add: tiers_below_def)
  qed
qed (simp add: tiers_below_def)

lemma tiers_ok_sorted: "tiers_ok ops prev ts \<Longrightarrow> sorted_wrt (<) (prev # map pt_over_total_input_tokens ts)"
proof (induction ts arbitrary: prev)
  case (Cons t ts)
  then have "sorted_wrt (<) (map pt_over_total_input_tokens (t # ts))"
    "prev < pt_over_total_input_tokens t"
    using Cons.IH [of "pt_over_total_input_tokens t"] by simp_all
  then show ?case by auto
qed simp

definition rates_complete :: "'d price_rates \<Rightarrow> bool" where
  "rates_complete r \<longleftrightarrow>
     pr_input r \<noteq> None \<and> pr_output r \<noteq> None \<and> pr_cache_read r \<noteq> None \<and> pr_cache_write r \<noteq> None"

lemma validate_complete_rates_ok: "validate_complete_rates r path = Inr () \<longleftrightarrow> rates_complete r"
  by (auto simp: validate_complete_rates_def rates_complete_def)

lemma validate_tiers_ok: "validate_tiers i ts = Inr () \<Longrightarrow> t \<in> set ts \<Longrightarrow> rates_complete (pt_rates t)"
proof (induction i ts rule: validate_tiers.induct)
  case (2 i t' ts)
  then show ?case
    by (cases "validate_complete_rates (pt_rates t') (tier_path i @ ''.rates'')")
      (auto simp: validate_complete_rates_ok)
qed simp

lemma validate_complete_ok:
  "validate_complete c = Inr () \<Longrightarrow>
   rates_complete (pc_base c) \<and> (\<forall>t \<in> set (pc_tiers c). rates_complete (pt_rates t))"
  by (cases "validate_complete_rates (pc_base c) ''base''")
    (auto simp: validate_complete_def validate_complete_rates_ok dest: validate_tiers_ok)

lemma try_some_not_none: "x \<noteq> Done None \<Longrightarrow> (\<And>v. f v \<noteq> Done None) \<Longrightarrow> try_some x f \<noteq> Done None"
  by (cases x) (auto simp: try_some_def split: option.splits)

lemma bind_not_none: "(\<And>v. f v \<noteq> Done None) \<Longrightarrow> outcome_bind x f \<noteq> Done None"
  by (cases x) auto

lemma component_cost_some: "r \<noteq> None \<Longrightarrow> component_cost ops n r \<noteq> Done None"
proof -
  assume "r \<noteq> None"
  then obtain v where r: "r = Some v" by auto
  have "outcome_bind (dec_mul ops a v) (\<lambda>m. outcome_bind (dec_div ops m b) (\<lambda>q. Done (Some q))) \<noteq> Done None" for a b
    by (intro bind_not_none) simp
  then show ?thesis by (simp add: component_cost_def Let_def r)
qed

lemma rates_for_tier_mem:
  "k \<le> length (pc_tiers c) \<Longrightarrow>
   \<exists>r. rates_for_tier c (int k) = Some r \<and> (r = pc_base c \<or> (\<exists>t \<in> set (pc_tiers c). r = pt_rates t))"
proof (cases k)
  case (Suc j)
  assume "k \<le> length (pc_tiers c)"
  then have "j < length (pc_tiers c)" by (simp add: Suc)
  moreover from this have "rates_for_tier c (int k) = Some (pt_rates (pc_tiers c ! j))"
    by (simp add: rates_for_tier_def Suc del: of_nat_Suc)
  ultimately show ?thesis by auto
qed (simp add: rates_for_tier_def)

lemma cost_complete:
  assumes "rates_for_tier c i = Some r" and "rates_complete r"
  shows "cost_for_usage (ops :: 'a decimal_ops) c u i \<noteq> Done None"
proof -
  have first: "try_some (Done (Some r)) f = f r" for f :: "'a price_rates \<Rightarrow> 'b option outcome"
    by (simp add: try_some_def)
  have "pr_input r \<noteq> None" "pr_output r \<noteq> None" "pr_cache_read r \<noteq> None" "pr_cache_write r \<noteq> None"
    using assms(2) by (simp_all add: rates_complete_def)
  then show ?thesis unfolding cost_for_usage_def assms(1) first
    by (intro try_some_not_none bind_not_none component_cost_some) simp_all
qed


section \<open>The properties at concrete inputs\<close>

text \<open>Whole numbers as decimals.\<close>

definition wit_decimals :: "int decimal_ops" where
  "wit_decimals =
     \<lparr>dec_zero = 0, dec_of_int = (\<lambda>i. i), dec_add = (\<lambda>a b. Done (a + b)), dec_mul = (\<lambda>a b. Done (a * b)),
      dec_div = (\<lambda>a b. Done (a div b)), dec_from_str = parse_i64, dec_negative = (\<lambda>d. d < 0),
      dec_show = show_int\<rparr>"

definition wit_card :: "int price_card" where
  "wit_card =
     \<lparr>pc_base = \<lparr>pr_input = Some 2, pr_output = Some 8, pr_cache_read = None, pr_cache_write = Some 0\<rparr>,
      pc_tiers = [\<lparr>pt_over_total_input_tokens = 272000,
        pt_rates = \<lparr>pr_input = Some 4, pr_output = Some 16, pr_cache_read = None, pr_cache_write = Some 0\<rparr>\<rparr>]\<rparr>"

lemma wit_card_ok: "card_ok wit_decimals wit_card"
  by (simp add: card_ok_def wit_card_def rates_ok_def rate_ok_def wit_decimals_def is_none_or_def
      parse_i64_show in_i64_def i64_max_def i64_min_def)

theorem price_card_roundtrip_witness:
  "card_from_json wit_decimals (card_to_json wit_decimals wit_card) = Inr wit_card"
  by (rule price_card_roundtrip [OF wit_card_ok])

definition wit_usage :: usage where
  "wit_usage =
     \<lparr>u_input_tokens = 272001, u_output_tokens = 10, u_cache_read_input_tokens = 0,
      u_cache_creation_input_tokens = 0, u_reasoning_output_tokens = 0\<rparr>"


end
