(* ===== verification/Upstream_Snapshot.thy ===== *)
theory Upstream_Snapshot
  imports Pricing Health Resilience "HOL-Library.Product_Lexorder"
begin

text \<open>
  \<open>src/backend/src/cache/upstream_cache.rs\<close> and the routing part of \<open>codex_oauth.rs\<close>: the
  immutable snapshot of the configuration that every request is routed with, how it is built from
  the rows of the database, its price lookups, the list of models the gateway offers, and the
  quota an account of a Codex provider reports.  The rows are the arguments of \<open>load_snapshot\<close>:
  the database queries that produce them are not modelled.  Hash maps that are only looked up are
  maps; the two maps that are iterated to build the model list are association lists.
\<close>

section \<open>Codex accounts\<close>

definition CODEX_PROVIDER_TYPE :: string where
  "CODEX_PROVIDER_TYPE = ''openai_codex_oauth''"

definition AUTH_STATUS_ACTIVE :: string where
  "AUTH_STATUS_ACTIVE = ''active''"

definition AUTH_STATUS_FORBIDDEN :: string where
  "AUTH_STATUS_FORBIDDEN = ''forbidden''"

record codex_quota_window =
  cw_used_percent :: f64
  cw_remaining_percent :: f64
  cw_window_seconds :: "int option"
  cw_reset_at_ms :: "int option"

record codex_quota =
  cq_allowed :: "bool option"
  cq_primary_window :: "codex_quota_window option"
  cq_secondary_window :: "codex_quota_window option"
  cq_code_review_window :: "codex_quota_window option"

record codex_account =
  ca_auth_status :: string
  ca_quota :: "codex_quota option"

definition codex_windows :: "codex_quota \<Rightarrow> codex_quota_window list" where
  "codex_windows q = somes [cq_primary_window q, cq_secondary_window q, cq_code_review_window q]"

definition codex_blocked_until_ms :: "codex_quota \<Rightarrow> int \<Rightarrow> int option" where
  "codex_blocked_until_ms q now_ms =
     (case filter (\<lambda>reset. now_ms < reset)
             (somes (map cw_reset_at_ms
               (filter (\<lambda>w. f64_le (cw_remaining_percent w) (Fin 0)) (codex_windows q)))) of
       [] \<Rightarrow> None
     | first # resets \<Rightarrow> Some (foldl max first resets))"

definition is_exhausted_without_reset :: "codex_quota \<Rightarrow> bool" where
  "is_exhausted_without_reset q \<longleftrightarrow>
     cq_allowed q = Some False \<and> list_all (\<lambda>w. cw_reset_at_ms w = None) (codex_windows q)"

definition codex_is_routable :: "codex_account \<Rightarrow> int \<Rightarrow> bool" where
  "codex_is_routable a now_ms =
     (if ca_auth_status a \<noteq> AUTH_STATUS_ACTIVE then False
      else (case ca_quota a of
              None \<Rightarrow> True
            | Some q \<Rightarrow> codex_blocked_until_ms q now_ms = None \<and> \<not> is_exhausted_without_reset q))"

section \<open>The snapshot\<close>

record provider_model_state =
  ms_enabled :: bool
  ms_available :: bool
  ms_responses_via_chat_enabled :: bool

definition is_active :: "provider_model_state \<Rightarrow> bool" where
  "is_active m \<longleftrightarrow> ms_enabled m \<and> ms_available m"

record provider_model_alias_target =
  at_provider_id :: int
  at_upstream_model :: string
  at_enabled :: bool

record 'd upstream_snapshot =
  us_providers :: "upstream_provider list"
  us_route_policies :: "string \<rightharpoonup> route_policy"
  us_keys_by_provider :: "int \<rightharpoonup> upstream_key list"
  us_endpoints_by_provider :: "int \<rightharpoonup> upstream_endpoint list"
  us_groups_by_provider :: "int \<rightharpoonup> provider_group_membership list"
  us_routes_by_model :: "string \<rightharpoonup> model_route"
  us_provider_models :: "int \<rightharpoonup> (string \<times> provider_model_state) list"
  us_alias_to_provider_model :: "(string \<times> provider_model_alias_target) list"
  us_model_aliases_by_name :: "(string \<times> model_alias) list"
  us_alias_targets_by_alias :: "int \<rightharpoonup> model_alias_target list"
  us_key_models_by_key :: "int \<rightharpoonup> (string \<times> bool) list"
  us_globally_disabled_models :: "string list"
  us_codex_oauth_by_key :: "int \<rightharpoonup> codex_account"
  us_model_registry_ids :: "string list"
  us_provider_prices_by_model :: "int \<rightharpoonup> (string \<rightharpoonup> 'd price_version)"
  us_global_prices_by_model :: "string \<rightharpoonup> 'd price_version"

subsection \<open>Prices\<close>

definition find_price :: "'d upstream_snapshot \<Rightarrow> int \<Rightarrow> string \<Rightarrow> 'd price_version option" where
  "find_price snap provider_id model_name =
     opt_or (Option.bind (us_provider_prices_by_model snap provider_id) (\<lambda>items. items model_name))
       (us_global_prices_by_model snap model_name)"

definition find_price_for_request ::
  "'d upstream_snapshot \<Rightarrow> int \<Rightarrow> string \<Rightarrow> string \<Rightarrow> 'd price_version option" where
  "find_price_for_request snap provider_id requested_model upstream_model =
     opt_or (find_price snap provider_id upstream_model)
       (if requested_model = upstream_model then None else find_price snap provider_id requested_model)"

text \<open>A \<open>BTreeSet\<close> of strings: iterated in order, without repetitions.\<close>

definition btree_set :: "string list \<Rightarrow> string list" where
  "btree_set xs = sort (remdups xs)"

fun common_price_loop ::
  "('d price_version option) option \<Rightarrow> 'd price_version option list
     \<Rightarrow> ('d price_version option) option option" where
  "common_price_loop common [] = Some common"
| "common_price_loop None (effective # rest) = common_price_loop (Some effective) rest"
| "common_price_loop (Some existing) (effective # rest) =
     (if map_option pv_id existing \<noteq> map_option pv_id effective then None
      else common_price_loop (Some existing) rest)"

definition find_price_for_historical_request ::
  "'d upstream_snapshot \<Rightarrow> int \<Rightarrow> string \<Rightarrow> 'd price_version option" where
  "find_price_for_historical_request snap provider_id requested_model =
     (let requested_price = find_price snap provider_id requested_model;
          direct = (case map_of (us_alias_to_provider_model snap) requested_model of
                      Some target \<Rightarrow>
                        (if at_provider_id target = provider_id \<and> at_enabled target
                         then [at_upstream_model target] else [])
                    | None \<Rightarrow> []);
          aliased = (case map_of (us_model_aliases_by_name snap) requested_model of
                       Some alias \<Rightarrow>
                         (if a_enabled alias
                          then map t_upstream_model
                                 (filter (\<lambda>t. t_provider_id t = provider_id \<and> t_enabled t)
                                   (unwrap_or (us_alias_targets_by_alias snap (a_id alias)) []))
                          else [])
                     | None \<Rightarrow> []);
          upstream_models = (if direct @ aliased = [] then [requested_model] else direct @ aliased)
      in case common_price_loop None
                (map (\<lambda>m. opt_or (find_price snap provider_id m) requested_price)
                  (btree_set upstream_models)) of
           None \<Rightarrow> None
         | Some common \<Rightarrow> opt_or (unwrap_or common None) requested_price)"

subsection \<open>Models\<close>

definition is_model_globally_enabled :: "'d upstream_snapshot \<Rightarrow> string \<Rightarrow> bool" where
  "is_model_globally_enabled snap model_name \<longleftrightarrow> model_name \<notin> set (us_globally_disabled_models snap)"

definition provider_model_state_of ::
  "'d upstream_snapshot \<Rightarrow> int \<Rightarrow> string \<Rightarrow> provider_model_state option" where
  "provider_model_state_of snap provider_id upstream_model =
     Option.bind (us_provider_models snap provider_id) (\<lambda>models. map_of models upstream_model)"

definition key_allows_model :: "'d upstream_snapshot \<Rightarrow> int \<Rightarrow> string \<Rightarrow> bool" where
  "key_allows_model snap key_id upstream_model =
     (case us_key_models_by_key snap key_id of
       Some models \<Rightarrow> (if models \<noteq> [] then unwrap_or (map_of models upstream_model) False else True)
     | None \<Rightarrow> True)"

text \<open>The models of an enabled provider that some key can serve now.\<close>

definition active_models :: "'d upstream_snapshot \<Rightarrow> int \<Rightarrow> upstream_provider \<Rightarrow> string list" where
  "active_models snap now_ms provider =
     (case (us_provider_models snap (p_id provider), us_keys_by_provider snap (p_id provider)) of
       (Some models, Some keys) \<Rightarrow>
         map fst (filter (\<lambda>(upstream_model, state).
            is_active state \<and> is_model_globally_enabled snap upstream_model \<and>
            list_ex (\<lambda>key. k_enabled key \<and> key_allows_model snap (k_id key) upstream_model \<and>
                (p_provider_type provider \<noteq> CODEX_PROVIDER_TYPE \<or>
                 is_some_and (us_codex_oauth_by_key snap (k_id key)) (\<lambda>a. codex_is_routable a now_ms)))
              keys) models)
     | _ \<Rightarrow> [])"

definition active_target :: "'d upstream_snapshot \<Rightarrow> int \<Rightarrow> int \<Rightarrow> string \<Rightarrow> bool" where
  "active_target snap now_ms provider_id upstream_model \<longleftrightarrow>
     list_ex (\<lambda>p. p_enabled p \<and> p_id p = provider_id \<and> upstream_model \<in> set (active_models snap now_ms p))
       (us_providers snap)"

definition rebuild_model_registry_ids :: "'d upstream_snapshot \<Rightarrow> int \<Rightarrow> 'd upstream_snapshot" where
  "rebuild_model_registry_ids snap now_ms =
     (let upstream = concat (map (active_models snap now_ms) (filter p_enabled (us_providers snap)));
          aliases = map (\<lambda>(_, alias). a_name alias)
            (filter (\<lambda>(_, alias).
               a_enabled alias \<and> is_model_globally_enabled snap (a_name alias) \<and>
               list_ex (\<lambda>t. t_enabled t \<and> is_model_globally_enabled snap (t_upstream_model t) \<and>
                            active_target snap now_ms (t_provider_id t) (t_upstream_model t))
                 (unwrap_or (us_alias_targets_by_alias snap (a_id alias)) []))
              (us_model_aliases_by_name snap));
          legacy = map fst
            (filter (\<lambda>(alias, target).
               at_enabled target \<and> is_model_globally_enabled snap alias \<and>
               is_model_globally_enabled snap (at_upstream_model target) \<and>
               active_target snap now_ms (at_provider_id target) (at_upstream_model target))
              (us_alias_to_provider_model snap))
      in snap\<lparr>us_model_registry_ids := btree_set (upstream @ aliases @ legacy)\<rparr>)"

section \<open>Building a snapshot from the rows\<close>

record 'd price_row =
  mp_id :: int
  mp_provider_id :: "int option"
  mp_model_name :: string
  mp_price :: "'d price_card"

text \<open>What the database queries of \<open>load_snapshot\<close> return.\<close>

record 'd config_rows =
  cr_providers :: "upstream_provider list"
  cr_groups :: "int \<rightharpoonup> provider_group_membership list"
  cr_keys :: "upstream_key list"
  cr_codex_accounts :: "(int \<times> codex_account) list"
  cr_endpoints :: "upstream_endpoint list"
  cr_routes :: "model_route list"
  cr_provider_models :: "provider_model list"
  cr_aliases :: "model_alias list"
  cr_alias_targets :: "model_alias_target list"
  cr_policies :: "gateway_model_policy list"
  cr_key_models :: "upstream_key_model list"
  cr_prices :: "'d price_row list"
  cr_route_policies :: "string \<rightharpoonup> route_policy"
  cr_request_options :: "int \<rightharpoonup> nat option \<times> bool"

text \<open>\<open>entry(k).or_default().push(x)\<close> over all rows.\<close>

definition push_group :: "('a \<Rightarrow> 'k) \<Rightarrow> ('k \<rightharpoonup> 'a list) \<Rightarrow> 'a \<Rightarrow> ('k \<rightharpoonup> 'a list)" where
  "push_group f m x = m(f x \<mapsto> unwrap_or (m (f x)) [] @ [x])"

definition group_rows :: "('a \<Rightarrow> 'k) \<Rightarrow> 'a list \<Rightarrow> ('k \<rightharpoonup> 'a list)" where
  "group_rows f xs = foldl (push_group f) Map.empty xs"

definition add_provider_model ::
  "(int \<rightharpoonup> (string \<times> provider_model_state) list) \<times> (string \<times> provider_model_alias_target) list
     \<Rightarrow> provider_model
     \<Rightarrow> (int \<rightharpoonup> (string \<times> provider_model_state) list) \<times> (string \<times> provider_model_alias_target) list" where
  "add_provider_model acc m =
     (case acc of (models, aliases) \<Rightarrow>
       (models(pm_provider_id m \<mapsto>
          AList.update (pm_upstream_model m)
            \<lparr>ms_enabled = pm_enabled m, ms_available = pm_available m,
             ms_responses_via_chat_enabled = pm_responses_via_chat_enabled m\<rparr>
            (unwrap_or (models (pm_provider_id m)) [])),
        (case opt_filter (\<lambda>v. v \<noteq> []) (map_option trim (pm_alias m)) of
          Some alias \<Rightarrow>
            AList.update alias
              \<lparr>at_provider_id = pm_provider_id m, at_upstream_model = pm_upstream_model m,
               at_enabled = (pm_enabled m \<and> pm_available m)\<rparr> aliases
        | None \<Rightarrow> aliases)))"

definition sort_alias_targets :: "model_alias_target list \<Rightarrow> model_alias_target list" where
  "sort_alias_targets targets = sort_key (\<lambda>t. (t_priority t, - t_weight t, t_id t)) targets"

definition add_key_model ::
  "(int \<rightharpoonup> (string \<times> bool) list) \<Rightarrow> upstream_key_model \<Rightarrow> (int \<rightharpoonup> (string \<times> bool) list)" where
  "add_key_model m row =
     m(km_upstream_key_id row \<mapsto>
        AList.update (km_model_name row) (km_enabled row) (unwrap_or (m (km_upstream_key_id row)) []))"

definition add_price ::
  "(int \<rightharpoonup> (string \<rightharpoonup> 'd price_version)) \<times> (string \<rightharpoonup> 'd price_version) \<Rightarrow> 'd price_row
     \<Rightarrow> (int \<rightharpoonup> (string \<rightharpoonup> 'd price_version)) \<times> (string \<rightharpoonup> 'd price_version)" where
  "add_price acc row =
     (case acc of (by_provider, global) \<Rightarrow>
       (let version = \<lparr>pv_id = mp_id row, pv_card = mp_price row\<rparr> in
        case mp_provider_id row of
          Some p \<Rightarrow>
            (by_provider(p \<mapsto> (unwrap_or (by_provider p) Map.empty)(mp_model_name row \<mapsto> version)), global)
        | None \<Rightarrow> (by_provider, global(mp_model_name row \<mapsto> version))))"

definition apply_request_options :: "(int \<rightharpoonup> nat option \<times> bool) \<Rightarrow> upstream_provider \<Rightarrow> upstream_provider" where
  "apply_request_options options p =
     (case options (p_id p) of
       Some (timeout, failover) \<Rightarrow> p\<lparr>p_request_timeout_ms := timeout, p_endpoint_failover := failover\<rparr>
     | None \<Rightarrow> p)"

definition load_snapshot :: "'d config_rows \<Rightarrow> int \<Rightarrow> 'd upstream_snapshot" where
  "load_snapshot rows now_ms =
     (let (models, aliases) = foldl add_provider_model (Map.empty, []) (cr_provider_models rows);
          (provider_prices, global_prices) = foldl add_price (Map.empty, Map.empty) (cr_prices rows);
          snap = \<lparr>us_providers = map (apply_request_options (cr_request_options rows)) (cr_providers rows),
            us_route_policies = cr_route_policies rows,
            us_keys_by_provider = group_rows k_provider_id (cr_keys rows),
            us_endpoints_by_provider = group_rows e_provider_id (cr_endpoints rows),
            us_groups_by_provider = cr_groups rows,
            us_routes_by_model = foldl (\<lambda>m r. m(r_model_name r \<mapsto> r)) Map.empty (cr_routes rows),
            us_provider_models = models,
            us_alias_to_provider_model = aliases,
            us_model_aliases_by_name = foldl (\<lambda>m a. AList.update (a_name a) a m) [] (cr_aliases rows),
            us_alias_targets_by_alias =
              (\<lambda>i. map_option sort_alias_targets (group_rows t_alias_id (cr_alias_targets rows) i)),
            us_key_models_by_key = foldl add_key_model Map.empty (cr_key_models rows),
            us_globally_disabled_models =
              map gp_model_name (filter (\<lambda>p. \<not> gp_enabled p) (cr_policies rows)),
            us_codex_oauth_by_key = foldl (\<lambda>m (key, account). m(key \<mapsto> account)) Map.empty (cr_codex_accounts rows),
            us_model_registry_ids = [],
            us_provider_prices_by_model = provider_prices,
            us_global_prices_by_model = global_prices\<rparr>
      in rebuild_model_registry_ids snap now_ms)"

section \<open>Lemmas\<close>

lemma foldl_push_group:
  "foldl (push_group f) m xs k =
     (let ys = filter (\<lambda>x. f x = k) xs in
      if ys = [] then m k else Some (unwrap_or (m k) [] @ ys))"
  by (induction xs arbitrary: m) (auto simp: push_group_def Let_def unwrap_or_def)

lemma group_rows_eq:
  "group_rows f xs k = (let ys = filter (\<lambda>x. f x = k) xs in if ys = [] then None else Some ys)"
  by (simp add: group_rows_def foldl_push_group Let_def unwrap_or_def)

lemma set_btree_set [simp]: "set (btree_set xs) = set xs"
  by (simp add: btree_set_def)

lemma btree_set_sorted: "sorted_wrt (<) (btree_set xs)"
  by (simp add: btree_set_def strict_sorted_iff)

text \<open>What the database would call active: a usable model row of an enabled provider with a key.\<close>

lemma active_models_iff:
  "m \<in> set (active_models snap now p) \<longleftrightarrow>
     (\<exists>models keys st key. us_provider_models snap (p_id p) = Some models \<and>
        us_keys_by_provider snap (p_id p) = Some keys \<and> (m, st) \<in> set models \<and> is_active st \<and>
        is_model_globally_enabled snap m \<and> key \<in> set keys \<and> k_enabled key \<and>
        key_allows_model snap (k_id key) m \<and>
        (p_provider_type p = CODEX_PROVIDER_TYPE \<longrightarrow>
           is_some_and (us_codex_oauth_by_key snap (k_id key)) (\<lambda>a. codex_is_routable a now)))"
  by (auto simp: active_models_def list_ex_iff image_iff split: option.splits) (metis+)?

definition key_can_serve :: "'d upstream_snapshot \<Rightarrow> int \<Rightarrow> upstream_provider \<Rightarrow> upstream_key \<Rightarrow> string \<Rightarrow> bool" where
  "key_can_serve snap now p key m \<longleftrightarrow>
     k_enabled key \<and> key_allows_model snap (k_id key) m \<and>
     (p_provider_type p = CODEX_PROVIDER_TYPE \<longrightarrow>
        is_some_and (us_codex_oauth_by_key snap (k_id key)) (\<lambda>a. codex_is_routable a now))"

definition serves :: "'d upstream_snapshot \<Rightarrow> int \<Rightarrow> int \<Rightarrow> string \<Rightarrow> bool" where
  "serves snap now provider_id m \<longleftrightarrow>
     (\<exists>p \<in> set (us_providers snap). p_enabled p \<and> p_id p = provider_id \<and>
        (\<exists>models keys st. us_provider_models snap provider_id = Some models \<and>
           us_keys_by_provider snap provider_id = Some keys \<and> (m, st) \<in> set models \<and> is_active st \<and>
           is_model_globally_enabled snap m \<and> (\<exists>key \<in> set keys. key_can_serve snap now p key m)))"

lemma active_target_serves: "active_target snap now provider_id m = serves snap now provider_id m"
  by (auto simp: active_target_def serves_def list_ex_iff active_models_iff key_can_serve_def) blast+

lemma active_models_serves:
  "(\<exists>p \<in> set (us_providers snap). p_enabled p \<and> m \<in> set (active_models snap now p)) \<longleftrightarrow>
   (\<exists>i. serves snap now i m)"
  by (auto simp: active_target_serves [symmetric] active_target_def list_ex_iff)

lemma registry_update: "us_model_registry_ids (snap\<lparr>us_model_registry_ids := x\<rparr>) = x"
  by simp

lemma mem_map_filter_snd:
  "m \<in> set (map (\<lambda>(_, a). f a) (filter (\<lambda>(_, a). P a) xs)) \<longleftrightarrow> (\<exists>(_, a) \<in> set xs. f a = m \<and> P a)"
  by force

lemma mem_map_filter_fst:
  "m \<in> set (map fst (filter (\<lambda>(n, t). P n t) xs)) \<longleftrightarrow> (\<exists>(n, t) \<in> set xs. n = m \<and> P n t)"
  by force

section \<open>Properties\<close>

text \<open>C36: the model list of the gateway is exact, sorted and without repetitions. It contains a name
  if and only if some enabled provider serves it as an active, globally enabled model with an
  enabled key that allows it (and, for a Codex provider, whose account is routable), or it is an
  enabled and globally enabled alias (of the alias tables or of a provider model) with such a
  target.\<close>

theorem model_registry_exact:
  "sorted_wrt (<) (us_model_registry_ids (rebuild_model_registry_ids snap now)) \<and>
   (m \<in> set (us_model_registry_ids (rebuild_model_registry_ids snap now)) \<longleftrightarrow>
      (\<exists>i. serves snap now i m) \<or>
      (\<exists>(_, alias) \<in> set (us_model_aliases_by_name snap).
         a_name alias = m \<and> a_enabled alias \<and> is_model_globally_enabled snap m \<and>
         (\<exists>t \<in> set (unwrap_or (us_alias_targets_by_alias snap (a_id alias)) []).
            t_enabled t \<and> is_model_globally_enabled snap (t_upstream_model t) \<and>
            serves snap now (t_provider_id t) (t_upstream_model t))) \<or>
      (\<exists>(name, t) \<in> set (us_alias_to_provider_model snap).
         name = m \<and> at_enabled t \<and> is_model_globally_enabled snap m \<and>
         is_model_globally_enabled snap (at_upstream_model t) \<and>
         serves snap now (at_provider_id t) (at_upstream_model t)))"
proof -
  have "m \<in> set (concat (map (active_models snap now) (filter p_enabled (us_providers snap)))) \<longleftrightarrow>
      (\<exists>i. serves snap now i m)"
    by (simp add: active_models_serves [symmetric]) blast
  moreover have "sorted_wrt (<) (us_model_registry_ids (rebuild_model_registry_ids snap now))"
    by (simp add: rebuild_model_registry_ids_def Let_def btree_set_sorted)
  moreover have "m \<in> set (us_model_registry_ids (rebuild_model_registry_ids snap now)) \<longleftrightarrow>
      m \<in> set (concat (map (active_models snap now) (filter p_enabled (us_providers snap)))) \<or>
      (\<exists>(_, alias) \<in> set (us_model_aliases_by_name snap). a_name alias = m \<and>
         (a_enabled alias \<and> is_model_globally_enabled snap (a_name alias) \<and>
          list_ex (\<lambda>t. t_enabled t \<and> is_model_globally_enabled snap (t_upstream_model t) \<and>
                       active_target snap now (t_provider_id t) (t_upstream_model t))
            (unwrap_or (us_alias_targets_by_alias snap (a_id alias)) []))) \<or>
      (\<exists>(name, t) \<in> set (us_alias_to_provider_model snap). name = m \<and>
         (at_enabled t \<and> is_model_globally_enabled snap name \<and>
          is_model_globally_enabled snap (at_upstream_model t) \<and>
          active_target snap now (at_provider_id t) (at_upstream_model t)))"
    unfolding rebuild_model_registry_ids_def Let_def
    by (simp only: registry_update set_btree_set set_append Un_iff mem_map_filter_snd mem_map_filter_fst)
  ultimately show ?thesis
    by (simp only: active_target_serves list_ex_iff cong: conj_cong)
qed

end
