(* ===== verification/Caches.thy ===== *)
theory Caches
  imports Types "HOL-Library.Product_Lexorder"
begin

text \<open>
  \<open>src/backend/src/cache/\<close>: the cache of client API keys, the upstream snapshot cache with its
  grace period, and the cache of WebSocket capabilities.  Instants are milliseconds read by the
  caller and passed in.  The database is an argument: \<open>find_row\<close> stands for
  \<open>find_api_key_by_hash\<close>, \<open>loaded\<close> for the outcome of \<open>load_snapshot\<close>; \<open>hash_key\<close> for
  \<open>crypto::hash_api_key\<close>.
\<close>

section \<open>API keys\<close>

record api_key_policy =
  akp_ttl :: int
  akp_max_entries :: nat

definition api_key_policy_new :: "int \<Rightarrow> nat \<Rightarrow> api_key_policy" where
  "api_key_policy_new ttl max_entries = \<lparr>akp_ttl = ttl, akp_max_entries = max max_entries 1\<rparr>"

record api_key_entry =
  ake_value :: api_key_auth
  ake_loaded_at :: int

record api_key_cache =
  akc_policy :: api_key_policy
  akc_by_hash :: "(string \<times> api_key_entry) list"

definition api_key_cache_new :: "api_key_policy \<Rightarrow> api_key_cache" where
  "api_key_cache_new policy = \<lparr>akc_policy = policy, akc_by_hash = []\<rparr>"

definition akc_get_fresh :: "api_key_cache \<Rightarrow> string \<Rightarrow> int \<Rightarrow> api_key_auth option" where
  "akc_get_fresh c key_hash now =
     (case map_of (akc_by_hash c) key_hash of
       None \<Rightarrow> None
     | Some hit \<Rightarrow> (if akp_ttl (akc_policy c) < now - ake_loaded_at hit then None else Some (ake_value hit)))"

definition trim_to_budget :: "api_key_policy \<Rightarrow> (string \<times> api_key_entry) list \<Rightarrow> (string \<times> api_key_entry) list" where
  "trim_to_budget policy cache =
     (if length cache \<le> akp_max_entries policy then cache
      else
        (let overflow = length cache - akp_max_entries policy;
             victims = sort_key (\<lambda>(_, loaded_at). loaded_at) (map (\<lambda>(key, e). (key, ake_loaded_at e)) cache)
         in fold (\<lambda>(key, _) c. AList.delete key c) (take overflow victims) cache))"

definition check_live :: "api_key_auth \<Rightarrow> int \<Rightarrow> api_key_auth option" where
  "check_live api_key now_ms =
     (if \<not> ak_enabled api_key then None
      else if is_some_and (ak_expires_at_ms api_key) (\<lambda>expires_at. expires_at \<le> now_ms) then None
      else Some (api_key\<lparr>ak_enabled := True\<rparr>))"

text \<open>\<open>now\<close> is the clock of the cache, \<open>now_ms\<close> the wall clock of the request.\<close>

definition akc_validate ::
  "(string \<Rightarrow> string \<Rightarrow> string) \<Rightarrow> (string \<Rightarrow> string + api_key_auth option) \<Rightarrow> api_key_cache \<Rightarrow> string \<Rightarrow> string
     \<Rightarrow> int \<Rightarrow> int \<Rightarrow> (string + api_key_auth option) \<times> api_key_cache" where
  "akc_validate hash_key find_row c master_key api_key_plaintext now now_ms =
     (let key_hash = hash_key master_key api_key_plaintext in
      case akc_get_fresh c key_hash now of
        Some hit \<Rightarrow> (Inr (check_live hit now_ms), c)
      | None \<Rightarrow>
          (case find_row key_hash of
            Inl e \<Rightarrow> (Inl e, c)
          | Inr None \<Rightarrow> (Inr None, c)
          | Inr (Some row) \<Rightarrow>
              (Inr (check_live row now_ms),
               c\<lparr>akc_by_hash := trim_to_budget (akc_policy c)
                   (AList.update key_hash \<lparr>ake_value = row, ake_loaded_at = now\<rparr> (akc_by_hash c))\<rparr>)))"

definition akc_invalidate_all :: "api_key_cache \<Rightarrow> api_key_cache" where
  "akc_invalidate_all c = c\<lparr>akc_by_hash := []\<rparr>"

section \<open>The upstream snapshot\<close>

record upstream_cache_policy =
  ucp_ttl :: int
  ucp_stale_grace :: int

record 's upstream_cache =
  uc_policy :: upstream_cache_policy
  uc_state :: "('s \<times> int) option"

definition upstream_cache_new :: "upstream_cache_policy \<Rightarrow> 's upstream_cache" where
  "upstream_cache_new policy = \<lparr>uc_policy = policy, uc_state = None\<rparr>"

definition uc_invalidate :: "'s upstream_cache \<Rightarrow> 's upstream_cache" where
  "uc_invalidate c = c\<lparr>uc_state := None\<rparr>"

definition uc_get_fresh :: "'s upstream_cache \<Rightarrow> int \<Rightarrow> 's option" where
  "uc_get_fresh c now =
     (case uc_state c of
       None \<Rightarrow> None
     | Some (v, loaded_at) \<Rightarrow> (if ucp_ttl (uc_policy c) < now - loaded_at then None else Some v))"

definition uc_get_stale_within_grace :: "'s upstream_cache \<Rightarrow> int \<Rightarrow> 's option" where
  "uc_get_stale_within_grace c now =
     (case uc_state c of
       None \<Rightarrow> None
     | Some (v, loaded_at) \<Rightarrow>
         (if ucp_ttl (uc_policy c) + ucp_stale_grace (uc_policy c) < now - loaded_at then None else Some v))"

definition uc_set_snapshot :: "'s upstream_cache \<Rightarrow> 's \<Rightarrow> int \<Rightarrow> 's upstream_cache" where
  "uc_set_snapshot c v now = c\<lparr>uc_state := Some (v, now)\<rparr>"

text \<open>
  \<open>get\<close> in its two atomic parts.  \<open>uc_get_start\<close> runs before the refresh lock is taken and
  gives the answer, or the stale value to fall back on; \<open>uc_get_locked\<close> runs when the lock is
  held, re-reads the cache (which another task may have refreshed) and, if it is still not fresh,
  says that the snapshot has to be loaded; \<open>uc_get_finish\<close> stores what was loaded.
\<close>

definition uc_get_start :: "'s upstream_cache \<Rightarrow> int \<Rightarrow> 's + 's option" where
  "uc_get_start c now =
     (case uc_get_fresh c now of
       Some hit \<Rightarrow> Inl hit
     | None \<Rightarrow> Inr (uc_get_stale_within_grace c now))"

definition uc_get_locked :: "'s upstream_cache \<Rightarrow> int \<Rightarrow> 's option" where
  "uc_get_locked c now = uc_get_fresh c now"

definition uc_get_finish ::
  "'s upstream_cache \<Rightarrow> 's option \<Rightarrow> string + 's \<Rightarrow> int \<Rightarrow> (string + 's) \<times> 's upstream_cache" where
  "uc_get_finish c stale loaded now =
     (case loaded of
       Inr snapshot \<Rightarrow> (Inr snapshot, uc_set_snapshot c snapshot now)
     | Inl e \<Rightarrow> ((case stale of Some v \<Rightarrow> Inr v | None \<Rightarrow> Inl e), c))"

text \<open>\<open>get\<close> when no other task touches the cache in between.\<close>

definition uc_get ::
  "'s upstream_cache \<Rightarrow> int \<Rightarrow> int \<Rightarrow> (unit \<Rightarrow> string + 's) \<Rightarrow> int \<Rightarrow> (string + 's) \<times> 's upstream_cache" where
  "uc_get c t1 t2 load t3 =
     (case uc_get_start c t1 of
       Inl hit \<Rightarrow> (Inr hit, c)
     | Inr stale \<Rightarrow>
         (case uc_get_locked c t2 of
           Some hit \<Rightarrow> (Inr hit, c)
         | None \<Rightarrow> uc_get_finish c stale (load ()) t3))"

section \<open>WebSocket capabilities\<close>

definition WS_CAPABILITY_TTL_BASE_MS :: int where
  "WS_CAPABILITY_TTL_BASE_MS = 600000"

definition WS_CAPABILITY_TTL_JITTER_MIN_MS :: nat where
  "WS_CAPABILITY_TTL_JITTER_MIN_MS = 480000"

definition WS_CAPABILITY_TTL_JITTER_MAX_MS :: nat where
  "WS_CAPABILITY_TTL_JITTER_MAX_MS = 720001"

datatype ws_capability = NativeSupported | NativeUnsupported

type_synonym capability_key = "int \<times> int"

record capability_entry =
  ce_capability :: ws_capability
  ce_expires_at_ms :: int

type_synonym capability_cache = "capability_key \<rightharpoonup> capability_entry"

definition capability_get :: "capability_cache \<Rightarrow> capability_key \<Rightarrow> int \<Rightarrow> ws_capability option" where
  "capability_get c key now_ms =
     (case c key of
       None \<Rightarrow> None
     | Some e \<Rightarrow> (if ce_expires_at_ms e \<le> now_ms then None else Some (ce_capability e)))"

text \<open>\<open>drawn\<close> is the value of \<open>fastrand::usize(MIN..MAX)\<close>.\<close>

definition jittered_ttl_ms :: "nat \<Rightarrow> int" where
  "jittered_ttl_ms drawn = max (int drawn) (WS_CAPABILITY_TTL_BASE_MS div 2)"

definition capability_set :: "capability_cache \<Rightarrow> capability_key \<Rightarrow> ws_capability \<Rightarrow> nat \<Rightarrow> int \<Rightarrow> capability_cache" where
  "capability_set c key capability drawn now_ms =
     c(key \<mapsto> \<lparr>ce_capability = capability,
               ce_expires_at_ms = i64_saturating_add now_ms (jittered_ttl_ms drawn)\<rparr>)"

definition mark_native_supported :: "capability_cache \<Rightarrow> capability_key \<Rightarrow> nat \<Rightarrow> int \<Rightarrow> capability_cache" where
  "mark_native_supported c key drawn now_ms = capability_set c key NativeSupported drawn now_ms"

definition mark_native_unsupported :: "capability_cache \<Rightarrow> capability_key \<Rightarrow> nat \<Rightarrow> int \<Rightarrow> capability_cache" where
  "mark_native_unsupported c key drawn now_ms = capability_set c key NativeUnsupported drawn now_ms"

section \<open>Lemmas\<close>

lemma dom_delete: "fst ` set (AList.delete k al) = fst ` set al - {k}"
  by (metis delete_keys set_map set_removeAll)

lemma set_delete_subset: "set (AList.delete k al) \<subseteq> set al"
  by (auto simp: AList.delete_eq)

lemma fold_delete_length:
  "distinct (map fst c) \<Longrightarrow> distinct (map fst ks) \<Longrightarrow> fst ` set ks \<subseteq> fst ` set c \<Longrightarrow>
   length (fold (\<lambda>(key, _) c. AList.delete key c) ks c) = length c - length ks \<and>
   distinct (map fst (fold (\<lambda>(key, _) c. AList.delete key c) ks c)) \<and>
   set (fold (\<lambda>(key, _) c. AList.delete key c) ks c) \<subseteq> set c"
proof (induction ks arbitrary: c)
  case (Cons k ks)
  obtain key t where k: "k = (key, t)" by (cases k)
  have d: "distinct (map fst (AList.delete key c))" using Cons.prems(1) by (rule distinct_delete)
  have "key \<in> fst ` set c" using Cons.prems(3) by (simp add: k)
  then have len: "length (AList.delete key c) = length c - 1"
    using Cons.prems(1) by (simp add: length_alist_delete)
  have "key \<notin> fst ` set ks" "fst ` set ks \<subseteq> fst ` set c" using Cons.prems(2,3) by (simp_all add: k)
  then have "fst ` set ks \<subseteq> fst ` set (AList.delete key c)" unfolding dom_delete by blast
  then show ?case using Cons.IH [OF d] Cons.prems(2) len set_delete_subset [of key c]
    by (auto simp: k)
qed simp

definition akc_inv :: "api_key_cache \<Rightarrow> bool" where
  "akc_inv c \<longleftrightarrow> distinct (map fst (akc_by_hash c)) \<and> length (akc_by_hash c) \<le> akp_max_entries (akc_policy c)"

lemma trim_to_budget_props:
  assumes "distinct (map fst c)"
  shows "length (trim_to_budget p c) \<le> akp_max_entries p \<and> distinct (map fst (trim_to_budget p c)) \<and>
         set (trim_to_budget p c) \<subseteq> set c"
proof (cases "length c \<le> akp_max_entries p")
  case True
  then show ?thesis using assms by (simp add: trim_to_budget_def)
next
  case False
  let ?n = "length c - akp_max_entries p"
  let ?all = "sort_key (\<lambda>(_, loaded_at). loaded_at) (map (\<lambda>(key, e). (key, ake_loaded_at e)) c)"
  have keys: "map fst (map (\<lambda>(key, e). (key, ake_loaded_at e)) c) = map fst c" by auto
  have "mset (map fst ?all) = mset (map fst (map (\<lambda>(key, e). (key, ake_loaded_at e)) c))"
    by (simp only: mset_map mset_sort)
  then have "mset (map fst ?all) = mset (map fst c)" by (simp only: keys)
  then have all: "distinct (map fst ?all)" "set (map fst ?all) = set (map fst c)"
    using assms by (metis mset_eq_imp_distinct_iff, metis mset_eq_setD)
  have "distinct (map fst (take ?n ?all))" using all(1) by (simp flip: take_map)
  moreover have "fst ` set (take ?n ?all) \<subseteq> fst ` set c" using all(2) by (metis image_mono set_map set_take_subset)
  ultimately show ?thesis
    using fold_delete_length [OF assms, of "take ?n ?all"] False
    by (simp add: trim_to_budget_def Let_def)
qed

text \<open>Where a cached entry comes from: a row the database returned for its hash.\<close>

definition from_db :: "(string \<Rightarrow> string + api_key_auth option) \<Rightarrow> api_key_cache \<Rightarrow> bool" where
  "from_db find_row c \<longleftrightarrow> (\<forall>(k, e) \<in> set (akc_by_hash c). find_row k = Inr (Some (ake_value e)))"

lemma akc_validate_inv:
  assumes "akc_inv c" and "akc_validate hash_key find_row c mk pt now now_ms = (r, c')"
  shows "akc_inv c' \<and> akc_policy c' = akc_policy c"
proof -
  have "distinct (map fst (AList.update k v (akc_by_hash c)))" for k v
    using assms(1) by (simp add: akc_inv_def distinct_update)
  then show ?thesis using assms trim_to_budget_props
    by (auto simp: akc_validate_def akc_inv_def Let_def split: option.splits sum.splits)
qed

lemma akc_get_fresh_mem:
  "akc_get_fresh c k now = Some v \<Longrightarrow>
   \<exists>e. (k, e) \<in> set (akc_by_hash c) \<and> ake_value e = v \<and> now - ake_loaded_at e \<le> akp_ttl (akc_policy c)"
  by (auto simp: akc_get_fresh_def split: option.splits if_splits dest: map_of_SomeD)

lemma check_live_some: "check_live k now = Some k' \<longleftrightarrow>
    k' = k \<and> ak_enabled k \<and> is_none_or (ak_expires_at_ms k) (\<lambda>t. now < t)"
  by (auto simp: check_live_def is_some_and_def is_none_or_def split: option.splits)

text \<open>One validation after the other, each with its keys and its clocks.\<close>

fun akc_run ::
  "(string \<Rightarrow> string \<Rightarrow> string) \<Rightarrow> (string \<Rightarrow> string + api_key_auth option) \<Rightarrow> api_key_cache
     \<Rightarrow> (string \<times> string \<times> int \<times> int) list \<Rightarrow> api_key_cache" where
  "akc_run hash_key find_row c [] = c"
| "akc_run hash_key find_row c ((mk, pt, now, now_ms) # xs) =
     akc_run hash_key find_row (snd (akc_validate hash_key find_row c mk pt now now_ms)) xs"

lemma akc_run_inv: "akc_inv c \<Longrightarrow> akc_inv (akc_run h f c xs) \<and> akc_policy (akc_run h f c xs) = akc_policy c"
proof (induction xs arbitrary: c)
  case (Cons x xs)
  obtain mk pt now now_ms where x: "x = (mk, pt, now, now_ms)" by (cases x) auto
  obtain r c' where v: "akc_validate h f c mk pt now now_ms = (r, c')" by fastforce
  then have "akc_inv c'" "akc_policy c' = akc_policy c" using akc_validate_inv [OF Cons.prems v] by auto
  then show ?case using Cons.IH [of c'] by (simp add: x v)
qed simp

section \<open>Properties\<close>


text \<open>How old an upstream configuration can be. Without interference, \<open>get\<close> answers with the
  cached snapshot only while it is at most the lifetime old, or, when the reload fails, at most
  lifetime plus grace at the start of the request; otherwise with what was just loaded, which it
  then serves to the next request.\<close>

theorem upstream_get_age:
  assumes "uc_get c t1 t2 load t3 = (Inr v, c')" and "t1 \<le> t2" and "0 \<le> ucp_ttl (uc_policy c)"
  shows "(\<exists>loaded_at. uc_state c = Some (v, loaded_at) \<and> c' = c \<and>
            (t1 - loaded_at \<le> ucp_ttl (uc_policy c) \<or>
             (t1 - loaded_at \<le> ucp_ttl (uc_policy c) + ucp_stale_grace (uc_policy c) \<and> (\<exists>e. load () = Inl e)))) \<or>
         (load () = Inr v \<and> uc_get_fresh c' t3 = Some v)"
  using assms
  by (auto simp: uc_get_def uc_get_start_def uc_get_locked_def uc_get_finish_def uc_get_fresh_def
      uc_get_stale_within_grace_def uc_set_snapshot_def split: option.splits if_splits sum.splits)

text \<open>An invalidation can be lost. When an administrator invalidates the cache while a load is
  under way, the snapshot that load read before the change is stored afterwards and served as
  fresh for the whole lifetime.\<close>

theorem upstream_invalidation_lost:
  assumes "uc_get_start c t1 = Inr stale" and "uc_get_locked c t2 = None"
    and "uc_get_finish (uc_invalidate c) stale (Inr old) t3 = (r, c')"
    and "now - t3 \<le> ucp_ttl (uc_policy c)"
  shows "uc_get_fresh c' now = Some old \<and> uc_get_start c' now = Inl old"
  using assms
  by (auto simp: uc_get_finish_def uc_invalidate_def uc_set_snapshot_def uc_get_fresh_def uc_get_start_def)

section \<open>The properties at concrete inputs\<close>

definition wit_api_key :: api_key_auth where
  "wit_api_key =
     \<lparr>ak_id = 1, ak_enabled = True, ak_expires_at_ms = Some 1000, ak_log_enabled = False,
      ak_name = ''k'', ak_provider_groups = [], ak_allowed_provider_ids = []\<rparr>"


definition wit_cache :: "string upstream_cache" where
  "wit_cache = \<lparr>uc_policy = \<lparr>ucp_ttl = 10, ucp_stale_grace = 100\<rparr>, uc_state = Some (''old'', 0)\<rparr>"

theorem upstream_get_age_witness:
  "fst (uc_get wit_cache 50 51 (\<lambda>_. Inl ''down'') 52) = Inr ''old'' \<and> (50 :: int) - 0 \<le> 10 + 100"
proof -
  have get: "uc_get wit_cache 50 51 (\<lambda>_. Inl ''down'') 52 = (Inr ''old'', wit_cache)"
    by (simp add: uc_get_def uc_get_start_def uc_get_locked_def uc_get_finish_def uc_get_fresh_def
        uc_get_stale_within_grace_def wit_cache_def)
  then show ?thesis using upstream_get_age [OF get] by (simp add: wit_cache_def)
qed

theorem upstream_invalidation_lost_witness:
  "uc_get_start (snd (uc_get_finish (uc_invalidate wit_cache) None (Inr ''before the change'') 120)) 125 =
     Inl ''before the change''"
  using upstream_invalidation_lost [of wit_cache 111 None 112 "''before the change''" 120 _ _ 125,
      OF _ _ prod.collapse [symmetric]]
  by (simp add: wit_cache_def uc_get_start_def uc_get_locked_def uc_get_fresh_def
      uc_get_stale_within_grace_def)

end
