(* ===== verification/Routing_Availability.thy ===== *)
theory Routing_Availability
  imports Upstream_Snapshot Quota Provider_Runtime
begin

text \<open>
  \<open>src/backend/src/routing_availability.rs\<close>: whether an account (an upstream key of a provider)
  can take a request now and, if not, why; the same for a provider; and when a provider that
  cannot is worth retrying.  \<open>gate_state\<close> holds the four books of the shared state these
  functions read.  Reading the quota book drops what has expired, so functions that read it
  return it.  The source reads the clock in each function; \<open>now\<close> stands for those readings.
\<close>

record gate_state =
  gs_runtime :: provider_runtime_book
  gs_key_health :: health_book
  gs_endpoint_health :: health_book
  gs_quota :: quota_book

record routing_availability =
  ra_available :: bool
  ra_reason :: "string option"
  ra_retry_at_ms :: "int option"

definition unavailable :: "string \<Rightarrow> routing_availability" where
  "unavailable reason = \<lparr>ra_available = False, ra_reason = Some reason, ra_retry_at_ms = None\<rparr>"

definition available :: routing_availability where
  "available = \<lparr>ra_available = True, ra_reason = None, ra_retry_at_ms = None\<rparr>"

definition account_allows :: "'d upstream_snapshot \<Rightarrow> upstream_provider \<Rightarrow> upstream_key \<Rightarrow> string \<Rightarrow> bool" where
  "account_allows snap provider key name \<longleftrightarrow>
     key_allows_model snap (k_id key) name \<and>
     is_model_globally_enabled snap name \<and>
     is_none_or (us_provider_models snap (p_id provider))
       (\<lambda>models. is_some_and (map_of models name) is_active) \<and>
     is_none_or (us_routes_by_model snap name)
       (\<lambda>route. \<not> r_enabled route \<or> r_provider_ids route = [] \<or> p_id provider \<in> set (r_provider_ids route))"

definition model_available ::
  "'d upstream_snapshot \<Rightarrow> upstream_provider \<Rightarrow> upstream_key \<Rightarrow> string option \<Rightarrow> bool" where
  "model_available snap provider key model =
     (case model of
       Some name \<Rightarrow> account_allows snap provider key name
     | None \<Rightarrow>
         (case us_provider_models snap (p_id provider) of
           Some models \<Rightarrow> list_ex (\<lambda>(name, _). account_allows snap provider key name) models
         | None \<Rightarrow>
             is_none_or (us_key_models_by_key snap (k_id key))
               (\<lambda>models. models = [] \<or> list_ex (\<lambda>(name, _). account_allows snap provider key name) models)))"

text \<open>The checks on a Codex account; \<open>None\<close> when they pass.\<close>

definition codex_account_problem ::
  "'d upstream_snapshot \<Rightarrow> upstream_provider \<Rightarrow> upstream_key \<Rightarrow> int \<Rightarrow> string option" where
  "codex_account_problem snap provider key now =
     (if p_provider_type provider \<noteq> CODEX_PROVIDER_TYPE then None
      else (case us_codex_oauth_by_key snap (k_id key) of
              None \<Rightarrow> Some ''reauth_required''
            | Some acct \<Rightarrow>
                (if ca_auth_status acct \<noteq> AUTH_STATUS_ACTIVE
                 then Some (if ca_auth_status acct = AUTH_STATUS_FORBIDDEN then ''account_forbidden''
                            else ''reauth_required'')
                 else if \<not> codex_is_routable acct now then Some ''quota_unavailable''
                 else None)))"

definition account ::
  "gate_state \<Rightarrow> 'd upstream_snapshot \<Rightarrow> upstream_provider \<Rightarrow> upstream_key \<Rightarrow> string option \<Rightarrow> bool \<Rightarrow> int
     \<Rightarrow> routing_availability \<times> quota_book" where
  "account gs snap provider key model owns_capacity now =
     (if \<not> p_enabled provider then (unavailable ''provider_disabled'', gs_quota gs)
      else if \<not> k_enabled key then (unavailable ''account_disabled'', gs_quota gs)
      else (case codex_account_problem snap provider key now of
        Some reason \<Rightarrow> (unavailable reason, gs_quota gs)
      | None \<Rightarrow>
          (case quota_is_available (gs_quota gs) (k_id key) now of
            (quota_ok, quota) \<Rightarrow>
              (if \<not> quota_ok then (unavailable ''quota_unavailable'', quota)
               else if \<not> model_available snap provider key model
               then (unavailable ''no_allowed_models'', quota)
               else
                 (let runtime = prb_snapshot (gs_runtime gs) provider now in
                  if rv_state runtime = Open then (unavailable ''provider_circuit_open'', quota)
                  else if \<not> owns_capacity \<and> \<not> rv_available runtime
                  then (unavailable (if rv_state runtime = HalfOpen then ''recovery_probe_in_progress''
                                     else ''provider_capacity_exhausted''), quota)
                  else if \<not> hv_available (hb_snapshot (gs_key_health gs) (k_id key) now)
                  then (unavailable ''account_unhealthy'', quota)
                  else if \<not> is_some_and (us_endpoints_by_provider snap (p_id provider))
                       (list_ex (\<lambda>e. e_enabled e \<and>
                          hv_available (hb_snapshot (gs_endpoint_health gs) (e_id e) now)))
                  then (unavailable ''no_available_endpoint'', quota)
                  else (available, quota))))))"

text \<open>Earliest full path through a provider; every blocking layer on that path must recover.\<close>

definition key_retry_at ::
  "gate_state \<Rightarrow> 'd upstream_snapshot \<Rightarrow> provider_runtime_view \<Rightarrow> int \<Rightarrow> int \<Rightarrow> quota_book \<Rightarrow> upstream_key
     \<Rightarrow> int option \<times> quota_book" where
  "key_retry_at gs snap runtime endpoint_at now quota key =
     (let health = hb_snapshot (gs_key_health gs) (k_id key) now;
          (qv, quota') = quota_snapshot quota (k_id key) now
      in (iter_max (somes
            [rv_open_until_ms runtime,
             hv_open_until_ms health,
             q_cooldown_until_ms qv,
             quota_view_blocked_until qv,
             Option.bind (Option.bind (us_codex_oauth_by_key snap (k_id key)) ca_quota)
               (\<lambda>q. codex_blocked_until_ms q now),
             Some endpoint_at]), quota'))"

fun keys_retry_at ::
  "gate_state \<Rightarrow> 'd upstream_snapshot \<Rightarrow> provider_runtime_view \<Rightarrow> int \<Rightarrow> int \<Rightarrow> quota_book \<Rightarrow> upstream_key list
     \<Rightarrow> int list \<times> quota_book" where
  "keys_retry_at gs snap runtime endpoint_at now quota [] = ([], quota)"
| "keys_retry_at gs snap runtime endpoint_at now quota (key # keys) =
     (let (until, quota1) = key_retry_at gs snap runtime endpoint_at now quota key;
          (rest, quota2) = keys_retry_at gs snap runtime endpoint_at now quota1 keys
      in (somes [until] @ rest, quota2))"

definition endpoints_retry_at :: "gate_state \<Rightarrow> upstream_endpoint list \<Rightarrow> int \<Rightarrow> int option" where
  "endpoints_retry_at gs endpoints now =
     iter_min (map (\<lambda>e. unwrap_or (hv_open_until_ms (hb_snapshot (gs_endpoint_health gs) (e_id e) now)) now)
       (filter e_enabled endpoints))"

definition provider_retry_at ::
  "gate_state \<Rightarrow> 'd upstream_snapshot \<Rightarrow> upstream_provider \<Rightarrow> string option \<Rightarrow> int \<Rightarrow> int option \<times> quota_book" where
  "provider_retry_at gs snap provider model now =
     (let runtime = prb_snapshot (gs_runtime gs) provider now in
      case Option.bind (us_endpoints_by_provider snap (p_id provider))
             (\<lambda>endpoints. endpoints_retry_at gs endpoints now) of
        None \<Rightarrow> (None, gs_quota gs)
      | Some endpoint_at \<Rightarrow>
          (case us_keys_by_provider snap (p_id provider) of
            None \<Rightarrow> (None, gs_quota gs)
          | Some keys \<Rightarrow>
              (let (untils, quota) = keys_retry_at gs snap runtime endpoint_at now (gs_quota gs)
                     (filter (\<lambda>key. k_enabled key \<and>
                        is_none_or model (\<lambda>name. key_allows_model snap (k_id key) name)) keys)
               in (opt_filter (\<lambda>until. now < until) (iter_min untils), quota))))"

fun account_failures ::
  "gate_state \<Rightarrow> 'd upstream_snapshot \<Rightarrow> upstream_provider \<Rightarrow> int \<Rightarrow> upstream_key list
     \<Rightarrow> routing_availability option \<times> routing_availability list \<times> gate_state" where
  "account_failures gs snap provider now [] = (None, [], gs)"
| "account_failures gs snap provider now (key # keys) =
     (case account gs snap provider key None False now of
       (status, quota) \<Rightarrow>
         (let gs' = gs\<lparr>gs_quota := quota\<rparr> in
          if ra_available status then (Some status, [], gs')
          else (case account_failures gs' snap provider now keys of
                  (found, failures, gs'') \<Rightarrow>
                    (found, (if k_enabled key then status # failures else failures), gs''))))"

definition provider_availability ::
  "gate_state \<Rightarrow> 'd upstream_snapshot \<Rightarrow> upstream_provider \<Rightarrow> int \<Rightarrow> routing_availability \<times> gate_state" where
  "provider_availability gs snap provider now =
     (if \<not> p_enabled provider then (unavailable ''provider_disabled'', gs)
      else (case account_failures gs snap provider now
                  (unwrap_or (us_keys_by_provider snap (p_id provider)) []) of
              (Some status, _, gs') \<Rightarrow> (status, gs')
            | (None, failures, gs') \<Rightarrow>
                (let result = (case failures of [] \<Rightarrow> unavailable ''no_available_accounts'' | f # _ \<Rightarrow> f);
                     (retry, quota) = provider_retry_at gs' snap provider None now
                 in (result\<lparr>ra_retry_at_ms := retry\<rparr>, gs'\<lparr>gs_quota := quota\<rparr>))))"

fun health_counts_loop ::
  "gate_state \<Rightarrow> 'd upstream_snapshot \<Rightarrow> int \<Rightarrow> upstream_provider list \<Rightarrow> nat \<times> nat \<times> nat \<Rightarrow> (nat \<times> nat \<times> nat) \<times> gate_state" where
  "health_counts_loop gs snap now [] counts = (counts, gs)"
| "health_counts_loop gs snap now (item # items) (ok, degraded, down) =
     (case provider_availability gs snap item now of
       (status, gs') \<Rightarrow>
         health_counts_loop gs' snap now items
           (if ra_available status then
              (if rv_state (prb_snapshot (gs_runtime gs') item now) = HalfOpen
               then (ok, degraded + 1, down) else (ok + 1, degraded, down))
            else if ra_reason status = Some ''provider_capacity_exhausted'' \<or>
                    ra_reason status = Some ''recovery_probe_in_progress''
            then (ok, degraded + 1, down)
            else (ok, degraded, down + 1)))"

definition gateway_health_counts ::
  "gate_state \<Rightarrow> 'd upstream_snapshot \<Rightarrow> int \<Rightarrow> (nat \<times> nat \<times> nat) \<times> gate_state" where
  "gateway_health_counts gs snap now =
     health_counts_loop gs snap now (filter p_enabled (us_providers snap)) (0, 0, 0)"

section \<open>Lemmas\<close>

lemma account_available_iff:
  "ra_available (fst (account gs snap p key model owns now)) \<longleftrightarrow>
     p_enabled p \<and> k_enabled key \<and> codex_account_problem snap p key now = None \<and>
     fst (quota_is_available (gs_quota gs) (k_id key) now) \<and> model_available snap p key model \<and>
     rv_state (prb_snapshot (gs_runtime gs) p now) \<noteq> Open \<and>
     (owns \<or> rv_available (prb_snapshot (gs_runtime gs) p now)) \<and>
     hv_available (hb_snapshot (gs_key_health gs) (k_id key) now) \<and>
     is_some_and (us_endpoints_by_provider snap (p_id p))
       (list_ex (\<lambda>e. e_enabled e \<and> hv_available (hb_snapshot (gs_endpoint_health gs) (e_id e) now)))"
  by (cases "codex_account_problem snap p key now"; cases "quota_is_available (gs_quota gs) (k_id key) now")
    (auto simp: account_def unavailable_def available_def Let_def)

text \<open>What is open at one moment stays open until the time it announces.\<close>

lemma runtime_still_open:
  "rv_open_until_ms (prb_snapshot rt p now) = Some x \<Longrightarrow> now' < x \<Longrightarrow> rv_state (prb_snapshot rt p now') = Open"
  by (auto simp: prb_snapshot_def runtime_to_view_def Let_def circuit_state_of_def
      split: option.splits if_splits)

lemma health_still_open:
  "hv_open_until_ms (hb_snapshot b i now) = Some x \<Longrightarrow> now' < x \<Longrightarrow> \<not> hv_available (hb_snapshot b i now')"
  by (auto simp: hb_snapshot_def health_view_default_def to_view_def Let_def state_kind_def
      split: option.splits if_splits circuit_state.splits)

lemma quota_cooldown_still:
  "q_cooldown_until_ms (expire_quota_state s now) = Some x \<Longrightarrow> now' < x \<Longrightarrow>
   \<not> quota_open (expire_quota_state s now') now'"
  by (auto simp: quota_open_def is_none_or_def expire_quota_state_def Let_def is_some_and_def
      split: option.splits if_splits)

lemma quota_blocked_still:
  "quota_view_blocked_until (expire_quota_state s now) = Some x \<Longrightarrow> now' < x \<Longrightarrow>
   \<not> quota_open (expire_quota_state s now') now'"
  by (auto simp: quota_open_def quota_exhausted_def quota_view_blocked_until_def expire_quota_state_def
      Let_def is_some_and_def split: option.splits if_splits)

lemma foldl_max_mem: "foldl max (a :: int) xs \<in> set (a # xs)"
proof (induction xs arbitrary: a)
  case (Cons x xs)
  show ?case using Cons.IH [of "max a x"] by (auto simp: max_def split: if_splits)
qed simp

lemma codex_still_blocked:
  assumes "codex_blocked_until_ms q now = Some x" and "now' < x"
  shows "codex_blocked_until_ms q now' \<noteq> None"
proof -
  let ?r = "somes (map cw_reset_at_ms (filter (\<lambda>w. f64_le (cw_remaining_percent w) (Fin 0)) (codex_windows q)))"
  obtain f rs where f: "filter (\<lambda>reset. now < reset) ?r = f # rs" "x = foldl max f rs"
    using assms(1) by (auto simp: codex_blocked_until_ms_def split: list.splits)
  have "x \<in> set (f # rs)" using foldl_max_mem [of f rs] f(2) by simp
  then have "x \<in> set ?r" by (metis f(1) filter_is_subset subsetD)
  then have "filter (\<lambda>reset. now' < reset) ?r \<noteq> []" using assms(2) by (auto simp: filter_empty_conv)
  then show ?thesis by (auto simp: codex_blocked_until_ms_def split: list.splits)
qed

text \<open>Two quota books that agree once what has expired at \<open>now\<close> is dropped.\<close>

definition quota_eq_at :: "int \<Rightarrow> quota_book \<Rightarrow> quota_book \<Rightarrow> bool" where
  "quota_eq_at now a b \<longleftrightarrow>
     (\<forall>k. expire_quota_state (quota_entry a k) now = expire_quota_state (quota_entry b k) now)"

lemma quota_snapshot_eq: "fst (quota_snapshot book k now) = expire_quota_state (quota_entry book k) now"
  by (simp add: quota_snapshot_def quota_entry_def unwrap_or_def Let_def quota_open_default split: option.splits)

lemma quota_snapshot_eq_at: "quota_eq_at now (snd (quota_snapshot book k now)) book"
  by (auto simp: quota_eq_at_def quota_snapshot_def quota_entry_def unwrap_or_def Let_def expire_idem
      split: option.splits)

lemma key_retry_at_eq:
  "quota_eq_at now quota quota0 \<Longrightarrow>
   fst (key_retry_at gs snap rt ep now quota key) = fst (key_retry_at gs snap rt ep now quota0 key) \<and>
   quota_eq_at now (snd (key_retry_at gs snap rt ep now quota key)) quota0"
proof -
  assume eq: "quota_eq_at now quota quota0"
  have "fst (quota_snapshot quota (k_id key) now) = fst (quota_snapshot quota0 (k_id key) now)"
    using eq by (simp add: quota_snapshot_eq quota_eq_at_def)
  moreover have "quota_eq_at now (snd (quota_snapshot quota (k_id key) now)) quota0"
    using eq quota_snapshot_eq_at [of now quota "k_id key"] by (simp add: quota_eq_at_def)
  ultimately show ?thesis by (simp add: key_retry_at_def Let_def case_prod_unfold)
qed

lemma keys_retry_at_set:
  "quota_eq_at now quota quota0 \<Longrightarrow>
   set (fst (keys_retry_at gs snap rt ep now quota keys)) =
     {u. \<exists>key \<in> set keys. fst (key_retry_at gs snap rt ep now quota0 key) = Some u}"
proof (induction keys arbitrary: quota)
  case (Cons key keys)
  obtain u q1 where k: "key_retry_at gs snap rt ep now quota key = (u, q1)" by fastforce
  obtain us q2 where r: "keys_retry_at gs snap rt ep now q1 keys = (us, q2)" by fastforce
  have "quota_eq_at now q1 quota0" "u = fst (key_retry_at gs snap rt ep now quota0 key)"
    using key_retry_at_eq [OF Cons.prems, of gs snap rt ep key] k by simp_all
  then show ?case using Cons.IH [of q1] k r by (auto simp: set_somes)
qed simp

text \<open>The time a key is given bounds every layer of its path.\<close>

lemma key_retry_blocks:
  assumes "fst (key_retry_at gs snap (prb_snapshot (gs_runtime gs) p now) ep now (gs_quota gs) key) = Some u"
    and "endpoints_retry_at gs endpoints now = Some ep"
    and "us_endpoints_by_provider snap (p_id p) = Some endpoints"
    and "us_codex_oauth_by_key snap (k_id key) = None \<or> p_provider_type p = CODEX_PROVIDER_TYPE"
    and "now \<le> now'" and "now' < u"
  shows "\<not> ra_available (fst (account gs snap p key model owns now'))"
proof -
  let ?rt = "prb_snapshot (gs_runtime gs) p now"
  let ?h = "hb_snapshot (gs_key_health gs) (k_id key) now"
  let ?q = "expire_quota_state (quota_entry (gs_quota gs) (k_id key)) now"
  let ?cx = "Option.bind (Option.bind (us_codex_oauth_by_key snap (k_id key)) ca_quota)
      (\<lambda>q. codex_blocked_until_ms q now)"
  have "iter_max (somes [rv_open_until_ms ?rt, hv_open_until_ms ?h, q_cooldown_until_ms ?q,
      quota_view_blocked_until ?q, ?cx, Some ep]) = Some u"
    using assms(1) by (simp add: key_retry_at_def Let_def case_prod_unfold quota_snapshot_eq)
  then have "u \<in> set (somes [rv_open_until_ms ?rt, hv_open_until_ms ?h, q_cooldown_until_ms ?q,
      quota_view_blocked_until ?q, ?cx, Some ep])"
    by (auto simp only: iter_max_Some intro: Max_in)
  then consider (rt) "rv_open_until_ms ?rt = Some u" | (h) "hv_open_until_ms ?h = Some u"
    | (c) "q_cooldown_until_ms ?q = Some u" | (b) "quota_view_blocked_until ?q = Some u"
    | (cx) "?cx = Some u" | (ep) "ep = u"
    by (auto simp: set_somes)
  then show ?thesis
  proof cases
    case rt
    then show ?thesis using runtime_still_open assms(6) by (auto simp: account_available_iff)
  next
    case h
    then show ?thesis using health_still_open assms(6) by (auto simp: account_available_iff)
  next
    case c
    then show ?thesis using quota_cooldown_still assms(6)
      by (auto simp: account_available_iff quota_available_entry)
  next
    case b
    then show ?thesis using quota_blocked_still assms(6)
      by (auto simp: account_available_iff quota_available_entry)
  next
    case cx
    then obtain acct q where a: "us_codex_oauth_by_key snap (k_id key) = Some acct" "ca_quota acct = Some q"
        "codex_blocked_until_ms q now = Some u"
      by (auto simp: bind_eq_Some_conv)
    then have "codex_account_problem snap p key now' \<noteq> None"
      using codex_still_blocked [OF a(3) assms(6)] assms(4)
      by (auto simp: codex_account_problem_def codex_is_routable_def)
    then show ?thesis by (simp add: account_available_iff)
  next
    case ep
    have "\<not> hv_available (hb_snapshot (gs_endpoint_health gs) (e_id e) now')"
      if "e \<in> set endpoints" "e_enabled e" for e
    proof -
      have "u \<le> unwrap_or (hv_open_until_ms (hb_snapshot (gs_endpoint_health gs) (e_id e) now)) now"
        using assms(2) that ep by (auto simp: endpoints_retry_at_def iter_min_Some intro!: Min_le)
      then obtain x where "hv_open_until_ms (hb_snapshot (gs_endpoint_health gs) (e_id e) now) = Some x" "u \<le> x"
        using assms(5,6) by (auto simp: unwrap_or_def split: option.splits)
      then show ?thesis using health_still_open assms(6) by fastforce
    qed
    then show ?thesis using assms(3) by (auto simp: account_available_iff is_some_and_def list_ex_iff)
  qed
qed

section \<open>Properties\<close>


text \<open>The retry time announced for a provider is a sound lower bound: it lies ahead, and if
  nothing changes meanwhile no key of the provider becomes available for the model before it
  (Codex accounts belong to Codex providers).\<close>

theorem provider_retry_sound:
  assumes "provider_retry_at gs snap p model now = (Some t, q)"
    and "us_keys_by_provider snap (p_id p) = Some keys" and "key \<in> set keys"
    and "us_codex_oauth_by_key snap (k_id key) = None \<or> p_provider_type p = CODEX_PROVIDER_TYPE"
    and "now \<le> now'" and "now' < t"
  shows "now < t \<and> \<not> ra_available (fst (account gs snap p key model owns now'))"
proof -
  let ?ks = "filter (\<lambda>key. k_enabled key \<and> is_none_or model (\<lambda>name. key_allows_model snap (k_id key) name)) keys"
  let ?rt = "prb_snapshot (gs_runtime gs) p now"
  obtain endpoints ep where ep: "us_endpoints_by_provider snap (p_id p) = Some endpoints"
      "endpoints_retry_at gs endpoints now = Some ep"
    using assms(1) by (auto simp: provider_retry_at_def Let_def bind_eq_Some_conv split: option.splits)
  let ?us = "fst (keys_retry_at gs snap ?rt ep now (gs_quota gs) ?ks)"
  have "opt_filter (\<lambda>until. now < until) (iter_min ?us) = Some t"
    using assms(1,2) ep by (simp add: provider_retry_at_def Let_def case_prod_unfold)
  then have t: "now < t" "?us \<noteq> []" "t = Min (set ?us)"
    by (auto simp: opt_filter_def iter_min_Some split: option.splits if_splits)
  show ?thesis
  proof (cases "key \<in> set ?ks")
    case False
    then have "\<not> k_enabled key \<or> \<not> model_available snap p key model"
      using assms(3) by (auto simp: is_none_or_def model_available_def account_allows_def split: option.splits)
    then show ?thesis using t(1) by (auto simp: account_available_iff)
  next
    case True
    have "fst (key_retry_at gs snap ?rt ep now (gs_quota gs) key) \<noteq> None"
      by (simp add: key_retry_at_def Let_def case_prod_unfold) (auto simp: somes.simps dest!: arg_cong [where f = set] simp: set_somes)
    then obtain u where u: "fst (key_retry_at gs snap ?rt ep now (gs_quota gs) key) = Some u" by blast
    then have "u \<in> set ?us"
      using True keys_retry_at_set [of now "gs_quota gs" "gs_quota gs" gs snap ?rt ep ?ks]
      by (auto simp: quota_eq_at_def)
    then have "t \<le> u" using t by simp
    then show ?thesis using key_retry_blocks [OF u ep(2,1) assms(4,5)] assms(6) t(1) by simp
  qed
qed

section \<open>The properties at concrete inputs\<close>

definition wit_snapshot :: "int upstream_snapshot" where
  "wit_snapshot =
     \<lparr>us_providers = [wit_provider], us_route_policies = Map.empty,
      us_keys_by_provider = [1 \<mapsto> [wit_key]], us_endpoints_by_provider = [1 \<mapsto> [wit_endpoint]],
      us_groups_by_provider = Map.empty, us_routes_by_model = Map.empty, us_provider_models = Map.empty,
      us_alias_to_provider_model = [], us_model_aliases_by_name = [],
      us_alias_targets_by_alias = Map.empty, us_key_models_by_key = Map.empty,
      us_globally_disabled_models = [], us_codex_oauth_by_key = Map.empty, us_model_registry_ids = [],
      us_provider_prices_by_model = Map.empty, us_global_prices_by_model = Map.empty\<rparr>"

lemma wit_snapshot_sel [simp]:
  "us_keys_by_provider wit_snapshot 1 = Some [wit_key]"
  "us_endpoints_by_provider wit_snapshot 1 = Some [wit_endpoint]"
  "us_codex_oauth_by_key wit_snapshot k = None"
  "us_key_models_by_key wit_snapshot k = None"
  "us_provider_models wit_snapshot i = None"
  "us_routes_by_model wit_snapshot m = None"
  "us_globally_disabled_models wit_snapshot = []"
  "us_providers wit_snapshot = [wit_provider]"
  "us_route_policies wit_snapshot m = None"
  by (simp_all add: wit_snapshot_def)

lemma wit_parts_sel [simp]:
  "k_enabled wit_key" "k_id wit_key = 4" "e_enabled wit_endpoint" "e_id wit_endpoint = 3"
  "p_provider_type wit_provider = ''openai''"
  by (simp_all add: wit_key_def wit_endpoint_def wit_provider_def)

definition wit_gates :: gate_state where
  "wit_gates =
     \<lparr>gs_runtime = runtime_book_new, gs_key_health = health_book_new 5 60000,
      gs_endpoint_health = health_book_new 5 60000, gs_quota = Map.empty\<rparr>"

lemma wit_runtime_admits:
  "fst (try_acquire_capacity runtime_book_new wit_provider) \<noteq> None"
  "fst (prb_try_begin_attempt runtime_book_new wit_provider now) \<noteq> None"
  by (simp_all add: runtime_book_new_def try_acquire_capacity_def prb_try_begin_attempt_def Let_def
      prb_entry_def unwrap_or_def runtime_default_def runtime_begin_def circuit_state_of_def
      is_some_and_def threshold_def)

lemma wit_health_admits:
  "fst (hb_try_begin_attempt (health_book_new 5 60000) i now) \<noteq> None"
  by (simp add: hb_try_begin_iff hb_entry_def health_book_new_def unwrap_or_def health_default_def
      health_begin_def state_kind_def)


text \<open>The key is in a cooldown until 500: nothing before that.\<close>

definition wit_cooling_gates :: gate_state where
  "wit_cooling_gates = wit_gates\<lparr>gs_quota := set_cooldown_until Map.empty 4 500 100\<rparr>"

lemma wit_retry: "fst (provider_retry_at wit_cooling_gates wit_snapshot wit_provider (Some ''gpt'') 100) = Some 500"
  by (simp add: provider_retry_at_def wit_cooling_gates_def wit_gates_def Let_def case_prod_unfold
      endpoints_retry_at_def hb_snapshot_def health_book_new_def health_view_default_def unwrap_or_def
      key_retry_at_def key_allows_model_def is_none_or_def prb_snapshot_def runtime_book_new_def
      set_cooldown_until_def quota_set_cooldown_def quota_entry_def quota_default_def quota_snapshot_def
      expire_quota_state_def quota_view_blocked_until_def is_some_and_def opt_filter_def)

theorem provider_retry_sound_witness:
  "\<not> ra_available (fst (account wit_cooling_gates wit_snapshot wit_provider wit_key (Some ''gpt'') False 499))"
  using provider_retry_sound [of wit_cooling_gates wit_snapshot wit_provider "Some ''gpt''" 100 500
      "snd (provider_retry_at wit_cooling_gates wit_snapshot wit_provider (Some ''gpt'') 100)"
      "[wit_key]" wit_key 499 False] wit_retry
  by (simp add: prod_eq_iff)

end
