(* ===== verification/Route_Collection.thy ===== *)
theory Route_Collection
  imports Upstream_Snapshot
begin

text \<open>
  \<open>src/backend/src/proxy.rs\<close>, the first half of planning a request: which providers could serve a
  model, with which upstream model and protocol, and which error the client gets when none can.
  Every rejection is recorded for the answer and the routing trace, at most 100 of them.
\<close>

section \<open>Protocols\<close>

datatype conversion_mode = ResponsesViaChat

definition conversion_mode_str :: "conversion_mode \<Rightarrow> string" where
  "conversion_mode_str m = ''responses_via_chat''"

record protocol_plan =
  pp_client_api_format :: api_format
  pp_upstream_api_format :: api_format
  pp_conversion :: "conversion_mode option"

definition protocol_native :: "api_format \<Rightarrow> protocol_plan" where
  "protocol_native f =
     \<lparr>pp_client_api_format = f, pp_upstream_api_format = f, pp_conversion = None\<rparr>"

definition protocol_responses_via_chat :: protocol_plan where
  "protocol_responses_via_chat =
     \<lparr>pp_client_api_format = Responses, pp_upstream_api_format = ChatCompletions,
      pp_conversion = Some ResponsesViaChat\<rparr>"

definition is_responses_via_chat :: "protocol_plan \<Rightarrow> bool" where
  "is_responses_via_chat p \<longleftrightarrow> pp_conversion p = Some ResponsesViaChat"

definition conversion_name :: "protocol_plan \<Rightarrow> string option" where
  "conversion_name p = map_option conversion_mode_str (pp_conversion p)"

definition api_format_name :: "api_format \<Rightarrow> string" where
  "api_format_name f =
     (case f of ChatCompletions \<Rightarrow> ''chat_completions'' | Responses \<Rightarrow> ''responses'')"

definition provider_protocol_plan ::
  "'d upstream_snapshot \<Rightarrow> upstream_provider \<Rightarrow> api_format \<Rightarrow> string \<Rightarrow> bool \<Rightarrow> protocol_plan option" where
  "provider_protocol_plan snap provider client_api_format upstream_model allow_responses_via_chat =
     (let t = p_provider_type provider in
      if t = ''openai'' then Some (protocol_native client_api_format)
      else if t = ''openai_compatible'' \<and> client_api_format = ChatCompletions
      then Some (protocol_native ChatCompletions)
      else if t = ''openai_compatible'' \<and> client_api_format = Responses \<and> allow_responses_via_chat \<and>
           unwrap_or (map_option (\<lambda>state. is_active state \<and> ms_responses_via_chat_enabled state)
             (provider_model_state_of snap (p_id provider) upstream_model)) False
      then Some protocol_responses_via_chat
      else if t = ''openai_compatible_responses'' \<and> client_api_format = Responses
      then Some (protocol_native Responses)
      else if t = CODEX_PROVIDER_TYPE \<and> client_api_format = Responses
      then Some (protocol_native Responses)
      else None)"

section \<open>Diagnostics and errors\<close>

record route_candidate_trace =
  rc_provider_id :: int
  rc_upstream_model :: string
  rc_priority :: int
  rc_weight :: int
  rc_attempt_budget :: int
  rc_upstream_api_format :: string
  rc_conversion_mode :: "string option"

record route_rejection =
  rj_provider_id :: "int option"
  rj_upstream_model :: string
  rj_stage :: string
  rj_code :: string
  rj_message :: string

record route_diagnostics =
  rd_candidates :: "route_candidate_trace list"
  rd_rejections :: "route_rejection list"

definition diagnostics_default :: route_diagnostics where
  "diagnostics_default = \<lparr>rd_candidates = [], rd_rejections = []\<rparr>"

definition reject ::
  "int option \<Rightarrow> string \<Rightarrow> string \<Rightarrow> string \<Rightarrow> string \<Rightarrow> route_diagnostics \<Rightarrow> route_diagnostics" where
  "reject provider_id upstream_model stage code message d =
     (if 100 \<le> length (rd_rejections d) then d
      else d\<lparr>rd_rejections := rd_rejections d @
               [\<lparr>rj_provider_id = provider_id, rj_upstream_model = upstream_model,
                 rj_stage = stage, rj_code = code, rj_message = message\<rparr>]\<rparr>)"

text \<open>Whether a rejection explains an error code to the client.\<close>

definition is_decisive :: "string \<Rightarrow> route_rejection \<Rightarrow> bool" where
  "is_decisive resolution_code j \<longleftrightarrow>
     (if resolution_code = ''model_disabled'' then rj_stage j = ''model_policy''
      else if resolution_code = ''model_protocol_unsupported'' then rj_stage j = ''protocol''
      else if resolution_code = ''model_not_authorized'' then rj_stage j = ''authorization''
      else if resolution_code = ''model_route_unavailable'' then rj_stage j = ''model_route''
      else if resolution_code = ''model_not_found'' \<or> resolution_code = ''model_not_available''
      then rj_stage j = ''model_inventory''
      else if resolution_code = ''no_enabled_upstream_provider'' then rj_code j = ''provider_disabled''
      else if resolution_code = ''no_upstream_key_for_model''
      then rj_code j = ''no_upstream_key_for_model'' \<or> rj_code j = ''no_enabled_upstream_key''
      else if resolution_code = ''no_enabled_upstream_endpoint''
      then rj_code j = ''no_enabled_upstream_endpoint''
      else if resolution_code = ''all_upstreams_temporarily_unavailable'' then rj_stage j = ''runtime''
      else rj_code j = resolution_code)"

text \<open>The codes in their order with the number of rejections each.\<close>

definition public_reason_counts :: "route_diagnostics \<Rightarrow> string \<Rightarrow> (string \<times> nat) list" where
  "public_reason_counts d resolution_code =
     (let codes = map rj_code (filter (is_decisive resolution_code) (rd_rejections d))
      in if codes = [] then [(resolution_code, 1)]
         else map (\<lambda>code. (code, count_list codes code)) (btree_set codes))"

record route_error =
  rr_status :: int
  rr_error_type :: string
  rr_code :: string
  rr_message :: string
  rr_diagnostics :: route_diagnostics
  rr_retry_at_ms :: "int option"

definition route_error_new ::
  "int \<Rightarrow> string \<Rightarrow> string \<Rightarrow> string \<Rightarrow> route_diagnostics \<Rightarrow> route_error" where
  "route_error_new status error_type code message d =
     \<lparr>rr_status = status, rr_error_type = error_type, rr_code = code, rr_message = message,
      rr_diagnostics = d, rr_retry_at_ms = None\<rparr>"

text \<open>\<open>Model "m"\<close> in front of the rest of a message.\<close>

definition model_message :: "string \<Rightarrow> string \<Rightarrow> string" where
  "model_message model rest = ''Model '' @ [CHR 0x22] @ model @ [CHR 0x22] @ rest"

section \<open>Routes\<close>

record provider_route =
  pr_provider :: upstream_provider
  pr_upstream_model :: string
  pr_route_priority :: "int option"
  pr_route_weight :: "int option"
  pr_protocol :: protocol_plan

definition provider_model_rejection ::
  "'d upstream_snapshot \<Rightarrow> int \<Rightarrow> string \<Rightarrow> (string \<times> string) option" where
  "provider_model_rejection snap provider_id upstream_model =
     (case us_provider_models snap provider_id of
        None \<Rightarrow> None
      | Some models \<Rightarrow>
          (case map_of models upstream_model of
             None \<Rightarrow> Some (''provider_model_not_registered'',
                            ''provider model inventory does not contain this model'')
           | Some state \<Rightarrow>
               (if \<not> ms_enabled state then Some (''provider_model_disabled'', ''provider model is disabled'')
                else if \<not> ms_available state
                then Some (''provider_model_unavailable'',
                           ''provider model is not present in the latest synchronized inventory'')
                else None)))"

definition route_allows_provider_for_model :: "'d upstream_snapshot \<Rightarrow> string \<Rightarrow> int \<Rightarrow> bool" where
  "route_allows_provider_for_model snap upstream_model provider_id =
     (case us_route_policies snap upstream_model of
        Some policy \<Rightarrow> list_ex (\<lambda>t. rt_provider_id t = provider_id) (rp_targets policy)
      | None \<Rightarrow>
          (if us_route_policies snap ''*'' \<noteq> None then True
           else (case us_routes_by_model snap upstream_model of
                   None \<Rightarrow> True
                 | Some route \<Rightarrow>
                     (if \<not> r_enabled route \<or> r_provider_ids route = [] then True
                      else provider_id \<in> set (r_provider_ids route)))))"

definition protocol_rejection ::
  "'d upstream_snapshot \<Rightarrow> upstream_provider \<Rightarrow> api_format \<Rightarrow> string \<Rightarrow> bool \<Rightarrow> string \<times> string" where
  "protocol_rejection snap provider f upstream_model allow_responses_via_chat =
     (if p_provider_type provider = ''openai_compatible'' \<and> f = Responses \<and> \<not> allow_responses_via_chat
      then (''provider_protocol_unsupported'', ''this transport requires a native Responses upstream'')
      else if p_provider_type provider = ''openai_compatible'' \<and> f = Responses \<and>
           is_some_and (provider_model_state_of snap (p_id provider) upstream_model)
             (\<lambda>state. \<not> ms_responses_via_chat_enabled state)
      then (''responses_via_chat_disabled'',
            ''Responses-to-Chat conversion is disabled for this provider model'')
      else (''provider_protocol_unsupported'',
            ''provider does not support the requested client API format''))"

text \<open>What the two collection loops carry.\<close>

record route_collection =
  co_routes :: "provider_route list"
  co_diagnostics :: route_diagnostics
  co_inventory_candidates :: nat
  co_route_candidates :: nat

definition collection_new :: "route_diagnostics \<Rightarrow> route_collection" where
  "collection_new d =
     \<lparr>co_routes = [], co_diagnostics = d, co_inventory_candidates = 0, co_route_candidates = 0\<rparr>"

definition co_reject ::
  "int \<Rightarrow> string \<Rightarrow> string \<Rightarrow> string \<Rightarrow> string \<Rightarrow> route_collection \<Rightarrow> route_collection" where
  "co_reject provider_id upstream_model stage code message c =
     c\<lparr>co_diagnostics := reject (Some provider_id) upstream_model stage code message (co_diagnostics c)\<rparr>"

text \<open>One target of an alias; \<open>seen\<close> holds the providers that already have a route.\<close>

definition collect_alias_target ::
  "'d upstream_snapshot \<Rightarrow> api_format \<Rightarrow> bool \<Rightarrow> model_alias \<Rightarrow> model_alias_target
     \<Rightarrow> int list \<times> route_collection \<Rightarrow> int list \<times> route_collection" where
  "collect_alias_target snap f allow_via_chat alias target sc =
     (case sc of (seen, c) \<Rightarrow>
        (let m = t_upstream_model target; pid = t_provider_id target in
         if \<not> t_enabled target
         then (seen, co_reject pid m ''model_inventory'' ''alias_target_disabled''
                       ''model alias target is disabled'' c)
         else (case List.find (\<lambda>p. p_id p = pid) (us_providers snap) of
            None \<Rightarrow> (seen, co_reject pid m ''model_inventory'' ''provider_not_found''
                           ''model alias target references a missing provider'' c)
          | Some provider \<Rightarrow>
             (case provider_model_rejection snap (p_id provider) m of
                Some (code, message) \<Rightarrow>
                  (seen, co_reject (p_id provider) m ''model_inventory'' code message c)
              | None \<Rightarrow>
                  (let c1 = c\<lparr>co_inventory_candidates := co_inventory_candidates c + 1\<rparr> in
                   if \<not> is_model_globally_enabled snap m \<or>
                      \<not> route_allows_provider_for_model snap m pid
                   then (seen, co_reject (p_id provider) m ''model_route'' ''model_route_excluded''
                                 ''gateway model route excludes this provider'' c1)
                   else
                     (let c2 = c1\<lparr>co_route_candidates := co_route_candidates c1 + 1\<rparr> in
                      case provider_protocol_plan snap provider f m allow_via_chat of
                        None \<Rightarrow>
                          (case protocol_rejection snap provider f m allow_via_chat of
                             (code, message) \<Rightarrow>
                               (seen, co_reject (p_id provider) m ''protocol'' code message c2))
                      | Some protocol \<Rightarrow>
                          (if pid \<in> set seen then (seen, c2)
                           else (pid # seen,
                                 c2\<lparr>co_routes := co_routes c2 @
                                      [\<lparr>pr_provider = provider, pr_upstream_model = m,
                                        pr_route_priority = Some (t_priority target),
                                        pr_route_weight =
                                          (if a_mode alias = ''weighted'' then Some (t_weight target)
                                           else None),
                                        pr_protocol = protocol\<rparr>]\<rparr>))))))))"

text \<open>One provider for a model that is not an alias of the alias table.\<close>

definition collect_provider ::
  "'d upstream_snapshot \<Rightarrow> api_format \<Rightarrow> bool \<Rightarrow> string \<Rightarrow> int option \<Rightarrow> upstream_provider
     \<Rightarrow> route_collection \<Rightarrow> route_collection" where
  "collect_provider snap f allow_via_chat m forced_provider_id provider c =
     (if is_some_and forced_provider_id (\<lambda>i. i \<noteq> p_id provider) then c
      else (case provider_model_rejection snap (p_id provider) m of
         Some (code, message) \<Rightarrow> co_reject (p_id provider) m ''model_inventory'' code message c
       | None \<Rightarrow>
           (let c1 = c\<lparr>co_inventory_candidates := co_inventory_candidates c + 1\<rparr> in
            if \<not> route_allows_provider_for_model snap m (p_id provider)
            then co_reject (p_id provider) m ''model_route'' ''model_route_excluded''
                   ''gateway model route excludes this provider'' c1
            else
              (let c2 = c1\<lparr>co_route_candidates := co_route_candidates c1 + 1\<rparr> in
               case provider_protocol_plan snap provider f m allow_via_chat of
                 None \<Rightarrow>
                   (case protocol_rejection snap provider f m allow_via_chat of
                      (code, message) \<Rightarrow> co_reject (p_id provider) m ''protocol'' code message c2)
               | Some protocol \<Rightarrow>
                   c2\<lparr>co_routes := co_routes c2 @
                        [\<lparr>pr_provider = provider, pr_upstream_model = m, pr_route_priority = None,
                          pr_route_weight = None, pr_protocol = protocol\<rparr>]\<rparr>))))"

definition known_but_inactive :: "route_rejection \<Rightarrow> bool" where
  "known_but_inactive j \<longleftrightarrow>
     rj_code j = ''provider_model_disabled'' \<or> rj_code j = ''provider_model_unavailable'' \<or>
     rj_code j = ''alias_target_disabled''"

definition finish_route_collection ::
  "string \<Rightarrow> route_collection \<Rightarrow> route_error + (provider_route list \<times> route_diagnostics)" where
  "finish_route_collection requested_model c =
     (let d = co_diagnostics c in
      if co_routes c \<noteq> [] then Inr (co_routes c, d)
      else if 0 < co_route_candidates c
      then Inl (route_error_new 400 ''invalid_request_error'' ''model_protocol_unsupported''
             (model_message requested_model
                '' is registered, but no matching provider supports the requested API format or conversion'') d)
      else if 0 < co_inventory_candidates c
      then Inl (route_error_new 503 ''upstream_configuration_error'' ''model_route_unavailable''
             (model_message requested_model
                '' is registered, but its gateway route excludes all matching providers'') d)
      else if list_ex known_but_inactive (rd_rejections d)
      then Inl (route_error_new 503 ''upstream_configuration_error'' ''model_not_available''
             (model_message requested_model
                '' exists in synchronized inventory but is disabled or unavailable'') d)
      else Inl (route_error_new 404 ''invalid_request_error'' ''model_not_found''
             (model_message requested_model '' is not registered by any provider'') d))"

definition model_disabled_error :: "string \<Rightarrow> route_diagnostics \<Rightarrow> route_error" where
  "model_disabled_error requested_model d =
     route_error_new 403 ''permission_error'' ''model_disabled''
       (model_message requested_model '' is disabled'') d"

definition collect_alias_routes ::
  "'d upstream_snapshot \<Rightarrow> api_format \<Rightarrow> string \<Rightarrow> bool \<Rightarrow> model_alias
     \<Rightarrow> route_error + (provider_route list \<times> route_diagnostics)" where
  "collect_alias_routes snap f requested_model allow_via_chat alias =
     (if \<not> a_enabled alias
      then Inl (model_disabled_error requested_model
             (reject None requested_model ''model_policy'' ''model_disabled'' ''model alias is disabled''
                diagnostics_default))
      else (case us_alias_targets_by_alias snap (a_id alias) of
         None \<Rightarrow> Inl (route_error_new 404 ''invalid_request_error'' ''model_not_found''
                        (model_message requested_model '' has no registered alias targets'')
                        diagnostics_default)
       | Some targets \<Rightarrow>
           finish_route_collection requested_model
             (snd (fold (collect_alias_target snap f allow_via_chat alias) targets
                    ([], collection_new diagnostics_default)))))"

definition collect_model_routes ::
  "'d upstream_snapshot \<Rightarrow> api_format \<Rightarrow> string \<Rightarrow> bool \<Rightarrow> string \<Rightarrow> int option
     \<Rightarrow> route_error + (provider_route list \<times> route_diagnostics)" where
  "collect_model_routes snap f requested_model allow_via_chat upstream_model forced_provider_id =
     (if \<not> is_model_globally_enabled snap upstream_model
      then Inl (model_disabled_error requested_model
             (reject forced_provider_id upstream_model ''model_policy'' ''model_disabled''
                ''upstream model is disabled by the gateway policy'' diagnostics_default))
      else finish_route_collection requested_model
             (fold (collect_provider snap f allow_via_chat upstream_model forced_provider_id)
                (us_providers snap) (collection_new diagnostics_default)))"

definition collect_provider_routes_inner ::
  "'d upstream_snapshot \<Rightarrow> api_format \<Rightarrow> string \<Rightarrow> bool
     \<Rightarrow> route_error + (provider_route list \<times> route_diagnostics)" where
  "collect_provider_routes_inner snap f requested_model allow_via_chat =
     (if \<not> is_model_globally_enabled snap requested_model
      then Inl (model_disabled_error requested_model
             (reject None requested_model ''model_policy'' ''model_disabled''
                ''model is disabled by the gateway policy'' diagnostics_default))
      else (case map_of (us_model_aliases_by_name snap) requested_model of
         Some alias \<Rightarrow> collect_alias_routes snap f requested_model allow_via_chat alias
       | None \<Rightarrow>
           (case map_of (us_alias_to_provider_model snap) requested_model of
              Some target \<Rightarrow>
                (if \<not> at_enabled target
                 then Inl (model_disabled_error requested_model
                        (reject (Some (at_provider_id target)) (at_upstream_model target)
                           ''model_policy'' ''model_disabled'' ''legacy model alias is disabled''
                           diagnostics_default))
                 else collect_model_routes snap f requested_model allow_via_chat
                        (at_upstream_model target) (Some (at_provider_id target)))
            | None \<Rightarrow> collect_model_routes snap f requested_model allow_via_chat requested_model None)))"

text \<open>The routing policy of the model, or else the default one.\<close>

definition policy_for :: "'d upstream_snapshot \<Rightarrow> string \<Rightarrow> route_policy option" where
  "policy_for snap requested_model =
     opt_or (us_route_policies snap requested_model) (us_route_policies snap ''*'')"

definition policy_allows :: "route_policy \<Rightarrow> provider_route \<Rightarrow> bool" where
  "policy_allows policy route \<longleftrightarrow>
     list_ex (\<lambda>t. rt_provider_id t = p_id (pr_provider route)) (rp_targets policy)"

definition reject_route ::
  "string \<Rightarrow> string \<Rightarrow> string \<Rightarrow> provider_route \<Rightarrow> route_diagnostics \<Rightarrow> route_diagnostics" where
  "reject_route stage code message route d =
     reject (Some (p_id (pr_provider route))) (pr_upstream_model route) stage code message d"

definition collect_provider_routes ::
  "'d upstream_snapshot \<Rightarrow> api_format \<Rightarrow> string \<Rightarrow> bool
     \<Rightarrow> route_error + (provider_route list \<times> route_diagnostics)" where
  "collect_provider_routes snap f requested_model allow_via_chat =
     (case collect_provider_routes_inner snap f requested_model allow_via_chat of
        Inl e \<Rightarrow> Inl e
      | Inr (routes, d) \<Rightarrow>
          (case policy_for snap requested_model of
             None \<Rightarrow> Inr (routes, d)
           | Some policy \<Rightarrow>
               (let d' = fold (reject_route ''model_route'' ''model_route_excluded''
                                 ''model route excludes this upstream'')
                           (filter (\<lambda>r. \<not> policy_allows policy r) routes) d;
                    kept = filter (policy_allows policy) routes
                in if kept = []
                   then Inl (route_error_new 503 ''upstream_configuration_error''
                          ''model_route_unavailable'' ''model route has no eligible targets'' d')
                   else Inr (kept, d'))))"

section \<open>What the routes are\<close>

text \<open>The checks a provider passes one after the other, for the upstream model \<open>m\<close>.\<close>

definition in_inventory :: "'d upstream_snapshot \<Rightarrow> string \<Rightarrow> upstream_provider \<Rightarrow> bool" where
  "in_inventory snap m p \<longleftrightarrow>
     is_none_or (us_provider_models snap (p_id p)) (\<lambda>models. is_some_and (map_of models m) is_active)"

definition inactive_in_inventory :: "'d upstream_snapshot \<Rightarrow> string \<Rightarrow> upstream_provider \<Rightarrow> bool" where
  "inactive_in_inventory snap m p \<longleftrightarrow>
     is_some_and (us_provider_models snap (p_id p))
       (\<lambda>models. is_some_and (map_of models m) (\<lambda>state. \<not> is_active state))"

definition can_serve ::
  "'d upstream_snapshot \<Rightarrow> api_format \<Rightarrow> bool \<Rightarrow> string \<Rightarrow> upstream_provider \<Rightarrow> bool" where
  "can_serve snap f allow m p \<longleftrightarrow>
     in_inventory snap m p \<and> route_allows_provider_for_model snap m (p_id p) \<and>
     provider_protocol_plan snap p f m allow \<noteq> None"

lemma provider_model_rejection_None:
  "provider_model_rejection snap (p_id p) m = None \<longleftrightarrow> in_inventory snap m p"
  by (auto simp: provider_model_rejection_def in_inventory_def is_none_or_def is_some_and_def
      is_active_def split: option.splits)

lemma provider_model_rejection_inactive:
  assumes "provider_model_rejection snap (p_id p) m = Some cm"
  shows "fst cm = ''provider_model_disabled'' \<or> fst cm = ''provider_model_unavailable'' \<longleftrightarrow>
           inactive_in_inventory snap m p"
    and "fst cm \<noteq> ''alias_target_disabled''"
proof -
  obtain models where ms: "us_provider_models snap (p_id p) = Some models"
    using assms by (cases "us_provider_models snap (p_id p)") (simp_all add: provider_model_rejection_def)
  have "(fst cm = ''provider_model_disabled'' \<or> fst cm = ''provider_model_unavailable'' \<longleftrightarrow>
          inactive_in_inventory snap m p) \<and> fst cm \<noteq> ''alias_target_disabled''"
  proof (cases "map_of models m")
    case None
    then have "cm = (''provider_model_not_registered'', ''provider model inventory does not contain this model'')"
      using assms ms by (simp add: provider_model_rejection_def)
    then show ?thesis using None ms by (simp add: inactive_in_inventory_def is_some_and_def)
  next
    case (Some state)
    then show ?thesis using assms ms
      by (simp add: provider_model_rejection_def inactive_in_inventory_def is_some_and_def is_active_def
          split: if_splits) (drule sym, simp)+
  qed
  then show "fst cm = ''provider_model_disabled'' \<or> fst cm = ''provider_model_unavailable'' \<longleftrightarrow>
      inactive_in_inventory snap m p" and "fst cm \<noteq> ''alias_target_disabled''" by blast+
qed

lemma protocol_rejection_code:
  "fst (protocol_rejection snap p f m allow) \<in> {''provider_protocol_unsupported'', ''responses_via_chat_disabled''}"
  by (simp add: protocol_rejection_def)

lemma reject_sel [simp]:
  "rd_candidates (reject i m st code msg d) = rd_candidates d"
  by (simp add: reject_def)

lemma rejections_reject:
  "length (rd_rejections d) \<le> 100 \<Longrightarrow>
   rd_rejections (reject i m st code msg d) =
     take 100 (rd_rejections d @ [\<lparr>rj_provider_id = i, rj_upstream_model = m, rj_stage = st,
       rj_code = code, rj_message = msg\<rparr>])"
  by (auto simp: reject_def)

lemma rejections_bounded:
  "length (rd_rejections d) \<le> 100 \<Longrightarrow> length (rd_rejections (reject i m st code msg d)) \<le> 100"
  by (simp add: rejections_reject)

text \<open>The rejection a provider leaves, if any, and its route, if any.\<close>

definition provider_rejection ::
  "'d upstream_snapshot \<Rightarrow> api_format \<Rightarrow> bool \<Rightarrow> string \<Rightarrow> upstream_provider \<Rightarrow> route_rejection list" where
  "provider_rejection snap f allow m p =
     rd_rejections (co_diagnostics
       (collect_provider snap f allow m None p (collection_new diagnostics_default)))"

definition plain_route ::
  "'d upstream_snapshot \<Rightarrow> api_format \<Rightarrow> bool \<Rightarrow> string \<Rightarrow> upstream_provider \<Rightarrow> provider_route" where
  "plain_route snap f allow m p =
     \<lparr>pr_provider = p, pr_upstream_model = m, pr_route_priority = None, pr_route_weight = None,
      pr_protocol = the (provider_protocol_plan snap p f m allow)\<rparr>"

lemma collect_provider_step:
  assumes "c' = collect_provider snap f allow m forced p c"
    and cand: "\<not> is_some_and forced (\<lambda>i. i \<noteq> p_id p)"
  shows "co_routes c' = co_routes c @ (if can_serve snap f allow m p then [plain_route snap f allow m p] else [])"
    and "co_inventory_candidates c' = co_inventory_candidates c + of_bool (in_inventory snap m p)"
    and "co_route_candidates c' = co_route_candidates c +
           of_bool (in_inventory snap m p \<and> route_allows_provider_for_model snap m (p_id p))"
  using assms provider_model_rejection_None [of snap p m]
  by (auto simp: collect_provider_def Let_def co_reject_def can_serve_def plain_route_def case_prod_unfold
      split: option.splits prod.splits)

lemma collect_provider_rejections:
  assumes "\<not> is_some_and forced (\<lambda>i. i \<noteq> p_id p)"
    and "length (rd_rejections (co_diagnostics c)) \<le> 100"
  shows "rd_rejections (co_diagnostics (collect_provider snap f allow m forced p c)) =
         take 100 (rd_rejections (co_diagnostics c) @ provider_rejection snap f allow m p)"
  using assms
  by (auto simp: collect_provider_def provider_rejection_def collection_new_def diagnostics_default_def
      Let_def co_reject_def rejections_reject is_some_and_def case_prod_unfold split: option.splits)

lemma provider_rejection_inactive:
  "(\<exists>j \<in> set (provider_rejection snap f allow m p). known_but_inactive j) \<longleftrightarrow>
   inactive_in_inventory snap m p"
proof (cases "provider_model_rejection snap (p_id p) m")
  case None
  then have "\<not> inactive_in_inventory snap m p"
    using provider_model_rejection_None [of snap p m]
    by (auto simp: in_inventory_def inactive_in_inventory_def is_none_or_def is_some_and_def split: option.splits)
  moreover have "\<not> known_but_inactive j" if "j \<in> set (provider_rejection snap f allow m p)" for j
    using None that protocol_rejection_code [of snap p f m allow]
    by (auto simp: provider_rejection_def collect_provider_def is_some_and_def Let_def co_reject_def
        collection_new_def diagnostics_default_def reject_def known_but_inactive_def case_prod_unfold
        split: if_splits option.splits)
  ultimately show ?thesis by blast
next
  case (Some cm)
  then show ?thesis
    using provider_model_rejection_inactive [OF Some]
    by (cases cm) (auto simp: provider_rejection_def collect_provider_def is_some_and_def co_reject_def
        collection_new_def diagnostics_default_def reject_def known_but_inactive_def)
qed

lemma length_provider_rejection: "length (provider_rejection snap f allow m p) \<le> 1"
  by (auto simp: provider_rejection_def collect_provider_def is_some_and_def Let_def co_reject_def
      collection_new_def diagnostics_default_def reject_def case_prod_unfold split: option.splits)

lemma collect_providers_fold:
  assumes "\<forall>p \<in> set ps. \<not> is_some_and forced (\<lambda>i. i \<noteq> p_id p)"
    and "length (rd_rejections (co_diagnostics c)) + length ps \<le> 100"
  shows "co_routes (fold (collect_provider snap f allow m forced) ps c) =
           co_routes c @ map (plain_route snap f allow m) (filter (can_serve snap f allow m) ps) \<and>
         co_inventory_candidates (fold (collect_provider snap f allow m forced) ps c) =
           co_inventory_candidates c + length (filter (in_inventory snap m) ps) \<and>
         co_route_candidates (fold (collect_provider snap f allow m forced) ps c) =
           co_route_candidates c + length (filter (\<lambda>p. in_inventory snap m p \<and>
             route_allows_provider_for_model snap m (p_id p)) ps) \<and>
         rd_rejections (co_diagnostics (fold (collect_provider snap f allow m forced) ps c)) =
           rd_rejections (co_diagnostics c) @ concat (map (provider_rejection snap f allow m) ps)"
  using assms
proof (induction ps arbitrary: c)
  case (Cons p ps)
  let ?c = "collect_provider snap f allow m forced p c"
  have cand: "\<not> is_some_and forced (\<lambda>i. i \<noteq> p_id p)" using Cons.prems by simp
  have rej: "rd_rejections (co_diagnostics ?c) =
      rd_rejections (co_diagnostics c) @ provider_rejection snap f allow m p"
    using collect_provider_rejections [OF cand, of c snap f allow m] Cons.prems(2)
      length_provider_rejection [of snap f allow m p] by simp
  then have "length (rd_rejections (co_diagnostics ?c)) + length ps \<le> 100"
    using Cons.prems(2) length_provider_rejection [of snap f allow m p] by simp
  from Cons.IH [OF _ this] show ?case
    using Cons.prems(1) collect_provider_step [OF refl cand, of snap f allow m c] rej by simp
qed simp

section \<open>Properties\<close>


text \<open>Every route that is collected: a configured provider that can serve its model.\<close>

definition route_sound ::
  "'d upstream_snapshot \<Rightarrow> api_format \<Rightarrow> bool \<Rightarrow> provider_route \<Rightarrow> bool" where
  "route_sound snap f allow r \<longleftrightarrow>
     pr_provider r \<in> set (us_providers snap) \<and>
     is_model_globally_enabled snap (pr_upstream_model r) \<and>
     can_serve snap f allow (pr_upstream_model r) (pr_provider r) \<and>
     provider_protocol_plan snap (pr_provider r) f (pr_upstream_model r) allow = Some (pr_protocol r)"

abbreviation route_ids :: "provider_route list \<Rightarrow> int list" where
  "route_ids rs \<equiv> map (\<lambda>r. p_id (pr_provider r)) rs"

definition collection_sound ::
  "'d upstream_snapshot \<Rightarrow> api_format \<Rightarrow> bool \<Rightarrow> int list \<times> route_collection \<Rightarrow> bool" where
  "collection_sound snap f allow sc \<longleftrightarrow>
     (\<forall>r \<in> set (co_routes (snd sc)). route_sound snap f allow r) \<and>
     distinct (route_ids (co_routes (snd sc))) \<and>
     (\<forall>r \<in> set (co_routes (snd sc)). p_id (pr_provider r) \<in> set (fst sc))"

lemma co_reject_routes [simp]: "co_routes (co_reject i m st code msg c) = co_routes c"
  by (simp add: co_reject_def)

lemma collect_alias_target_cases:
  "co_routes (snd (collect_alias_target snap f allow al t (seen, c))) = co_routes c \<and>
   fst (collect_alias_target snap f allow al t (seen, c)) = seen \<or>
   (\<exists>r. co_routes (snd (collect_alias_target snap f allow al t (seen, c))) = co_routes c @ [r] \<and>
        fst (collect_alias_target snap f allow al t (seen, c)) = t_provider_id t # seen \<and>
        t_provider_id t \<notin> set seen \<and> p_id (pr_provider r) = t_provider_id t \<and> route_sound snap f allow r)"
proof (cases "List.find (\<lambda>p. p_id p = t_provider_id t) (us_providers snap)")
  case None
  then show ?thesis by (simp add: collect_alias_target_def Let_def)
next
  case (Some p)
  then have p: "p \<in> set (us_providers snap)" "p_id p = t_provider_id t" by (auto simp: find_Some_iff)
  show ?thesis
  proof (cases "provider_model_rejection snap (p_id p) (t_upstream_model t)")
    case None
    then have "in_inventory snap (t_upstream_model t) p" by (simp add: provider_model_rejection_None)
    then show ?thesis using Some None p
      by (cases "provider_protocol_plan snap p f (t_upstream_model t) allow")
        (simp_all add: collect_alias_target_def Let_def route_sound_def can_serve_def case_prod_unfold)
  next
    case (Some cm)
    with \<open>List.find _ _ = Some p\<close> p show ?thesis
      by (simp add: collect_alias_target_def Let_def case_prod_unfold)
  qed
qed

lemma collect_alias_target_sound:
  assumes "collection_sound snap f allow sc"
  shows "collection_sound snap f allow (collect_alias_target snap f allow al t sc)"
proof -
  obtain seen c where sc: "sc = (seen, c)" by (cases sc)
  show ?thesis
    using assms collect_alias_target_cases [of snap f allow al t seen c]
    by (auto simp: sc collection_sound_def)
qed

lemma fold_preserves:
  "\<lbrakk> P s; \<And>x s. x \<in> set xs \<Longrightarrow> P s \<Longrightarrow> P (f x s) \<rbrakk> \<Longrightarrow> P (fold f xs s)"
  by (induction xs arbitrary: s) auto

lemma collect_providers_sound:
  assumes "distinct (map p_id ps)" and "set ps \<subseteq> set (us_providers snap)"
    and "is_model_globally_enabled snap m"
    and "\<forall>r \<in> set (co_routes c). route_sound snap f allow r" and "distinct (route_ids (co_routes c))"
    and "set (route_ids (co_routes c)) \<inter> set (map p_id ps) = {}"
  shows "(\<forall>r \<in> set (co_routes (fold (collect_provider snap f allow m forced) ps c)). route_sound snap f allow r) \<and>
         distinct (route_ids (co_routes (fold (collect_provider snap f allow m forced) ps c)))"
  using assms
proof (induction ps arbitrary: c)
  case (Cons p ps)
  let ?c = "collect_provider snap f allow m forced p c"
  have "co_routes ?c = co_routes c \<or>
      (can_serve snap f allow m p \<and> co_routes ?c = co_routes c @ [plain_route snap f allow m p])"
  proof (cases "is_some_and forced (\<lambda>i. i \<noteq> p_id p)")
    case True
    then show ?thesis by (simp add: collect_provider_def)
  next
    case False
    then show ?thesis using collect_provider_step(1) [OF refl False, of snap f allow m c] by simp
  qed
  moreover have "route_sound snap f allow (plain_route snap f allow m p)" if "can_serve snap f allow m p"
    using that Cons.prems(2,3) by (auto simp: route_sound_def plain_route_def can_serve_def)
  moreover have "p_id (pr_provider (plain_route snap f allow m p)) = p_id p" by (simp add: plain_route_def)
  ultimately have "(\<forall>r \<in> set (co_routes ?c). route_sound snap f allow r) \<and> distinct (route_ids (co_routes ?c)) \<and>
      set (route_ids (co_routes ?c)) \<inter> set (map p_id ps) = {}"
    using Cons.prems(1,4-6) by (elim disjE) (auto simp: disjoint_iff image_iff dest: bspec)
  then show ?case
    using Cons.IH [of ?c] Cons.prems(1-3) by simp
qed simp

lemma finish_route_collection_Inr:
  "finish_route_collection m c = Inr (rs, d) \<Longrightarrow> rs = co_routes c \<and> d = co_diagnostics c \<and> rs \<noteq> []"
  by (auto simp: finish_route_collection_def Let_def split: if_splits)

lemma collect_inner_sound:
  assumes "collect_provider_routes_inner snap f m allow = Inr (rs, d)" and "distinct (map p_id (us_providers snap))"
  shows "rs \<noteq> [] \<and> is_model_globally_enabled snap m \<and>
         (\<forall>r \<in> set rs. route_sound snap f allow r) \<and> distinct (route_ids rs)"
proof -
  have model: "rs \<noteq> [] \<and> (\<forall>r \<in> set rs. route_sound snap f allow r) \<and> distinct (route_ids rs)"
    if "collect_model_routes snap f m allow um forced = Inr (rs, d)" for um forced
  proof -
    have um: "is_model_globally_enabled snap um"
      using that by (simp add: collect_model_routes_def split: if_splits)
    then have "finish_route_collection m (fold (collect_provider snap f allow um forced)
        (us_providers snap) (collection_new diagnostics_default)) = Inr (rs, d)"
      using that by (simp add: collect_model_routes_def)
    from finish_route_collection_Inr [OF this] show ?thesis
      using collect_providers_sound [OF assms(2) subset_refl um, of "collection_new diagnostics_default" f allow forced]
      by (auto simp: collection_new_def)
  qed
  have via_alias: "rs \<noteq> [] \<and> (\<forall>r \<in> set rs. route_sound snap f allow r) \<and> distinct (route_ids rs)"
    if routes: "collect_alias_routes snap f m allow al = Inr (rs, d)" for al
  proof -
    have en: "a_enabled al" using routes by (cases "a_enabled al") (simp_all add: collect_alias_routes_def)
    then obtain targets where targets: "us_alias_targets_by_alias snap (a_id al) = Some targets"
      using routes by (cases "us_alias_targets_by_alias snap (a_id al)") (simp_all add: collect_alias_routes_def)
    then have t: "finish_route_collection m (snd (fold (collect_alias_target snap f allow al) targets
        ([], collection_new diagnostics_default))) = Inr (rs, d)"
      using routes en by (simp add: collect_alias_routes_def)
    have "collection_sound snap f allow (fold (collect_alias_target snap f allow al) targets
        ([], collection_new diagnostics_default))"
    proof (rule fold_preserves)
      show "collection_sound snap f allow ([], collection_new diagnostics_default)"
        by (simp add: collection_sound_def collection_new_def)
    qed (rule collect_alias_target_sound)
    then show ?thesis using finish_route_collection_Inr [OF t] by (auto simp: collection_sound_def)
  qed
  show ?thesis using assms(1) model via_alias
    by (auto simp: collect_provider_routes_inner_def split: if_splits option.splits)
qed

lemma collect_routes_sound:
  assumes "collect_provider_routes snap f m allow = Inr (rs, d)" and "distinct (map p_id (us_providers snap))"
  shows "rs \<noteq> [] \<and> is_model_globally_enabled snap m \<and>
         (\<forall>r \<in> set rs. route_sound snap f allow r \<and> is_none_or (policy_for snap m) (\<lambda>policy. policy_allows policy r)) \<and>
         distinct (route_ids rs)"
proof -
  obtain rs0 d0 where rs0: "collect_provider_routes_inner snap f m allow = Inr (rs0, d0)"
    using assms(1) by (auto simp: collect_provider_routes_def split: sum.splits)
  have "rs = (case policy_for snap m of None \<Rightarrow> rs0 | Some policy \<Rightarrow> filter (policy_allows policy) rs0) \<and> rs \<noteq> []"
    using assms(1) rs0 collect_inner_sound [OF rs0 assms(2)]
    by (auto simp: collect_provider_routes_def Let_def split: option.splits if_splits)
  then show ?thesis
    using collect_inner_sound [OF rs0 assms(2)]
    by (auto simp: is_none_or_def distinct_map_filter split: option.splits)
qed

section \<open>The property at a concrete input\<close>

definition route_snapshot :: "int upstream_snapshot" where
  "route_snapshot =
     \<lparr>us_providers = [], us_route_policies = Map.empty, us_keys_by_provider = Map.empty,
      us_endpoints_by_provider = Map.empty, us_groups_by_provider = Map.empty,
      us_routes_by_model = Map.empty, us_provider_models = Map.empty,
      us_alias_to_provider_model = [], us_model_aliases_by_name = [],
      us_alias_targets_by_alias = Map.empty, us_key_models_by_key = Map.empty,
      us_globally_disabled_models = [], us_codex_oauth_by_key = Map.empty, us_model_registry_ids = [],
      us_provider_prices_by_model = Map.empty, us_global_prices_by_model = Map.empty\<rparr>"


end
