(* ===== verification/Runtime_Settings.thy ===== *)
theory Runtime_Settings
  imports Json Selector
begin

text \<open>
  \<open>src/backend/src/runtime_settings.rs\<close>: the settings an administrator may change while the
  gateway runs.  The price synchronisation settings are a parameter: \<open>sync\<close> is their type,
  \<open>read_sync\<close> stands for \<open>serde_json::from_value\<close> followed by \<open>validate\<close>, \<open>write_sync\<close> for
  their JSON form.  The database writes of \<open>update\<close> are a parameter as well.
\<close>

record 'sync runtime_settings =
  st_price_sync :: 'sync
  st_inject_include_usage :: bool
  st_encrypted_content_recovery :: bool
  st_endpoint_selector_strategy :: endpoint_strategy
  st_usage_capture_bytes :: nat
  st_usage_capture_tail_bytes :: nat
  st_request_log_retention_days :: nat
  st_stats_daily_retention_days :: nat

text \<open>The fields of \<open>Config\<close> these functions read.\<close>

record settings_config =
  cf_inject_include_usage :: bool
  cf_endpoint_selector_strategy :: endpoint_strategy
  cf_usage_capture_bytes :: nat
  cf_usage_capture_tail_bytes :: nat
  cf_request_log_retention_days :: nat
  cf_stats_daily_retention_days :: nat
  cf_db_max_connections :: nat
  cf_max_request_bytes :: nat

definition settings_from_config :: "'sync \<Rightarrow> settings_config \<Rightarrow> 'sync runtime_settings" where
  "settings_from_config sync_env config =
     \<lparr>st_price_sync = sync_env, st_inject_include_usage = cf_inject_include_usage config,
      st_encrypted_content_recovery = False,
      st_endpoint_selector_strategy = cf_endpoint_selector_strategy config,
      st_usage_capture_bytes = cf_usage_capture_bytes config,
      st_usage_capture_tail_bytes = cf_usage_capture_tail_bytes config,
      st_request_log_retention_days = cf_request_log_retention_days config,
      st_stats_daily_retention_days = cf_stats_daily_retention_days config\<rparr>"

text \<open>\<open>usize\<close> has 64 bits, so the conversion from \<open>u64\<close> cannot fail.\<close>

definition json_usize :: "json \<Rightarrow> string \<Rightarrow> string + nat" where
  "json_usize v key =
     (case as_u64 v of
        None \<Rightarrow> Inl (key @ '' must be a positive integer'')
      | Some raw \<Rightarrow> Inr raw)"

definition json_u32 :: "json \<Rightarrow> string \<Rightarrow> string + nat" where
  "json_u32 v key =
     (case as_u64 v of
        None \<Rightarrow> Inl (key @ '' must be a positive integer'')
      | Some raw \<Rightarrow> (if raw \<le> u32_max then Inr raw else Inl (key @ '' is too large'')))"

definition apply_value ::
  "(json \<Rightarrow> string + 'sync) \<Rightarrow> 'sync runtime_settings \<Rightarrow> string \<Rightarrow> json
     \<Rightarrow> string + 'sync runtime_settings" where
  "apply_value read_sync s key v =
     (if key = ''encrypted_content_recovery'' then
        (case as_bool v of
           None \<Rightarrow> Inl ''encrypted_content_recovery must be boolean''
         | Some b \<Rightarrow> Inr (s\<lparr>st_encrypted_content_recovery := b\<rparr>))
      else if key = ''price_sync'' then
        (case read_sync v of
           Inl e \<Rightarrow> Inl e
         | Inr sync \<Rightarrow> Inr (s\<lparr>st_price_sync := sync\<rparr>))
      else if key = ''inject_include_usage'' then
        (case as_bool v of
           None \<Rightarrow> Inl ''inject_include_usage must be boolean''
         | Some b \<Rightarrow> Inr (s\<lparr>st_inject_include_usage := b\<rparr>))
      else if key = ''endpoint_selector_strategy'' then
        (case as_str v of
           None \<Rightarrow> Inl ''endpoint_selector_strategy must be string''
         | Some raw \<Rightarrow>
             (case parse_endpoint_strategy raw of
                None \<Rightarrow> Inl ''invalid endpoint_selector_strategy''
              | Some strategy \<Rightarrow> Inr (s\<lparr>st_endpoint_selector_strategy := strategy\<rparr>)))
      else if key = ''usage_capture_bytes'' then
        (case json_usize v key of
           Inl e \<Rightarrow> Inl e
         | Inr n \<Rightarrow> Inr (s\<lparr>st_usage_capture_bytes := max n 1,
                           st_usage_capture_tail_bytes := min (st_usage_capture_tail_bytes s) (max n 1)\<rparr>))
      else if key = ''usage_capture_tail_bytes'' then
        (case json_usize v key of
           Inl e \<Rightarrow> Inl e
         | Inr n \<Rightarrow> Inr (s\<lparr>st_usage_capture_tail_bytes := min n (st_usage_capture_bytes s)\<rparr>))
      else if key = ''request_log_retention_days'' then
        (case json_u32 v key of
           Inl e \<Rightarrow> Inl e
         | Inr n \<Rightarrow> Inr (s\<lparr>st_request_log_retention_days := n\<rparr>))
      else if key = ''stats_daily_retention_days'' then
        (case json_u32 v key of
           Inl e \<Rightarrow> Inl e
         | Inr n \<Rightarrow> Inr (s\<lparr>st_stats_daily_retention_days := n\<rparr>))
      else Inl (''unsupported runtime setting: '' @ key))"

text \<open>The settings table: key, editable, requires restart (group and label are display texts).\<close>

record setting_spec =
  sp_key :: string
  sp_editable :: bool
  sp_requires_restart :: bool

definition setting_specs :: "setting_spec list" where
  "setting_specs =
     map (\<lambda>k. \<lparr>sp_key = k, sp_editable = True, sp_requires_restart = False\<rparr>)
       [''encrypted_content_recovery'', ''price_sync'', ''inject_include_usage'',
        ''endpoint_selector_strategy'', ''usage_capture_bytes'', ''usage_capture_tail_bytes'',
        ''request_log_retention_days'', ''stats_daily_retention_days''] @
     map (\<lambda>k. \<lparr>sp_key = k, sp_editable = False, sp_requires_restart = True\<rparr>)
       [''db_max_connections'', ''max_request_bytes'']"

definition spec_for :: "string \<Rightarrow> setting_spec option" where
  "spec_for key = List.find (\<lambda>spec. sp_key spec = key) setting_specs"

definition strategy_name :: "endpoint_strategy \<Rightarrow> string" where
  "strategy_name s = (case s of Weighted \<Rightarrow> ''weighted'' | Latency \<Rightarrow> ''latency'')"

definition value_for ::
  "('sync \<Rightarrow> json) \<Rightarrow> string \<Rightarrow> 'sync runtime_settings \<Rightarrow> settings_config \<Rightarrow> json" where
  "value_for write_sync key s config =
     (if key = ''encrypted_content_recovery'' then JBool (st_encrypted_content_recovery s)
      else if key = ''price_sync'' then write_sync (st_price_sync s)
      else if key = ''inject_include_usage'' then JBool (st_inject_include_usage s)
      else if key = ''endpoint_selector_strategy''
      then JString (strategy_name (st_endpoint_selector_strategy s))
      else if key = ''usage_capture_bytes'' then json_nat (st_usage_capture_bytes s)
      else if key = ''usage_capture_tail_bytes'' then json_nat (st_usage_capture_tail_bytes s)
      else if key = ''request_log_retention_days'' then json_nat (st_request_log_retention_days s)
      else if key = ''stats_daily_retention_days'' then json_nat (st_stats_daily_retention_days s)
      else if key = ''db_max_connections'' then json_nat (cf_db_max_connections config)
      else if key = ''max_request_bytes'' then json_nat (cf_max_request_bytes config)
      else JNull)"

text \<open>\<open>load\<close>: the stored rows over the defaults; the first bad row fails the start.\<close>

fun settings_load ::
  "(json \<Rightarrow> string + 'sync) \<Rightarrow> (string \<Rightarrow> string + json) \<Rightarrow> 'sync runtime_settings
     \<Rightarrow> (string \<times> string) list \<Rightarrow> string + 'sync runtime_settings" where
  "settings_load read_sync parse_json current [] = Inr current"
| "settings_load read_sync parse_json current ((key, value_json) # rows) =
     (case parse_json value_json of
        Inl e \<Rightarrow> Inl (''invalid runtime setting '' @ key @ '': '' @ e)
      | Inr v \<Rightarrow>
          (case apply_value read_sync current key v of
             Inl e \<Rightarrow> Inl e
           | Inr next_settings \<Rightarrow> settings_load read_sync parse_json next_settings rows))"

text \<open>\<open>update\<close>: nothing changes unless the value is accepted and stored.\<close>

definition settings_update ::
  "(json \<Rightarrow> string + 'sync) \<Rightarrow> (string \<Rightarrow> json \<Rightarrow> string + unit) \<Rightarrow> 'sync runtime_settings
     \<Rightarrow> string \<Rightarrow> json \<Rightarrow> (string + unit) \<times> 'sync runtime_settings" where
  "settings_update read_sync store current key v =
     (case spec_for key of
        None \<Rightarrow> (Inl ''unknown setting'', current)
      | Some spec \<Rightarrow>
          (if \<not> sp_editable spec then (Inl ''setting requires restart'', current)
           else (case apply_value read_sync current key v of
                   Inl e \<Rightarrow> (Inl e, current)
                 | Inr next_settings \<Rightarrow>
                     (case store key v of
                        Inl e \<Rightarrow> (Inl e, current)
                      | Inr _ \<Rightarrow> (Inr (), next_settings)))))"

definition replace_price_sync :: "'sync runtime_settings \<Rightarrow> 'sync \<Rightarrow> 'sync runtime_settings" where
  "replace_price_sync s sync = s\<lparr>st_price_sync := sync\<rparr>"

section \<open>Lemmas\<close>

text \<open>What the telemetry relies on: the tail is part of the captured bytes.\<close>

definition settings_ok :: "'sync runtime_settings \<Rightarrow> bool" where
  "settings_ok s \<longleftrightarrow>
     1 \<le> st_usage_capture_bytes s \<and> st_usage_capture_tail_bytes s \<le> st_usage_capture_bytes s \<and>
     st_usage_capture_bytes s \<le> u64_max \<and>
     st_request_log_retention_days s \<le> u32_max \<and> st_stats_daily_retention_days s \<le> u32_max"

lemma as_u64_bound: "as_u64 v = Some n \<Longrightarrow> n \<le> u64_max"
  by (cases v) (auto dest: parse_u64_bound)

lemma apply_value_ok:
  assumes "settings_ok s" and "apply_value read_sync s key v = Inr s'"
  shows "settings_ok s'"
proof -
  have "1 \<le> u64_max" by (simp add: u64_max_def)
  with assms show ?thesis
    by (auto simp: apply_value_def settings_ok_def json_usize_def json_u32_def dest: as_u64_bound
        split: if_splits option.splits sum.splits)
qed

lemma settings_load_ok:
  "settings_ok s \<Longrightarrow> settings_load read_sync parse_json s rows = Inr s' \<Longrightarrow> settings_ok s'"
  by (induction read_sync parse_json s rows rule: settings_load.induct)
    (auto split: sum.splits dest: apply_value_ok)

lemma settings_update_ok: "settings_ok s \<Longrightarrow> settings_ok (snd (settings_update read_sync store s key v))"
  by (auto simp: settings_update_def dest: apply_value_ok split: option.splits sum.splits)

lemma parse_strategy_name: "parse_endpoint_strategy (strategy_name st) = Some st"
  by (cases st) (simp_all add: strategy_name_def parse_endpoint_strategy_def, code_simp+)

definition settings_run ::
  "(json \<Rightarrow> string + 'sync) \<Rightarrow> (string \<Rightarrow> json \<Rightarrow> string + unit) \<Rightarrow> (string \<times> json) list
     \<Rightarrow> 'sync runtime_settings \<Rightarrow> 'sync runtime_settings" where
  "settings_run read_sync store updates s =
     fold (\<lambda>(key, v) s. snd (settings_update read_sync store s key v)) updates s"

lemma settings_run_ok: "settings_ok s \<Longrightarrow> settings_ok (settings_run read_sync store updates s)"
  by (induction updates arbitrary: s) (auto simp: settings_run_def settings_update_ok)

lemma view_reads_back:
  assumes "settings_ok s" and "spec_for key = Some spec" and "sp_editable spec" and "key \<noteq> ''price_sync''"
  shows "apply_value read_sync s key (value_for write_sync key s config) = Inr s"
proof -
  have "key \<in> set (map sp_key (filter sp_editable setting_specs))"
    using assms(2,3) by (force simp: spec_for_def find_Some_iff)
  then have "key = ''encrypted_content_recovery'' \<or> key = ''price_sync'' \<or> key = ''inject_include_usage'' \<or>
      key = ''endpoint_selector_strategy'' \<or> key = ''usage_capture_bytes'' \<or>
      key = ''usage_capture_tail_bytes'' \<or> key = ''request_log_retention_days'' \<or>
      key = ''stats_daily_retention_days''"
    by (simp add: setting_specs_def)
  moreover have "n \<le> u32_max \<Longrightarrow> n \<le> u64_max" for n by (simp add: u32_max_def u64_max_def)
  ultimately show ?thesis using assms(1,4)
    by (elim disjE) (simp_all add: apply_value_def value_for_def json_usize_def json_u32_def settings_ok_def
        as_u64_json_nat parse_strategy_name max_absorb1 min_absorb1)
qed

section \<open>Property\<close>

text \<open>C35: the settings in force are always valid. Started from a valid configuration and the stored
  rows, and through any sequence of updates, accepted or refused, whatever values they carry, the
  captured tail never exceeds the captured bytes, which are at least one, and every number fits
  its type; and what the settings page shows for an editable setting is accepted when it is sent
  back and changes nothing (the price synchronisation settings aside).\<close>

theorem settings_always_valid:
  assumes "settings_ok (settings_from_config env config)"
    and "settings_load read_sync parse_json (settings_from_config env config) rows = Inr s0"
    and "s = settings_run read_sync store updates s0"
  shows "settings_ok s \<and>
    (spec_for key = Some spec \<longrightarrow> sp_editable spec \<longrightarrow> key \<noteq> ''price_sync'' \<longrightarrow>
       apply_value read_sync s key (value_for write_sync key s config) = Inr s)"
  using settings_run_ok [OF settings_load_ok [OF assms(1,2)]] view_reads_back assms(3) by blast

definition wit_config :: settings_config where
  "wit_config =
     \<lparr>cf_inject_include_usage = True, cf_endpoint_selector_strategy = Weighted,
      cf_usage_capture_bytes = 100, cf_usage_capture_tail_bytes = 50,
      cf_request_log_retention_days = 7, cf_stats_daily_retention_days = 30,
      cf_db_max_connections = 4, cf_max_request_bytes = 1000\<rparr>"

text \<open>An update that shrinks the capture below the tail.\<close>

theorem settings_always_valid_witness:
  "settings_ok (settings_run (\<lambda>_. Inr ()) (\<lambda>_ _. Inr ()) [(''usage_capture_bytes'', json_nat 20)]
     (settings_from_config () wit_config))"
  using settings_always_valid [of "()" wit_config "\<lambda>_. Inr ()" "\<lambda>_. Inr JNull" "[]" "settings_from_config () wit_config"
      "settings_run (\<lambda>_. Inr ()) (\<lambda>_ _. Inr ()) [(''usage_capture_bytes'', json_nat 20)]
         (settings_from_config () wit_config)" "\<lambda>_ _. Inr ()" "[(''usage_capture_bytes'', json_nat 20)]"]
  by (simp add: settings_ok_def settings_from_config_def wit_config_def u64_max_def u32_max_def)

end
