(* ===== verification/Upstream_Plan.thy ===== *)
theory Upstream_Plan
  imports Route_Collection Routing_Availability Selector Affinity Caches Runtime_Settings
    "HOL-Library.Sublist"
begin

text \<open>
  \<open>src/backend/src/proxy.rs\<close>, the second half of planning a request (\<open>build_upstream_plan\<close>): of
  the collected routes the ones this API key may use, whose provider is enabled and has a key and
  an endpoint that can take the request now; the order in which providers, endpoints and keys are
  tried; and how a bound session moves its target to the front.  \<open>plan_state\<close> holds the parts of
  the shared state that planning reads and writes; the two \<open>u64\<close> counters are the metrics it
  counts.  The snapshot is what \<open>UpstreamCache::get\<close> answered (see Caches).
\<close>

record 'r plan_state =
  ps_gates :: gate_state
  ps_affinity :: affinity_book
  ps_rotation :: rotation_book
  ps_rng :: 'r
  ps_capacity_skips :: u64w
  ps_quota_skips :: u64w

section \<open>Attempts and exclusions\<close>

record 'd resolved_upstream =
  ru_upstream_model :: string
  ru_provider :: upstream_provider
  ru_endpoint :: upstream_endpoint
  ru_key :: upstream_key
  ru_price :: "'d price_version option"
  ru_protocol :: protocol_plan

record attempt_exclusions =
  ex_attempted_pairs :: "(int \<times> int) set"
  ex_provider_ids :: "int set"
  ex_endpoint_ids :: "int set"
  ex_key_ids :: "int set"

definition exclusions_default :: attempt_exclusions where
  "exclusions_default =
     \<lparr>ex_attempted_pairs = {}, ex_provider_ids = {}, ex_endpoint_ids = {}, ex_key_ids = {}\<rparr>"

definition should_skip :: "attempt_exclusions \<Rightarrow> 'd resolved_upstream \<Rightarrow> bool" where
  "should_skip x r \<longleftrightarrow>
     p_id (ru_provider r) \<in> ex_provider_ids x \<or> e_id (ru_endpoint r) \<in> ex_endpoint_ids x \<or>
     k_id (ru_key r) \<in> ex_key_ids x \<or>
     (k_id (ru_key r), e_id (ru_endpoint r)) \<in> ex_attempted_pairs x"

definition note_attempt :: "attempt_exclusions \<Rightarrow> 'd resolved_upstream \<Rightarrow> attempt_exclusions" where
  "note_attempt x r =
     x\<lparr>ex_attempted_pairs := insert (k_id (ru_key r), e_id (ru_endpoint r)) (ex_attempted_pairs x)\<rparr>"

definition avoid_endpoint :: "attempt_exclusions \<Rightarrow> int \<Rightarrow> attempt_exclusions" where
  "avoid_endpoint x i = x\<lparr>ex_endpoint_ids := insert i (ex_endpoint_ids x)\<rparr>"

definition avoid_provider :: "attempt_exclusions \<Rightarrow> int \<Rightarrow> attempt_exclusions" where
  "avoid_provider x i = x\<lparr>ex_provider_ids := insert i (ex_provider_ids x)\<rparr>"

definition avoid_key :: "attempt_exclusions \<Rightarrow> int \<Rightarrow> attempt_exclusions" where
  "avoid_key x i = x\<lparr>ex_key_ids := insert i (ex_key_ids x)\<rparr>"

definition has_remaining_candidate ::
  "'d resolved_upstream list \<Rightarrow> nat \<Rightarrow> attempt_exclusions \<Rightarrow> bool" where
  "has_remaining_candidate attempts start_index x =
     list_ex (\<lambda>r. \<not> should_skip x r) (drop start_index attempts)"

definition has_remaining_provider_candidate ::
  "'d resolved_upstream list \<Rightarrow> nat \<Rightarrow> attempt_exclusions \<Rightarrow> int \<Rightarrow> bool" where
  "has_remaining_provider_candidate attempts start_index x provider_id =
     list_ex (\<lambda>r. p_id (ru_provider r) = provider_id \<and> \<not> should_skip x r) (drop start_index attempts)"

section \<open>The order of providers\<close>

definition MAX_PROVIDER_SWITCHES :: nat where
  "MAX_PROVIDER_SWITCHES = MAX_ATTEMPTS - 1"

definition MAX_DISTINCT_PROVIDERS :: nat where
  "MAX_DISTINCT_PROVIDERS = MAX_PROVIDER_SWITCHES + 1"

record 'd schedulable_provider =
  sp_route :: provider_route
  sp_effective_priority :: int
  sp_effective_weight :: int
  sp_keys :: "upstream_key list"
  sp_endpoints :: "upstream_endpoint list"
  sp_price :: "'d price_version option"

abbreviation sp_id :: "'d schedulable_provider \<Rightarrow> int" where
  "sp_id s \<equiv> p_id (pr_provider (sp_route s))"

fun sample_offset :: "nat \<Rightarrow> int \<Rightarrow> 'd schedulable_provider list \<Rightarrow> nat option" where
  "sample_offset i off [] = None"
| "sample_offset i off (p # ps) =
     (let weight = max (sp_effective_weight p) 0 in
      if off < weight then Some i else sample_offset (Suc i) (off - weight) ps)"

definition weighted_sample_provider ::
  "'r rng \<Rightarrow> 'r \<Rightarrow> 'd schedulable_provider list \<Rightarrow> nat \<times> 'r" where
  "weighted_sample_provider draw r providers =
     (let total = sum_list (map (\<lambda>p. max (sp_effective_weight p) 0) providers) in
      if total \<le> 0 then draw r (length providers)
      else (case draw r (nat total) of
              (off, r') \<Rightarrow> (unwrap_or (sample_offset 0 (int off) providers) (length providers - 1), r')))"

function drain_priority_group ::
  "'r rng \<Rightarrow> 'r \<Rightarrow> 'd schedulable_provider list \<Rightarrow> 'd schedulable_provider list \<times> 'r" where
  "drain_priority_group draw r grp =
     (if grp = [] then ([], r)
      else if list_all (\<lambda>p. sp_effective_weight p = 0) grp then (sort_key sp_id grp, r)
      else (case weighted_sample_provider draw r grp of
              (i, r1) \<Rightarrow>
                (case drain_priority_group draw r1 (swap_remove i grp) of
                   (out, r2) \<Rightarrow> (grp ! i # out, r2))))"
  by auto

termination
  by (relation "measure (\<lambda>(_, _, grp). length grp)") auto

declare drain_priority_group.simps [simp del]

lemma filter_not_best_shorter:
  "iter_min (map f xs) = Some best \<Longrightarrow> length (filter (\<lambda>x. f x \<noteq> best) xs) < length xs"
proof -
  assume "iter_min (map f xs) = Some best"
  then have "best \<in> set (map f xs)" by (auto simp: iter_min_Some intro: Min_in)
  then have "\<exists>x \<in> set xs. \<not> f x \<noteq> best" by auto
  then show ?thesis using length_filter_less by (metis (mono_tags, lifting))
qed

function drain_providers ::
  "'r rng \<Rightarrow> 'r \<Rightarrow> 'd schedulable_provider list \<Rightarrow> 'd schedulable_provider list \<times> 'r" where
  "drain_providers draw r providers =
     (case iter_min (map sp_effective_priority providers) of
        None \<Rightarrow> ([], r)
      | Some best \<Rightarrow>
          (case drain_priority_group draw r (filter (\<lambda>p. sp_effective_priority p = best) providers) of
             (grp, r1) \<Rightarrow>
               (case drain_providers draw r1 (filter (\<lambda>p. sp_effective_priority p \<noteq> best) providers) of
                  (out, r2) \<Rightarrow> (grp @ out, r2))))"
  by auto

termination
  by (relation "measure (\<lambda>(_, _, providers). length providers)") (simp_all add: filter_not_best_shorter)

declare drain_providers.simps [simp del]

definition order_schedulable_providers ::
  "'r rng \<Rightarrow> 'r \<Rightarrow> 'd schedulable_provider list \<Rightarrow> int option \<Rightarrow> 'd schedulable_provider list \<times> 'r" where
  "order_schedulable_providers draw r providers affinity_provider_id =
     (case Option.bind affinity_provider_id (\<lambda>i. position (\<lambda>p. sp_id p = i) providers) of
        Some index \<Rightarrow>
          (case drain_providers draw r (swap_remove index providers) of
             (out, r') \<Rightarrow> (providers ! index # out, r'))
      | None \<Rightarrow> drain_providers draw r providers)"

definition attempts_of :: "'d schedulable_provider \<Rightarrow> 'd resolved_upstream list" where
  "attempts_of s =
     concat (map (\<lambda>endpoint.
       map (\<lambda>key.
         \<lparr>ru_upstream_model = pr_upstream_model (sp_route s), ru_provider = pr_provider (sp_route s),
          ru_endpoint = endpoint, ru_key = key, ru_price = sp_price s,
          ru_protocol = pr_protocol (sp_route s)\<rparr>)
         (take MAX_ATTEMPTS (sp_keys s)))
       (take MAX_ATTEMPTS (sp_endpoints s)))"

definition build_scheduled_attempts ::
  "'r rng \<Rightarrow> 'r \<Rightarrow> 'd schedulable_provider list \<Rightarrow> int option \<Rightarrow> 'd resolved_upstream list \<times> 'r" where
  "build_scheduled_attempts draw r schedulable affinity_provider_id =
     (case order_schedulable_providers draw r schedulable affinity_provider_id of
        (ordered, r') \<Rightarrow> (concat (map attempts_of (take MAX_DISTINCT_PROVIDERS ordered)), r'))"

definition order_keys_for_provider ::
  "rotation_book \<Rightarrow> int \<Rightarrow> string \<Rightarrow> upstream_key list \<Rightarrow> upstream_key list \<times> rotation_book" where
  "order_keys_for_provider rotation provider_id strategy ranked_keys =
     (if strategy = ''round_robin'' then rotate_provider rotation provider_id (sort_key k_id ranked_keys)
      else if strategy = ''ordered'' then (sort_key (\<lambda>k. (k_priority k, k_id k)) ranked_keys, rotation)
      else (ranked_keys, rotation))"

section \<open>Building the plan\<close>

record ('d, 'r) plan_acc =
  pa_state :: "'r plan_state"
  pa_diagnostics :: route_diagnostics
  pa_schedulable :: "'d schedulable_provider list"
  pa_transient_spill :: "int set"
  pa_key_ready_providers :: nat
  pa_static_ready_providers :: nat

definition pa_reject ::
  "string \<Rightarrow> string \<Rightarrow> string \<Rightarrow> provider_route \<Rightarrow> ('d, 'r) plan_acc \<Rightarrow> ('d, 'r) plan_acc" where
  "pa_reject stage code message route acc =
     acc\<lparr>pa_diagnostics := reject_route stage code message route (pa_diagnostics acc)\<rparr>"

definition pa_spill :: "int \<Rightarrow> ('d, 'r) plan_acc \<Rightarrow> ('d, 'r) plan_acc" where
  "pa_spill provider_id acc = acc\<lparr>pa_transient_spill := insert provider_id (pa_transient_spill acc)\<rparr>"

text \<open>The keys whose account can take the request; a rejection for each of the others.\<close>

fun available_keys ::
  "'d upstream_snapshot \<Rightarrow> int \<Rightarrow> provider_route \<Rightarrow> upstream_key list \<Rightarrow> 'r plan_state
     \<Rightarrow> route_diagnostics \<Rightarrow> upstream_key list \<times> 'r plan_state \<times> route_diagnostics" where
  "available_keys snap now route [] st d = ([], st, d)"
| "available_keys snap now route (key # keys) st d =
     (case account (ps_gates st) snap (pr_provider route) key (Some (pr_upstream_model route)) False now of
        (availability, quota) \<Rightarrow>
          (let st1 = st\<lparr>ps_gates := (ps_gates st)\<lparr>gs_quota := quota\<rparr>\<rparr>;
               st2 = (if ra_reason availability = Some ''quota_unavailable''
                      then st1\<lparr>ps_quota_skips := ps_quota_skips st1 + 1\<rparr> else st1);
               d1 = (if \<not> ra_available availability
                     then reject_route ''runtime'' (unwrap_or (ra_reason availability) ''account_unavailable'')
                            ''upstream account or its connection path is temporarily unavailable'' route d
                     else d)
           in case available_keys snap now route keys st2 d1 of
                (out, st', d') \<Rightarrow> (if ra_available availability then key # out else out, st', d')))"

text \<open>Why a provider whose snapshot is not available is passed over.\<close>

definition skip_unavailable_provider ::
  "provider_runtime_view \<Rightarrow> provider_route \<Rightarrow> ('d, 'r) plan_acc \<Rightarrow> ('d, 'r) plan_acc" where
  "skip_unavailable_provider runtime route acc =
     (if rv_state runtime = Open
      then pa_reject ''runtime'' ''provider_circuit_open'' ''provider circuit is open'' route acc
      else if rv_state runtime = HalfOpen
      then pa_reject ''runtime'' ''recovery_probe_in_progress''
             ''provider recovery probe is already in progress'' route acc
      else pa_reject ''runtime'' ''provider_capacity_exhausted''
             ''provider concurrency capacity is exhausted'' route
             (pa_spill (p_id (pr_provider route))
                (acc\<lparr>pa_state := (pa_state acc)\<lparr>ps_capacity_skips := ps_capacity_skips (pa_state acc) + 1\<rparr>\<rparr>)))"

text \<open>Priority and weight of a provider: a policy of this model, the alias target, the default
  policy, in this order.\<close>

definition explicit_policy :: "route_policy option \<Rightarrow> route_policy option" where
  "explicit_policy policy = opt_filter (\<lambda>p. rp_model_name p \<noteq> ''*'') policy"

definition policy_target :: "route_policy option \<Rightarrow> int \<Rightarrow> route_target option" where
  "policy_target policy provider_id =
     Option.bind policy (\<lambda>p. List.find (\<lambda>t. rt_provider_id t = provider_id) (rp_targets p))"

definition effective_priority :: "route_policy option \<Rightarrow> route_target option \<Rightarrow> provider_route \<Rightarrow> int" where
  "effective_priority policy target route =
     (if explicit_policy policy \<noteq> None then unwrap_or (map_option rt_priority target) 100
      else unwrap_or (pr_route_priority route) (unwrap_or (map_option rt_priority target) 100))"

definition effective_weight ::
  "'d upstream_snapshot \<Rightarrow> string \<Rightarrow> route_policy option \<Rightarrow> route_target option \<Rightarrow> provider_route \<Rightarrow> int" where
  "effective_weight snap requested_model policy target route =
     (let weighted =
            (case explicit_policy policy of
               Some p \<Rightarrow> rp_mode p = ''weighted''
             | None \<Rightarrow>
                 (case map_of (us_model_aliases_by_name snap) requested_model of
                    Some a \<Rightarrow> a_mode a = ''weighted''
                  | None \<Rightarrow> is_some_and policy (\<lambda>p. rp_mode p = ''weighted'')))
      in if \<not> weighted then 0
         else if explicit_policy policy \<noteq> None then max (unwrap_or (map_option rt_weight target) 1) 1
         else max (unwrap_or (pr_route_weight route) (unwrap_or (map_option rt_weight target) 1)) 1)"

text \<open>The last part of the loop body: keys and endpoints are ranked and the provider is added.\<close>

definition schedule_ranked ::
  "'r rng \<Rightarrow> 'd upstream_snapshot \<Rightarrow> endpoint_strategy \<Rightarrow> int \<Rightarrow> route_policy option \<Rightarrow> string
     \<Rightarrow> upstream_key list \<Rightarrow> upstream_endpoint list \<Rightarrow> provider_route
     \<Rightarrow> ('d, 'r) plan_acc \<Rightarrow> ('d, 'r) plan_acc" where
  "schedule_ranked draw snap strategy now policy requested_model keys endpoints route acc =
     (let provider = pr_provider route; st = pa_state acc; gs = ps_gates st in
      case rank_key_refs_with_health draw (ps_rng st) keys (gs_key_health gs) now of
        (ranked, r') \<Rightarrow>
      (case order_keys_for_provider (ps_rotation st) (p_id provider)
              (p_key_selection_strategy provider) ranked of
        (ranked_keys, rotation) \<Rightarrow>
          (let acc1 = acc\<lparr>pa_state := st\<lparr>ps_rng := r', ps_rotation := rotation\<rparr>\<rparr>;
               all_endpoints = rank_endpoint_refs_with_health endpoints (gs_endpoint_health gs) strategy now;
               ranked_endpoints = (if p_endpoint_failover provider then all_endpoints else take 1 all_endpoints);
               target = policy_target policy (p_id provider)
           in if ranked_keys = []
              then pa_reject ''runtime'' ''no_healthy_upstream_key''
                     ''all model-capable upstream keys are unhealthy or circuit-open'' route
                     (pa_spill (p_id provider) acc1)
              else if ranked_endpoints = []
              then pa_reject ''runtime'' ''no_healthy_upstream_endpoint''
                     ''all enabled upstream endpoints are unhealthy or circuit-open'' route acc1
              else if explicit_policy policy \<noteq> None \<and> target = None then acc1
              else
                (let priority = effective_priority policy target route;
                     weight = effective_weight snap requested_model policy target route
                 in acc1\<lparr>pa_diagnostics :=
                           (pa_diagnostics acc1)\<lparr>rd_candidates := rd_candidates (pa_diagnostics acc1) @
                             [\<lparr>rc_provider_id = p_id provider, rc_upstream_model = pr_upstream_model route,
                               rc_priority = priority, rc_weight = weight,
                               rc_attempt_budget = p_max_attempts provider,
                               rc_upstream_api_format = api_format_name (pp_upstream_api_format (pr_protocol route)),
                               rc_conversion_mode = conversion_name (pr_protocol route)\<rparr>]\<rparr>,
                         pa_schedulable := pa_schedulable acc1 @
                           [\<lparr>sp_route = route, sp_effective_priority = priority, sp_effective_weight = weight,
                             sp_keys = ranked_keys, sp_endpoints = ranked_endpoints,
                             sp_price = find_price_for_request snap (p_id provider) requested_model
                                          (pr_upstream_model route)\<rparr>]\<rparr>))))"

definition schedule_runtime ::
  "'r rng \<Rightarrow> 'd upstream_snapshot \<Rightarrow> endpoint_strategy \<Rightarrow> int \<Rightarrow> route_policy option
     \<Rightarrow> affinity_identity option \<Rightarrow> string \<Rightarrow> upstream_key list \<Rightarrow> upstream_endpoint list
     \<Rightarrow> provider_route \<Rightarrow> ('d, 'r) plan_acc \<Rightarrow> ('d, 'r) plan_acc" where
  "schedule_runtime draw snap strategy now policy affinity requested_model enabled_keys endpoints route acc =
     (let provider = pr_provider route;
          (avoided, book) =
            (case affinity of
               None \<Rightarrow> (False, ps_affinity (pa_state acc))
             | Some ident \<Rightarrow> is_provider_avoided (ps_affinity (pa_state acc)) ident (p_id provider) now);
          acc1 = acc\<lparr>pa_state := (pa_state acc)\<lparr>ps_affinity := book\<rparr>\<rparr>
      in if avoided
         then pa_reject ''runtime'' ''affinity_provider_avoided''
                ''provider is temporarily avoided for this affinity identity'' route acc1
         else
           (let runtime = prb_snapshot (gs_runtime (ps_gates (pa_state acc1))) provider now in
            if \<not> rv_available runtime then skip_unavailable_provider runtime route acc1
            else
              (case available_keys snap now route enabled_keys (pa_state acc1) (pa_diagnostics acc1) of
                 (keys, st, d) \<Rightarrow>
                   (let acc2 = acc1\<lparr>pa_state := st, pa_diagnostics := d\<rparr> in
                    if keys = [] then pa_spill (p_id provider) acc2
                    else schedule_ranked draw snap strategy now policy requested_model keys endpoints route acc2))))"

definition schedule_route ::
  "'r rng \<Rightarrow> 'd upstream_snapshot \<Rightarrow> endpoint_strategy \<Rightarrow> int \<Rightarrow> route_policy option
     \<Rightarrow> affinity_identity option \<Rightarrow> string \<Rightarrow> provider_route \<Rightarrow> ('d, 'r) plan_acc \<Rightarrow> ('d, 'r) plan_acc" where
  "schedule_route draw snap strategy now policy affinity requested_model route acc =
     (let pid = p_id (pr_provider route);
          model_keys = filter (\<lambda>k. key_allows_model snap (k_id k) (pr_upstream_model route))
                         (unwrap_or (us_keys_by_provider snap pid) []);
          enabled_keys = filter k_enabled model_keys;
          endpoints = filter e_enabled (unwrap_or (us_endpoints_by_provider snap pid) [])
      in if model_keys = []
         then pa_reject ''static_configuration'' ''no_upstream_key_for_model''
                ''provider has no upstream key registered for this model'' route acc
         else if enabled_keys = []
         then pa_reject ''static_configuration'' ''no_enabled_upstream_key''
                ''all upstream keys registered for this model are disabled'' route acc
         else
           (let acc1 = acc\<lparr>pa_key_ready_providers := pa_key_ready_providers acc + 1\<rparr> in
            if endpoints = []
            then pa_reject ''static_configuration'' ''no_enabled_upstream_endpoint''
                   ''provider has no enabled upstream endpoint'' route acc1
            else schedule_runtime draw snap strategy now policy affinity requested_model enabled_keys endpoints
                   route (acc1\<lparr>pa_static_ready_providers := pa_static_ready_providers acc1 + 1\<rparr>)))"

fun routes_retry_at ::
  "gate_state \<Rightarrow> 'd upstream_snapshot \<Rightarrow> int \<Rightarrow> provider_route list \<Rightarrow> int list \<times> gate_state" where
  "routes_retry_at gs snap now [] = ([], gs)"
| "routes_retry_at gs snap now (route # routes) =
     (case provider_retry_at gs snap (pr_provider route) (Some (pr_upstream_model route)) now of
        (until, quota) \<Rightarrow>
          (case routes_retry_at (gs\<lparr>gs_quota := quota\<rparr>) snap now routes of
             (rest, gs') \<Rightarrow> (somes [until] @ rest, gs')))"

record ('d, 'sync) upstream_plan =
  up_sticky :: bool
  up_route_policy :: "route_policy option"
  up_runtime :: "'sync runtime_settings"
  up_attempts :: "'d resolved_upstream list"
  up_transient_spill_provider_ids :: "int set"
  up_diagnostics :: route_diagnostics

definition unavailable_error :: "string \<Rightarrow> int option \<Rightarrow> route_diagnostics \<Rightarrow> route_error" where
  "unavailable_error requested_model retry_at_ms d =
     (route_error_new 503 ''upstream_unavailable'' ''all_upstreams_temporarily_unavailable''
        (''All upstream targets for model '' @ [CHR 0x22] @ requested_model @ [CHR 0x22] @
         '' are temporarily unavailable'') d)\<lparr>rr_retry_at_ms := retry_at_ms\<rparr>"

text \<open>The answer when no provider is left.\<close>

definition nothing_schedulable ::
  "string \<Rightarrow> int option \<Rightarrow> ('d, 'r) plan_acc \<Rightarrow> route_error" where
  "nothing_schedulable requested_model retry_at_ms acc =
     (if pa_key_ready_providers acc = 0
      then route_error_new 503 ''upstream_configuration_error'' ''no_upstream_key_for_model''
             (model_message requested_model '' has no enabled upstream key registered for this model'')
             (pa_diagnostics acc)
      else if pa_static_ready_providers acc = 0
      then route_error_new 503 ''upstream_configuration_error'' ''no_enabled_upstream_endpoint''
             (model_message requested_model '' has no enabled upstream endpoint'') (pa_diagnostics acc)
      else unavailable_error requested_model retry_at_ms (pa_diagnostics acc))"

text \<open>From the enabled routes on: the retry time, the bound provider, the loop, the attempts.\<close>

definition plan_enabled_routes ::
  "'r rng \<Rightarrow> 'd upstream_snapshot \<Rightarrow> 'sync runtime_settings \<Rightarrow> int \<Rightarrow> route_policy option
     \<Rightarrow> affinity_identity option \<Rightarrow> string \<Rightarrow> provider_route list \<Rightarrow> route_diagnostics \<Rightarrow> 'r plan_state
     \<Rightarrow> (route_error + ('d, 'sync) upstream_plan) \<times> 'r plan_state" where
  "plan_enabled_routes draw snap settings now policy affinity requested_model routes d st =
     (case routes_retry_at (ps_gates st) snap now routes of
        (untils, gs) \<Rightarrow>
      (case (case affinity of None \<Rightarrow> (None, ps_affinity st)
             | Some ident \<Rightarrow> affinity_lookup (ps_affinity st) ident now) of
        (binding, book) \<Rightarrow>
          (let retry_at_ms = iter_min untils;
               acc = fold (schedule_route draw snap (st_endpoint_selector_strategy settings) now policy
                             affinity requested_model) routes
                       \<lparr>pa_state = st\<lparr>ps_gates := gs, ps_affinity := book\<rparr>, pa_diagnostics = d,
                        pa_schedulable = [], pa_transient_spill = {}, pa_key_ready_providers = 0,
                        pa_static_ready_providers = 0\<rparr>
           in if pa_schedulable acc = []
              then (Inl (nothing_schedulable requested_model retry_at_ms acc), pa_state acc)
              else
                (case build_scheduled_attempts draw (ps_rng (pa_state acc)) (pa_schedulable acc)
                        (map_option ab_provider_id binding) of
                   (all_attempts, r') \<Rightarrow>
                     (let st' = (pa_state acc)\<lparr>ps_rng := r'\<rparr>;
                          attempts =
                            (if is_some_and policy (\<lambda>p. \<not> rp_failover p) then
                               (case all_attempts of
                                  [] \<Rightarrow> []
                                | first # _ \<Rightarrow>
                                    filter (\<lambda>a. p_id (ru_provider a) = p_id (ru_provider first)) all_attempts)
                             else all_attempts)
                      in if attempts = []
                         then (Inl (unavailable_error requested_model retry_at_ms (pa_diagnostics acc)), st')
                         else (Inr \<lparr>up_sticky = is_none_or policy rp_sticky, up_route_policy = policy,
                                    up_runtime = settings, up_attempts = attempts,
                                    up_transient_spill_provider_ids = pa_transient_spill acc,
                                    up_diagnostics = pa_diagnostics acc\<rparr>, st'))))))"

definition build_upstream_plan ::
  "'r rng \<Rightarrow> (string + 'd upstream_snapshot) \<Rightarrow> 'sync runtime_settings \<Rightarrow> int \<Rightarrow> api_format \<Rightarrow> string
     \<Rightarrow> api_key_auth \<Rightarrow> affinity_identity option \<Rightarrow> bool \<Rightarrow> 'r plan_state
     \<Rightarrow> (route_error + ('d, 'sync) upstream_plan) \<times> 'r plan_state" where
  "build_upstream_plan draw loaded settings now f requested_model api_key affinity0 allow_via_chat st =
     (case loaded of
        Inl message \<Rightarrow>
          (Inl (route_error_new 500 ''server_error'' ''upstream_snapshot_failed'' message diagnostics_default), st)
      | Inr snap \<Rightarrow>
          (case collect_provider_routes snap f requested_model allow_via_chat of
             Inl e \<Rightarrow> (Inl e, st)
           | Inr (routes, d0) \<Rightarrow>
               (let policy = policy_for snap requested_model;
                    affinity = (if is_none_or policy rp_sticky then affinity0 else None);
                    is_authorized = (\<lambda>r. p_id (pr_provider r) \<in> set (ak_allowed_provider_ids api_key));
                    authorized = filter is_authorized routes;
                    d1 = fold (reject_route ''authorization'' ''provider_denied''
                                 ''API key does not allow this upstream'')
                           (filter (\<lambda>r. \<not> is_authorized r) routes) d0;
                    enabled = filter (\<lambda>r. p_enabled (pr_provider r)) authorized;
                    d2 = fold (reject_route ''static_configuration'' ''provider_disabled'' ''provider is disabled'')
                           (filter (\<lambda>r. \<not> p_enabled (pr_provider r)) authorized) d1
                in if authorized = []
                   then (Inl (route_error_new 403 ''permission_error'' ''model_not_authorized''
                                (model_message requested_model
                                   '' is registered, but this API key is not authorized for any matching provider'')
                                d1), st)
                   else if enabled = []
                   then (Inl (route_error_new 503 ''upstream_configuration_error'' ''no_enabled_upstream_provider''
                                (model_message requested_model '' has no enabled upstream provider'') d2), st)
                   else plan_enabled_routes draw snap settings now policy affinity requested_model enabled d2 st)))"

section \<open>Affinity and the plan\<close>

definition binding_matches :: "affinity_binding \<Rightarrow> 'd resolved_upstream \<Rightarrow> bool" where
  "binding_matches b a \<longleftrightarrow>
     p_id (ru_provider a) = ab_provider_id b \<and>
     is_none_or (ab_upstream_key_id b) (\<lambda>key_id. k_id (ru_key a) = key_id) \<and>
     is_none_or (ab_endpoint_id b) (\<lambda>endpoint_id. e_id (ru_endpoint a) = endpoint_id)"

definition prefer_target ::
  "('d, 'sync) upstream_plan \<Rightarrow> affinity_binding \<Rightarrow> bool \<times> ('d, 'sync) upstream_plan" where
  "prefer_target plan binding =
     (if \<not> list_ex (binding_matches binding) (up_attempts plan) then (False, plan)
      else (True, plan\<lparr>up_attempts :=
              sort_key (\<lambda>a. (\<not> binding_matches binding a, p_id (ru_provider a) \<noteq> ab_provider_id binding))
                (up_attempts plan)\<rparr>))"

definition apply_affinity_to_plan ::
  "affinity_book \<Rightarrow> affinity_identity option \<Rightarrow> affinity_binding option \<Rightarrow> int \<Rightarrow> ('d, 'sync) upstream_plan
     \<Rightarrow> affinity_binding option \<times> ('d, 'sync) upstream_plan \<times> affinity_book" where
  "apply_affinity_to_plan book identity existing now plan =
     (if \<not> up_sticky plan then (None, plan, book)
      else (case identity of
         None \<Rightarrow> (None, plan, book)
       | Some ident \<Rightarrow>
           (let claim_first = (\<lambda>(plan, book).
                  (case up_attempts plan of
                     [] \<Rightarrow> (None, plan, book)
                   | first # _ \<Rightarrow>
                       (case claim_target book ident (p_id (ru_provider first)) (Some (k_id (ru_key first)))
                               (Some (e_id (ru_endpoint first))) now of
                          (binding, book') \<Rightarrow> (Some binding, snd (prefer_target plan binding), book'))))
            in case existing of
                 None \<Rightarrow> claim_first (plan, book)
               | Some binding \<Rightarrow>
                   (case prefer_target plan binding of
                      (moved, plan') \<Rightarrow>
                        (if moved \<or> ab_provider_id binding \<in> up_transient_spill_provider_ids plan'
                         then (Some binding, plan', book)
                         else claim_first (plan', snd (clear_if_provider book ident (ab_provider_id binding))))))))"

section \<open>Retry-After for the client\<close>

fun plan_retry_times ::
  "gate_state \<Rightarrow> int \<Rightarrow> 'd resolved_upstream list \<Rightarrow> int list \<times> gate_state" where
  "plan_retry_times gs now [] = ([], gs)"
| "plan_retry_times gs now (a # rest) =
     (case quota_snapshot (gs_quota gs) (k_id (ru_key a)) now of
        (quota, qb) \<Rightarrow>
          (let until = unwrap_or (iter_max (somes
                 [hv_open_until_ms (hb_snapshot (gs_endpoint_health gs) (e_id (ru_endpoint a)) now),
                  hv_open_until_ms (hb_snapshot (gs_key_health gs) (k_id (ru_key a)) now),
                  rv_open_until_ms (prb_snapshot (gs_runtime gs) (ru_provider a) now),
                  q_cooldown_until_ms quota, quota_view_blocked_until quota, Some now])) now
           in case plan_retry_times (gs\<lparr>gs_quota := qb\<rparr>) now rest of
                (untils, gs') \<Rightarrow> (until # untils, gs')))"

definition plan_retry_at ::
  "gate_state \<Rightarrow> int \<Rightarrow> ('d, 'sync) upstream_plan \<Rightarrow> int option \<times> gate_state" where
  "plan_retry_at gs now plan =
     (case plan_retry_times gs now (up_attempts plan) of
        (untils, gs') \<Rightarrow> (opt_filter (\<lambda>until. now < until) (iter_min untils), gs'))"

text \<open>The seconds written into \<open>Retry-After\<close>, given what the upstream wrote there.\<close>

definition retry_after_seconds ::
  "(string \<Rightarrow> int option) \<Rightarrow> headers \<Rightarrow> int option \<Rightarrow> int \<Rightarrow> int" where
  "retry_after_seconds http_date h retry_at_ms now =
     (let seconds = max (unwrap_or (map_option
              (\<lambda>until. trunc_div (i64_saturating_add (i64_saturating_sub until now) 999) 1000) retry_at_ms) 1) 1;
          upstream_seconds =
            trunc_div (i64_saturating_add (unwrap_or (retry_after_ms http_date h now) 0) 999) 1000
      in max seconds upstream_seconds)"

section \<open>Lemmas: the order\<close>

lemma sample_offset_lt: "sample_offset i off ps = Some k \<Longrightarrow> k < i + length ps"
  by (induction i off ps rule: sample_offset.induct) (fastforce simp: Let_def split: if_splits)+

lemma weighted_sample_lt:
  assumes "draw_ok draw" and "providers \<noteq> []"
  shows "fst (weighted_sample_provider draw r providers) < length providers"
proof -
  have "unwrap_or (sample_offset 0 off providers) (length providers - 1) < length providers" for off
    using sample_offset_lt [of 0 off providers] assms(2)
    by (cases "sample_offset 0 off providers") (simp_all add: unwrap_or_def)
  then show ?thesis using assms
    by (auto simp: weighted_sample_provider_def Let_def draw_ok_def case_prod_unfold)
qed

lemma drain_priority_group_mset:
  "draw_ok draw \<Longrightarrow> mset (fst (drain_priority_group draw r grp)) = mset grp"
proof (induction draw r grp rule: drain_priority_group.induct)
  case (1 draw r grp)
  show ?case
  proof (cases "grp = [] \<or> list_all (\<lambda>p. sp_effective_weight p = 0) grp")
    case True
    then show ?thesis by (auto simp: drain_priority_group.simps [of draw r grp])
  next
    case False
    obtain i r1 where s: "weighted_sample_provider draw r grp = (i, r1)" by fastforce
    then have i: "i < length grp" using weighted_sample_lt [OF "1.prems"] False by (metis fst_conv)
    have "mset (fst (drain_priority_group draw r1 (swap_remove i grp))) = mset (swap_remove i grp)"
      using "1.IH" False s "1.prems" by auto
    then show ?thesis
      using False mset_swap_remove [OF i]
      by (simp add: drain_priority_group.simps [of draw r grp] s case_prod_unfold)
  qed
qed

lemma drain_providers_props:
  assumes "draw_ok draw"
  shows "mset (fst (drain_providers draw r providers)) = mset providers \<and>
         sorted (map sp_effective_priority (fst (drain_providers draw r providers)))"
  using assms
proof (induction draw r providers rule: drain_providers.induct)
  case (1 draw r providers)
  show ?case
  proof (cases "iter_min (map sp_effective_priority providers)")
    case None
    then show ?thesis by (simp add: drain_providers.simps)
  next
    case (Some best)
    let ?eq = "filter (\<lambda>p. sp_effective_priority p = best) providers"
    let ?ne = "filter (\<lambda>p. sp_effective_priority p \<noteq> best) providers"
    obtain grp r1 where g: "drain_priority_group draw r ?eq = (grp, r1)" by fastforce
    obtain out r2 where o: "drain_providers draw r1 ?ne = (out, r2)" by fastforce
    have grp: "mset grp = mset ?eq" using drain_priority_group_mset [OF "1.prems", of r ?eq] g by simp
    have out: "mset out = mset ?ne" "sorted (map sp_effective_priority out)"
      using "1.IH" [OF Some g [symmetric] "1.prems"] o by simp_all
    have "mset (grp @ out) = mset providers"
      using multiset_partition [of "mset providers" "\<lambda>p. sp_effective_priority p = best"] grp out(1)
      by (metis mset_append mset_filter)
    moreover have sets: "set grp = set ?eq" "set out = set ?ne" using grp out(1) by (metis set_mset_mset)+
    moreover have "map sp_effective_priority grp = replicate (length grp) best"
      by (rule replicate_eqI) (auto simp: sets)
    moreover have "best \<le> sp_effective_priority p" if "p \<in> set providers" for p
      using Some that by (auto simp: iter_min_Some)
    ultimately show ?thesis
      using out(2) Some g o by (auto simp: drain_providers.simps [of draw r providers] sorted_append)
  qed
qed

lemma order_schedulable_mset:
  assumes "draw_ok draw"
  shows "mset (fst (order_schedulable_providers draw r providers aff)) = mset providers"
proof (cases "Option.bind aff (\<lambda>i. position (\<lambda>p. sp_id p = i) providers)")
  case None
  then show ?thesis using drain_providers_props [OF assms, of r providers]
    by (simp add: order_schedulable_providers_def)
next
  case (Some index)
  then have "index < length providers" by (auto simp: bind_eq_Some_conv dest: position_lt)
  then show ?thesis using Some drain_providers_props [OF assms, of r "swap_remove index providers"]
    by (simp add: order_schedulable_providers_def case_prod_unfold mset_swap_remove)
qed

lemma order_schedulable_affinity:
  assumes "draw_ok draw"
  shows "sorted (map sp_effective_priority
           ((if is_some_and aff (\<lambda>i. i \<in> set (map sp_id providers)) then tl else id)
              (fst (order_schedulable_providers draw r providers aff))))"
    and "aff = Some i \<Longrightarrow> i \<in> set (map sp_id providers) \<Longrightarrow>
         fst (order_schedulable_providers draw r providers aff) \<noteq> [] \<and>
         sp_id (hd (fst (order_schedulable_providers draw r providers aff))) = i"
proof -
  have none: "position (\<lambda>p. sp_id p = i) providers = None \<longleftrightarrow> i \<notin> set (map sp_id providers)" for i
    by (auto simp: position_None)
  show "sorted (map sp_effective_priority
      ((if is_some_and aff (\<lambda>i. i \<in> set (map sp_id providers)) then tl else id)
         (fst (order_schedulable_providers draw r providers aff))))"
  proof (cases "Option.bind aff (\<lambda>i. position (\<lambda>p. sp_id p = i) providers)")
    case None
    then have "\<not> is_some_and aff (\<lambda>i. i \<in> set (map sp_id providers))"
      by (cases aff) (auto simp: is_some_and_def none)
    then show ?thesis using None drain_providers_props [OF assms, of r providers]
      by (simp add: order_schedulable_providers_def)
  next
    case (Some index)
    then obtain a where "aff = Some a" "position (\<lambda>p. sp_id p = a) providers = Some index"
      by (auto simp: bind_eq_Some_conv)
    then have "is_some_and aff (\<lambda>i. i \<in> set (map sp_id providers))"
      using none [of a] by (simp add: is_some_and_def)
    then show ?thesis using Some drain_providers_props [OF assms, of r "swap_remove index providers"]
      by (simp add: order_schedulable_providers_def case_prod_unfold)
  qed
  show "fst (order_schedulable_providers draw r providers aff) \<noteq> [] \<and>
      sp_id (hd (fst (order_schedulable_providers draw r providers aff))) = i"
    if "aff = Some i" "i \<in> set (map sp_id providers)"
  proof -
    from that none [of i] obtain index where "position (\<lambda>p. sp_id p = i) providers = Some index"
      by (cases "position (\<lambda>p. sp_id p = i) providers") simp_all
    with that(1) position_lt [OF this] show ?thesis
      by (simp add: order_schedulable_providers_def case_prod_unfold)
  qed
qed

text \<open>Without weights the order is fixed.\<close>

lemma drain_providers_fixed:
  assumes "\<forall>p \<in> set providers. sp_effective_weight p = 0"
  shows "sorted_wrt (\<lambda>p q. (sp_effective_priority p, sp_id p) \<le> (sp_effective_priority q, sp_id q))
           (fst (drain_providers draw r providers)) \<and>
         set (fst (drain_providers draw r providers)) = set providers"
  using assms
proof (induction draw r providers rule: drain_providers.induct)
  case (1 draw r providers)
  show ?case
  proof (cases "iter_min (map sp_effective_priority providers)")
    case None
    then show ?thesis by (simp add: drain_providers.simps)
  next
    case (Some best)
    let ?eq = "filter (\<lambda>p. sp_effective_priority p = best) providers"
    let ?ne = "filter (\<lambda>p. sp_effective_priority p \<noteq> best) providers"
    have g: "drain_priority_group draw r ?eq = (sort_key sp_id ?eq, r)"
      using "1.prems" by (auto simp: drain_priority_group.simps [of draw r ?eq] list_all_iff)
    obtain out r2 where o: "drain_providers draw r ?ne = (out, r2)" by fastforce
    have out: "sorted_wrt (\<lambda>p q. (sp_effective_priority p, sp_id p) \<le> (sp_effective_priority q, sp_id q)) out"
      "set out = set ?ne"
      using "1.IH" [OF Some g [symmetric]] "1.prems" o by simp_all
    have "sorted_wrt (\<lambda>p q. sp_id p \<le> sp_id q) (sort_key sp_id ?eq)"
      by (metis sorted_sort_key sorted_map)
    then have "sorted_wrt (\<lambda>p q. (sp_effective_priority p, sp_id p) \<le> (sp_effective_priority q, sp_id q))
        (sort_key sp_id ?eq)"
      by (rule sorted_wrt_mono_rel [rotated]) auto
    moreover have "best < sp_effective_priority p" if "p \<in> set ?ne" for p
      using Some that by (auto simp: iter_min_Some order_less_le)
    ultimately show ?thesis
      using out Some g o
      by (auto simp: drain_providers.simps [of draw r providers] sorted_wrt_append)
  qed
qed

section \<open>Lemmas: what a planned attempt satisfies\<close>

text \<open>Planning only drops what has expired from the quota book: the gates answer as before.\<close>

definition gates_eq_at :: "int \<Rightarrow> gate_state \<Rightarrow> gate_state \<Rightarrow> bool" where
  "gates_eq_at now a b \<longleftrightarrow>
     gs_runtime a = gs_runtime b \<and> gs_key_health a = gs_key_health b \<and>
     gs_endpoint_health a = gs_endpoint_health b \<and> quota_eq_at now (gs_quota a) (gs_quota b)"

lemma gates_eq_refl [simp]: "gates_eq_at now gs gs"
  by (simp add: gates_eq_at_def quota_eq_at_def)

lemma quota_eq_available:
  "quota_eq_at now a b \<Longrightarrow> fst (quota_is_available a k now) = fst (quota_is_available b k now)"
  by (simp add: quota_available_entry quota_eq_at_def)

lemma quota_eq_after_available: "quota_eq_at now (snd (quota_is_available q k now)) q"
  by (auto simp: quota_eq_at_def quota_is_available_def quota_entry_def unwrap_or_def Let_def expire_idem
      split: option.splits)

lemma quota_eq_refl: "quota_eq_at now q q"
  by (simp add: quota_eq_at_def)

lemma quota_eq_trans: "quota_eq_at now a b \<Longrightarrow> quota_eq_at now b c \<Longrightarrow> quota_eq_at now a c"
  by (simp add: quota_eq_at_def)

lemma account_quota: "quota_eq_at now (snd (account gs snap p key model owns now)) (gs_quota gs)"
  using quota_eq_after_available [of now "gs_quota gs" "k_id key"]
  by (auto simp: account_def Let_def case_prod_unfold quota_eq_at_def split: option.splits)

lemma account_gates_eq:
  "gates_eq_at now a b \<Longrightarrow>
   ra_available (fst (account a snap p key model owns now)) =
   ra_available (fst (account b snap p key model owns now))"
  using quota_eq_available [of now "gs_quota a" "gs_quota b" "k_id key"]
  by (simp add: account_available_iff gates_eq_at_def)

lemma keys_retry_quota: "quota_eq_at now (snd (keys_retry_at gs snap rt ep now quota keys)) quota"
proof (induction keys arbitrary: quota)
  case (Cons key keys)
  have "quota_eq_at now (snd (key_retry_at gs snap rt ep now quota key)) quota"
    using key_retry_at_eq [of now quota quota gs snap rt ep key] by (simp add: quota_eq_at_def)
  with Cons.IH [of "snd (key_retry_at gs snap rt ep now quota key)"] show ?case
    by (simp add: case_prod_unfold Let_def quota_eq_at_def)
qed (simp add: quota_eq_at_def)

lemma provider_retry_quota: "quota_eq_at now (snd (provider_retry_at gs snap p model now)) (gs_quota gs)"
  by (auto simp: provider_retry_at_def Let_def case_prod_unfold quota_eq_refl intro: keys_retry_quota
      split: option.splits)

lemma routes_retry_gates: "gates_eq_at now (snd (routes_retry_at gs snap now routes)) gs"
proof (induction routes arbitrary: gs)
  case (Cons route routes)
  let ?q = "snd (provider_retry_at gs snap (pr_provider route) (Some (pr_upstream_model route)) now)"
  show ?case
    using Cons.IH [of "gs\<lparr>gs_quota := ?q\<rparr>"] provider_retry_quota [of now gs snap "pr_provider route"]
    by (auto simp: case_prod_unfold gates_eq_at_def quota_eq_at_def)
qed simp

lemma available_keys_props:
  assumes "gates_eq_at now (ps_gates st) gs0"
  shows "fst (available_keys snap now route keys st d) =
           filter (\<lambda>k. ra_available (fst (account gs0 snap (pr_provider route) k
                  (Some (pr_upstream_model route)) False now))) keys \<and>
         gates_eq_at now (ps_gates (fst (snd (available_keys snap now route keys st d)))) gs0"
  using assms
proof (induction keys arbitrary: st d)
  case (Cons key keys)
  let ?a = "account (ps_gates st) snap (pr_provider route) key (Some (pr_upstream_model route)) False now"
  have eq: "gates_eq_at now (ps_gates (st'\<lparr>ps_gates := (ps_gates st)\<lparr>gs_quota := snd ?a\<rparr>\<rparr>)) gs0"
    for st' :: "'a plan_state"
    using Cons.prems account_quota [of now "ps_gates st" snap "pr_provider route" key "Some (pr_upstream_model route)" False]
    by (simp add: gates_eq_at_def quota_eq_at_def)
  let ?st1 = "st\<lparr>ps_gates := (ps_gates st)\<lparr>gs_quota := snd ?a\<rparr>\<rparr>"
  let ?st2 = "if ra_reason (fst ?a) = Some ''quota_unavailable''
      then ?st1\<lparr>ps_quota_skips := ps_quota_skips ?st1 + 1\<rparr> else ?st1"
  have st2: "gates_eq_at now (ps_gates ?st2) gs0" using eq [of st] by simp
  show ?case
    using Cons.IH [OF st2] account_gates_eq [OF Cons.prems, of snap "pr_provider route" key "Some (pr_upstream_model route)" False]
    by (simp add: case_prod_unfold Let_def)
qed simp

lemma ranked_keys_mset:
  assumes "draw_ok draw"
  shows "mset (fst (rank_key_refs_with_health draw r keys health now)) =
         mset (filter (\<lambda>k. k_enabled k \<and> hv_available (hb_snapshot health (k_id k) now)) keys)"
  using rank_keys_props [OF assms refl, of r keys health now] by (simp add: hb_snapshot_available)

lemma order_keys_mset: "mset (fst (order_keys_for_provider rotation i strategy keys)) = mset keys"
proof -
  have "mset (fst (rotate_provider rotation i xs)) = mset xs" for xs :: "upstream_key list"
    by (metis rotate_provider_def rotate_provider_eq mset_rotate fst_conv not_less)
  then show ?thesis by (simp add: order_keys_for_provider_def)
qed

definition sched_ok ::
  "'d upstream_snapshot \<Rightarrow> gate_state \<Rightarrow> int \<Rightarrow> 'd schedulable_provider \<Rightarrow> bool" where
  "sched_ok snap gs now s \<longleftrightarrow>
     sp_keys s \<noteq> [] \<and> sp_endpoints s \<noteq> [] \<and>
     (\<forall>k \<in> set (sp_keys s).
        k \<in> set (unwrap_or (us_keys_by_provider snap (sp_id s)) []) \<and>
        ra_available (fst (account gs snap (pr_provider (sp_route s)) k
          (Some (pr_upstream_model (sp_route s))) False now))) \<and>
     (\<forall>e \<in> set (sp_endpoints s).
        e \<in> set (unwrap_or (us_endpoints_by_provider snap (sp_id s)) []) \<and> e_enabled e \<and>
        hv_available (hb_snapshot (gs_endpoint_health gs) (e_id e) now))"

text \<open>One step of the loop: the gates answer as before, and it adds at most the route's provider.\<close>

definition sched_step ::
  "'d upstream_snapshot \<Rightarrow> gate_state \<Rightarrow> int \<Rightarrow> provider_route \<Rightarrow> ('d, 'r) plan_acc \<Rightarrow> ('d, 'r) plan_acc \<Rightarrow> bool" where
  "sched_step snap gs now route acc acc' \<longleftrightarrow>
     gates_eq_at now (ps_gates (pa_state acc')) gs \<and>
     (\<exists>new. pa_schedulable acc' = pa_schedulable acc @ new \<and> length new \<le> 1 \<and>
            (\<forall>s \<in> set new. sp_route s = route \<and> sched_ok snap gs now s))"

lemma pa_simps [simp]:
  "pa_schedulable (pa_reject st code msg route acc) = pa_schedulable acc"
  "pa_state (pa_reject st code msg route acc) = pa_state acc"
  "pa_schedulable (pa_spill i acc) = pa_schedulable acc"
  "pa_state (pa_spill i acc) = pa_state acc"
  "pa_schedulable (skip_unavailable_provider rt route acc) = pa_schedulable acc"
  "ps_gates (pa_state (skip_unavailable_provider rt route acc)) = ps_gates (pa_state acc)"
  by (simp_all add: pa_reject_def pa_spill_def skip_unavailable_provider_def)

lemma sched_step_same: "gates_eq_at now (ps_gates (pa_state acc')) gs \<Longrightarrow>
    pa_schedulable acc' = pa_schedulable acc \<Longrightarrow> sched_step snap gs now route acc acc'"
  by (simp add: sched_step_def)

lemma schedule_ranked_step:
  assumes "draw_ok draw" and gates: "gates_eq_at now (ps_gates (pa_state acc)) gs"
    and keys: "\<forall>k \<in> set keys. k \<in> set (unwrap_or (us_keys_by_provider snap (p_id (pr_provider route))) []) \<and>
      ra_available (fst (account gs snap (pr_provider route) k (Some (pr_upstream_model route)) False now))"
    and endpoints: "set endpoints \<subseteq> set (unwrap_or (us_endpoints_by_provider snap (p_id (pr_provider route))) [])"
  shows "sched_step snap gs now route acc
     (schedule_ranked draw snap strategy now policy requested_model keys endpoints route acc)"
proof -
  let ?st = "pa_state acc"
  obtain ranked r' where ranked:
    "rank_key_refs_with_health draw (ps_rng ?st) keys (gs_key_health (ps_gates ?st)) now = (ranked, r')" by fastforce
  obtain ks rotation where ks: "order_keys_for_provider (ps_rotation ?st) (p_id (pr_provider route))
      (p_key_selection_strategy (pr_provider route)) ranked = (ks, rotation)" by fastforce
  have "mset ranked = mset (filter (\<lambda>k. k_enabled k \<and>
      hv_available (hb_snapshot (gs_key_health (ps_gates ?st)) (k_id k) now)) keys)"
    using ranked_keys_mset [OF assms(1), of "ps_rng ?st" keys "gs_key_health (ps_gates ?st)" now] ranked by simp
  moreover have "mset ks = mset ranked"
    using order_keys_mset [of "ps_rotation ?st" "p_id (pr_provider route)"
        "p_key_selection_strategy (pr_provider route)" ranked] ks by simp
  ultimately have sub: "set ks \<subseteq> set keys" by (metis filter_is_subset mset_eq_setD)
  let ?acc = "schedule_ranked draw snap strategy now policy requested_model keys endpoints route acc"
  let ?eps = "rank_endpoint_refs_with_health endpoints (gs_endpoint_health (ps_gates ?st)) strategy now"
  have same: "ps_gates (pa_state ?acc) = ps_gates ?st"
    by (simp add: schedule_ranked_def Let_def ranked ks)
  have new: "pa_schedulable ?acc = pa_schedulable acc \<or>
      (\<exists>s. pa_schedulable ?acc = pa_schedulable acc @ [s] \<and> sp_route s = route \<and> sp_keys s = ks \<and>
           ks \<noteq> [] \<and> sp_endpoints s \<noteq> [] \<and> set (sp_endpoints s) \<subseteq> set ?eps)"
    by (auto simp: schedule_ranked_def Let_def ranked ks dest: in_set_takeD)
  have eps: "set ?eps = {e \<in> set endpoints. e_enabled e \<and>
      hv_available (hb_snapshot (gs_endpoint_health gs) (e_id e) now)}"
    using gates by (auto simp: rank_endpoint_refs_with_health_def gates_eq_at_def)
  show ?thesis
  proof (cases "pa_schedulable ?acc = pa_schedulable acc")
    case True
    then show ?thesis using gates same by (simp add: sched_step_same)
  next
    case False
    with new obtain s where s: "pa_schedulable ?acc = pa_schedulable acc @ [s]" "sp_route s = route" "sp_keys s = ks"
      "ks \<noteq> []" "sp_endpoints s \<noteq> []" "set (sp_endpoints s) \<subseteq> set ?eps" by blast
    have "sched_ok snap gs now s"
      using s(2-6) sub keys endpoints eps by (auto simp: sched_ok_def)
    then show ?thesis using gates same s(1,2) by (simp add: sched_step_def)
  qed
qed

lemma schedule_runtime_step:
  assumes "draw_ok draw" and gates: "gates_eq_at now (ps_gates (pa_state acc)) gs"
    and keys: "set keys \<subseteq> set (unwrap_or (us_keys_by_provider snap (p_id (pr_provider route))) [])"
    and endpoints: "set endpoints \<subseteq> set (unwrap_or (us_endpoints_by_provider snap (p_id (pr_provider route))) [])"
  shows "sched_step snap gs now route acc
     (schedule_runtime draw snap strategy now policy affinity requested_model keys endpoints route acc)"
proof -
  obtain avoided book where ab: "(case affinity of None \<Rightarrow> (False, ps_affinity (pa_state acc))
      | Some ident \<Rightarrow> is_provider_avoided (ps_affinity (pa_state acc)) ident (p_id (pr_provider route)) now) =
      (avoided, book)" by fastforce
  define acc1 where "acc1 = acc\<lparr>pa_state := (pa_state acc)\<lparr>ps_affinity := book\<rparr>\<rparr>"
  have g1: "gates_eq_at now (ps_gates (pa_state acc1)) gs" and s1: "pa_schedulable acc1 = pa_schedulable acc"
    using gates by (simp_all add: acc1_def)
  obtain ks st d where ks: "available_keys snap now route keys (pa_state acc1) (pa_diagnostics acc1) = (ks, st, d)"
    by (metis prod_cases3)
  have av: "ks = filter (\<lambda>k. ra_available (fst (account gs snap (pr_provider route) k
      (Some (pr_upstream_model route)) False now))) keys" "gates_eq_at now (ps_gates st) gs"
    using available_keys_props [OF g1, of snap route keys "pa_diagnostics acc1"] ks by simp_all
  define acc2 where "acc2 = acc1\<lparr>pa_state := st, pa_diagnostics := d\<rparr>"
  have "sched_step snap gs now route acc2
      (schedule_ranked draw snap strategy now policy requested_model ks endpoints route acc2)"
    by (rule schedule_ranked_step [OF assms(1)]) (use av keys endpoints in \<open>auto simp: acc2_def\<close>)
  moreover have "pa_schedulable acc2 = pa_schedulable acc" by (simp add: acc2_def s1)
  ultimately have ranked: "sched_step snap gs now route acc
      (schedule_ranked draw snap strategy now policy requested_model ks endpoints route acc2)"
    by (simp add: sched_step_def)
  show ?thesis
    using ranked g1 s1 av(2)
    by (auto simp: schedule_runtime_def Let_def ab ks simp flip: acc1_def acc2_def intro!: sched_step_same)
      (simp_all add: acc2_def)
qed

lemma schedule_route_step:
  assumes "draw_ok draw" and "gates_eq_at now (ps_gates (pa_state acc)) gs"
  shows "sched_step snap gs now route acc
     (schedule_route draw snap strategy now policy affinity requested_model route acc)"
proof -
  let ?ks = "filter k_enabled (filter (\<lambda>k. key_allows_model snap (k_id k) (pr_upstream_model route))
      (unwrap_or (us_keys_by_provider snap (p_id (pr_provider route))) []))"
  let ?es = "filter e_enabled (unwrap_or (us_endpoints_by_provider snap (p_id (pr_provider route))) [])"
  define acc2 where "acc2 = acc\<lparr>pa_key_ready_providers := pa_key_ready_providers acc + 1,
      pa_static_ready_providers := pa_static_ready_providers acc + 1\<rparr>"
  have "sched_step snap gs now route acc2
      (schedule_runtime draw snap strategy now policy affinity requested_model ?ks ?es route acc2)"
    by (rule schedule_runtime_step [OF assms(1)]) (use assms(2) in \<open>auto simp: acc2_def\<close>)
  then have "sched_step snap gs now route acc
      (schedule_runtime draw snap strategy now policy affinity requested_model ?ks ?es route acc2)"
    by (simp add: sched_step_def acc2_def)
  then show ?thesis using assms(2)
    by (auto simp: schedule_route_def Let_def acc2_def intro: sched_step_same)
qed

lemma schedule_routes_fold:
  assumes "draw_ok draw" and "gates_eq_at now (ps_gates (pa_state acc)) gs"
  shows "\<exists>new. pa_schedulable (fold (schedule_route draw snap strategy now policy affinity requested_model) routes acc) =
           pa_schedulable acc @ new \<and> subseq (map sp_route new) routes \<and> (\<forall>s \<in> set new. sched_ok snap gs now s)"
  using assms
proof (induction routes arbitrary: acc)
  case (Cons route routes)
  let ?acc = "schedule_route draw snap strategy now policy affinity requested_model route acc"
  obtain new where new: "gates_eq_at now (ps_gates (pa_state ?acc)) gs" "pa_schedulable ?acc = pa_schedulable acc @ new"
    "length new \<le> 1" "\<forall>s \<in> set new. sp_route s = route \<and> sched_ok snap gs now s"
    using schedule_route_step [OF Cons.prems, of snap route strategy policy affinity requested_model]
    unfolding sched_step_def by blast
  obtain more where more: "pa_schedulable (fold (schedule_route draw snap strategy now policy affinity requested_model)
      routes ?acc) = pa_schedulable ?acc @ more" "subseq (map sp_route more) routes"
      "\<forall>s \<in> set more. sched_ok snap gs now s"
    using Cons.IH [OF Cons.prems(1) new(1)] by blast
  have "subseq (map sp_route (new @ more)) (route # routes)"
    using new(3,4) more(2) by (cases new) auto
  then show ?case using new(2,4) more by (intro exI [of _ "new @ more"]) auto
qed simp

text \<open>What one attempt of a plan may rely on.\<close>

definition attempt_ok ::
  "'d upstream_snapshot \<Rightarrow> gate_state \<Rightarrow> int \<Rightarrow> api_format \<Rightarrow> bool \<Rightarrow> api_key_auth \<Rightarrow> string
     \<Rightarrow> 'd resolved_upstream \<Rightarrow> bool" where
  "attempt_ok snap gs now f allow api_key requested_model a \<longleftrightarrow>
     (let p = ru_provider a; m = ru_upstream_model a in
      p \<in> set (us_providers snap) \<and> p_id p \<in> set (ak_allowed_provider_ids api_key) \<and>
      is_model_globally_enabled snap m \<and> can_serve snap f allow m p \<and>
      provider_protocol_plan snap p f m allow = Some (ru_protocol a) \<and>
      is_none_or (policy_for snap requested_model)
        (\<lambda>policy. \<exists>t \<in> set (rp_targets policy). rt_provider_id t = p_id p) \<and>
      ru_key a \<in> set (unwrap_or (us_keys_by_provider snap (p_id p)) []) \<and>
      ra_available (fst (account gs snap p (ru_key a) (Some m) False now)) \<and>
      ru_endpoint a \<in> set (unwrap_or (us_endpoints_by_provider snap (p_id p)) []) \<and>
      e_enabled (ru_endpoint a) \<and>
      hv_available (hb_snapshot (gs_endpoint_health gs) (e_id (ru_endpoint a)) now))"

lemma attempts_of_mem:
  "a \<in> set (attempts_of s) \<Longrightarrow>
     ru_provider a = pr_provider (sp_route s) \<and> ru_upstream_model a = pr_upstream_model (sp_route s) \<and>
     ru_protocol a = pr_protocol (sp_route s) \<and> ru_key a \<in> set (sp_keys s) \<and>
     ru_endpoint a \<in> set (sp_endpoints s)"
  by (auto simp: attempts_of_def dest: in_set_takeD)

lemma attempts_of_length: "length (attempts_of s) \<le> 9"
proof -
  have "length (attempts_of s) = min (length (sp_endpoints s)) 3 * min (length (sp_keys s)) 3"
    by (simp add: attempts_of_def length_concat comp_def sum_list_triv MAX_ATTEMPTS_def min.commute)
  also have "\<dots> \<le> 3 * 3" by (intro mult_le_mono) simp_all
  finally show ?thesis by simp
qed

lemma attempts_of_nonempty: "sp_keys s \<noteq> [] \<Longrightarrow> sp_endpoints s \<noteq> [] \<Longrightarrow> attempts_of s \<noteq> []"
  by (cases "sp_keys s"; cases "sp_endpoints s") (simp_all add: attempts_of_def MAX_ATTEMPTS_def)

lemma length_concat_bound: "(\<And>x. length (f x) \<le> n) \<Longrightarrow> length (concat (map f xs)) \<le> length xs * n"
  by (induction xs) (auto intro: add_mono)

lemma scheduled_attempts_props:
  assumes "draw_ok draw" and "ss \<noteq> []" and "\<forall>s \<in> set ss. sp_keys s \<noteq> [] \<and> sp_endpoints s \<noteq> []"
    and "out = fst (build_scheduled_attempts draw r ss aff)"
  shows "out \<noteq> [] \<and> length out \<le> 27 \<and> set out \<subseteq> (\<Union>s \<in> set ss. set (attempts_of s)) \<and>
         card (set (map (\<lambda>a. p_id (ru_provider a)) out)) \<le> 3"
proof -
  let ?o = "fst (order_schedulable_providers draw r ss aff)"
  let ?t = "take 3 ?o"
  have m: "mset ?o = mset ss" by (rule order_schedulable_mset [OF assms(1)])
  then have so: "set ?o = set ss" by (metis set_mset_mset)
  have out: "out = concat (map attempts_of ?t)"
    by (simp add: assms(4) build_scheduled_attempts_def case_prod_unfold MAX_DISTINCT_PROVIDERS_def
        MAX_PROVIDER_SWITCHES_def MAX_ATTEMPTS_def)
  have "?t \<noteq> []" using m assms(2) by auto
  then obtain s rest where t: "?t = s # rest" by (cases ?t) auto
  then have "s \<in> set ss" using so by (metis in_set_takeD list.set_intros(1))
  then have ne: "out \<noteq> []" using attempts_of_nonempty [of s] assms(3) t out by auto
  have "length out \<le> length ?t * 9"
    unfolding out by (rule length_concat_bound) (simp add: attempts_of_length)
  moreover have "length ?t \<le> 3" by simp
  ultimately have len: "length out \<le> 27" by linarith
  have sub: "set out \<subseteq> (\<Union>s \<in> set ss. set (attempts_of s))"
    using so by (auto simp: out dest: in_set_takeD)
  have "set (map (\<lambda>a. p_id (ru_provider a)) out) \<subseteq> set (map sp_id ?t)"
    by (auto simp: out dest: attempts_of_mem)
  then have "card (set (map (\<lambda>a. p_id (ru_provider a)) out)) \<le> card (set (map sp_id ?t))"
    by (rule card_mono [rotated]) simp
  also have "\<dots> \<le> length (map sp_id ?t)" by (rule card_length)
  also have "\<dots> \<le> 3" by simp
  finally show ?thesis using ne len sub by blast
qed

lemma set_mono_subseq: "subseq xs ys \<Longrightarrow> set xs \<subseteq> set ys"
  by (induction rule: list_emb.induct) auto

lemma plan_enabled_props:
  assumes "draw_ok draw"
    and plan: "plan_enabled_routes draw snap settings now policy affinity m routes d st = (Inr plan, st')"
  shows "up_attempts plan \<noteq> [] \<and> length (up_attempts plan) \<le> 27 \<and>
    card (set (map (\<lambda>a. p_id (ru_provider a)) (up_attempts plan))) \<le>
      (if is_some_and policy (\<lambda>p. \<not> rp_failover p) then 1 else 3) \<and>
    (\<forall>a \<in> set (up_attempts plan). \<exists>s. sp_route s \<in> set routes \<and> sched_ok snap (ps_gates st) now s \<and>
        a \<in> set (attempts_of s))"
proof -
  obtain untils gs where gs: "routes_retry_at (ps_gates st) snap now routes = (untils, gs)" by fastforce
  obtain binding book where bb: "(case affinity of None \<Rightarrow> (None, ps_affinity st)
      | Some ident \<Rightarrow> affinity_lookup (ps_affinity st) ident now) = (binding, book)" by fastforce
  define acc where "acc = fold (schedule_route draw snap (st_endpoint_selector_strategy settings) now policy affinity m)
      routes \<lparr>pa_state = st\<lparr>ps_gates := gs, ps_affinity := book\<rparr>, pa_diagnostics = d,
        pa_schedulable = [], pa_transient_spill = {}, pa_key_ready_providers = 0, pa_static_ready_providers = 0\<rparr>"
  define all where "all = fst (build_scheduled_attempts draw (ps_rng (pa_state acc)) (pa_schedulable acc)
      (map_option ab_provider_id binding))"
  define kept where "kept = (if is_some_and policy (\<lambda>p. \<not> rp_failover p) then
      (case all of [] \<Rightarrow> [] | first # _ \<Rightarrow> filter (\<lambda>a. p_id (ru_provider a) = p_id (ru_provider first)) all) else all)"
  have ne: "pa_schedulable acc \<noteq> []" and kept: "up_attempts plan = kept" "kept \<noteq> []"
    using plan [unfolded plan_enabled_routes_def gs bb prod.case Let_def, folded acc_def,
        unfolded case_prod_unfold, folded all_def, folded kept_def]
    by (auto split: if_splits)
  have "gates_eq_at now gs (ps_gates st)" using routes_retry_gates [of now "ps_gates st" snap routes] gs by simp
  then have sched: "subseq (map sp_route (pa_schedulable acc)) routes"
    "\<forall>s \<in> set (pa_schedulable acc). sched_ok snap (ps_gates st) now s"
    using schedule_routes_fold [OF assms(1), of now "\<lparr>pa_state = st\<lparr>ps_gates := gs, ps_affinity := book\<rparr>,
        pa_diagnostics = d, pa_schedulable = [], pa_transient_spill = {}, pa_key_ready_providers = 0,
        pa_static_ready_providers = 0\<rparr>" "ps_gates st" snap "st_endpoint_selector_strategy settings" policy affinity m routes]
    by (auto simp: acc_def)
  have all: "length all \<le> 27 \<and> set all \<subseteq> (\<Union>s \<in> set (pa_schedulable acc). set (attempts_of s)) \<and>
      card (set (map (\<lambda>a. p_id (ru_provider a)) all)) \<le> 3"
    using scheduled_attempts_props [OF assms(1) ne _ all_def] sched(2) by (simp add: sched_ok_def)
  have sub: "set kept \<subseteq> set all" "length kept \<le> length all"
    by (auto simp: kept_def split: list.splits intro: le_trans [OF length_filter_le] le_SucI)
  have "card (set (map (\<lambda>a. p_id (ru_provider a)) kept)) \<le>
      (if is_some_and policy (\<lambda>p. \<not> rp_failover p) then 1 else 3)"
  proof (cases "is_some_and policy (\<lambda>p. \<not> rp_failover p)")
    case True
    then have "set (map (\<lambda>a. p_id (ru_provider a)) kept) \<subseteq> {p_id (ru_provider (hd all))}"
      by (cases all) (auto simp: kept_def)
    from card_mono [OF _ this] show ?thesis using True by simp
  next
    case False
    then show ?thesis using all by (simp add: kept_def)
  qed
  moreover have "\<exists>s. sp_route s \<in> set routes \<and> sched_ok snap (ps_gates st) now s \<and> a \<in> set (attempts_of s)"
    if "a \<in> set kept" for a
  proof -
    from that sub(1) all obtain s where s: "s \<in> set (pa_schedulable acc)" "a \<in> set (attempts_of s)" by blast
    then have "sp_route s \<in> set routes" using set_mono_subseq [OF sched(1)] by auto
    then show ?thesis using s sched(2) by blast
  qed
  ultimately show ?thesis using kept sub(2) all by simp
qed

section \<open>Properties\<close>

text \<open>C2: a plan only contains attempts that are allowed and could work now. Whatever the random
  draws, every attempt goes to a configured provider the API key may use, with a model that is
  enabled and that the provider serves in the client's protocol, within the routing policy of the
  requested model, with a key of that provider whose account is available at this moment and an
  enabled endpoint of it whose breaker is not open; a plan has at least one and at most 27
  attempts, over at most three providers, and over one where the policy forbids failover.\<close>

theorem plan_attempts_sound:
  assumes "draw_ok draw" and "distinct (map p_id (us_providers snap))"
    and "build_upstream_plan draw (Inr snap) settings now f m api_key aff allow st = (Inr plan, st')"
  shows "up_attempts plan \<noteq> [] \<and> length (up_attempts plan) \<le> 27 \<and>
    card (set (map (\<lambda>a. p_id (ru_provider a)) (up_attempts plan))) \<le>
      (if is_some_and (policy_for snap m) (\<lambda>p. \<not> rp_failover p) then 1 else 3) \<and>
    (\<forall>a \<in> set (up_attempts plan). attempt_ok snap (ps_gates st) now f allow api_key m a)"
proof -
  obtain routes d where routes: "collect_provider_routes snap f m allow = Inr (routes, d)"
    using assms(3) by (cases "collect_provider_routes snap f m allow") (auto simp: build_upstream_plan_def)
  let ?auth = "filter (\<lambda>r. p_id (pr_provider r) \<in> set (ak_allowed_provider_ids api_key)) routes"
  obtain aff' d' where pe: "plan_enabled_routes draw snap settings now (policy_for snap m) aff' m
      (filter (\<lambda>r. p_enabled (pr_provider r)) ?auth) d' st = (Inr plan, st')"
    using assms(3) routes by (cases "?auth = []"; cases "filter (\<lambda>r. p_enabled (pr_provider r)) ?auth = []")
      (simp_all add: build_upstream_plan_def Let_def)
  have "attempt_ok snap (ps_gates st) now f allow api_key m a" if a: "a \<in> set (up_attempts plan)" for a
  proof -
    obtain s where s: "sp_route s \<in> set ?auth" "sched_ok snap (ps_gates st) now s" "a \<in> set (attempts_of s)"
      using plan_enabled_props [OF assms(1) pe] a by auto
    have "route_sound snap f allow (sp_route s)"
      "is_none_or (policy_for snap m) (\<lambda>policy. policy_allows policy (sp_route s))"
      using collect_routes_sound [OF routes assms(2)] s(1) by auto
    then show ?thesis
      using s attempts_of_mem [OF s(3)]
      by (auto simp: attempt_ok_def Let_def route_sound_def sched_ok_def policy_allows_def list_ex_iff is_none_or_def
          split: option.splits)
  qed
  then show ?thesis using plan_enabled_props [OF assms(1) pe] by blast
qed


text \<open>A stable sort by two flags keeps the order within each of the four classes.\<close>

lemma sort_key_flags:
  fixes f :: "'a \<Rightarrow> bool \<times> bool"
  shows "sort_key f xs = filter (\<lambda>x. f x = (False, False)) xs @ filter (\<lambda>x. f x = (False, True)) xs @
           filter (\<lambda>x. f x = (True, False)) xs @ filter (\<lambda>x. f x = (True, True)) xs"
proof (rule properties_for_sort_key)
  show "mset (filter (\<lambda>x. f x = (False, False)) xs @ filter (\<lambda>x. f x = (False, True)) xs @
      filter (\<lambda>x. f x = (True, False)) xs @ filter (\<lambda>x. f x = (True, True)) xs) = mset xs"
  proof (induction xs)
    case (Cons x xs)
    obtain p q where "f x = (p, q)" by (cases "f x")
    then show ?case using Cons by (cases p; cases q) simp_all
  qed simp
next
  have one: "filter (\<lambda>x. f k = f x) (filter (\<lambda>x. f x = c) xs) =
      (if f k = c then filter (\<lambda>x. f k = f x) xs else [])" for k c
    by (auto simp: filter_empty_conv intro!: filter_cong)
  fix k
  obtain p q where "f k = (p, q)" by (cases "f k")
  then show "filter (\<lambda>x. f k = f x) (filter (\<lambda>x. f x = (False, False)) xs @
      filter (\<lambda>x. f x = (False, True)) xs @ filter (\<lambda>x. f x = (True, False)) xs @
      filter (\<lambda>x. f x = (True, True)) xs) = filter (\<lambda>x. f k = f x) xs"
    by (cases p; cases q) (auto intro!: filter_cong)
next
  have "map f (filter (\<lambda>x. f x = c) xs) = replicate (length (filter (\<lambda>x. f x = c) xs)) c" for c
    by (rule replicate_eqI) auto
  then show "sorted (map f (filter (\<lambda>x. f x = (False, False)) xs @ filter (\<lambda>x. f x = (False, True)) xs @
      filter (\<lambda>x. f x = (True, False)) xs @ filter (\<lambda>x. f x = (True, True)) xs))"
    by (auto simp: sorted_append less_eq_prod_def)
qed

lemma prefer_target_attempts:
  "mset (up_attempts (snd (prefer_target plan b))) = mset (up_attempts plan) \<and>
   (fst (prefer_target plan b) \<longleftrightarrow> (\<exists>a \<in> set (up_attempts plan). binding_matches b a)) \<and>
   (fst (prefer_target plan b) \<longrightarrow> up_attempts (snd (prefer_target plan b)) =
      filter (binding_matches b) (up_attempts plan) @
      filter (\<lambda>a. \<not> binding_matches b a \<and> p_id (ru_provider a) = ab_provider_id b) (up_attempts plan) @
      filter (\<lambda>a. p_id (ru_provider a) \<noteq> ab_provider_id b) (up_attempts plan)) \<and>
   up_sticky (snd (prefer_target plan b)) = up_sticky plan \<and>
   up_transient_spill_provider_ids (snd (prefer_target plan b)) = up_transient_spill_provider_ids plan"
proof -
  let ?k = "\<lambda>a. (\<not> binding_matches b a, p_id (ru_provider a) \<noteq> ab_provider_id b)"
  have k: "?k a = (False, False) \<longleftrightarrow> binding_matches b a" "?k a = (False, True) \<longleftrightarrow> False"
    "?k a = (True, True) \<longleftrightarrow> p_id (ru_provider a) \<noteq> ab_provider_id b"
    "?k a = (True, False) \<longleftrightarrow> \<not> binding_matches b a \<and> p_id (ru_provider a) = ab_provider_id b"
    for a :: "'a resolved_upstream"
    by (auto simp: binding_matches_def)
  have "sort_key ?k (up_attempts plan) = filter (binding_matches b) (up_attempts plan) @
      filter (\<lambda>a. \<not> binding_matches b a \<and> p_id (ru_provider a) = ab_provider_id b) (up_attempts plan) @
      filter (\<lambda>a. p_id (ru_provider a) \<noteq> ab_provider_id b) (up_attempts plan)"
    unfolding sort_key_flags [of ?k] k by simp
  moreover have "mset (up_attempts (snd (prefer_target plan b))) = mset (up_attempts plan)"
    by (simp add: prefer_target_def)
  ultimately show ?thesis
    by (auto simp: prefer_target_def list_ex_iff simp del: mset_filter)
qed

lemma prefer_target_hd:
  assumes "fst (prefer_target plan b)"
  shows "up_attempts (snd (prefer_target plan b)) \<noteq> [] \<and>
         binding_matches b (hd (up_attempts (snd (prefer_target plan b))))"
proof -
  obtain a where "a \<in> set (filter (binding_matches b) (up_attempts plan))"
    using assms prefer_target_attempts [of plan b] by auto
  then obtain x xs where x: "filter (binding_matches b) (up_attempts plan) = x # xs"
    by (cases "filter (binding_matches b) (up_attempts plan)") auto
  moreover have "binding_matches b x" using arg_cong [OF x, of set] by auto
  ultimately show ?thesis using assms prefer_target_attempts [of plan b] by simp
qed

text \<open>A bound session goes first to its target. Applying the affinity to a plan neither adds nor
  loses an attempt. A plan of a policy that is not sticky, or a request without a session, keeps
  its order. Otherwise, when the session is bound to a target the plan contains, that binding is
  kept and the attempts it matches come first, then the other attempts of its provider, then the
  rest, each in the plan's order; and a session with a plan always leaves with a binding.\<close>

theorem affinity_target_first:
  assumes "apply_affinity_to_plan book identity existing now plan = (bd, plan', book')"
  shows "mset (up_attempts plan') = mset (up_attempts plan) \<and>
    (\<not> up_sticky plan \<or> identity = None \<longrightarrow> bd = None \<and> plan' = plan \<and> book' = book) \<and>
    (up_sticky plan \<and> identity \<noteq> None \<and> up_attempts plan \<noteq> [] \<longrightarrow> bd \<noteq> None) \<and>
    (\<forall>b. up_sticky plan \<and> identity \<noteq> None \<and> existing = Some b \<and>
         (\<exists>a \<in> set (up_attempts plan). binding_matches b a) \<longrightarrow>
       bd = Some b \<and> book' = book \<and> binding_matches b (hd (up_attempts plan')) \<and>
       up_attempts plan' = filter (binding_matches b) (up_attempts plan) @
         filter (\<lambda>a. \<not> binding_matches b a \<and> p_id (ru_provider a) = ab_provider_id b) (up_attempts plan) @
         filter (\<lambda>a. p_id (ru_provider a) \<noteq> ab_provider_id b) (up_attempts plan))"
proof (cases "up_sticky plan \<and> identity \<noteq> None")
  case False
  then have "apply_affinity_to_plan book identity existing now plan = (None, plan, book)"
    by (cases "up_sticky plan") (auto simp: apply_affinity_to_plan_def)
  then show ?thesis using assms False by auto
next
  case True
  then obtain ident where i: "identity = Some ident" by blast
  have first: "fst (prefer_target plan b) \<longleftrightarrow> (\<exists>a \<in> set (up_attempts plan). binding_matches b a)" for b
    using prefer_target_attempts [of plan b] by blast
  have m: "mset (up_attempts (snd (prefer_target p b))) = mset (up_attempts p)" for p :: "('a, 'b) upstream_plan" and b
    using prefer_target_attempts [of p b] by blast
  show ?thesis
  proof (cases existing)
    case None
    then show ?thesis using assms True i m
      by (auto simp: apply_affinity_to_plan_def case_prod_unfold split: list.splits)
  next
    case (Some b)
    show ?thesis
    proof (cases "fst (prefer_target plan b)")
      case True
      have "bd = Some b" "plan' = snd (prefer_target plan b)" "book' = book"
        using assms Some i True \<open>up_sticky plan \<and> identity \<noteq> None\<close>
        by (simp_all add: apply_affinity_to_plan_def case_prod_unfold)
      show ?thesis
      proof (intro conjI)
        show "mset (up_attempts plan') = mset (up_attempts plan)"
          using \<open>plan' = snd (prefer_target plan b)\<close> m by simp
      qed (use True prefer_target_attempts [of plan b] prefer_target_hd [of plan b] Some i
          \<open>bd = Some b\<close> \<open>plan' = snd (prefer_target plan b)\<close> \<open>book' = book\<close>
          \<open>up_sticky plan \<and> identity \<noteq> None\<close> in simp_all)
    next
      case False
      then have none: "\<not> (\<exists>a \<in> set (up_attempts plan). binding_matches b a)" using first by blast
      have "snd (prefer_target plan b) = plan" using False by (auto simp: prefer_target_def split: if_splits)
      then have "mset (up_attempts plan') = mset (up_attempts plan) \<and> (up_attempts plan \<noteq> [] \<longrightarrow> bd \<noteq> None)"
        using assms Some i False m \<open>up_sticky plan \<and> identity \<noteq> None\<close>
        by (auto simp: apply_affinity_to_plan_def case_prod_unfold split: if_splits list.splits)
      then show ?thesis using none Some i \<open>up_sticky plan \<and> identity \<noteq> None\<close> by auto
    qed
  qed
qed

section \<open>Errors\<close>

definition key_ready :: "'d upstream_snapshot \<Rightarrow> provider_route \<Rightarrow> bool" where
  "key_ready snap r \<longleftrightarrow>
     (\<exists>k \<in> set (unwrap_or (us_keys_by_provider snap (p_id (pr_provider r))) []).
        k_enabled k \<and> key_allows_model snap (k_id k) (pr_upstream_model r))"

definition static_ready :: "'d upstream_snapshot \<Rightarrow> provider_route \<Rightarrow> bool" where
  "static_ready snap r \<longleftrightarrow>
     key_ready snap r \<and>
     (\<exists>e \<in> set (unwrap_or (us_endpoints_by_provider snap (p_id (pr_provider r))) []). e_enabled e)"

definition same_ready :: "('d, 'r) plan_acc \<Rightarrow> ('d, 'r) plan_acc \<Rightarrow> bool" where
  "same_ready acc acc' \<longleftrightarrow>
     pa_key_ready_providers acc' = pa_key_ready_providers acc \<and>
     pa_static_ready_providers acc' = pa_static_ready_providers acc"

lemma same_ready_simps [simp]:
  "same_ready acc (pa_reject st code msg route acc') = same_ready acc acc'"
  "same_ready acc (pa_spill i acc') = same_ready acc acc'"
  "same_ready acc (skip_unavailable_provider rt route acc') = same_ready acc acc'"
  "same_ready acc acc"
  by (simp_all add: same_ready_def pa_reject_def pa_spill_def skip_unavailable_provider_def)

lemma schedule_ranked_ready:
  "same_ready acc (schedule_ranked draw snap strategy now policy m keys endpoints route acc')
     = same_ready acc acc'"
  by (auto simp: schedule_ranked_def Let_def case_prod_unfold) (simp_all add: same_ready_def)

lemma schedule_runtime_ready:
  "same_ready acc (schedule_runtime draw snap strategy now policy affinity m keys endpoints route acc)"
  by (auto simp: schedule_runtime_def Let_def case_prod_unfold schedule_ranked_ready)
    (simp_all add: same_ready_def)

lemma schedule_route_ready:
  "pa_key_ready_providers (schedule_route draw snap strategy now policy affinity m route acc) =
     pa_key_ready_providers acc + of_bool (key_ready snap route) \<and>
   pa_static_ready_providers (schedule_route draw snap strategy now policy affinity m route acc) =
     pa_static_ready_providers acc + of_bool (static_ready snap route)"
proof -
  let ?ks = "filter (\<lambda>k. key_allows_model snap (k_id k) (pr_upstream_model route))
      (unwrap_or (us_keys_by_provider snap (p_id (pr_provider route))) [])"
  let ?es = "filter e_enabled (unwrap_or (us_endpoints_by_provider snap (p_id (pr_provider route))) [])"
  have k: "key_ready snap route \<longleftrightarrow> filter k_enabled ?ks \<noteq> []"
    by (auto simp: key_ready_def filter_empty_conv)
  then have none: "?ks = [] \<Longrightarrow> \<not> key_ready snap route" by simp
  have e: "static_ready snap route \<longleftrightarrow> key_ready snap route \<and> ?es \<noteq> []"
    by (auto simp: static_ready_def filter_empty_conv)
  have rt: "pa_key_ready_providers (schedule_runtime draw snap strategy now policy affinity m keys endpoints route acc') =
      pa_key_ready_providers acc' \<and>
      pa_static_ready_providers (schedule_runtime draw snap strategy now policy affinity m keys endpoints route acc') =
      pa_static_ready_providers acc'" for keys endpoints acc'
    using schedule_runtime_ready [of acc' draw snap strategy now policy affinity m keys endpoints route]
    by (simp add: same_ready_def)
  consider "?ks = []" | "?ks \<noteq> []" "filter k_enabled ?ks = []" | "filter k_enabled ?ks \<noteq> []" "?es = []"
    | "filter k_enabled ?ks \<noteq> []" "?es \<noteq> []" by blast
  then show ?thesis
    by cases (auto simp: schedule_route_def Let_def k e rt pa_reject_def simp del: filter_filter)
qed

lemma schedule_routes_ready:
  "pa_key_ready_providers (fold (schedule_route draw snap strategy now policy affinity m) routes acc) =
     pa_key_ready_providers acc + length (filter (key_ready snap) routes) \<and>
   pa_static_ready_providers (fold (schedule_route draw snap strategy now policy affinity m) routes acc) =
     pa_static_ready_providers acc + length (filter (static_ready snap) routes)"
  by (induction routes arbitrary: acc) (simp_all add: schedule_route_ready)

text \<open>C34: when planning fails although the model is registered, the error says which configuration
  is missing, in this order: an authorized provider, an enabled one, an enabled key for the model,
  an enabled endpoint beside such a key; only when all of these are there is the request told to
  come back, with the earliest time a provider of the plan may be ready again.\<close>

theorem plan_error_exact:
  assumes "draw_ok draw" and "collect_provider_routes snap f m allow = Inr (routes, d)"
    and "fst (build_upstream_plan draw (Inr snap) settings now f m api_key aff allow st) = Inl e"
    and "authorized = filter (\<lambda>r. p_id (pr_provider r) \<in> set (ak_allowed_provider_ids api_key)) routes"
    and "enabled = filter (\<lambda>r. p_enabled (pr_provider r)) authorized"
  shows "(rr_status e, rr_code e, rr_retry_at_ms e) =
     (if authorized = [] then (403, ''model_not_authorized'', None)
      else if enabled = [] then (503, ''no_enabled_upstream_provider'', None)
      else if filter (key_ready snap) enabled = [] then (503, ''no_upstream_key_for_model'', None)
      else if filter (static_ready snap) enabled = [] then (503, ''no_enabled_upstream_endpoint'', None)
      else (503, ''all_upstreams_temporarily_unavailable'',
            iter_min (fst (routes_retry_at (ps_gates st) snap now enabled))))"
proof (cases "authorized = [] \<or> enabled = []")
  case True
  then show ?thesis using assms
    by (auto simp: build_upstream_plan_def Let_def route_error_new_def split: if_splits)
next
  case False
  then obtain aff' d' where pe: "fst (plan_enabled_routes draw snap settings now (policy_for snap m) aff' m enabled d' st) = Inl e"
    using assms by (simp add: build_upstream_plan_def Let_def)
  obtain untils gs where gs: "routes_retry_at (ps_gates st) snap now enabled = (untils, gs)" by fastforce
  obtain binding book where bb: "(case aff' of None \<Rightarrow> (None, ps_affinity st)
      | Some ident \<Rightarrow> affinity_lookup (ps_affinity st) ident now) = (binding, book)" by fastforce
  define acc where "acc = fold (schedule_route draw snap (st_endpoint_selector_strategy settings) now
      (policy_for snap m) aff' m) enabled
      \<lparr>pa_state = st\<lparr>ps_gates := gs, ps_affinity := book\<rparr>, pa_diagnostics = d',
        pa_schedulable = [], pa_transient_spill = {}, pa_key_ready_providers = 0, pa_static_ready_providers = 0\<rparr>"
  have ready: "pa_key_ready_providers acc = length (filter (key_ready snap) enabled)"
    "pa_static_ready_providers acc = length (filter (static_ready snap) enabled)"
    by (simp_all add: acc_def schedule_routes_ready)
  define all where "all = fst (build_scheduled_attempts draw (ps_rng (pa_state acc)) (pa_schedulable acc)
      (map_option ab_provider_id binding))"
  define kept where "kept = (if is_some_and (policy_for snap m) (\<lambda>p. \<not> rp_failover p) then
      (case all of [] \<Rightarrow> [] | first # _ \<Rightarrow> filter (\<lambda>a. p_id (ru_provider a) = p_id (ru_provider first)) all) else all)"
  have "gates_eq_at now gs (ps_gates st)" using routes_retry_gates [of now "ps_gates st" snap enabled] gs by simp
  then have "\<forall>s \<in> set (pa_schedulable acc). sched_ok snap (ps_gates st) now s"
    using schedule_routes_fold [OF assms(1), of now "\<lparr>pa_state = st\<lparr>ps_gates := gs, ps_affinity := book\<rparr>,
        pa_diagnostics = d', pa_schedulable = [], pa_transient_spill = {}, pa_key_ready_providers = 0,
        pa_static_ready_providers = 0\<rparr>" "ps_gates st" snap "st_endpoint_selector_strategy settings"
        "policy_for snap m" aff' m enabled]
    by (auto simp: acc_def)
  then have "all \<noteq> []" if "pa_schedulable acc \<noteq> []"
    using scheduled_attempts_props [OF assms(1) that _ all_def] by (simp add: sched_ok_def)
  then have kept: "kept \<noteq> []" if "pa_schedulable acc \<noteq> []"
    using that by (auto simp: kept_def split: list.splits)
  have e: "e = nothing_schedulable m (iter_min untils) acc"
    using pe [unfolded plan_enabled_routes_def gs bb prod.case Let_def, folded acc_def,
        unfolded case_prod_unfold, folded all_def, folded kept_def] kept
    by (auto split: if_splits)
  show ?thesis using False
    by (auto simp: e nothing_schedulable_def ready route_error_new_def unavailable_error_def gs)
qed

section \<open>The properties at concrete inputs\<close>

definition wit_route :: provider_route where
  "wit_route =
     \<lparr>pr_provider = wit_provider, pr_upstream_model = ''gpt'', pr_route_priority = None,
      pr_route_weight = None, pr_protocol = protocol_native ChatCompletions\<rparr>"

definition wit_plan_state :: "unit plan_state" where
  "wit_plan_state =
     \<lparr>ps_gates = wit_gates, ps_affinity = affinity_new 1000 10, ps_rotation = Map.empty, ps_rng = (),
      ps_capacity_skips = 0, ps_quota_skips = 0\<rparr>"

definition wit_api_key_for :: "int list \<Rightarrow> api_key_auth" where
  "wit_api_key_for allowed =
     \<lparr>ak_id = 7, ak_enabled = True, ak_expires_at_ms = None, ak_log_enabled = True, ak_name = ''k'',
      ak_provider_groups = [], ak_allowed_provider_ids = allowed\<rparr>"

lemma wit_models:
  "is_model_globally_enabled wit_snapshot m" "us_route_policies wit_snapshot m = None"
  "us_model_aliases_by_name wit_snapshot = []" "us_alias_to_provider_model wit_snapshot = []"
  by (simp_all add: is_model_globally_enabled_def wit_snapshot_def)

lemma wit_collect:
  "collect_provider_routes wit_snapshot ChatCompletions ''gpt'' True = Inr ([wit_route], diagnostics_default)"
  by (simp add: collect_provider_routes_def collect_provider_routes_inner_def wit_models policy_for_def
      opt_or_def collect_model_routes_def collect_provider_def is_some_and_def provider_model_rejection_def
      route_allows_provider_for_model_def provider_protocol_plan_def Let_def collection_new_def
      finish_route_collection_def wit_route_def)

lemma wit_account:
  "account wit_gates wit_snapshot wit_provider wit_key (Some ''gpt'') False 100 = (available, Map.empty)"
  by (simp add: account_def codex_account_problem_def CODEX_PROVIDER_TYPE_def wit_gates_def
      quota_is_available_def model_available_def account_allows_def key_allows_model_def wit_models
      is_none_or_def Let_def prb_snapshot_def runtime_book_new_def hb_snapshot_def health_book_new_def
      health_view_default_def is_some_and_def unwrap_or_def)

lemma wit_ranked: "rank_key_refs_with_health wit_draw () [wit_key] (health_book_new 5 60000) 100 = ([wit_key], ())"
proof -
  have "mset (fst (rank_key_refs_with_health wit_draw () [wit_key] (health_book_new 5 60000) 100)) = {#wit_key#}"
    by (simp add: ranked_keys_mset [OF wit_draw_ok] hb_snapshot_def health_book_new_def health_view_default_def)
  then show ?thesis by (simp add: prod_eq_iff)
qed

definition wit_sched :: "int schedulable_provider" where
  "wit_sched =
     \<lparr>sp_route = wit_route, sp_effective_priority = 100, sp_effective_weight = 0, sp_keys = [wit_key],
      sp_endpoints = [wit_endpoint], sp_price = None\<rparr>"

lemma wit_endpoints_ranked:
  "rank_endpoint_refs_with_health [wit_endpoint] (health_book_new 5 60000) strategy 100 = [wit_endpoint]"
  by (simp add: rank_endpoint_refs_with_health_def hb_snapshot_def health_book_new_def health_view_default_def)

lemma wit_schedule_ranked:
  "ps_gates (pa_state acc) = wit_gates \<Longrightarrow>
   pa_schedulable (schedule_ranked wit_draw wit_snapshot Weighted 100 None ''gpt'' [wit_key] [wit_endpoint] wit_route acc)
     = pa_schedulable acc @ [wit_sched]"
  by (simp add: schedule_ranked_def Let_def wit_gates_def wit_ranked wit_endpoints_ranked order_keys_for_provider_def
      wit_route_def wit_provider_def explicit_policy_def opt_filter_def policy_target_def effective_priority_def
      effective_weight_def wit_models is_some_and_def unwrap_or_def wit_sched_def find_price_for_request_def
      find_price_def wit_snapshot_def opt_or_def)

lemma wit_route_sel [simp]:
  "pr_provider wit_route = wit_provider" "pr_upstream_model wit_route = ''gpt''"
  by (simp_all add: wit_route_def)

lemma wit_schedule_route:
  assumes "ps_gates (pa_state acc) = wit_gates"
  shows "pa_schedulable (schedule_route wit_draw wit_snapshot Weighted 100 None None ''gpt'' wit_route acc)
     = pa_schedulable acc @ [wit_sched]"
proof -
  have "rv_available (prb_snapshot (gs_runtime wit_gates) wit_provider 100)"
    by (simp add: wit_gates_def prb_snapshot_def runtime_book_new_def)
  moreover have "wit_gates\<lparr>gs_quota := Map.empty\<rparr> = wit_gates" by (simp add: wit_gates_def)
  ultimately show ?thesis
    using assms
    by (simp add: schedule_route_def schedule_runtime_def Let_def key_allows_model_def unwrap_or_def
        wit_account available_def wit_schedule_ranked)
qed

lemma wit_retry_quota:
  "snd (provider_retry_at wit_gates wit_snapshot wit_provider (Some ''gpt'') 100) = Map.empty"
  "wit_gates\<lparr>gs_quota := Map.empty\<rparr> = wit_gates"
  by (simp_all add: provider_retry_at_def wit_gates_def Let_def case_prod_unfold quota_snapshot_def
      endpoints_retry_at_def hb_snapshot_def health_book_new_def health_view_default_def unwrap_or_def
      key_retry_at_def key_allows_model_def is_none_or_def prb_snapshot_def runtime_book_new_def)

lemma wit_plan_exists:
  "\<exists>plan st'. build_upstream_plan wit_draw (Inr wit_snapshot) (settings_from_config () wit_config) 100
     ChatCompletions ''gpt'' (wit_api_key_for [1]) None True wit_plan_state = (Inr plan, st')"
proof -
  have order: "fst (order_schedulable_providers wit_draw r [wit_sched] None) = [wit_sched]" for r
    using order_schedulable_mset [OF wit_draw_ok, of r "[wit_sched]" None] by simp
  have "attempts_of wit_sched \<noteq> []" by (rule attempts_of_nonempty) (simp_all add: wit_sched_def)
  then have "fst (build_scheduled_attempts wit_draw r [wit_sched] None) \<noteq> []" for r
    by (simp add: build_scheduled_attempts_def case_prod_unfold order MAX_DISTINCT_PROVIDERS_def)
  then show ?thesis
    by (simp add: build_upstream_plan_def wit_collect Let_def policy_for_def wit_models opt_or_def
        wit_api_key_for_def plan_enabled_routes_def wit_plan_state_def wit_retry_quota case_prod_unfold
        settings_from_config_def wit_config_def wit_schedule_route is_some_and_def)
qed

theorem plan_attempts_sound_witness:
  "\<exists>plan st'. build_upstream_plan wit_draw (Inr wit_snapshot) (settings_from_config () wit_config) 100
     ChatCompletions ''gpt'' (wit_api_key_for [1]) None True wit_plan_state = (Inr plan, st') \<and>
     up_attempts plan \<noteq> [] \<and> length (up_attempts plan) \<le> 27"
proof -
  obtain plan st' where p: "build_upstream_plan wit_draw (Inr wit_snapshot) (settings_from_config () wit_config) 100
     ChatCompletions ''gpt'' (wit_api_key_for [1]) None True wit_plan_state = (Inr plan, st')"
    using wit_plan_exists by blast
  then show ?thesis using plan_attempts_sound [OF wit_draw_ok _ p] by simp
qed


text \<open>A key that may not use the provider.\<close>

theorem plan_error_exact_witness:
  "\<exists>e. fst (build_upstream_plan wit_draw (Inr wit_snapshot) (settings_from_config () wit_config) 100
       ChatCompletions ''gpt'' (wit_api_key_for []) None True wit_plan_state) = Inl e \<and>
     rr_status e = 403 \<and> rr_code e = ''model_not_authorized''"
proof -
  obtain e where e: "fst (build_upstream_plan wit_draw (Inr wit_snapshot) (settings_from_config () wit_config) 100
      ChatCompletions ''gpt'' (wit_api_key_for []) None True wit_plan_state) = Inl e"
    by (simp add: build_upstream_plan_def wit_collect Let_def wit_api_key_for_def)
  show ?thesis
    using e plan_error_exact [OF wit_draw_ok wit_collect e refl refl] by (simp add: wit_api_key_for_def)
qed

definition wit_attempt :: "int \<Rightarrow> int resolved_upstream" where
  "wit_attempt key_id =
     \<lparr>ru_upstream_model = ''gpt'', ru_provider = wit_provider, ru_endpoint = wit_endpoint,
      ru_key = wit_key\<lparr>k_id := key_id\<rparr>, ru_price = None, ru_protocol = protocol_native ChatCompletions\<rparr>"

definition wit_bound_plan :: "(int, unit) upstream_plan" where
  "wit_bound_plan =
     \<lparr>up_sticky = True, up_route_policy = None, up_runtime = settings_from_config () wit_config,
      up_attempts = [wit_attempt 4, wit_attempt 5], up_transient_spill_provider_ids = {},
      up_diagnostics = diagnostics_default\<rparr>"

definition wit_binding :: affinity_binding where
  "wit_binding =
     \<lparr>ab_provider_id = 1, ab_upstream_key_id = Some 5, ab_endpoint_id = None, ab_generation = 1,
      ab_confirmed = True\<rparr>"

theorem affinity_target_first_witness:
  "up_attempts (fst (snd (apply_affinity_to_plan (affinity_new 1000 10) (Some wit_ident) (Some wit_binding) 0
     wit_bound_plan))) = [wit_attempt 5, wit_attempt 4]"
  using affinity_target_first [of "affinity_new 1000 10" "Some wit_ident" "Some wit_binding" 0 wit_bound_plan]
  by (cases "apply_affinity_to_plan (affinity_new 1000 10) (Some wit_ident) (Some wit_binding) 0 wit_bound_plan")
    (simp add: wit_bound_plan_def wit_binding_def binding_matches_def is_none_or_def wit_attempt_def)

end
