(* ===== verification/Attempt.thy ===== *)
theory Attempt
  imports Upstream_Plan
begin

text \<open>
  \<open>src/backend/src/proxy.rs\<close>: one attempt at an upstream target.  A failure is attributed to the
  key, the quota, the model, the provider or the client (\<open>FailureScope\<close>); an attempt is reserved in
  every book it needs before it is sent, and its outcome is reported to exactly the books the scope
  concerns.  Dropping a reservation releases its permit and finishes its guards neutrally, so a
  reservation that fails half way leaves nothing behind.
\<close>

section \<open>Failure scopes\<close>

datatype failure_scope = ScopeSuccess | ScopeKey | ScopeQuota | ScopeModel | ScopeProvider | ScopeClient

datatype outcome_origin = UpstreamResponse | UpstreamEvent | LocalTransport | Gateway

definition is_retryable :: "failure_scope \<Rightarrow> bool" where
  "is_retryable s \<longleftrightarrow> s = ScopeKey \<or> s = ScopeQuota \<or> s = ScopeModel \<or> s = ScopeProvider"

definition should_migrate_affinity :: "failure_scope \<Rightarrow> bool" where
  "should_migrate_affinity s \<longleftrightarrow> s = ScopeKey \<or> s = ScopeModel \<or> s = ScopeProvider"

definition should_avoid_affinity_immediately :: "failure_scope \<Rightarrow> bool" where
  "should_avoid_affinity_immediately s \<longleftrightarrow> s = ScopeModel \<or> s = ScopeProvider"

definition scope_name :: "failure_scope \<Rightarrow> string" where
  "scope_name s =
     (case s of ScopeSuccess \<Rightarrow> ''Success'' | ScopeKey \<Rightarrow> ''Key'' | ScopeQuota \<Rightarrow> ''Quota''
      | ScopeModel \<Rightarrow> ''Model'' | ScopeProvider \<Rightarrow> ''Provider'' | ScopeClient \<Rightarrow> ''Client'')"

definition classify_failure_scope :: "int option \<Rightarrow> outcome_origin \<Rightarrow> failure_scope" where
  "classify_failure_scope status origin =
     (if origin = LocalTransport then ScopeProvider
      else (case status of
         None \<Rightarrow> ScopeProvider
       | Some code \<Rightarrow>
           (if 200 \<le> code \<and> code \<le> 399 then ScopeSuccess
            else if code = 401 \<or> code = 403 then ScopeKey
            else if code = 402 \<or> code = 429 then ScopeQuota
            else if code = 404 then ScopeModel
            else if code = 408 \<or> code = 409 \<or> code = 425 then ScopeProvider
            else if 500 \<le> code then ScopeProvider
            else if 400 \<le> code \<and> code \<le> 499 then ScopeClient
            else ScopeProvider)))"

definition should_retry_response_status :: "int \<Rightarrow> bool" where
  "should_retry_response_status status \<longleftrightarrow>
     status \<in> {401, 402, 403, 404, 408, 409, 425, 429} \<or> 500 \<le> status"

record attempt_outcome =
  ao_status :: "int option"
  ao_origin :: outcome_origin
  ao_error_type :: "string option"
  ao_error_message :: "string option"
  ao_observed_latency_ms :: "int option"

definition outcome_upstream_response ::
  "int \<Rightarrow> string option \<Rightarrow> string option \<Rightarrow> int option \<Rightarrow> attempt_outcome" where
  "outcome_upstream_response status error_type error_message latency =
     \<lparr>ao_status = Some status, ao_origin = UpstreamResponse, ao_error_type = error_type,
      ao_error_message = error_message, ao_observed_latency_ms = latency\<rparr>"

definition outcome_local_provider ::
  "int option \<Rightarrow> string \<Rightarrow> string \<Rightarrow> int option \<Rightarrow> attempt_outcome" where
  "outcome_local_provider status error_type error_message latency =
     \<lparr>ao_status = status, ao_origin = LocalTransport, ao_error_type = Some error_type,
      ao_error_message = Some error_message, ao_observed_latency_ms = latency\<rparr>"

section \<open>Reservations\<close>

datatype reservation_error = ResProvider | ResKey | ResEndpoint | ResQuota

text \<open>The books, and the two metrics counters reservations count.\<close>

record attempt_state =
  ats_gates :: gate_state
  ats_breaker_opens :: u64w
  ats_breaker_probes :: u64w

record reservation =
  rsv_error_book :: "(int \<times> int \<times> int) option"
  rsv_capacity :: "int option"
  rsv_provider :: "provider_guard option"
  rsv_endpoint :: "health_guard option"
  rsv_key :: "health_guard option"

definition on_runtime :: "(provider_runtime_book \<Rightarrow> provider_runtime_book) \<Rightarrow> attempt_state \<Rightarrow> attempt_state" where
  "on_runtime f st = st\<lparr>ats_gates := (ats_gates st)\<lparr>gs_runtime := f (gs_runtime (ats_gates st))\<rparr>\<rparr>"

definition on_key_health :: "(health_book \<Rightarrow> health_book) \<Rightarrow> attempt_state \<Rightarrow> attempt_state" where
  "on_key_health f st = st\<lparr>ats_gates := (ats_gates st)\<lparr>gs_key_health := f (gs_key_health (ats_gates st))\<rparr>\<rparr>"

definition on_endpoint_health :: "(health_book \<Rightarrow> health_book) \<Rightarrow> attempt_state \<Rightarrow> attempt_state" where
  "on_endpoint_health f st =
     st\<lparr>ats_gates := (ats_gates st)\<lparr>gs_endpoint_health := f (gs_endpoint_health (ats_gates st))\<rparr>\<rparr>"

text \<open>Apply to the value that is there, if any.\<close>

definition opt_apply :: "('g \<Rightarrow> 's \<Rightarrow> 's) \<Rightarrow> 'g option \<Rightarrow> 's \<Rightarrow> 's" where
  "opt_apply f g s = (case g of None \<Rightarrow> s | Some x \<Rightarrow> f x s)"

definition reservation_is_current :: "attempt_state \<Rightarrow> reservation \<Rightarrow> bool" where
  "reservation_is_current st rv \<longleftrightarrow>
     is_none_or (rsv_provider rv) (pguard_is_current (gs_runtime (ats_gates st))) \<and>
     is_none_or (rsv_endpoint rv) (guard_is_current (gs_endpoint_health (ats_gates st))) \<and>
     is_none_or (rsv_key rv) (guard_is_current (gs_key_health (ats_gates st)))"

text \<open>Dropping a reservation drops its fields in their order.\<close>

definition drop_reservation :: "reservation \<Rightarrow> int \<Rightarrow> attempt_state \<Rightarrow> attempt_state" where
  "drop_reservation rv now st =
     opt_apply (\<lambda>g. on_key_health (\<lambda>b. guard_drop b g now)) (rsv_key rv)
       (opt_apply (\<lambda>g. on_endpoint_health (\<lambda>b. guard_drop b g now)) (rsv_endpoint rv)
         (opt_apply (\<lambda>g. on_runtime (\<lambda>b. pguard_drop b g)) (rsv_provider rv)
           (opt_apply (\<lambda>i. on_runtime (\<lambda>b. release_capacity b i)) (rsv_capacity rv) st)))"

definition take_guards :: "reservation \<Rightarrow> reservation" where
  "take_guards rv = rv\<lparr>rsv_provider := None, rsv_endpoint := None, rsv_key := None\<rparr>"

definition endpoint_success :: "attempt_outcome \<Rightarrow> int \<Rightarrow> reservation \<Rightarrow> attempt_state \<Rightarrow> attempt_state" where
  "endpoint_success oc now rv =
     opt_apply (\<lambda>g. on_endpoint_health (\<lambda>b. guard_success b g (ao_status oc) (ao_observed_latency_ms oc) now))
       (rsv_endpoint rv)"

definition key_success :: "attempt_outcome \<Rightarrow> int \<Rightarrow> reservation \<Rightarrow> attempt_state \<Rightarrow> attempt_state" where
  "key_success oc now rv =
     opt_apply (\<lambda>g. on_key_health (\<lambda>b. guard_success b g (ao_status oc) (ao_observed_latency_ms oc) now))
       (rsv_key rv)"

definition neutral_endpoint :: "int \<Rightarrow> reservation \<Rightarrow> attempt_state \<Rightarrow> attempt_state" where
  "neutral_endpoint now rv = opt_apply (\<lambda>g. on_endpoint_health (\<lambda>b. guard_neutral b g now)) (rsv_endpoint rv)"

definition neutral_key :: "int \<Rightarrow> reservation \<Rightarrow> attempt_state \<Rightarrow> attempt_state" where
  "neutral_key now rv = opt_apply (\<lambda>g. on_key_health (\<lambda>b. guard_neutral b g now)) (rsv_key rv)"

definition neutral_provider :: "reservation \<Rightarrow> attempt_state \<Rightarrow> attempt_state" where
  "neutral_provider rv = opt_apply (\<lambda>g. on_runtime (\<lambda>b. pguard_neutral b g)) (rsv_provider rv)"

definition provider_failure :: "attempt_outcome \<Rightarrow> int \<Rightarrow> reservation \<Rightarrow> attempt_state \<Rightarrow> attempt_state" where
  "provider_failure oc now rv st =
     (case rsv_provider rv of
        None \<Rightarrow> st
      | Some g \<Rightarrow>
          (case pguard_failure (gs_runtime (ats_gates st)) g (ao_status oc)
                  (unwrap_or (ao_error_type oc) ''upstream_error'')
                  (unwrap_or (ao_error_message oc) ''upstream attempt failed'') now of
             (transition, book) \<Rightarrow>
               (let st' = on_runtime (\<lambda>_. book) st in
                if transition = Opened then st'\<lparr>ats_breaker_opens := ats_breaker_opens st' + 1\<rparr> else st')))"

definition finish_with_scope ::
  "attempt_outcome \<Rightarrow> failure_scope \<Rightarrow> int \<Rightarrow> reservation \<Rightarrow> attempt_state \<Rightarrow> reservation \<times> attempt_state" where
  "finish_with_scope oc scope now rv st0 =
     (let st = (if scope = ScopeSuccess then st0
                else opt_apply (\<lambda>(provider, endpoint, key).
                       on_runtime (\<lambda>b. record_error b provider endpoint key (scope_name scope) (ao_status oc) now))
                       (rsv_error_book rv) st0)
      in (take_guards rv,
          case scope of
            ScopeSuccess \<Rightarrow>
              opt_apply (\<lambda>g. on_runtime (\<lambda>b. pguard_success b g (ao_status oc) (ao_observed_latency_ms oc) now))
                (rsv_provider rv) (key_success oc now rv (endpoint_success oc now rv st))
          | ScopeKey \<Rightarrow>
              neutral_provider rv
                (opt_apply (\<lambda>g. on_key_health (\<lambda>b. guard_failure b g (ao_status oc) (ao_error_type oc)
                     (ao_error_message oc) now)) (rsv_key rv)
                  (endpoint_success oc now rv st))
          | ScopeModel \<Rightarrow> neutral_provider rv (key_success oc now rv (endpoint_success oc now rv st))
          | ScopeClient \<Rightarrow> neutral_provider rv (key_success oc now rv (endpoint_success oc now rv st))
          | ScopeQuota \<Rightarrow> neutral_provider rv (neutral_key now rv (neutral_endpoint now rv st))
          | ScopeProvider \<Rightarrow>
              provider_failure oc now rv
                (neutral_key now rv
                  (opt_apply (\<lambda>g. on_endpoint_health (\<lambda>b. guard_failure b g (ao_status oc) (ao_error_type oc)
                       (ao_error_message oc) now)) (rsv_endpoint rv) st))))"

text \<open>\<open>finish\<close>, \<open>neutral\<close> and \<open>into_capacity\<close> consume the reservation.\<close>

definition finish_reservation :: "attempt_outcome \<Rightarrow> int \<Rightarrow> reservation \<Rightarrow> attempt_state \<Rightarrow> attempt_state" where
  "finish_reservation oc now rv st =
     (case finish_with_scope oc (classify_failure_scope (ao_status oc) (ao_origin oc)) now rv st of
        (rv', st') \<Rightarrow> drop_reservation rv' now st')"

definition neutral_guards :: "int \<Rightarrow> reservation \<Rightarrow> attempt_state \<Rightarrow> attempt_state" where
  "neutral_guards now rv st = neutral_provider rv (neutral_key now rv (neutral_endpoint now rv st))"

definition neutral_reservation :: "int \<Rightarrow> reservation \<Rightarrow> attempt_state \<Rightarrow> attempt_state" where
  "neutral_reservation now rv st = drop_reservation (take_guards rv) now (neutral_guards now rv st)"

definition into_capacity :: "int \<Rightarrow> reservation \<Rightarrow> attempt_state \<Rightarrow> int option \<times> attempt_state" where
  "into_capacity now rv st =
     (rsv_capacity rv,
      drop_reservation ((take_guards rv)\<lparr>rsv_capacity := None\<rparr>) now (neutral_guards now rv st))"

definition reserve_attempt_inner ::
  "'d resolved_upstream \<Rightarrow> int \<Rightarrow> bool \<Rightarrow> bool \<Rightarrow> attempt_state
     \<Rightarrow> (reservation_error + reservation) \<times> attempt_state" where
  "reserve_attempt_inner r now acquire_capacity reserve_quota st0 =
     (let gs0 = ats_gates st0;
          (permit, rt1) = (if acquire_capacity then try_acquire_capacity (gs_runtime gs0) (ru_provider r)
                           else (None, gs_runtime gs0));
          st1 = on_runtime (\<lambda>_. rt1) st0;
          rv1 = \<lparr>rsv_error_book = None, rsv_capacity = permit, rsv_provider = None, rsv_endpoint = None,
                 rsv_key = None\<rparr>
      in if acquire_capacity \<and> permit = None then (Inl ResProvider, st1)
         else
           (case prb_try_begin_attempt rt1 (ru_provider r) now of
              (None, rt2) \<Rightarrow> (Inl ResProvider, drop_reservation rv1 now (on_runtime (\<lambda>_. rt2) st1))
            | (Some pg, rt2) \<Rightarrow>
                (let st2 = (let s = on_runtime (\<lambda>_. rt2) st1 in
                            if is_half_open_probe pg
                            then s\<lparr>ats_breaker_probes := ats_breaker_probes s + 1\<rparr> else s);
                     rv2 = rv1\<lparr>rsv_provider := Some pg\<rparr>
                 in case hb_try_begin_attempt (gs_key_health gs0) (k_id (ru_key r)) now of
                      (None, kh) \<Rightarrow> (Inl ResKey, drop_reservation rv2 now (on_key_health (\<lambda>_. kh) st2))
                    | (Some kg, kh) \<Rightarrow>
                        (let st3 = on_key_health (\<lambda>_. kh) st2; rv3 = rv2\<lparr>rsv_key := Some kg\<rparr>
                         in case hb_try_begin_attempt (gs_endpoint_health gs0) (e_id (ru_endpoint r)) now of
                              (None, eh) \<Rightarrow> (Inl ResEndpoint, drop_reservation rv3 now (on_endpoint_health (\<lambda>_. eh) st3))
                            | (Some eg, eh) \<Rightarrow>
                                (let st4 = on_endpoint_health (\<lambda>_. eh) st3;
                                     rv4 = rv3\<lparr>rsv_endpoint := Some eg,
                                                rsv_error_book := Some (p_id (ru_provider r),
                                                  e_id (ru_endpoint r), k_id (ru_key r))\<rparr>
                                 in if \<not> reserve_quota then (Inr rv4, st4)
                                    else (case reserve_request (gs_quota gs0) (k_id (ru_key r)) now of
                                            (ok, quota) \<Rightarrow>
                                              (let st5 = st4\<lparr>ats_gates := (ats_gates st4)\<lparr>gs_quota := quota\<rparr>\<rparr>
                                               in if ok then (Inr rv4, st5)
                                                  else (Inl ResQuota, drop_reservation rv4 now st5))))))))"

definition reserve_attempt where
  "reserve_attempt r now st = reserve_attempt_inner r now True True st"

definition reserve_ws_connection where
  "reserve_ws_connection r now st = reserve_attempt_inner r now True False st"

definition reserve_ws_turn where
  "reserve_ws_turn r now st = reserve_attempt_inner r now False True st"

text \<open>What a failed attempt means for the session: \<open>faulted\<close> are the providers that failed for it.\<close>

definition note_affinity_failure ::
  "affinity_book \<Rightarrow> 'd resolved_upstream \<Rightarrow> failure_scope \<Rightarrow> affinity_identity option \<Rightarrow> int set \<Rightarrow> int
     \<Rightarrow> affinity_book \<times> int set" where
  "note_affinity_failure book r scope identity faulted now =
     (if \<not> should_migrate_affinity scope then (book, faulted)
      else
        (let faulted' = insert (p_id (ru_provider r)) faulted in
         case identity of
           Some ident \<Rightarrow>
             (if should_avoid_affinity_immediately scope
              then (mark_provider_failed book ident (p_id (ru_provider r)) now
                      (max (p_circuit_breaker_open_ms (ru_provider r)) 1), faulted')
              else (book, faulted'))
         | None \<Rightarrow> (book, faulted')))"

section \<open>What a reservation leaves behind\<close>

text \<open>
  A state up to what no decision reads: the number the next probe will get and the time of the
  last update.  Two books are the same when all their entries are, so they answer every snapshot,
  every admission and every ranking alike.
\<close>

definition health_core :: "health_state \<Rightarrow> health_state" where
  "health_core s = s\<lparr>hs_next_probe_id := 0, hs_updated_at_ms := None\<rparr>"

definition runtime_core :: "provider_runtime_state \<Rightarrow> provider_runtime_state" where
  "runtime_core s = s\<lparr>rs_next_probe_id := 0\<rparr>"

definition health_same :: "health_book \<Rightarrow> health_book \<Rightarrow> bool" where
  "health_same b b' \<longleftrightarrow>
     hb_failure_threshold b = hb_failure_threshold b' \<and> hb_open_duration_ms b = hb_open_duration_ms b' \<and>
     (\<forall>i. health_core (hb_entry b i) = health_core (hb_entry b' i))"

definition runtime_same :: "provider_runtime_book \<Rightarrow> provider_runtime_book \<Rightarrow> bool" where
  "runtime_same b b' \<longleftrightarrow>
     prb_errors b = prb_errors b' \<and> (\<forall>i. runtime_core (prb_entry b i) = runtime_core (prb_entry b' i))"

lemma health_same_refl [simp]: "health_same b b"
  by (simp add: health_same_def)

lemma runtime_same_refl [simp]: "runtime_same b b"
  by (simp add: runtime_same_def)

lemma prb_entry_put_other [simp]: "i \<noteq> j \<Longrightarrow> prb_entry (prb_put b i s) j = prb_entry b j"
  by (simp add: prb_entry_def prb_put_def)

lemma health_same_put:
  "health_core s = health_core (hb_entry b i) \<Longrightarrow> health_same (hb_put b i s) b"
  unfolding health_same_def
proof (intro conjI allI)
  fix j
  assume "health_core s = health_core (hb_entry b i)"
  then show "health_core (hb_entry (hb_put b i s) j) = health_core (hb_entry b j)"
    by (cases "j = i") auto
qed (simp_all add: hb_put_def)

lemma runtime_same_put:
  "runtime_core s = runtime_core (prb_entry b i) \<Longrightarrow> runtime_same (prb_put b i s) b"
  unfolding runtime_same_def
proof (intro conjI allI)
  fix j
  assume "runtime_core s = runtime_core (prb_entry b i)"
  then show "runtime_core (prb_entry (prb_put b i s) j) = runtime_core (prb_entry b j)"
    by (cases "j = i") auto
qed (simp_all add: prb_put_def)

lemma health_core_begin_none: "health_begin s now = (None, s') \<Longrightarrow> s' = s"
  by (auto simp: health_begin_def Let_def split: circuit_state.splits if_splits)

lemma health_core_begin_neutral:
  assumes "health_begin s now = (Some t, s1)"
  shows "health_core (health_neutral s1 t now') = health_core s"
  using assms
  by (auto simp: health_begin_def health_neutral_eq health_core_def attempt_token_matches_def
      is_none_or_def Let_def split: circuit_state.splits if_splits)

lemma runtime_core_begin_neutral:
  assumes "runtime_begin p s now = (Some t, s1)"
  shows "runtime_core (runtime_neutral s1 t) = runtime_core s"
  using assms
  by (auto simp: runtime_begin_def runtime_neutral_def runtime_release_probe_def runtime_core_def
      runtime_token_matches_def is_none_or_def is_some_and_def Let_def
      split: circuit_state.splits if_splits)

lemma hb_put_put [simp]: "hb_put (hb_put b i s) i s' = hb_put b i s'"
  by (simp add: hb_put_def)

lemma prb_put_put [simp]: "prb_put (prb_put b i s) i s' = prb_put b i s'"
  by (simp add: prb_put_def)

lemma prb_by_provider_put [simp]: "prb_by_provider (prb_put b i s) i = Some s"
  by (simp add: prb_put_def)

lemma hb_by_id_put [simp]: "hb_by_id (hb_put b i s) i = Some s"
  by (simp add: hb_put_def)

text \<open>An attempt that ends neutrally, by a call or by being dropped, and one that was refused.\<close>

lemma hb_begin_refused: "hb_try_begin_attempt b i now = (None, b') \<Longrightarrow> health_same b' b"
  by (auto simp: hb_try_begin_attempt_def dest!: health_core_begin_none intro!: health_same_put
      split: prod.splits option.splits)

lemma hb_begin_neutral:
  assumes "hb_try_begin_attempt b i now = (Some g, b1)"
  shows "health_same (guard_drop b1 g now') b" and "health_same (guard_neutral b1 g now') b"
  using assms
  by (auto simp: hb_try_begin_attempt_def guard_drop_def guard_neutral_def hb_finish_neutral_def Let_def
      intro!: health_same_put dest: health_core_begin_neutral split: prod.splits option.splits)

lemma prb_begin_refused: "prb_try_begin_attempt b p now = (None, b') \<Longrightarrow> b' = prb_put b (p_id p) (prb_entry b (p_id p))"
  by (auto simp: prb_try_begin_attempt_def runtime_begin_def Let_def
      split: prod.splits option.splits circuit_state.splits if_splits)

lemma prb_begin_neutral:
  assumes "prb_try_begin_attempt b p now = (Some g, b1)"
  shows "runtime_same (pguard_drop b1 g) b" and "runtime_same (pguard_neutral b1 g) b"
  using assms
  by (auto simp: prb_try_begin_attempt_def pguard_drop_def pguard_neutral_def prb_finish_neutral_def Let_def
      intro!: runtime_same_put dest: runtime_core_begin_neutral split: prod.splits option.splits)

lemma capacity_begin_neutral:
  assumes "try_acquire_capacity b p = (Some i, b1)" and "prb_try_begin_attempt b1 p now = (Some g, b2)"
    and "rs_in_flight (prb_entry b (p_id p)) < u32_max"
  shows "runtime_same (pguard_drop (release_capacity b2 i) g) b"
    and "runtime_same (release_capacity (pguard_neutral b2 g) i) b"
proof -
  let ?s = "prb_entry b (p_id p)"
  let ?s1 = "?s\<lparr>rs_in_flight := rs_in_flight ?s + 1\<rparr>"
  have i: "i = p_id p" and b1: "b1 = prb_put b (p_id p) ?s1"
    using assms(1,3) by (auto simp: try_acquire_capacity_def Let_def u32_saturating_add_def split: if_splits)
  obtain t s2 where s2: "runtime_begin p ?s1 now = (Some t, s2)" "b2 = prb_put b (p_id p) s2"
      "g = \<lparr>pg_provider = p, pg_token = t, pg_active = True\<rparr>"
    using assms(2) by (auto simp: prb_try_begin_attempt_def b1 split: prod.splits option.splits)
  have "runtime_core (runtime_neutral (s2\<lparr>rs_in_flight := rs_in_flight s2 - 1\<rparr>) t) = runtime_core ?s"
    and "runtime_core ((runtime_neutral s2 t)\<lparr>rs_in_flight := rs_in_flight (runtime_neutral s2 t) - 1\<rparr>) = runtime_core ?s"
    using s2(1)
    by (auto simp: runtime_begin_def runtime_neutral_def runtime_release_probe_def runtime_core_def
        runtime_token_matches_def is_none_or_def is_some_and_def circuit_state_of_def Let_def
        split: circuit_state.splits if_splits option.splits)
  then show "runtime_same (pguard_drop (release_capacity b2 i) g) b"
    and "runtime_same (release_capacity (pguard_neutral b2 g) i) b"
    by (auto simp: i s2(2,3) release_capacity_def pguard_drop_def pguard_neutral_def prb_finish_neutral_def
        Let_def intro!: runtime_same_put)
qed

lemma capacity_refused: "try_acquire_capacity b p = (None, b1) \<Longrightarrow> runtime_same b1 b"
  by (auto simp: try_acquire_capacity_def Let_def intro!: runtime_same_put split: if_splits)

lemma capacity_released:
  assumes "try_acquire_capacity b p = (Some i, b1)" and "prb_try_begin_attempt b1 p now = (None, b2)"
    and "rs_in_flight (prb_entry b (p_id p)) < u32_max"
  shows "runtime_same (release_capacity b2 i) b"
  using assms
  by (auto simp: try_acquire_capacity_def prb_begin_refused [OF assms(2)] release_capacity_def
      u32_saturating_add_def runtime_core_def Let_def intro!: runtime_same_put split: if_splits)

definition gates_same :: "gate_state \<Rightarrow> gate_state \<Rightarrow> bool" where
  "gates_same a b \<longleftrightarrow>
     runtime_same (gs_runtime a) (gs_runtime b) \<and> health_same (gs_key_health a) (gs_key_health b) \<and>
     health_same (gs_endpoint_health a) (gs_endpoint_health b)"

lemma reserve_request_refused: "reserve_request q k now = (False, q') \<Longrightarrow> quota_eq_at now q' q"
  by (auto simp: reserve_request_def quota_reserve_def quota_eq_at_def quota_entry_def unwrap_or_def
      expire_idem Let_def split: if_splits prod.splits option.splits)

lemmas attempt_state_defs =
  on_runtime_def on_key_health_def on_endpoint_health_def opt_apply_def drop_reservation_def gates_same_def

text \<open>The four ways a reservation can go, with what each book answered.\<close>

lemma reserve_attempt_inner_granted:
  assumes "reserve_attempt_inner r now acq resq st = (Inr rv, st')"
  obtains permit rt1 pg rt2 kg kh eg eh quota where
    "(if acq then try_acquire_capacity (gs_runtime (ats_gates st)) (ru_provider r)
      else (None, gs_runtime (ats_gates st))) = (permit, rt1)"
    and "acq = (permit \<noteq> None)"
    and "prb_try_begin_attempt rt1 (ru_provider r) now = (Some pg, rt2)"
    and "hb_try_begin_attempt (gs_key_health (ats_gates st)) (k_id (ru_key r)) now = (Some kg, kh)"
    and "hb_try_begin_attempt (gs_endpoint_health (ats_gates st)) (e_id (ru_endpoint r)) now = (Some eg, eh)"
    and "quota = (if resq then snd (reserve_request (gs_quota (ats_gates st)) (k_id (ru_key r)) now)
                  else gs_quota (ats_gates st))"
    and "resq \<longrightarrow> fst (reserve_request (gs_quota (ats_gates st)) (k_id (ru_key r)) now)"
    and "rv = \<lparr>rsv_error_book = Some (p_id (ru_provider r), e_id (ru_endpoint r), k_id (ru_key r)),
               rsv_capacity = permit, rsv_provider = Some pg, rsv_endpoint = Some eg, rsv_key = Some kg\<rparr>"
    and "ats_gates st' = (ats_gates st)\<lparr>gs_runtime := rt2, gs_key_health := kh, gs_endpoint_health := eh,
                                         gs_quota := quota\<rparr>"
proof -
  let ?gs = "ats_gates st"
  obtain permit rt1 where p: "(if acq then try_acquire_capacity (gs_runtime ?gs) (ru_provider r)
      else (None, gs_runtime ?gs)) = (permit, rt1)" by (rule prod.exhaust)
  have acq: "acq = (permit \<noteq> None)"
    using assms p by (auto simp: reserve_attempt_inner_def Let_def split: if_splits)
  note red = assms [unfolded reserve_attempt_inner_def p prod.case Let_def]
  obtain pg rt2 where pg: "prb_try_begin_attempt rt1 (ru_provider r) now = (Some pg, rt2)"
    using red acq by (cases "prb_try_begin_attempt rt1 (ru_provider r) now"; cases "fst (prb_try_begin_attempt rt1 (ru_provider r) now)")
      (auto split: if_splits)
  obtain kg kh where kg: "hb_try_begin_attempt (gs_key_health ?gs) (k_id (ru_key r)) now = (Some kg, kh)"
    using red acq pg
    by (cases "hb_try_begin_attempt (gs_key_health ?gs) (k_id (ru_key r)) now";
        cases "fst (hb_try_begin_attempt (gs_key_health ?gs) (k_id (ru_key r)) now)")
      (auto split: if_splits)
  obtain eg eh where eg: "hb_try_begin_attempt (gs_endpoint_health ?gs) (e_id (ru_endpoint r)) now = (Some eg, eh)"
    using red acq pg kg
    by (cases "hb_try_begin_attempt (gs_endpoint_health ?gs) (e_id (ru_endpoint r)) now";
        cases "fst (hb_try_begin_attempt (gs_endpoint_health ?gs) (e_id (ru_endpoint r)) now)")
      (auto split: if_splits)
  obtain ok quota where q: "reserve_request (gs_quota ?gs) (k_id (ru_key r)) now = (ok, quota)"
    by (rule prod.exhaust)
  show thesis
  proof (rule that [OF p acq pg kg eg refl])
    show "resq \<longrightarrow> fst (reserve_request (gs_quota ?gs) (k_id (ru_key r)) now)"
      using red acq pg kg eg q by (auto split: if_splits)
    show "rv = \<lparr>rsv_error_book = Some (p_id (ru_provider r), e_id (ru_endpoint r), k_id (ru_key r)),
               rsv_capacity = permit, rsv_provider = Some pg, rsv_endpoint = Some eg, rsv_key = Some kg\<rparr>"
      using red acq pg kg eg q by (auto split: if_splits)
    show "ats_gates st' = ?gs\<lparr>gs_runtime := rt2, gs_key_health := kh, gs_endpoint_health := eh,
        gs_quota := (if resq then snd (reserve_request (gs_quota ?gs) (k_id (ru_key r)) now) else gs_quota ?gs)\<rparr>"
      using red acq pg kg eg q by (auto simp: attempt_state_defs split: if_splits)
  qed
qed

lemma prb_begin_refused_same: "prb_try_begin_attempt b p now = (None, b') \<Longrightarrow> runtime_same b' b"
  by (auto dest: prb_begin_refused intro: runtime_same_put)

lemma reserve_attempt_refused:
  assumes "reserve_attempt_inner r now acq resq st = (Inl e, st')"
    and cap: "rs_in_flight (prb_entry (gs_runtime (ats_gates st)) (p_id (ru_provider r))) < u32_max"
  shows "gates_same (ats_gates st') (ats_gates st) \<and>
         quota_eq_at now (gs_quota (ats_gates st')) (gs_quota (ats_gates st))"
proof -
  let ?gs = "ats_gates st" and ?p = "ru_provider r"
  obtain permit rt1 where p: "(if acq then try_acquire_capacity (gs_runtime ?gs) ?p
      else (None, gs_runtime ?gs)) = (permit, rt1)" by (rule prod.exhaust)
  note red = assms(1) [unfolded reserve_attempt_inner_def p prod.case Let_def]
  have qrefl: "quota_eq_at now q q" for q by (simp add: quota_eq_at_def)
  show ?thesis
  proof (cases "acq \<and> permit = None")
    case True
    then show ?thesis using red p capacity_refused [of "gs_runtime ?gs" ?p rt1]
      by (auto simp: attempt_state_defs qrefl)
  next
    case acq: False
    then have perm: "acq \<longleftrightarrow> permit \<noteq> None" using p by (auto split: if_splits)
    have drop: "runtime_same (opt_apply (\<lambda>i b. release_capacity b i) permit rt2) (gs_runtime ?gs)"
      if "prb_try_begin_attempt rt1 ?p now = (None, rt2)" for rt2
      using that p perm capacity_released [OF _ _ cap]
      by (cases permit) (auto simp: opt_apply_def prb_begin_refused_same split: if_splits)
    have undo: "runtime_same (pguard_drop (opt_apply (\<lambda>i b. release_capacity b i) permit rt2) pg) (gs_runtime ?gs)"
      if "prb_try_begin_attempt rt1 ?p now = (Some pg, rt2)" for rt2 pg
      using that p perm capacity_begin_neutral(1) [OF _ _ cap] prb_begin_neutral(1)
      by (cases permit) (auto simp: opt_apply_def split: if_splits)
    obtain pgo rt2 where pb: "prb_try_begin_attempt rt1 ?p now = (pgo, rt2)" by (rule prod.exhaust)
    obtain kgo kh where kb: "hb_try_begin_attempt (gs_key_health ?gs) (k_id (ru_key r)) now = (kgo, kh)"
      by (rule prod.exhaust)
    obtain ego eh where eb: "hb_try_begin_attempt (gs_endpoint_health ?gs) (e_id (ru_endpoint r)) now = (ego, eh)"
      by (rule prod.exhaust)
    obtain ok quota where q: "reserve_request (gs_quota ?gs) (k_id (ru_key r)) now = (ok, quota)"
      by (rule prod.exhaust)
    show ?thesis
    proof (cases pgo)
      case None
      then show ?thesis using red acq pb drop
        by (cases permit) (auto simp: attempt_state_defs qrefl)
    next
      case pg: (Some pg)
      note undo' = undo [OF pb [unfolded pg]]
      show ?thesis
      proof (cases kgo)
        case None
        then show ?thesis using red acq pb pg kb undo' hb_begin_refused
          by (cases permit) (auto simp: attempt_state_defs qrefl)
      next
        case kg: (Some kg)
        note kundo = hb_begin_neutral(1) [OF kb [unfolded kg]]
        show ?thesis
        proof (cases ego)
          case None
          then show ?thesis using red acq pb pg kb kg eb undo' kundo hb_begin_refused
            by (cases permit) (auto simp: attempt_state_defs qrefl)
        next
          case eg: (Some eg)
          note eundo = hb_begin_neutral(1) [OF eb [unfolded eg]]
          have "resq \<and> \<not> ok" using red acq pb pg kb kg eb eg q by (auto split: if_splits)
          moreover from this q have "quota_eq_at now quota (gs_quota ?gs)"
            using reserve_request_refused by simp
          ultimately show ?thesis using red acq pb pg kb kg eb eg q undo' kundo eundo
            by (cases permit) (auto simp: attempt_state_defs)
        qed
      qed
    qed
  qed
qed

lemma reserve_attempt_neutral:
  assumes "reserve_attempt_inner r now acq resq st = (Inr rv, st')"
    and cap: "rs_in_flight (prb_entry (gs_runtime (ats_gates st)) (p_id (ru_provider r))) < u32_max"
  shows "gates_same (ats_gates (neutral_reservation now' rv st')) (ats_gates st) \<and>
         gates_same (ats_gates (drop_reservation rv now' st')) (ats_gates st)"
proof -
  obtain permit rt1 pg rt2 kg kh eg eh quota where
    p: "(if acq then try_acquire_capacity (gs_runtime (ats_gates st)) (ru_provider r)
      else (None, gs_runtime (ats_gates st))) = (permit, rt1)" "acq = (permit \<noteq> None)"
    and pb: "prb_try_begin_attempt rt1 (ru_provider r) now = (Some pg, rt2)"
    and kb: "hb_try_begin_attempt (gs_key_health (ats_gates st)) (k_id (ru_key r)) now = (Some kg, kh)"
    and eb: "hb_try_begin_attempt (gs_endpoint_health (ats_gates st)) (e_id (ru_endpoint r)) now = (Some eg, eh)"
    and rv: "rv = \<lparr>rsv_error_book = Some (p_id (ru_provider r), e_id (ru_endpoint r), k_id (ru_key r)),
               rsv_capacity = permit, rsv_provider = Some pg, rsv_endpoint = Some eg, rsv_key = Some kg\<rparr>"
    and st': "ats_gates st' = (ats_gates st)\<lparr>gs_runtime := rt2, gs_key_health := kh, gs_endpoint_health := eh,
                                         gs_quota := quota\<rparr>"
    by (rule reserve_attempt_inner_granted [OF assms(1)])
  have "runtime_same (pguard_drop (opt_apply (\<lambda>i b. release_capacity b i) permit rt2) pg) (gs_runtime (ats_gates st))"
    and "runtime_same (opt_apply (\<lambda>i b. release_capacity b i) permit (pguard_neutral rt2 pg)) (gs_runtime (ats_gates st))"
    using p pb capacity_begin_neutral [OF _ _ cap] prb_begin_neutral
    by (cases permit; auto simp: opt_apply_def split: if_splits)+
  then show ?thesis using hb_begin_neutral [OF kb] hb_begin_neutral [OF eb]
    by (cases permit) (auto simp: rv st' attempt_state_defs neutral_reservation_def take_guards_def
        neutral_guards_def neutral_provider_def neutral_key_def neutral_endpoint_def)
qed

section \<open>Whom an outcome is charged to\<close>

definition charge :: "bool \<Rightarrow> nat \<Rightarrow> nat" where
  "charge hit n = (if hit then u64_saturating_add n 1 else n)"

definition guards_id :: "health_guard option \<Rightarrow> int \<Rightarrow> bool" where
  "guards_id g i \<longleftrightarrow> is_some_and g (\<lambda>g. hg_id g = i)"

definition guards_provider :: "provider_guard option \<Rightarrow> int \<Rightarrow> bool" where
  "guards_provider g i \<longleftrightarrow> is_some_and g (\<lambda>g. p_id (pg_provider g) = i)"

lemma charge_simps [simp]: "charge False n = n" "charge True n = u64_saturating_add n 1"
  by (simp_all add: charge_def)

lemma guards_id_simps [simp]: "guards_id None i = False" "guards_id (Some g) i = (hg_id g = i)"
  by (simp_all add: guards_id_def is_some_and_def)

lemma guards_provider_simps [simp]:
  "guards_provider None i = False" "guards_provider (Some g) i = (p_id (pg_provider g) = i)"
  by (simp_all add: guards_provider_def is_some_and_def)

lemma health_success_counts:
  "hs_failure_count (health_success s t status lat now) = hs_failure_count s"
  "hs_success_count (health_success s t status lat now) = u64_saturating_add (hs_success_count s) 1"
  "hs_open_until_ms (health_success s t status lat now) \<in> {None, hs_open_until_ms s}"
  by (auto simp: health_success_def release_probe_owner_def advance_generation_def Let_def)

lemma health_failure_counts:
  "hs_failure_count (health_failure thr dur s t status et em now) = u64_saturating_add (hs_failure_count s) 1"
  "hs_success_count (health_failure thr dur s t status et em now) = hs_success_count s"
  by (auto simp: health_failure_def release_probe_owner_def advance_generation_def Let_def)

lemma health_neutral_counts [simp]:
  "hs_failure_count (health_neutral s t now) = hs_failure_count s"
  "hs_success_count (health_neutral s t now) = hs_success_count s"
  "hs_open_until_ms (health_neutral s t now) = hs_open_until_ms s"
  by (auto simp: health_neutral_eq)

lemma runtime_success_counts:
  "rs_failure_count (runtime_success p s t status lat now) = rs_failure_count s"
  "rs_success_count (runtime_success p s t status lat now) = u64_saturating_add (rs_success_count s) 1"
  "rs_open_until_ms (runtime_success p s t status lat now) \<in> {None, rs_open_until_ms s}"
  by (auto simp: runtime_success_def runtime_release_probe_def runtime_advance_generation_def
      clear_breaker_state_def Let_def)

lemma runtime_failure_counts:
  "rs_failure_count (snd (runtime_failure p s t status et em now)) = u64_saturating_add (rs_failure_count s) 1"
  "rs_success_count (snd (runtime_failure p s t status et em now)) = rs_success_count s"
  by (auto simp: runtime_failure_def runtime_release_probe_def runtime_advance_generation_def Let_def)

lemma runtime_neutral_counts [simp]:
  "rs_failure_count (runtime_neutral s t) = rs_failure_count s"
  "rs_success_count (runtime_neutral s t) = rs_success_count s"
  "rs_open_until_ms (runtime_neutral s t) = rs_open_until_ms s"
  "rs_in_flight (runtime_neutral s t) = rs_in_flight s"
  by (auto simp: runtime_neutral_def runtime_release_probe_def)

text \<open>One layer of health after its guard ended: who was charged, and that nothing else cools down.\<close>

definition health_layer :: "bool \<Rightarrow> bool \<Rightarrow> health_guard option \<Rightarrow> health_book \<Rightarrow> health_book \<Rightarrow> bool" where
  "health_layer fails succeeds g b b' \<longleftrightarrow>
     (\<forall>i. hs_failure_count (hb_entry b' i) = charge (fails \<and> guards_id g i) (hs_failure_count (hb_entry b i)) \<and>
          hs_success_count (hb_entry b' i) = charge (succeeds \<and> guards_id g i) (hs_success_count (hb_entry b i)) \<and>
          (\<not> (fails \<and> guards_id g i) \<longrightarrow>
             hs_open_until_ms (hb_entry b' i) \<in> {None, hs_open_until_ms (hb_entry b i)}))"

definition runtime_layer :: "bool \<Rightarrow> bool \<Rightarrow> provider_guard option \<Rightarrow> provider_runtime_book \<Rightarrow> provider_runtime_book \<Rightarrow> bool" where
  "runtime_layer fails succeeds g b b' \<longleftrightarrow>
     (\<forall>i. rs_failure_count (prb_entry b' i) = charge (fails \<and> guards_provider g i) (rs_failure_count (prb_entry b i)) \<and>
          rs_success_count (prb_entry b' i) = charge (succeeds \<and> guards_provider g i) (rs_success_count (prb_entry b i)) \<and>
          rs_in_flight (prb_entry b' i) = rs_in_flight (prb_entry b i) \<and>
          (\<not> (fails \<and> guards_provider g i) \<longrightarrow>
             rs_open_until_ms (prb_entry b' i) \<in> {None, rs_open_until_ms (prb_entry b i)}))"

lemma hb_entry_put_if: "hb_entry (hb_put b i s) j = (if i = j then s else hb_entry b j)"
  by simp

lemma prb_entry_put_if: "prb_entry (prb_put b i s) j = (if i = j then s else prb_entry b j)"
  by simp

lemma hb_finish_neutral_entry_eq:
  "hb_entry (hb_finish_neutral b i t now) j =
     (if i = j \<and> hb_by_id b i \<noteq> None then health_neutral (hb_entry b j) t now else hb_entry b j)"
  by (cases "hb_by_id b i") (auto simp: hb_finish_neutral_def hb_entry_def hb_put_def unwrap_or_def)

lemma hb_finish_neutral_entry:
  "hs_failure_count (hb_entry (hb_finish_neutral b i t now) j) = hs_failure_count (hb_entry b j)"
  "hs_success_count (hb_entry (hb_finish_neutral b i t now) j) = hs_success_count (hb_entry b j)"
  "hs_open_until_ms (hb_entry (hb_finish_neutral b i t now) j) = hs_open_until_ms (hb_entry b j)"
  by (simp_all add: hb_finish_neutral_entry_eq)

lemma prb_finish_neutral_entry_eq:
  "prb_entry (prb_finish_neutral b i t) j =
     (if i = j \<and> prb_by_provider b i \<noteq> None then runtime_neutral (prb_entry b j) t else prb_entry b j)"
  by (cases "prb_by_provider b i") (auto simp: prb_finish_neutral_def prb_entry_def prb_put_def unwrap_or_def)

lemma prb_finish_neutral_entry:
  "rs_failure_count (prb_entry (prb_finish_neutral b i t) j) = rs_failure_count (prb_entry b j)"
  "rs_success_count (prb_entry (prb_finish_neutral b i t) j) = rs_success_count (prb_entry b j)"
  "rs_open_until_ms (prb_entry (prb_finish_neutral b i t) j) = rs_open_until_ms (prb_entry b j)"
  "rs_in_flight (prb_entry (prb_finish_neutral b i t) j) = rs_in_flight (prb_entry b j)"
  by (simp_all add: prb_finish_neutral_entry_eq)

lemma health_layer_none: "health_layer f s None b b"
  by (simp add: health_layer_def)

lemma health_layer_success: "health_layer False True (Some g) b (guard_success b g status lat now)"
  using health_success_counts [where s = "hb_entry b (hg_id g)"]
  by (auto simp: health_layer_def guard_success_def guard_drop_def hb_finish_success_def Let_def hb_entry_put_if)

lemma health_layer_failure: "health_layer True False (Some g) b (guard_failure b g status et em now)"
  by (auto simp: health_layer_def guard_failure_def guard_drop_def hb_finish_failure_def Let_def
      hb_entry_put_if health_failure_counts)

lemma health_layer_neutral: "health_layer False False g b (opt_apply (\<lambda>g b. guard_neutral b g now) g b)"
  by (cases g) (auto simp: health_layer_def opt_apply_def guard_neutral_def guard_drop_def Let_def
      hb_finish_neutral_entry)

lemma health_layer_neutral_some: "health_layer False False (Some g) b (guard_neutral b g now)"
  using health_layer_neutral [of "Some g"] by (simp add: opt_apply_def)

lemma runtime_layer_none: "runtime_layer f s None b b"
  by (simp add: runtime_layer_def)

lemma runtime_layer_success: "runtime_layer False True (Some g) b (pguard_success b g status lat now)"
  using runtime_success_counts [where s = "prb_entry b (p_id (pg_provider g))"]
  by (auto simp: runtime_layer_def pguard_success_def pguard_drop_def prb_finish_success_def Let_def
      prb_entry_put_if runtime_success_sel)

lemma runtime_layer_failure: "runtime_layer True False (Some g) b (snd (pguard_failure b g status et em now))"
  by (auto simp: runtime_layer_def pguard_failure_def pguard_drop_def prb_finish_failure_def Let_def
      case_prod_unfold prb_entry_put_if runtime_failure_counts runtime_failure_sel)

lemma runtime_layer_neutral: "runtime_layer False False g b (opt_apply (\<lambda>g b. pguard_neutral b g) g b)"
  by (cases g) (auto simp: runtime_layer_def opt_apply_def pguard_neutral_def pguard_drop_def Let_def
      prb_finish_neutral_entry)

lemma runtime_layer_neutral_some: "runtime_layer False False (Some g) b (pguard_neutral b g)"
  using runtime_layer_neutral [of "Some g"] by (simp add: opt_apply_def)

lemma runtime_layer_record_error:
  "runtime_layer f s g (record_error b p e k c st now) b' = runtime_layer f s g b b'"
  by (simp add: runtime_layer_def prb_entry_def record_error_def Let_def)

text \<open>Each step of an outcome touches one book.\<close>

lemma opt_apply_books:
  fixes f :: "'g \<Rightarrow> health_book \<Rightarrow> health_book" and h :: "'g \<Rightarrow> provider_runtime_book \<Rightarrow> provider_runtime_book"
  shows "gs_key_health (ats_gates (opt_apply (\<lambda>g. on_key_health (f g)) x st)) = opt_apply f x (gs_key_health (ats_gates st))"
    "gs_endpoint_health (ats_gates (opt_apply (\<lambda>g. on_key_health (f g)) x st)) = gs_endpoint_health (ats_gates st)"
    "gs_runtime (ats_gates (opt_apply (\<lambda>g. on_key_health (f g)) x st)) = gs_runtime (ats_gates st)"
    "gs_quota (ats_gates (opt_apply (\<lambda>g. on_key_health (f g)) x st)) = gs_quota (ats_gates st)"
    "gs_key_health (ats_gates (opt_apply (\<lambda>g. on_endpoint_health (f g)) x st)) = gs_key_health (ats_gates st)"
    "gs_endpoint_health (ats_gates (opt_apply (\<lambda>g. on_endpoint_health (f g)) x st)) = opt_apply f x (gs_endpoint_health (ats_gates st))"
    "gs_runtime (ats_gates (opt_apply (\<lambda>g. on_endpoint_health (f g)) x st)) = gs_runtime (ats_gates st)"
    "gs_quota (ats_gates (opt_apply (\<lambda>g. on_endpoint_health (f g)) x st)) = gs_quota (ats_gates st)"
    "gs_key_health (ats_gates (opt_apply (\<lambda>g. on_runtime (h g)) x st)) = gs_key_health (ats_gates st)"
    "gs_endpoint_health (ats_gates (opt_apply (\<lambda>g. on_runtime (h g)) x st)) = gs_endpoint_health (ats_gates st)"
    "gs_runtime (ats_gates (opt_apply (\<lambda>g. on_runtime (h g)) x st)) = opt_apply h x (gs_runtime (ats_gates st))"
    "gs_quota (ats_gates (opt_apply (\<lambda>g. on_runtime (h g)) x st)) = gs_quota (ats_gates st)"
  by (cases x; simp add: opt_apply_def on_key_health_def on_endpoint_health_def on_runtime_def)+

lemma provider_failure_books:
  "gs_key_health (ats_gates (provider_failure oc now rv st)) = gs_key_health (ats_gates st)"
  "gs_endpoint_health (ats_gates (provider_failure oc now rv st)) = gs_endpoint_health (ats_gates st)"
  "gs_quota (ats_gates (provider_failure oc now rv st)) = gs_quota (ats_gates st)"
  "gs_runtime (ats_gates (provider_failure oc now rv st)) =
     opt_apply (\<lambda>g b. snd (pguard_failure b g (ao_status oc) (unwrap_or (ao_error_type oc) ''upstream_error'')
        (unwrap_or (ao_error_message oc) ''upstream attempt failed'') now)) (rsv_provider rv) (gs_runtime (ats_gates st))"
  by (cases "rsv_provider rv"; simp add: provider_failure_def opt_apply_def on_runtime_def case_prod_unfold Let_def)+

lemma record_books:
  fixes x :: "(int \<times> int \<times> int) option" and c status now
  defines "rec \<equiv> \<lambda>st. opt_apply (\<lambda>(provider, endpoint, key).
             on_runtime (\<lambda>b. record_error b provider endpoint key c status now)) x st"
  shows "gs_key_health (ats_gates (rec st)) = gs_key_health (ats_gates st)"
    "gs_endpoint_health (ats_gates (rec st)) = gs_endpoint_health (ats_gates st)"
    "gs_quota (ats_gates (rec st)) = gs_quota (ats_gates st)"
    "runtime_layer f s g (gs_runtime (ats_gates (rec st))) b' = runtime_layer f s g (gs_runtime (ats_gates st)) b'"
  by (cases x; auto simp: rec_def opt_apply_def on_runtime_def runtime_layer_record_error)+

lemmas book_writes = finish_with_scope_def endpoint_success_def key_success_def
  neutral_provider_def neutral_key_def neutral_endpoint_def Let_def opt_apply_books provider_failure_books

lemmas book_steps = book_writes record_books

lemma health_layer_steps:
  "health_layer False True g b (opt_apply (\<lambda>g b. guard_success b g status lat now) g b)"
  "health_layer True False g b (opt_apply (\<lambda>g b. guard_failure b g status et em now) g b)"
  "health_layer False False g b (opt_apply (\<lambda>g b. guard_neutral b g now) g b)"
  by (cases g; simp add: opt_apply_def health_layer_none health_layer_success health_layer_failure
      health_layer_neutral_some)+

lemma runtime_layer_steps:
  "runtime_layer False True g b (opt_apply (\<lambda>g b. pguard_success b g status lat now) g b)"
  "runtime_layer True False g b (opt_apply (\<lambda>g b. snd (pguard_failure b g status et em now)) g b)"
  "runtime_layer False False g b (opt_apply (\<lambda>g b. pguard_neutral b g) g b)"
  by (cases g; simp add: opt_apply_def runtime_layer_none runtime_layer_success runtime_layer_failure
      runtime_layer_neutral_some)+

lemma finish_with_scope_layers:
  assumes "finish_with_scope oc scope now rv st = (rv', st')"
  shows "rv' = take_guards rv" "gs_quota (ats_gates st') = gs_quota (ats_gates st)"
    and "health_layer (scope = ScopeKey) (scope \<in> {ScopeSuccess, ScopeModel, ScopeClient}) (rsv_key rv)
           (gs_key_health (ats_gates st)) (gs_key_health (ats_gates st'))"
    and "health_layer (scope = ScopeProvider) (scope \<in> {ScopeSuccess, ScopeKey, ScopeModel, ScopeClient})
           (rsv_endpoint rv) (gs_endpoint_health (ats_gates st)) (gs_endpoint_health (ats_gates st'))"
    and "runtime_layer (scope = ScopeProvider) (scope = ScopeSuccess) (rsv_provider rv)
           (gs_runtime (ats_gates st)) (gs_runtime (ats_gates st'))"
proof -
  have rv: "rv' = take_guards rv" and st: "st' = snd (finish_with_scope oc scope now rv st)"
    using assms by (simp_all add: finish_with_scope_def Let_def)
  show "rv' = take_guards rv" by (rule rv)
  show "gs_quota (ats_gates st') = gs_quota (ats_gates st)"
    by (cases scope; simp add: st book_steps)
  show "health_layer (scope = ScopeKey) (scope \<in> {ScopeSuccess, ScopeModel, ScopeClient}) (rsv_key rv)
           (gs_key_health (ats_gates st)) (gs_key_health (ats_gates st'))"
    by (cases scope; simp add: st book_steps health_layer_steps)
  show "health_layer (scope = ScopeProvider) (scope \<in> {ScopeSuccess, ScopeKey, ScopeModel, ScopeClient})
           (rsv_endpoint rv) (gs_endpoint_health (ats_gates st)) (gs_endpoint_health (ats_gates st'))"
    by (cases scope; simp add: st book_steps health_layer_steps)
  show "runtime_layer (scope = ScopeProvider) (scope = ScopeSuccess) (rsv_provider rv)
           (gs_runtime (ats_gates st)) (gs_runtime (ats_gates st'))"
  proof (cases "scope = ScopeSuccess")
    case True
    then show ?thesis by (simp add: st book_steps runtime_layer_steps)
  next
    case False
    let ?st = "opt_apply (\<lambda>(provider, endpoint, key).
             on_runtime (\<lambda>b. record_error b provider endpoint key (scope_name scope) (ao_status oc) now))
             (rsv_error_book rv) st"
    have "runtime_layer (scope = ScopeProvider) (scope = ScopeSuccess) (rsv_provider rv)
           (gs_runtime (ats_gates ?st)) (gs_runtime (ats_gates st'))"
      using False by (cases scope; simp add: st book_writes runtime_layer_steps)
    then show ?thesis by (simp only: record_books)
  qed
qed

section \<open>When a reservation is granted\<close>

lemma begin_after_acquire:
  assumes "try_acquire_capacity b p = (Some i, b1)"
  shows "fst (prb_try_begin_attempt b1 p now) = None \<longleftrightarrow> fst (prb_try_begin_attempt b p now) = None"
  using assms
  by (auto simp: try_acquire_capacity_def prb_try_begin_attempt_def runtime_begin_def circuit_state_of_def
      Let_def split: circuit_state.splits option.splits if_splits)

lemma reserve_granted_iff:
  assumes "resilience_valid (ru_provider r)" and "p_enabled (ru_provider r)"
  shows "isl (fst (reserve_attempt r now st)) \<longleftrightarrow>
     \<not> (rv_available (prb_snapshot (gs_runtime (ats_gates st)) (ru_provider r) now) \<and>
        hv_available (hb_snapshot (gs_key_health (ats_gates st)) (k_id (ru_key r)) now) \<and>
        hv_available (hb_snapshot (gs_endpoint_health (ats_gates st)) (e_id (ru_endpoint r)) now) \<and>
        fst (quota_is_available (gs_quota (ats_gates st)) (k_id (ru_key r)) now))"
proof -
  let ?gs = "ats_gates st" and ?p = "ru_provider r"
  obtain permit rt1 where p: "try_acquire_capacity (gs_runtime ?gs) ?p = (permit, rt1)" by (rule prod.exhaust)
  obtain pgo rt2 where pb: "prb_try_begin_attempt rt1 ?p now = (pgo, rt2)" by (rule prod.exhaust)
  obtain kgo kh where kb: "hb_try_begin_attempt (gs_key_health ?gs) (k_id (ru_key r)) now = (kgo, kh)"
    by (rule prod.exhaust)
  obtain ego eh where eb: "hb_try_begin_attempt (gs_endpoint_health ?gs) (e_id (ru_endpoint r)) now = (ego, eh)"
    by (rule prod.exhaust)
  obtain ok quota where q: "reserve_request (gs_quota ?gs) (k_id (ru_key r)) now = (ok, quota)"
    by (rule prod.exhaust)
  have runtime: "rv_available (prb_snapshot (gs_runtime ?gs) ?p now) \<longleftrightarrow> permit \<noteq> None \<and> pgo \<noteq> None"
    using assms begin_after_acquire [of "gs_runtime ?gs" ?p _ rt1 now] p pb
    by (cases permit) (auto simp: prb_snapshot_available [OF assms(1)])
  have "fst (quota_is_available (gs_quota ?gs) (k_id (ru_key r)) now) = ok"
    using q by (auto simp: quota_available_entry reserve_request_def quota_reserve_fst [symmetric] split: prod.splits)
  then show ?thesis
    unfolding reserve_attempt_def reserve_attempt_inner_def runtime hb_snapshot_available
    using p pb kb eb q
    by (cases permit; cases pgo; cases kgo; cases ego) (simp_all add: Let_def)
qed

section \<open>Properties\<close>

text \<open>C3: a reservation is all or nothing.  Refused by any book, it leaves the provider runtime, the
  key health and the endpoint health as they were (only the number of a later probe and the time of
  the last update may differ) and takes nothing from the quota; granted and then ended without an
  outcome, by a call or by being dropped, it gives back its permit and its probes at any later time.\<close>

theorem reservation_all_or_nothing:
  assumes "rs_in_flight (prb_entry (gs_runtime (ats_gates st)) (p_id (ru_provider r))) < u32_max"
  shows "case reserve_attempt r now st of
           (Inl e, st') \<Rightarrow> gates_same (ats_gates st') (ats_gates st) \<and>
                          quota_eq_at now (gs_quota (ats_gates st')) (gs_quota (ats_gates st))
         | (Inr rv, st') \<Rightarrow> gates_same (ats_gates (neutral_reservation now' rv st')) (ats_gates st) \<and>
                           gates_same (ats_gates (drop_reservation rv now' st')) (ats_gates st)"
  using reserve_attempt_refused [OF _ assms] reserve_attempt_neutral [OF _ assms]
  by (auto simp: reserve_attempt_def split: prod.splits sum.splits)

text \<open>The gateway reserves an attempt exactly when the checks it makes beforehand would have
  passed at that moment: the snapshots of the provider, the key and the endpoint say available and
  the key's quota has room (for an enabled provider the admin interface accepts).\<close>

theorem reservation_matches_checks:
  assumes "resilience_valid (ru_provider r)" and "p_enabled (ru_provider r)"
  shows "isl (fst (reserve_attempt r now st)) \<longleftrightarrow>
     \<not> (rv_available (prb_snapshot (gs_runtime (ats_gates st)) (ru_provider r) now) \<and>
        hv_available (hb_snapshot (gs_key_health (ats_gates st)) (k_id (ru_key r)) now) \<and>
        hv_available (hb_snapshot (gs_endpoint_health (ats_gates st)) (e_id (ru_endpoint r)) now) \<and>
        fst (quota_is_available (gs_quota (ats_gates st)) (k_id (ru_key r)) now))"
  by (rule reserve_granted_iff [OF assms])

text \<open>C4: the outcome of an attempt is charged to exactly the layer its scope names.  A failure is
  counted for the key under a key scope, for the endpoint and the provider under a provider scope,
  and for nobody under a quota, model or client scope; success is counted for an endpoint that
  answered at all, for a key that was accepted and for a provider only when the request succeeded;
  no other key, endpoint or provider starts to cool down, no quota and no in-flight count moves, and
  the guards are spent.\<close>

theorem outcome_charged_once:
  assumes "finish_with_scope oc scope now rv st = (rv', st')"
  shows "rv' = take_guards rv \<and> gs_quota (ats_gates st') = gs_quota (ats_gates st) \<and>
    health_layer (scope = ScopeKey) (scope \<in> {ScopeSuccess, ScopeModel, ScopeClient}) (rsv_key rv)
      (gs_key_health (ats_gates st)) (gs_key_health (ats_gates st')) \<and>
    health_layer (scope = ScopeProvider) (scope \<in> {ScopeSuccess, ScopeKey, ScopeModel, ScopeClient})
      (rsv_endpoint rv) (gs_endpoint_health (ats_gates st)) (gs_endpoint_health (ats_gates st')) \<and>
    runtime_layer (scope = ScopeProvider) (scope = ScopeSuccess) (rsv_provider rv)
      (gs_runtime (ats_gates st)) (gs_runtime (ats_gates st'))"
  using finish_with_scope_layers [OF assms] by blast

section \<open>Witnesses\<close>

definition wit_attempt_state :: attempt_state where
  "wit_attempt_state = \<lparr>ats_gates = wit_gates, ats_breaker_opens = 0, ats_breaker_probes = 0\<rparr>"

lemma wit_attempt_state_sel [simp]: "ats_gates wit_attempt_state = wit_gates"
  by (simp add: wit_attempt_state_def)

lemma wit_attempt_parts [simp]:
  "ru_provider (wit_attempt k) = wit_provider" "k_id (ru_key (wit_attempt k)) = k"
  "e_id (ru_endpoint (wit_attempt k)) = 3"
  by (simp_all add: wit_attempt_def)

theorem reservation_all_or_nothing_witness:
  "case reserve_attempt (wit_attempt 4) 100 wit_attempt_state of
     (Inl e, st') \<Rightarrow> gates_same (ats_gates st') (ats_gates wit_attempt_state) \<and>
                    quota_eq_at 100 (gs_quota (ats_gates st')) (gs_quota (ats_gates wit_attempt_state))
   | (Inr rv, st') \<Rightarrow> gates_same (ats_gates (neutral_reservation 200 rv st')) (ats_gates wit_attempt_state) \<and>
                     gates_same (ats_gates (drop_reservation rv 200 st')) (ats_gates wit_attempt_state)"
  by (rule reservation_all_or_nothing)
    (simp add: wit_gates_def prb_entry_def runtime_book_new_def unwrap_or_def runtime_default_def u32_max_def)

theorem reservation_matches_checks_witness:
  "\<not> isl (fst (reserve_attempt (wit_attempt 4) 100 wit_attempt_state))"
proof -
  have "resilience_valid wit_provider" "p_enabled wit_provider" by code_simp+
  moreover from this have "rv_available (prb_snapshot runtime_book_new wit_provider 100)"
    using wit_runtime_admits by (simp add: prb_snapshot_available)
  moreover have "hv_available (hb_snapshot (health_book_new 5 60000) i 100)" for i
    using wit_health_admits by (simp add: hb_snapshot_available)
  ultimately show ?thesis
    using reservation_matches_checks [of "wit_attempt 4" 100 wit_attempt_state]
    by (simp add: wit_gates_def quota_is_available_def)
qed

definition wit_reservation :: reservation where
  "wit_reservation =
     \<lparr>rsv_error_book = Some (2, 3, 4), rsv_capacity = Some 2, rsv_provider = None,
      rsv_endpoint = Some \<lparr>hg_id = 3, hg_token = \<lparr>tk_generation = 1, tk_probe_id = None\<rparr>, hg_active = True\<rparr>,
      rsv_key = Some \<lparr>hg_id = 4, hg_token = \<lparr>tk_generation = 1, tk_probe_id = None\<rparr>, hg_active = True\<rparr>\<rparr>"

definition wit_finished :: "reservation \<times> attempt_state" where
  "wit_finished = finish_with_scope (outcome_local_provider (Some 504) ''t'' ''m'' None) ScopeProvider 100
     wit_reservation wit_attempt_state"

theorem outcome_charged_once_witness:
  "hs_failure_count (hb_entry (gs_endpoint_health (ats_gates (snd wit_finished))) 3) = 1 \<and>
   hs_failure_count (hb_entry (gs_key_health (ats_gates (snd wit_finished))) 4) = 0"
proof -
  have "finish_with_scope (outcome_local_provider (Some 504) ''t'' ''m'' None) ScopeProvider 100
     wit_reservation wit_attempt_state = (fst wit_finished, snd wit_finished)"
    by (simp add: wit_finished_def)
  from outcome_charged_once [OF this]
  have "health_layer False False (rsv_key wit_reservation) (gs_key_health wit_gates)
      (gs_key_health (ats_gates (snd wit_finished)))"
    and "health_layer True False (rsv_endpoint wit_reservation) (gs_endpoint_health wit_gates)
      (gs_endpoint_health (ats_gates (snd wit_finished)))"
    by simp_all
  then show ?thesis
    by (simp add: health_layer_def wit_reservation_def wit_gates_def hb_entry_def health_book_new_def
        unwrap_or_def health_default_def u64_saturating_add_def u64_max_def)
qed

end
