(* ===== verification/Request_Loop.thy ===== *)
theory Request_Loop
  imports Attempt
begin

text \<open>
  \<open>src/backend/src/proxy.rs\<close>, the attempt loop of \<open>proxy_openai\<close>: it walks the attempts of a plan,
  skips those the request has excluded, that have no budget left or that a book refuses, reserves
  one, builds the upstream request, sends it, and either answers the client, moves on to the next
  candidate or gives up.  What the outside decides during one attempt (clock readings, whether a
  body could be converted, what the network answered) is the record \<open>attempt_world\<close>; other
  requests change the books while the loop waits: \<open>aw_during n\<close> is what they do at the n-th await
  point of an attempt.  Bodies and headers of the request itself are not represented: only
  whether building them succeeded matters to the loop.  Logging and the counters of the metrics
  that no decision reads are left out.
\<close>

section \<open>Data\<close>

datatype dispatch_error = DispatchRequest string | DispatchTimeout

definition dispatch_error_to_http :: "string \<Rightarrow> dispatch_error \<Rightarrow> int \<times> string \<times> string" where
  "dispatch_error_to_http timeout_text err =
     (case err of
        DispatchRequest message \<Rightarrow> (502, ''upstream_request_error'', message)
      | DispatchTimeout \<Rightarrow> (504, ''upstream_timeout'', ''upstream request timeout after '' @ timeout_text))"

record attempt_failure =
  atf_target :: "(int \<times> int \<times> int) option"
  atf_status :: int
  atf_error_type :: string
  atf_error_message :: string

definition attempt_failure_new :: "'d resolved_upstream \<Rightarrow> int \<Rightarrow> string \<Rightarrow> string \<Rightarrow> attempt_failure" where
  "attempt_failure_new r status error_type message =
     \<lparr>atf_target = Some (p_id (ru_provider r), e_id (ru_endpoint r), k_id (ru_key r)),
      atf_status = status, atf_error_type = error_type, atf_error_message = message\<rparr>"

text \<open>
  An upstream response: its status and headers, and what reading its body would show: a rejection
  of encrypted content, usage in a body with a retryable status, an error that names the model, a
  failed SSE preflight, a body that could not be collected or converted.
\<close>

record upstream_reply =
  ur_status :: int
  ur_headers :: headers
  ur_encrypted_rejected :: bool
  ur_has_usage :: bool
  ur_model_scoped :: bool
  ur_preflight_error :: "string option"
  ur_collect_error :: "string option"
  ur_convert_error :: "string option"

type_synonym dispatched = "dispatch_error + upstream_reply"

record begin_reading =
  br_available_at :: int
  br_clock :: clock_readings
  br_jitter :: nat

record attempt_world =
  aw_check_ms :: int
  aw_reserve_ms :: int
  aw_begin :: begin_reading
  aw_convert_error :: "string option"
  aw_rewrite_ok :: bool
  aw_normalized :: "string + bool"
  aw_body_override_error :: "string option"
  aw_uri_error :: "string option"
  aw_auth_error :: "(int \<times> string \<times> string) option"
  aw_header_override_error :: "string option"
  aw_now_ms :: int
  aw_during :: "nat \<Rightarrow> attempt_state \<Rightarrow> attempt_state"
  aw_dispatch :: dispatched
  aw_refreshed :: bool
  aw_retry_header_error :: "string option"
  aw_replay :: begin_reading
  aw_replay_dispatch :: dispatched
  aw_cleaned :: bool
  aw_recover :: begin_reading
  aw_recover_dispatch :: dispatched
  aw_retry_available_at :: int
  aw_latency_ms :: int

text \<open>What does not change during the request.\<close>

record 'd loop_config =
  lc_attempts :: "'d resolved_upstream list"
  lc_model :: string
  lc_identity :: "affinity_identity option"
  lc_binding :: "affinity_binding option"
  lc_recovery_enabled :: bool
  lc_fallback_ms :: int
  lc_timeout_text :: string
  lc_http_date :: "string \<Rightarrow> int option"
  lc_rfc3339 :: "string \<Rightarrow> int option"

text \<open>
  The log keeps, in their order, the upstream requests that were sent (what \<open>attempts_sent\<close> of the
  routing trace counts) and the attempts that were noted as failed, with their scope.
\<close>

datatype loop_event = Sent int int int | Failed int int int failure_scope

record loop_state =
  ls_gates :: attempt_state
  ls_affinity :: affinity_book
  ls_budget :: attempt_budget
  ls_exclusions :: attempt_exclusions
  ls_last_failure :: "attempt_failure option"
  ls_faulted :: "int set"
  ls_last_provider :: "int option"
  ls_provider_switches :: nat
  ls_recovery_retries :: nat
  ls_log :: "loop_event list"

text \<open>What the body of a response is handed over with (\<open>TapConfig\<close>), and how the loop ends.\<close>

datatype tap_kind = TapPlain | TapConverted | TapCollected

record 'd tap_config =
  tc_target :: "'d resolved_upstream"
  tc_status :: int
  tc_binding :: "affinity_binding option"
  tc_identity :: "affinity_identity option"
  tc_should_migrate :: bool
  tc_codex :: bool

datatype 'd loop_exit =
    ErrorReply int string
  | RetryReply int string "int option"
  | TapReply tap_kind "'d tap_config" reservation "int option"

datatype 'd loop_signal = Next | Stop | Exit "'d loop_exit"

section \<open>Updates of the loop state\<close>

definition on_gates :: "(attempt_state \<Rightarrow> attempt_state) \<Rightarrow> loop_state \<Rightarrow> loop_state" where
  "on_gates f ls = ls\<lparr>ls_gates := f (ls_gates ls)\<rparr>"

definition on_quota :: "(quota_book \<Rightarrow> quota_book) \<Rightarrow> loop_state \<Rightarrow> loop_state" where
  "on_quota f = on_gates (\<lambda>st. st\<lparr>ats_gates := (ats_gates st)\<lparr>gs_quota := f (gs_quota (ats_gates st))\<rparr>\<rparr>)"

definition log_event :: "loop_event \<Rightarrow> loop_state \<Rightarrow> loop_state" where
  "log_event e ls = ls\<lparr>ls_log := ls_log ls @ [e]\<rparr>"

definition fail_with :: "attempt_failure \<Rightarrow> loop_state \<Rightarrow> loop_state" where
  "fail_with f ls = ls\<lparr>ls_last_failure := Some f\<rparr>"

abbreviation is_codex :: "'d resolved_upstream \<Rightarrow> bool" where
  "is_codex r \<equiv> p_provider_type (ru_provider r) = CODEX_PROVIDER_TYPE"

definition has_budget :: "'d resolved_upstream \<Rightarrow> int \<Rightarrow> loop_state \<Rightarrow> bool" where
  "has_budget r t ls \<longleftrightarrow>
     budget_available (ls_budget ls) t \<and>
     provider_available (ls_budget ls) (p_id (ru_provider r)) (p_max_attempts (ru_provider r))"

definition begin_budget :: "begin_reading \<Rightarrow> loop_state \<Rightarrow> bool \<times> loop_state" where
  "begin_budget br ls =
     (case begin_send (ls_budget ls) (br_clock br) (br_jitter br) of
        (ok, b) \<Rightarrow> (ok, ls\<lparr>ls_budget := b\<rparr>))"

text \<open>One request goes out: \<open>attempts_sent += 1\<close> and \<open>note_send\<close>.\<close>

definition send :: "'d resolved_upstream \<Rightarrow> loop_state \<Rightarrow> loop_state" where
  "send r ls =
     log_event (Sent (p_id (ru_provider r)) (e_id (ru_endpoint r)) (k_id (ru_key r)))
       (ls\<lparr>ls_budget := note_send (ls_budget ls) (p_id (ru_provider r))\<rparr>)"

text \<open>\<open>note_attempt\<close> and the \<open>avoid_\<close> call that goes with the scope.\<close>

definition avoid_scope :: "failure_scope \<Rightarrow> 'd resolved_upstream \<Rightarrow> attempt_exclusions \<Rightarrow> attempt_exclusions" where
  "avoid_scope scope r x =
     (case scope of
        ScopeModel \<Rightarrow> avoid_provider x (p_id (ru_provider r))
      | ScopeKey \<Rightarrow> avoid_key x (k_id (ru_key r))
      | ScopeQuota \<Rightarrow> avoid_key x (k_id (ru_key r))
      | ScopeProvider \<Rightarrow> avoid_endpoint x (e_id (ru_endpoint r))
      | ScopeSuccess \<Rightarrow> x
      | ScopeClient \<Rightarrow> x)"

definition exclude :: "failure_scope \<Rightarrow> 'd resolved_upstream \<Rightarrow> loop_state \<Rightarrow> loop_state" where
  "exclude scope r ls =
     log_event (Failed (p_id (ru_provider r)) (e_id (ru_endpoint r)) (k_id (ru_key r)) scope)
       (ls\<lparr>ls_exclusions := avoid_scope scope r (note_attempt (ls_exclusions ls) r)\<rparr>)"

text \<open>The session leaves a provider once no other candidate of it is left.\<close>

definition note_provider_lost ::
  "'d loop_config \<Rightarrow> nat \<Rightarrow> 'd resolved_upstream \<Rightarrow> failure_scope \<Rightarrow> int \<Rightarrow> loop_state \<Rightarrow> loop_state" where
  "note_provider_lost cfg index r scope now ls =
     (if has_remaining_provider_candidate (lc_attempts cfg) (index + 1) (ls_exclusions ls) (p_id (ru_provider r))
      then ls
      else (case note_affinity_failure (ls_affinity ls) r scope (lc_identity cfg) (ls_faulted ls) now of
              (book, faulted) \<Rightarrow> ls\<lparr>ls_affinity := book, ls_faulted := faulted\<rparr>))"

text \<open>
  The common end of an attempt that failed before or instead of a response: finish the reservation,
  exclude the target, tell the affinity book, and continue if a candidate is left.
\<close>

definition fail_over ::
  "'d loop_config \<Rightarrow> nat \<Rightarrow> 'd resolved_upstream \<Rightarrow> int \<Rightarrow> failure_scope \<Rightarrow> bool \<Rightarrow> attempt_outcome
     \<Rightarrow> attempt_failure \<Rightarrow> (gate_state \<Rightarrow> 'd loop_exit \<times> gate_state) \<Rightarrow> reservation \<Rightarrow> loop_state
     \<Rightarrow> 'd loop_signal \<times> loop_state" where
  "fail_over cfg index r now scope affects_affinity oc failure answer rv ls0 =
     (let ls1 = exclude scope r (on_gates (finish_reservation oc now rv) ls0);
          ls2 = (if affects_affinity then note_provider_lost cfg index r scope now ls1 else ls1);
          ls3 = fail_with failure ls2
      in if has_remaining_candidate (lc_attempts cfg) (index + 1) (ls_exclusions ls3) then (Next, ls3)
         else (case answer (ats_gates (ls_gates ls3)) of
                 (e, gs) \<Rightarrow> (Exit e, on_gates (\<lambda>st. st\<lparr>ats_gates := gs\<rparr>) ls3)))"

definition answer_error :: "int \<Rightarrow> string \<Rightarrow> gate_state \<Rightarrow> 'd loop_exit \<times> gate_state" where
  "answer_error status error_type gs = (ErrorReply status error_type, gs)"

definition answer_retry ::
  "'d loop_config \<Rightarrow> int \<Rightarrow> int \<Rightarrow> string \<Rightarrow> gate_state \<Rightarrow> 'd loop_exit \<times> gate_state" where
  "answer_retry cfg now status error_type gs =
     (case plan_retry_times gs now (lc_attempts cfg) of
        (untils, gs') \<Rightarrow>
          (RetryReply status error_type (opt_filter (\<lambda>until. now < until) (iter_min untils)), gs'))"

section \<open>One attempt, step by step\<close>

text \<open>
  Steps that may end the attempt return a signal or a value to go on with; \<open>then_step\<close> runs the
  next step on the value.
\<close>

definition then_step ::
  "('x + 'a) \<times> 's \<Rightarrow> ('a \<Rightarrow> 's \<Rightarrow> ('x + 'b) \<times> 's) \<Rightarrow> ('x + 'b) \<times> 's" where
  "then_step m f = (case m of (Inl x, s) \<Rightarrow> (Inl x, s) | (Inr a, s) \<Rightarrow> f a s)"

text \<open>Skip, budget, the checks before the backoff, the backoff, the reservation.\<close>

definition admit_attempt ::
  "'d resolved_upstream \<Rightarrow> attempt_world \<Rightarrow> loop_state \<Rightarrow> ('d loop_signal + reservation) \<times> loop_state" where
  "admit_attempt r w ls =
     (let gs = ats_gates (ls_gates ls); now = aw_check_ms w in
      if should_skip (ls_exclusions ls) r then (Inl Next, ls)
      else if \<not> budget_available (ls_budget ls) (br_available_at (aw_begin w)) then (Inl Stop, ls)
      else if \<not> provider_available (ls_budget ls) (p_id (ru_provider r)) (p_max_attempts (ru_provider r))
      then (Inl Next, ls)
      else if \<not> hv_available (hb_snapshot (gs_endpoint_health gs) (e_id (ru_endpoint r)) now) \<or>
              \<not> hv_available (hb_snapshot (gs_key_health gs) (k_id (ru_key r)) now) \<or>
              \<not> rv_available (prb_snapshot (gs_runtime gs) (ru_provider r) now)
      then (Inl Next, ls)
      else
        (case quota_is_available (gs_quota gs) (k_id (ru_key r)) now of
           (ok, quota) \<Rightarrow>
             (let ls1 = on_quota (\<lambda>_. quota) ls in
              if \<not> ok then (Inl Next, ls1)
              else
                (case begin_budget (aw_begin w) ls1 of
                   (False, ls2) \<Rightarrow> (Inl Stop, ls2)
                 | (True, ls2) \<Rightarrow>
                     (case reserve_attempt r (aw_reserve_ms w) (aw_during w 0 (ls_gates ls2)) of
                        (Inl e, st) \<Rightarrow> (Inl Next, ls2\<lparr>ls_gates := st\<rparr>)
                      | (Inr rv, st) \<Rightarrow> (Inr rv, ls2\<lparr>ls_gates := st\<rparr>))))))"

definition note_selection :: "'d resolved_upstream \<Rightarrow> loop_state \<Rightarrow> loop_state" where
  "note_selection r ls =
     (let pid = p_id (ru_provider r);
          switched = is_some_and (ls_last_provider ls) (\<lambda>i. i \<noteq> pid)
      in ls\<lparr>ls_provider_switches := ls_provider_switches ls + (if switched then 1 else 0),
            ls_last_provider := Some pid\<rparr>)"

text \<open>A local error ends the request; the reservation ends neutrally, by a call or by being dropped.\<close>

definition reject_locally ::
  "int \<Rightarrow> string \<Rightarrow> int \<Rightarrow> reservation \<Rightarrow> loop_state \<Rightarrow> ('d loop_signal + 'b) \<times> loop_state" where
  "reject_locally status error_type now rv ls =
     (Inl (Exit (ErrorReply status error_type)), on_gates (neutral_reservation now rv) ls)"

text \<open>The body: conversion or renaming, Codex normalisation (which answers whether the client
  wants a stream), overrides.\<close>

definition prepare_body ::
  "'d loop_config \<Rightarrow> 'd resolved_upstream \<Rightarrow> attempt_world \<Rightarrow> reservation \<Rightarrow> loop_state
     \<Rightarrow> ('d loop_signal + bool option) \<times> loop_state" where
  "prepare_body cfg r w rv ls =
     (let now = aw_now_ms w in
      if is_responses_via_chat (ru_protocol r) \<and> aw_convert_error w \<noteq> None
      then reject_locally 400 ''responses_via_chat_request_failed'' now rv ls
      else if \<not> is_responses_via_chat (ru_protocol r) \<and> ru_upstream_model r \<noteq> lc_model cfg \<and> \<not> aw_rewrite_ok w
      then (Inl (Exit (ErrorReply 400 ''invalid_model'')), on_gates (drop_reservation rv now) ls)
      else if is_codex r \<and> isl (aw_normalized w)
      then reject_locally 400 ''codex_request_normalization_failed'' now rv ls
      else if aw_body_override_error w \<noteq> None
      then reject_locally 500 ''request_override_failed'' now rv ls
      else (Inr (if is_codex r then Some (projr (aw_normalized w)) else None), ls))"

definition resolve_uri ::
  "'d loop_config \<Rightarrow> nat \<Rightarrow> 'd resolved_upstream \<Rightarrow> attempt_world \<Rightarrow> reservation \<Rightarrow> loop_state
     \<Rightarrow> ('d loop_signal + unit) \<times> loop_state" where
  "resolve_uri cfg index r w rv ls =
     (case aw_uri_error w of
        None \<Rightarrow> (Inr (), ls)
      | Some message \<Rightarrow>
          (case fail_over cfg index r (aw_now_ms w) ScopeProvider True
                  (outcome_local_provider (Some 400) ''invalid_upstream_uri'' message None)
                  (attempt_failure_new r 400 ''invalid_upstream_uri'' message)
                  (answer_error 400 ''invalid_upstream_uri'') rv ls of
             (signal, ls') \<Rightarrow> (Inl signal, ls')))"

definition authorize ::
  "'d loop_config \<Rightarrow> nat \<Rightarrow> 'd resolved_upstream \<Rightarrow> attempt_world \<Rightarrow> reservation \<Rightarrow> loop_state
     \<Rightarrow> ('d loop_signal + unit) \<times> loop_state" where
  "authorize cfg index r w rv ls0 =
     (let ls = on_gates (aw_during w 1) ls0 in
      case (if is_codex r then aw_auth_error w else None) of
        None \<Rightarrow> (Inr (), ls)
      | Some (status, code, message) \<Rightarrow>
          (case fail_over cfg index r (aw_now_ms w) ScopeKey False
                  (outcome_upstream_response status (Some code) (Some message) None)
                  (attempt_failure_new r status code message) (answer_error status code) rv ls of
             (signal, ls') \<Rightarrow> (Inl signal, ls')))"

definition prepare_headers ::
  "attempt_world \<Rightarrow> reservation \<Rightarrow> loop_state \<Rightarrow> ('d loop_signal + unit) \<times> loop_state" where
  "prepare_headers w rv ls =
     (if aw_header_override_error w \<noteq> None
      then reject_locally 500 ''request_override_failed'' (aw_now_ms w) rv ls
      else if \<not> reservation_is_current (ls_gates ls) rv
      then (Inl Next, on_gates (neutral_reservation (aw_now_ms w) rv) ls)
      else (Inr (), ls))"

text \<open>The first request; then, for Codex, one replay with a refreshed token after a 401.\<close>

definition send_first ::
  "'d resolved_upstream \<Rightarrow> attempt_world \<Rightarrow> loop_state \<Rightarrow> ('d loop_signal + dispatched) \<times> loop_state" where
  "send_first r w ls = (Inr (aw_dispatch w), on_gates (aw_during w 2) (send r ls))"

definition is_unauthorized :: "dispatched \<Rightarrow> bool" where
  "is_unauthorized d \<longleftrightarrow> (case d of Inl _ \<Rightarrow> False | Inr reply \<Rightarrow> ur_status reply = 401)"

definition oauth_replay ::
  "'d resolved_upstream \<Rightarrow> attempt_world \<Rightarrow> reservation \<Rightarrow> dispatched \<Rightarrow> loop_state
     \<Rightarrow> ('d loop_signal + dispatched) \<times> loop_state" where
  "oauth_replay r w rv d ls =
     (let now = aw_now_ms w in
      if \<not> (is_codex r \<and> has_budget r (br_available_at (aw_replay w)) ls \<and> is_unauthorized d \<and> aw_refreshed w)
      then (Inr d, ls)
      else if aw_retry_header_error w \<noteq> None
      then reject_locally 500 ''request_override_failed'' now rv ls
      else
        (case begin_budget (aw_replay w) (on_gates (aw_during w 3) ls) of
           (False, ls1) \<Rightarrow>
             (Inl Stop,
              fail_with (attempt_failure_new r 503 ''upstream_retry_exhausted'' ''upstream retry deadline reached'')
                (on_gates (neutral_reservation now rv) ls1))
         | (True, ls1) \<Rightarrow>
             (if \<not> reservation_is_current (ls_gates ls1) rv
              then (Inl Next, on_gates (neutral_reservation now rv) ls1)
              else
                (Inr (aw_replay_dispatch w),
                 on_gates (\<lambda>st. aw_during w 4 (on_runtime (\<lambda>b. record_error b (p_id (ru_provider r))
                             (e_id (ru_endpoint r)) (k_id (ru_key r)) ''OAuth authentication replay''
                             (Some 401) now) st))
                   (send r ls1)))))"

text \<open>One retry without the encrypted content the upstream rejected.\<close>

definition recover_encrypted ::
  "'d loop_config \<Rightarrow> 'd resolved_upstream \<Rightarrow> attempt_world \<Rightarrow> reservation \<Rightarrow> dispatched \<Rightarrow> loop_state
     \<Rightarrow> ('d loop_signal + dispatched) \<times> loop_state" where
  "recover_encrypted cfg r w rv d ls =
     (if lc_recovery_enabled cfg \<and> \<not> is_responses_via_chat (ru_protocol r) \<and>
         (case d of Inl _ \<Rightarrow> False | Inr reply \<Rightarrow> ur_encrypted_rejected reply) \<and>
         ls_recovery_retries ls = 0 \<and> has_budget r (br_available_at (aw_recover w)) ls \<and> aw_cleaned w
      then
        (case begin_budget (aw_recover w)
                 (on_gates (aw_during w 5) (ls\<lparr>ls_recovery_retries := ls_recovery_retries ls + 1\<rparr>)) of
           (ok, ls1) \<Rightarrow>
             (if ok \<and> reservation_is_current (ls_gates ls1) rv
              then (Inr (aw_recover_dispatch w), on_gates (aw_during w 6) (send r ls1))
              else (Inr d, ls1)))
      else (Inr d, ls))"

definition dispatch_result ::
  "'d loop_config \<Rightarrow> nat \<Rightarrow> 'd resolved_upstream \<Rightarrow> attempt_world \<Rightarrow> reservation \<Rightarrow> dispatched \<Rightarrow> loop_state
     \<Rightarrow> ('d loop_signal + upstream_reply) \<times> loop_state" where
  "dispatch_result cfg index r w rv d ls =
     (case d of
        Inr reply \<Rightarrow> (Inr reply, ls)
      | Inl err \<Rightarrow>
          (case dispatch_error_to_http (lc_timeout_text cfg) err of
             (status, error_type, message) \<Rightarrow>
               (case fail_over cfg index r (aw_now_ms w) ScopeProvider True
                       (outcome_local_provider (Some status) error_type message None)
                       (attempt_failure_new r status error_type message)
                       (answer_retry cfg (aw_now_ms w) status error_type) rv ls of
                  (signal, ls') \<Rightarrow> (Inl signal, ls'))))"

text \<open>What the response tells the quota book and, after a 402 or 429, the key's health.\<close>

definition observe_upstream ::
  "'d loop_config \<Rightarrow> 'd resolved_upstream \<Rightarrow> int \<Rightarrow> upstream_reply \<Rightarrow> loop_state \<Rightarrow> loop_state" where
  "observe_upstream cfg r now reply ls =
     (let key = k_id (ru_key r);
          ls1 = on_quota (\<lambda>q. observe_response (lc_http_date cfg) (lc_rfc3339 cfg) q key (ur_status reply)
                  (ur_headers reply) now (lc_fallback_ms cfg)) ls
      in if ur_status reply \<noteq> 402 \<and> ur_status reply \<noteq> 429 then ls1
         else
           (case quota_snapshot (gs_quota (ats_gates (ls_gates ls1))) key now of
              (quota, book) \<Rightarrow>
                (let ls2 = on_quota (\<lambda>_. book) ls1 in
                 case q_cooldown_until_ms quota of
                   None \<Rightarrow> ls2
                 | Some until \<Rightarrow> on_gates (on_key_health (\<lambda>b. hb_defer_until b key until)) ls2)))"

definition response_scope :: "upstream_reply \<Rightarrow> failure_scope" where
  "response_scope reply =
     (if ur_model_scoped reply then ScopeModel
      else classify_failure_scope (Some (ur_status reply)) UpstreamResponse)"

text \<open>
  A response with a retryable status and no usage: the target is excluded, the failure is charged,
  and the loop continues if the budget allows another candidate; otherwise the response goes on to
  the client, with a reservation whose guards are spent.
\<close>

definition retry_response ::
  "'d loop_config \<Rightarrow> nat \<Rightarrow> 'd resolved_upstream \<Rightarrow> attempt_world \<Rightarrow> upstream_reply \<Rightarrow> reservation \<Rightarrow> loop_state
     \<Rightarrow> ('d loop_signal + reservation) \<times> loop_state" where
  "retry_response cfg index r w reply rv ls0 =
     (if \<not> should_retry_response_status (ur_status reply) \<or> ur_has_usage reply then (Inr rv, ls0)
      else
        (let now = aw_now_ms w;
             scope = response_scope reply;
             message = ''retryable upstream status '' @ show_nat (nat (ur_status reply));
             ls1 = fail_with (attempt_failure_new r (ur_status reply) ''upstream_retry_status'' message)
                     (exclude scope r ls0);
             (rv', st) = finish_with_scope
                (outcome_upstream_response (ur_status reply) (Some ''upstream_retry_status'') (Some message)
                   (Some (aw_latency_ms w))) scope now rv (ls_gates ls1);
             ls2 = ls1\<lparr>ls_gates := st\<rparr>;
             ls3 = (case (if scope = ScopeProvider then retry_after_ms (lc_http_date cfg) (ur_headers reply) now
                          else None) of
                      None \<Rightarrow> ls2
                    | Some delay \<Rightarrow> on_gates (on_endpoint_health (\<lambda>b. hb_defer_until b (e_id (ru_endpoint r))
                        (i64_saturating_add now delay))) ls2)
         in if budget_available (ls_budget ls3) (aw_retry_available_at w) \<and>
               list_ex (\<lambda>c. \<not> should_skip (ls_exclusions ls3) c \<and>
                  provider_available (ls_budget ls3) (p_id (ru_provider c)) (p_max_attempts (ru_provider c)))
                 (drop (index + 1) (lc_attempts cfg))
            then (Inl Next, on_gates (drop_reservation rv' now) (note_provider_lost cfg index r scope now ls3))
            else (Inr rv', ls3)))"

definition tap_of :: "'d loop_config \<Rightarrow> 'd resolved_upstream \<Rightarrow> upstream_reply \<Rightarrow> loop_state \<Rightarrow> 'd tap_config" where
  "tap_of cfg r reply ls =
     \<lparr>tc_target = r, tc_status = ur_status reply, tc_binding = lc_binding cfg, tc_identity = lc_identity cfg,
      tc_should_migrate = is_some_and (lc_binding cfg) (\<lambda>b.
        ab_provider_id b \<noteq> p_id (ru_provider r) \<or> ab_upstream_key_id b \<noteq> Some (k_id (ru_key r)) \<or>
        ab_endpoint_id b \<noteq> Some (e_id (ru_endpoint r)) \<or> ab_provider_id b \<in> ls_faulted ls),
      tc_codex = is_codex r\<rparr>"

definition is_event_stream :: "upstream_reply \<Rightarrow> bool" where
  "is_event_stream reply =
     is_some_and (Option.bind (header_get (ur_headers reply) ''content-type'') header_to_str)
       (sublist ''text/event-stream'')"

text \<open>A chat response converted back: a stream as it comes, a body once it was collected.\<close>

definition deliver_converted ::
  "(bool \<Rightarrow> string \<Rightarrow> string \<Rightarrow> 'x) \<Rightarrow> bool \<Rightarrow> upstream_reply \<Rightarrow> 'x \<Rightarrow> 'x" where
  "deliver_converted failed sse reply converted =
     (if sse then converted
      else (case ur_collect_error reply of
              Some message \<Rightarrow> failed False ''responses_via_chat_response_too_large'' message
            | None \<Rightarrow>
                (case ur_convert_error reply of
                   Some message \<Rightarrow> failed False ''responses_via_chat_response_failed'' message
                 | None \<Rightarrow> converted)))"

text \<open>
  The response goes to the client: an error as it is, a Codex stream collected for a client that
  asked for none, an event stream once its first event was seen, a chat response converted back.
  \<open>stream\<close> is what \<open>prepare_body\<close> answered.
\<close>

definition deliver ::
  "'d loop_config \<Rightarrow> nat \<Rightarrow> 'd resolved_upstream \<Rightarrow> attempt_world \<Rightarrow> bool option \<Rightarrow> upstream_reply \<Rightarrow> reservation
     \<Rightarrow> loop_state \<Rightarrow> 'd loop_signal \<times> loop_state" where
  "deliver cfg index r w stream reply rv ls0 =
     (let now = aw_now_ms w;
          sse = is_event_stream reply;
          ls = on_gates (aw_during w 7) ls0;
          tap = tap_of cfg r reply ls;
          failed = (\<lambda>affects code message. fail_over cfg index r now ScopeProvider affects
                      (outcome_local_provider (Some 502) code message (Some (aw_latency_ms w)))
                      (attempt_failure_new r 502 code message) (answer_error 502 code) rv ls)
      in if \<not> (200 \<le> ur_status reply \<and> ur_status reply \<le> 299)
         then
           (if should_retry_response_status (ur_status reply)
            then (case plan_retry_times (ats_gates (ls_gates ls)) now (lc_attempts cfg) of
                    (untils, gs) \<Rightarrow>
                      (Exit (TapReply TapPlain tap rv (opt_filter (\<lambda>until. now < until) (iter_min untils))),
                       on_gates (\<lambda>st. st\<lparr>ats_gates := gs\<rparr>) ls))
            else (Exit (TapReply TapPlain tap rv None), ls))
         else if is_codex r \<and> stream = Some False
         then
           (if \<not> sse
            then (Exit (ErrorReply 502 ''codex_stream_expected''),
                  on_gates (finish_reservation (outcome_local_provider (Some 502) ''codex_stream_expected''
                     ''Codex returned a non-streaming response to a forced streaming request''
                     (Some (aw_latency_ms w))) now rv) ls)
            else (Exit (TapReply TapCollected tap rv None), ls))
         else
           (case (if sse then ur_preflight_error reply else None) of
              Some message \<Rightarrow> failed True ''upstream_sse_preflight_failed'' message
            | None \<Rightarrow>
                (if \<not> is_responses_via_chat (ru_protocol r) then (Exit (TapReply TapPlain tap rv None), ls)
                 else deliver_converted failed sse reply (Exit (TapReply TapConverted tap rv None), ls))))"

section \<open>The loop\<close>

definition signal_of :: "('x + 'x) \<times> 's \<Rightarrow> 'x \<times> 's" where
  "signal_of m = (case m of (Inl x, s) \<Rightarrow> (x, s) | (Inr x, s) \<Rightarrow> (x, s))"

definition request_step ::
  "'d loop_config \<Rightarrow> nat \<Rightarrow> 'd resolved_upstream \<Rightarrow> attempt_world \<Rightarrow> loop_state \<Rightarrow> 'd loop_signal \<times> loop_state" where
  "request_step cfg index r w ls =
     signal_of
       (then_step (admit_attempt r w ls) (\<lambda>rv ls.
        then_step (prepare_body cfg r w rv (note_selection r ls)) (\<lambda>stream ls.
        then_step (resolve_uri cfg index r w rv ls) (\<lambda>_ ls.
        then_step (authorize cfg index r w rv ls) (\<lambda>_ ls.
        then_step (prepare_headers w rv ls) (\<lambda>_ ls.
        then_step (send_first r w ls) (\<lambda>d ls.
        then_step (oauth_replay r w rv d ls) (\<lambda>d ls.
        then_step (recover_encrypted cfg r w rv d ls) (\<lambda>d ls.
        then_step (dispatch_result cfg index r w rv d ls) (\<lambda>reply ls.
        then_step (retry_response cfg index r w reply rv (observe_upstream cfg r (aw_now_ms w) reply ls)) (\<lambda>rv ls.
          (case deliver cfg index r w stream reply rv ls of (signal, ls) \<Rightarrow> (Inr signal, ls)))))))))))))"

fun attempt_loop ::
  "'d loop_config \<Rightarrow> (nat \<Rightarrow> attempt_world) \<Rightarrow> nat \<Rightarrow> 'd resolved_upstream list \<Rightarrow> loop_state
     \<Rightarrow> 'd loop_exit option \<times> loop_state" where
  "attempt_loop cfg world index [] ls = (None, ls)"
| "attempt_loop cfg world index (r # rs) ls =
     (case request_step cfg index r (world index) ls of
        (Next, ls') \<Rightarrow> attempt_loop cfg world (index + 1) rs ls'
      | (Stop, ls') \<Rightarrow> (None, ls')
      | (Exit e, ls') \<Rightarrow> (Some e, ls'))"

definition loop_start :: "attempt_state \<Rightarrow> affinity_book \<Rightarrow> int \<Rightarrow> int \<Rightarrow> loop_state" where
  "loop_start st book now timeout =
     \<lparr>ls_gates = st, ls_affinity = book, ls_budget = budget_new now timeout, ls_exclusions = exclusions_default,
      ls_last_failure = None, ls_faulted = {}, ls_last_provider = None, ls_provider_switches = 0,
      ls_recovery_retries = 0, ls_log = []\<rparr>"

text \<open>The whole loop: when it ends without an answer, the last failure is reported.\<close>

definition run_request ::
  "'d loop_config \<Rightarrow> (nat \<Rightarrow> attempt_world) \<Rightarrow> int \<Rightarrow> loop_state \<Rightarrow> 'd loop_exit \<times> loop_state" where
  "run_request cfg world now ls0 =
     (case attempt_loop cfg world 0 (lc_attempts cfg) ls0 of
        (Some e, ls) \<Rightarrow> (e, ls)
      | (None, ls) \<Rightarrow>
          (let failure = unwrap_or (ls_last_failure ls)
                 \<lparr>atf_target = None, atf_status = 503, atf_error_type = ''upstream_retry_exhausted'',
                  atf_error_message = ''no available upstream targets after retries''\<rparr>
           in case answer_retry cfg now (atf_status failure) (atf_error_type failure) (ats_gates (ls_gates ls)) of
                (e, gs) \<Rightarrow> (e, on_gates (\<lambda>st. st\<lparr>ats_gates := gs\<rparr>) ls)))"

section \<open>Reasoning about steps\<close>

text \<open>\<open>ensures m P Q\<close>: if the step ends the attempt, \<open>P\<close> holds of the signal and the state;
  otherwise \<open>Q\<close> holds of the value and the state the next step gets.\<close>

definition ensures :: "('x + 'a) \<times> 's \<Rightarrow> ('x \<Rightarrow> 's \<Rightarrow> bool) \<Rightarrow> ('a \<Rightarrow> 's \<Rightarrow> bool) \<Rightarrow> bool" where
  "ensures m P Q \<longleftrightarrow> (case m of (Inl x, s) \<Rightarrow> P x s | (Inr a, s) \<Rightarrow> Q a s)"

lemma ensures_simps [simp]: "ensures (Inl x, s) P Q = P x s" "ensures (Inr a, s) P Q = Q a s"
  by (simp_all add: ensures_def)

lemma ensures_if: "(c \<Longrightarrow> ensures m P Q) \<Longrightarrow> (\<not> c \<Longrightarrow> ensures m' P Q) \<Longrightarrow> ensures (if c then m else m') P Q"
  by simp

lemma then_ensures:
  assumes "ensures m P Q" and "\<And>a s. Q a s \<Longrightarrow> ensures (f a s) P R"
  shows "ensures (then_step m f) P R"
proof -
  obtain x s where m: "m = (x, s)" by (rule prod.exhaust)
  show ?thesis using assms by (cases x) (simp_all add: m then_step_def)
qed

lemma signal_of_ensures: "ensures m P P \<Longrightarrow> case signal_of m of (x, s) \<Rightarrow> P x s"
  by (auto simp: ensures_def signal_of_def split: prod.splits sum.splits)

section \<open>Budget and exclusions\<close>

definition sent_count :: "loop_event list \<Rightarrow> nat" where
  "sent_count evs = length (filter (\<lambda>e. case e of Sent _ _ _ \<Rightarrow> True | Failed _ _ _ _ \<Rightarrow> False) evs)"

definition sent_to :: "int \<Rightarrow> loop_event list \<Rightarrow> nat" where
  "sent_to p evs = length (filter (\<lambda>e. case e of Sent q _ _ \<Rightarrow> q = p | Failed _ _ _ _ \<Rightarrow> False) evs)"

text \<open>A failed attempt rules out what its scope blames, and its own pair of key and endpoint.\<close>

fun rules_out :: "loop_event \<Rightarrow> loop_event \<Rightarrow> bool" where
  "rules_out (Failed p e k s) (Sent p' e' k') \<longleftrightarrow>
     k = k' \<and> e = e' \<or> s = ScopeProvider \<and> e = e' \<or> (s = ScopeKey \<or> s = ScopeQuota) \<and> k = k' \<or>
     s = ScopeModel \<and> p = p'"
| "rules_out _ _ \<longleftrightarrow> False"

fun remembered :: "attempt_exclusions \<Rightarrow> loop_event \<Rightarrow> bool" where
  "remembered x (Failed p e k s) \<longleftrightarrow>
     (k, e) \<in> ex_attempted_pairs x \<and> (s = ScopeProvider \<longrightarrow> e \<in> ex_endpoint_ids x) \<and>
     (s = ScopeKey \<or> s = ScopeQuota \<longrightarrow> k \<in> ex_key_ids x) \<and> (s = ScopeModel \<longrightarrow> p \<in> ex_provider_ids x)"
| "remembered x (Sent _ _ _) \<longleftrightarrow> True"

definition control_inv :: "(int \<Rightarrow> nat) \<Rightarrow> loop_state \<Rightarrow> bool" where
  "control_inv limit ls \<longleftrightarrow>
     sent_count (ls_log ls) \<le> used (ls_budget ls) \<and> used (ls_budget ls) \<le> MAX_ATTEMPTS \<and>
     (\<forall>p. unwrap_or (sent_by_provider (ls_budget ls) p) 0 = sent_to p (ls_log ls)) \<and>
     (\<forall>p. sent_to p (ls_log ls) \<le> limit p) \<and>
     sorted_wrt (\<lambda>a b. \<not> rules_out a b) (ls_log ls) \<and>
     (\<forall>ev \<in> set (ls_log ls). remembered (ls_exclusions ls) ev)"

definition sendable :: "'d resolved_upstream \<Rightarrow> loop_state \<Rightarrow> bool" where
  "sendable r ls \<longleftrightarrow> \<not> should_skip (ls_exclusions ls) r"

lemma should_skip_sendable: "should_skip (ls_exclusions ls) r = (\<not> sendable r ls)"
  by (simp add: sendable_def)

definition may_send :: "(int \<Rightarrow> nat) \<Rightarrow> 'd resolved_upstream \<Rightarrow> loop_state \<Rightarrow> bool" where
  "may_send limit r ls \<longleftrightarrow>
     control_inv limit ls \<and> sendable r ls \<and> sent_count (ls_log ls) < used (ls_budget ls) \<and>
     sent_to (p_id (ru_provider r)) (ls_log ls) < limit (p_id (ru_provider r))"

definition limited :: "(int \<Rightarrow> nat) \<Rightarrow> 'd resolved_upstream \<Rightarrow> bool" where
  "limited limit r \<longleftrightarrow> nat (max (p_max_attempts (ru_provider r)) 1) \<le> limit (p_id (ru_provider r))"

lemma unwrap_or_simps [simp]: "unwrap_or None d = d" "unwrap_or (Some a) d = a"
  by (simp_all add: unwrap_or_def)

text \<open>Updates that touch neither the log nor the budget nor the exclusions.\<close>

definition same_control :: "loop_state \<Rightarrow> loop_state \<Rightarrow> bool" where
  "same_control ls ls' \<longleftrightarrow>
     ls_log ls = ls_log ls' \<and> ls_budget ls = ls_budget ls' \<and> ls_exclusions ls = ls_exclusions ls'"

lemma same_control_inv:
  "same_control ls ls' \<Longrightarrow> control_inv limit ls' = control_inv limit ls \<and> sendable r ls' = sendable r ls \<and>
   may_send limit r ls' = may_send limit r ls"
  by (auto simp: same_control_def control_inv_def sendable_def may_send_def)

lemma same_control_updates:
  "same_control ls (on_gates f ls)" "same_control ls (on_quota g ls)" "same_control ls (fail_with a ls)"
  "same_control ls (note_selection r ls)" "same_control ls (ls\<lparr>ls_gates := st\<rparr>)"
  "same_control ls (ls\<lparr>ls_recovery_retries := n\<rparr>)" "same_control ls (note_provider_lost cfg index r scope now ls)"
  by (auto simp: same_control_def on_gates_def on_quota_def fail_with_def note_selection_def Let_def
      note_provider_lost_def split: prod.splits)

lemmas control_simps [simp] = same_control_updates [THEN same_control_inv, THEN conjunct1]
  same_control_updates [THEN same_control_inv, THEN conjunct2, THEN conjunct1]
  same_control_updates [THEN same_control_inv, THEN conjunct2, THEN conjunct2]

lemma remembered_not_ruled_out:
  "remembered x ev \<Longrightarrow> \<not> should_skip x r \<Longrightarrow>
   \<not> rules_out ev (Sent (p_id (ru_provider r)) (e_id (ru_endpoint r)) (k_id (ru_key r)))"
  by (cases ev) (auto simp: should_skip_def)

lemma sent_append:
  "sent_count (evs @ [Sent p e k]) = sent_count evs + 1" "sent_count (evs @ [Failed p e k s]) = sent_count evs"
  "sent_to q (evs @ [Sent p e k]) = sent_to q evs + (if p = q then 1 else 0)"
  "sent_to q (evs @ [Failed p e k s]) = sent_to q evs"
  by (simp_all add: sent_count_def sent_to_def)

lemma begin_budget_control:
  assumes "begin_budget br ls = (ok, ls')" and "control_inv limit ls"
  shows "control_inv limit ls' \<and> sendable r ls' = sendable r ls \<and> ls_log ls' = ls_log ls \<and>
         (ok \<longrightarrow> sent_count (ls_log ls') < used (ls_budget ls'))"
  using assms
  by (auto simp: begin_budget_def begin_send_def Let_def control_inv_def sendable_def budget_available_def
      MAX_ATTEMPTS_def split: prod.splits if_splits)

lemma send_control:
  assumes "may_send limit r ls"
  shows "control_inv limit (send r ls) \<and> sendable r (send r ls)"
proof -
  let ?e = "Sent (p_id (ru_provider r)) (e_id (ru_endpoint r)) (k_id (ru_key r))"
  have inv: "control_inv limit ls" and skip: "\<not> should_skip (ls_exclusions ls) r"
    and room: "sent_count (ls_log ls) < used (ls_budget ls)"
      "sent_to (p_id (ru_provider r)) (ls_log ls) < limit (p_id (ru_provider r))"
    using assms by (simp_all add: may_send_def sendable_def)
  have "sorted_wrt (\<lambda>a b. \<not> rules_out a b) (ls_log ls @ [?e])"
    using inv remembered_not_ruled_out [OF _ skip] by (auto simp: control_inv_def sorted_wrt_append)
  then show ?thesis using inv skip room
    by (simp add: control_inv_def sendable_def send_def log_event_def sent_append note_send_def)
qed

lemma exclude_control: "control_inv limit ls \<Longrightarrow> control_inv limit (exclude scope r ls)"
proof -
  assume inv: "control_inv limit ls"
  let ?x = "avoid_scope scope r (note_attempt (ls_exclusions ls) r)"
  have "remembered ?x ev" if "remembered (ls_exclusions ls) ev" for ev
    using that by (cases ev; cases scope) (auto simp: avoid_scope_def note_attempt_def avoid_provider_def
        avoid_key_def avoid_endpoint_def)
  moreover have "remembered ?x (Failed (p_id (ru_provider r)) (e_id (ru_endpoint r)) (k_id (ru_key r)) scope)"
    by (cases scope) (auto simp: avoid_scope_def note_attempt_def avoid_provider_def avoid_key_def avoid_endpoint_def)
  ultimately show ?thesis using inv
    by (simp add: control_inv_def exclude_def log_event_def sent_append sorted_wrt_append)
qed

lemma fail_over_control:
  "control_inv limit ls \<Longrightarrow>
   control_inv limit (snd (fail_over cfg index r now scope aff oc failure answer rv ls))"
  by (simp add: fail_over_def Let_def exclude_control case_prod_unfold)

text \<open>Every step keeps the invariant; the first one also establishes that a request may be sent.\<close>

abbreviation controlled :: "(int \<Rightarrow> nat) \<Rightarrow> 'x \<Rightarrow> loop_state \<Rightarrow> bool" where
  "controlled limit x ls \<equiv> control_inv limit ls"

lemma admit_control:
  assumes "control_inv limit ls" and "limited limit r"
  shows "ensures (admit_attempt r w ls) (controlled limit) (\<lambda>_. may_send limit r)"
proof -
  let ?gs = "ats_gates (ls_gates ls)"
  obtain ok quota where q: "quota_is_available (gs_quota ?gs) (k_id (ru_key r)) (aw_check_ms w) = (ok, quota)"
    by (rule prod.exhaust)
  obtain ok2 ls2 where b: "begin_budget (aw_begin w) (on_quota (\<lambda>_. quota) ls) = (ok2, ls2)" by (rule prod.exhaust)
  note after = begin_budget_control [OF b, of limit r]
  have room: "sent_to (p_id (ru_provider r)) (ls_log ls) < limit (p_id (ru_provider r))"
    if "provider_available (ls_budget ls) (p_id (ru_provider r)) (p_max_attempts (ru_provider r))"
    using that assms by (simp add: provider_available_def control_inv_def limited_def)
  have log: "ls_log (on_quota g ls) = ls_log ls" for g using same_control_updates(2) by (simp add: same_control_def)
  obtain res st where res: "reserve_attempt r (aw_reserve_ms w) (aw_during w 0 (ls_gates ls2)) = (res, st)"
    by (rule prod.exhaust)
  show ?thesis
    using assms after room
    by (cases ok2; cases res) (auto simp: admit_attempt_def q b res Let_def may_send_def should_skip_sendable log)
qed

lemma prepare_body_control:
  "may_send limit r ls \<Longrightarrow> ensures (prepare_body cfg r w rv ls) (controlled limit) (\<lambda>_. may_send limit r)"
  by (auto simp: prepare_body_def reject_locally_def Let_def may_send_def)

lemma may_send_inv: "may_send limit r ls \<Longrightarrow> control_inv limit ls"
  by (simp add: may_send_def)

lemma resolve_uri_control:
  "may_send limit r ls \<Longrightarrow> ensures (resolve_uri cfg index r w rv ls) (controlled limit) (\<lambda>_. may_send limit r)"
  by (auto simp: resolve_uri_def case_prod_unfold intro!: fail_over_control dest: may_send_inv split: option.splits)

lemma authorize_control:
  "may_send limit r ls \<Longrightarrow> ensures (authorize cfg index r w rv ls) (controlled limit) (\<lambda>_. may_send limit r)"
  by (auto simp: authorize_def case_prod_unfold Let_def intro!: fail_over_control dest: may_send_inv
      split: option.splits)

lemma prepare_headers_control:
  "may_send limit r ls \<Longrightarrow> ensures (prepare_headers w rv ls) (controlled limit) (\<lambda>_. may_send limit r)"
  by (auto simp: prepare_headers_def reject_locally_def dest: may_send_inv)

lemma send_first_control:
  "may_send limit r ls \<Longrightarrow>
   ensures (send_first r w ls) (controlled limit) (\<lambda>_ ls. control_inv limit ls \<and> sendable r ls)"
  by (auto simp: send_first_def send_control)

lemma begin_may_send:
  assumes "control_inv limit ls" and "sendable r ls" and "limited limit r" and "has_budget r t ls"
    and "begin_budget br (on_gates f (ls\<lparr>ls_recovery_retries := n\<rparr>)) = (ok, ls')"
  shows "control_inv limit ls' \<and> sendable r ls' \<and> (ok \<longrightarrow> may_send limit r ls')"
proof -
  have "sent_to (p_id (ru_provider r)) (ls_log ls) < limit (p_id (ru_provider r))"
    using assms by (simp add: has_budget_def provider_available_def control_inv_def limited_def)
  moreover have "ls_log (on_gates f (ls\<lparr>ls_recovery_retries := n\<rparr>)) = ls_log ls" by (simp add: on_gates_def)
  ultimately show ?thesis
    using begin_budget_control [OF assms(5), of limit r] assms by (auto simp: may_send_def)
qed

lemma begin_may_send_gates:
  assumes "control_inv limit ls" and "sendable r ls" and "limited limit r" and "has_budget r t ls"
    and "begin_budget br (on_gates f ls) = (ok, ls')"
  shows "control_inv limit ls' \<and> sendable r ls' \<and> (ok \<longrightarrow> may_send limit r ls')"
proof -
  have "ls\<lparr>ls_recovery_retries := ls_recovery_retries ls\<rparr> = ls" by simp
  with assms(5) have "begin_budget br (on_gates f (ls\<lparr>ls_recovery_retries := ls_recovery_retries ls\<rparr>)) = (ok, ls')"
    by simp
  from begin_may_send [OF assms(1-4) this] show ?thesis .
qed

lemma oauth_replay_control:
  assumes "control_inv limit ls \<and> sendable r ls" and "limited limit r"
  shows "ensures (oauth_replay r w rv d ls) (controlled limit) (\<lambda>_ ls. control_inv limit ls \<and> sendable r ls)"
proof -
  obtain ok ls1 where b: "begin_budget (aw_replay w) (on_gates (aw_during w 3) ls) = (ok, ls1)" by (rule prod.exhaust)
  note after = begin_may_send_gates [OF _ _ assms(2) _ b]
  show ?thesis using assms(1) after send_control
    by (cases ok) (auto simp: oauth_replay_def reject_locally_def Let_def b)
qed

lemma recover_control:
  assumes "control_inv limit ls \<and> sendable r ls" and "limited limit r"
  shows "ensures (recover_encrypted cfg r w rv d ls) (controlled limit) (\<lambda>_ ls. control_inv limit ls \<and> sendable r ls)"
proof -
  obtain ok ls1 where b: "begin_budget (aw_recover w)
      (on_gates (aw_during w 5) (ls\<lparr>ls_recovery_retries := ls_recovery_retries ls + 1\<rparr>)) = (ok, ls1)"
    by (rule prod.exhaust)
  note after = begin_may_send [OF _ _ assms(2) _ b]
  show ?thesis using assms(1) after send_control
    unfolding recover_encrypted_def b prod.case by (cases ok) auto
qed

lemma dispatch_result_control:
  "control_inv limit ls \<Longrightarrow>
   ensures (dispatch_result cfg index r w rv d ls) (controlled limit) (\<lambda>_. control_inv limit)"
  by (auto simp: dispatch_result_def case_prod_unfold intro!: fail_over_control split: sum.splits)

lemma observe_upstream_control: "control_inv limit (observe_upstream cfg r now reply ls) = control_inv limit ls"
  by (auto simp: observe_upstream_def Let_def split: prod.splits option.splits)

lemma retry_response_control:
  "control_inv limit ls \<Longrightarrow>
   ensures (retry_response cfg index r w reply rv ls) (controlled limit) (\<lambda>_. control_inv limit)"
  by (auto simp: retry_response_def Let_def exclude_control split: prod.splits option.splits)

lemma deliver_control:
  "control_inv limit ls \<Longrightarrow> control_inv limit (snd (deliver cfg index r w stream reply rv ls))"
  by (auto simp: deliver_def deliver_converted_def Let_def intro!: fail_over_control split: prod.splits option.splits)

lemma request_step_control:
  assumes "control_inv limit ls" and "limited limit r"
  shows "control_inv limit (snd (request_step cfg index r w ls))"
proof -
  have "case request_step cfg index r w ls of (x, s) \<Rightarrow> controlled limit x s"
    unfolding request_step_def
    apply (rule signal_of_ensures)
    apply (rule then_ensures [OF admit_control [OF assms]])
    apply (rule then_ensures, rule prepare_body_control, simp)
    apply (rule then_ensures, rule resolve_uri_control, assumption)
    apply (rule then_ensures, rule authorize_control, assumption)
    apply (rule then_ensures, rule prepare_headers_control, assumption)
    apply (rule then_ensures, rule send_first_control, assumption)
    apply (rule then_ensures, rule oauth_replay_control, assumption, rule assms(2))
    apply (rule then_ensures, rule recover_control, assumption, rule assms(2))
    apply (rule then_ensures, rule dispatch_result_control, simp)
    apply (rule then_ensures, rule retry_response_control, simp add: observe_upstream_control)
    apply (simp add: case_prod_unfold deliver_control)
    done
  then show ?thesis by (simp add: case_prod_unfold)
qed

lemma attempt_loop_control:
  assumes "control_inv limit ls" and "\<forall>r \<in> set rs. limited limit r"
  shows "control_inv limit (snd (attempt_loop cfg world index rs ls))"
  using assms
proof (induction rs arbitrary: index ls)
  case (Cons r rs)
  obtain signal ls' where s: "request_step cfg index r (world index) ls = (signal, ls')" by (rule prod.exhaust)
  then have "control_inv limit ls'"
    using request_step_control [of limit ls r cfg index "world index"] Cons.prems by simp
  then show ?case using Cons.IH [of ls'] Cons.prems by (cases signal) (auto simp: s)
qed simp

lemma run_request_control:
  assumes "control_inv limit ls" and "\<forall>r \<in> set (lc_attempts cfg). limited limit r"
  shows "control_inv limit (snd (run_request cfg world now ls))"
  using attempt_loop_control [OF assms, of cfg world 0]
  by (auto simp: run_request_def Let_def split: prod.splits option.splits)

lemma loop_start_control: "control_inv limit (loop_start st book now timeout)"
  by (simp add: control_inv_def loop_start_def sent_count_def sent_to_def budget_new_def MAX_ATTEMPTS_def unwrap_or_def)

section \<open>Capacity\<close>

text \<open>
  The permits of a provider.  While a request holds a reservation the counter of its provider is
  one higher than before; every way out of an attempt gives the permit back except the one that
  hands the reservation to the body of the response.
\<close>

definition inflight :: "attempt_state \<Rightarrow> int \<Rightarrow> nat" where
  "inflight st i = rs_in_flight (prb_entry (gs_runtime (ats_gates st)) i)"

definition free_at :: "(int \<Rightarrow> nat) \<Rightarrow> loop_state \<Rightarrow> bool" where
  "free_at n ls \<longleftrightarrow> (\<forall>i. inflight (ls_gates ls) i = n i)"

definition held_by :: "(int \<Rightarrow> nat) \<Rightarrow> reservation \<Rightarrow> loop_state \<Rightarrow> bool" where
  "held_by n rv ls \<longleftrightarrow>
     (\<exists>p. rsv_capacity rv = Some p \<and> (\<forall>i. inflight (ls_gates ls) i = n i + (if i = p then 1 else 0)))"

text \<open>Where the permits are when a signal leaves an attempt.\<close>

definition settled :: "(int \<Rightarrow> nat) \<Rightarrow> 'd loop_signal \<Rightarrow> loop_state \<Rightarrow> bool" where
  "settled n signal ls \<longleftrightarrow>
     (case signal of
        Exit (TapReply kind tap rv retry_at) \<Rightarrow> held_by n rv ls
      | _ \<Rightarrow> free_at n ls)"

text \<open>Other requests leave the counters as they find them whenever this one looks.\<close>

definition quiet :: "attempt_world \<Rightarrow> bool" where
  "quiet w \<longleftrightarrow> (\<forall>k st i. inflight (aw_during w k st) i = inflight st i)"

lemma inflight_health [simp]:
  "inflight (on_key_health f st) = inflight st" "inflight (on_endpoint_health g st) = inflight st"
  by (simp_all add: inflight_def on_key_health_def on_endpoint_health_def fun_eq_iff)

lemma inflight_quota [simp]:
  "inflight (st\<lparr>ats_gates := (ats_gates st)\<lparr>gs_quota := q\<rparr>\<rparr>) = inflight st"
  by (simp add: inflight_def fun_eq_iff)

lemma inflight_opt_health [simp]:
  "inflight (opt_apply (\<lambda>g. on_key_health (f g)) g st) = inflight st"
  "inflight (opt_apply (\<lambda>g. on_endpoint_health (f g)) g st) = inflight st"
  by (cases g; simp add: opt_apply_def)+

lemma inflight_neutral_provider [simp]:
  "inflight (opt_apply (\<lambda>g. on_runtime (\<lambda>b. pguard_drop b g)) g st) = inflight st"
  "inflight (neutral_provider rv st) = inflight st"
  by (cases g; simp add: opt_apply_def on_runtime_def inflight_def pguard_drop_def prb_finish_neutral_entry fun_eq_iff)
    (cases "rsv_provider rv"; simp add: neutral_provider_def opt_apply_def on_runtime_def inflight_def
       pguard_neutral_def pguard_drop_def Let_def prb_finish_neutral_entry fun_eq_iff)

lemma inflight_neutral [simp]:
  "inflight (neutral_endpoint now rv st) = inflight st" "inflight (neutral_key now rv st) = inflight st"
  by (simp_all add: neutral_endpoint_def neutral_key_def)

lemma inflight_neutral_guards [simp]: "inflight (neutral_guards now rv st) = inflight st"
  by (simp add: neutral_guards_def)

lemma inflight_finish [simp]: "inflight (snd (finish_with_scope oc scope now rv st)) = inflight st"
  using finish_with_scope_layers(5) [of oc scope now rv st, OF prod.collapse [symmetric]]
  by (simp add: runtime_layer_def inflight_def fun_eq_iff)

lemma inflight_release:
  "0 < inflight st p \<Longrightarrow>
   inflight (on_runtime (\<lambda>b. release_capacity b p) st) i = inflight st i - (if i = p then 1 else 0)"
proof -
  assume "0 < inflight st p"
  moreover have "prb_entry (release_capacity b p) i = prb_entry b i" if "i \<noteq> p" for b
    using that by (auto simp: release_capacity_def prb_entry_def prb_put_def split: option.splits)
  ultimately show ?thesis
    by (auto simp: inflight_def on_runtime_def release_capacity_entry)
qed

lemma drop_free:
  assumes "held_by n rv (ls\<lparr>ls_gates := st\<rparr>)"
  shows "inflight (drop_reservation rv now st) i = n i"
proof -
  obtain p where p: "rsv_capacity rv = Some p" "\<And>i. inflight st i = n i + (if i = p then 1 else 0)"
    using assms by (auto simp: held_by_def)
  then show ?thesis by (simp add: drop_reservation_def opt_apply_def [of _ "Some p"] inflight_release)
qed

lemma take_guards_capacity [simp]: "rsv_capacity (take_guards rv) = rsv_capacity rv"
  by (simp add: take_guards_def)

lemma held_by_gates: "held_by n rv ls = held_by n rv (ls'\<lparr>ls_gates := ls_gates ls\<rparr>)"
  by (simp add: held_by_def)

lemma finish_take_guards: "fst (finish_with_scope oc scope now rv st) = take_guards rv"
  by (simp add: finish_with_scope_def Let_def)

text \<open>The ends of a reservation give the permit back.\<close>

lemma reservation_ends_free:
  assumes "held_by n rv ls"
  shows "free_at n (on_gates (drop_reservation rv now) ls)"
    and "free_at n (on_gates (neutral_reservation now rv) ls)"
    and "free_at n (on_gates (finish_reservation oc now rv) ls)"
proof -
  have held: "held_by n rv (ls\<lparr>ls_gates := st\<rparr>)" "held_by n (take_guards rv) (ls\<lparr>ls_gates := st\<rparr>)"
    if "inflight st = inflight (ls_gates ls)" for st
    using assms that by (simp_all add: held_by_def)
  show "free_at n (on_gates (drop_reservation rv now) ls)"
    using drop_free [OF held(1)] by (simp add: free_at_def on_gates_def)
  show "free_at n (on_gates (neutral_reservation now rv) ls)"
    using drop_free [OF held(2)] by (simp add: free_at_def on_gates_def neutral_reservation_def)
  show "free_at n (on_gates (finish_reservation oc now rv) ls)"
    using drop_free [OF held(2)]
    by (simp add: free_at_def on_gates_def finish_reservation_def case_prod_unfold finish_take_guards)
qed

lemma reserve_held:
  assumes "reserve_attempt r now st = (Inr rv, st')"
    and "\<forall>i. inflight st i = n i" and "n (p_id (ru_provider r)) < u32_max"
  shows "held_by n rv (ls\<lparr>ls_gates := st'\<rparr>)"
proof -
  let ?gs = "ats_gates st" and ?i = "p_id (ru_provider r)"
  obtain permit rt1 pg rt2 kh eh quota where p: "try_acquire_capacity (gs_runtime ?gs) (ru_provider r) = (permit, rt1)"
      "permit \<noteq> None"
    and pb: "prb_try_begin_attempt rt1 (ru_provider r) now = (Some pg, rt2)"
    and rv: "rsv_capacity rv = permit"
    and st': "ats_gates st' = ?gs\<lparr>gs_runtime := rt2, gs_key_health := kh, gs_endpoint_health := eh, gs_quota := quota\<rparr>"
    using assms(1) unfolding reserve_attempt_def by (rule reserve_attempt_inner_granted) auto
  have "permit = Some ?i" and "\<And>i. rs_in_flight (prb_entry rt1 i) = n i + (if i = ?i then 1 else 0)"
    using p assms(2,3)
    by (auto simp: try_acquire_capacity_def Let_def inflight_def u32_saturating_add_def prb_entry_put_if split: if_splits)
  moreover have "rs_in_flight (prb_entry rt2 i) = rs_in_flight (prb_entry rt1 i)" for i
    using pb by (auto simp: prb_try_begin_attempt_def runtime_begin_def Let_def prb_entry_put_if
        split: prod.splits option.splits circuit_state.splits if_splits)
  ultimately show ?thesis using rv by (auto simp: held_by_def inflight_def st')
qed

lemma reserve_refused_free:
  assumes "reserve_attempt r now st = (Inl e, st')"
    and "\<forall>i. inflight st i = n i" and "n (p_id (ru_provider r)) < u32_max"
  shows "\<forall>i. inflight st' i = n i"
proof -
  have "runtime_same (gs_runtime (ats_gates st')) (gs_runtime (ats_gates st))"
    using reserve_attempt_refused assms unfolding reserve_attempt_def gates_same_def inflight_def by metis
  moreover have "rs_in_flight (runtime_core s) = rs_in_flight s" for s by (simp add: runtime_core_def)
  ultimately show ?thesis using assms(2) unfolding runtime_same_def inflight_def by metis
qed

lemma settled_simps [simp]:
  "settled n Next ls = free_at n ls" "settled n Stop ls = free_at n ls"
  "settled n (Exit (ErrorReply status code)) ls = free_at n ls"
  "settled n (Exit (RetryReply status code until)) ls = free_at n ls"
  "settled n (Exit (TapReply kind tap rv until)) ls = held_by n rv ls"
  by (simp_all add: settled_def)

lemma gates_updates [simp]:
  "ls_gates (on_gates f ls) = f (ls_gates ls)" "ls_gates (fail_with a ls) = ls_gates ls"
  "ls_gates (note_selection r ls) = ls_gates ls" "ls_gates (exclude scope r ls) = ls_gates ls"
  "ls_gates (note_provider_lost cfg index r scope now ls) = ls_gates ls"
  "ls_gates (send r ls) = ls_gates ls" "ls_gates (snd (begin_budget br ls)) = ls_gates ls"
  by (simp_all add: on_gates_def fail_with_def note_selection_def Let_def exclude_def log_event_def
      note_provider_lost_def send_def begin_budget_def case_prod_unfold)

lemma inflight_on_quota [simp]: "inflight (ls_gates (on_quota f ls)) = inflight (ls_gates ls)"
  by (simp add: on_quota_def)

lemma free_at_cong: "inflight (ls_gates ls') = inflight (ls_gates ls) \<Longrightarrow> free_at n ls' = free_at n ls"
  by (simp add: free_at_def)

lemma held_by_cong: "inflight (ls_gates ls') = inflight (ls_gates ls) \<Longrightarrow> held_by n rv ls' = held_by n rv ls"
  by (simp add: held_by_def)

lemma begin_budget_gates: "begin_budget br ls = (ok, ls') \<Longrightarrow> ls_gates ls' = ls_gates ls"
  using gates_updates(7) [of br ls] by simp

lemma plan_retry_runtime: "gs_runtime (snd (plan_retry_times gs now rs)) = gs_runtime gs"
  by (induction rs arbitrary: gs) (simp_all add: case_prod_unfold Let_def)

text \<open>An answer of the loop's own: never a tap, and the permits stay.\<close>

definition own_answer :: "(gate_state \<Rightarrow> 'd loop_exit \<times> gate_state) \<Rightarrow> bool" where
  "own_answer answer \<longleftrightarrow>
     (\<forall>gs. (case fst (answer gs) of TapReply _ _ _ _ \<Rightarrow> False | _ \<Rightarrow> True) \<and>
           gs_runtime (snd (answer gs)) = gs_runtime gs)"

lemma own_answers: "own_answer (answer_error status code)" "own_answer (answer_retry cfg now status code)"
  by (simp_all add: own_answer_def answer_error_def answer_retry_def case_prod_unfold plan_retry_runtime)

lemma own_answer_settled:
  assumes "own_answer answer" and "free_at n ls"
  shows "settled n (Exit (fst (answer (ats_gates (ls_gates ls)))))
           (on_gates (\<lambda>st. st\<lparr>ats_gates := snd (answer (ats_gates (ls_gates ls)))\<rparr>) ls)"
proof -
  have "inflight ((ls_gates ls)\<lparr>ats_gates := snd (answer (ats_gates (ls_gates ls)))\<rparr>) = inflight (ls_gates ls)"
    using assms(1) by (simp add: inflight_def own_answer_def fun_eq_iff)
  then have "free_at n (on_gates (\<lambda>st. st\<lparr>ats_gates := snd (answer (ats_gates (ls_gates ls)))\<rparr>) ls)"
    using assms(2) by (simp add: free_at_def)
  then show ?thesis using assms(1)
    by (auto simp: own_answer_def settled_def split: loop_exit.splits dest: spec [of _ "ats_gates (ls_gates ls)"])
qed

lemma fail_over_settled:
  assumes "held_by n rv ls" and "own_answer answer"
  shows "case fail_over cfg index r now scope aff oc failure answer rv ls of (signal, ls') \<Rightarrow> settled n signal ls'"
proof -
  define ls3 where "ls3 = fail_with failure
    (let ls1 = exclude scope r (on_gates (finish_reservation oc now rv) ls)
     in if aff then note_provider_lost cfg index r scope now ls1 else ls1)"
  have "free_at n ls3"
    using reservation_ends_free(3) [OF assms(1), of oc now]
    by (subst free_at_cong [of _ "on_gates (finish_reservation oc now rv) ls"]) (simp_all add: ls3_def Let_def)
  then show ?thesis using own_answer_settled [OF assms(2), of n ls3]
    by (simp add: fail_over_def Let_def ls3_def [unfolded Let_def, symmetric] case_prod_unfold)
qed

lemma fail_over_ensures:
  "held_by n rv ls \<Longrightarrow> own_answer answer \<Longrightarrow>
   ensures (case fail_over cfg index r now scope aff oc failure answer rv ls of (signal, ls') \<Rightarrow> (Inl signal, ls'))
     (settled n) Q"
  using fail_over_settled [of n rv ls answer cfg index r now scope aff oc failure] by (auto split: prod.splits)

lemma admit_settled:
  assumes "free_at n ls" and "quiet w" and "n (p_id (ru_provider r)) < u32_max"
  shows "ensures (admit_attempt r w ls) (settled n) (held_by n)"
proof -
  let ?gs = "ats_gates (ls_gates ls)"
  obtain ok quota where q: "quota_is_available (gs_quota ?gs) (k_id (ru_key r)) (aw_check_ms w) = (ok, quota)"
    by (rule prod.exhaust)
  obtain ok2 ls2 where b: "begin_budget (aw_begin w) (on_quota (\<lambda>_. quota) ls) = (ok2, ls2)" by (rule prod.exhaust)
  obtain res st where res: "reserve_attempt r (aw_reserve_ms w) (aw_during w 0 (ls_gates ls2)) = (res, st)"
    by (rule prod.exhaust)
  have free: "free_at n (on_quota f ls)" for f using assms(1) by (simp add: free_at_def)
  have free2: "free_at n ls2" using free begin_budget_gates [OF b] by (simp add: free_at_def)
  have before: "\<forall>i. inflight (aw_during w 0 (ls_gates ls2)) i = n i"
    using free2 assms(2) by (simp add: free_at_def quiet_def)
  have "held_by n rv (ls2\<lparr>ls_gates := st\<rparr>)" if "res = Inr rv" for rv
    using reserve_held [OF _ before assms(3)] res that by simp
  moreover have "free_at n (ls2\<lparr>ls_gates := st\<rparr>)" if "res = Inl e" for e
    using reserve_refused_free [OF _ before assms(3)] res that by (simp add: free_at_def)
  ultimately show ?thesis using assms(1) free free2
    by (cases ok2; cases res) (simp_all add: admit_attempt_def q b res Let_def)
qed

lemma prepare_body_settled:
  assumes "held_by n rv ls"
  shows "ensures (prepare_body cfg r w rv (note_selection r ls)) (settled n) (\<lambda>_. held_by n rv)"
proof -
  have "held_by n rv (note_selection r ls)" by (subst held_by_cong [of _ ls]) (simp_all add: assms)
  then show ?thesis using reservation_ends_free by (auto simp: prepare_body_def reject_locally_def Let_def)
qed

lemma resolve_uri_settled:
  "held_by n rv ls \<Longrightarrow> ensures (resolve_uri cfg index r w rv ls) (settled n) (\<lambda>_. held_by n rv)"
  unfolding resolve_uri_def
  by (cases "aw_uri_error w") (simp, simp only: option.case, rule fail_over_ensures, simp_all add: own_answers)

lemma during_held: "held_by n rv ls \<Longrightarrow> quiet w \<Longrightarrow> held_by n rv (on_gates (aw_during w k) ls)"
  by (simp add: held_by_def quiet_def)

lemma authorize_settled:
  assumes "held_by n rv ls" and "quiet w"
  shows "ensures (authorize cfg index r w rv ls) (settled n) (\<lambda>_. held_by n rv)"
proof (cases "if is_codex r then aw_auth_error w else None")
  case None
  then show ?thesis using during_held [OF assms] by (simp add: authorize_def Let_def)
next
  case (Some err)
  obtain status code message where err: "err = (status, code, message)" by (rule prod_cases3)
  show ?thesis unfolding authorize_def Let_def Some err option.case prod.case
    by (rule fail_over_ensures [OF during_held [OF assms] own_answers(1)])
qed

lemma prepare_headers_settled:
  "held_by n rv ls \<Longrightarrow> ensures (prepare_headers w rv ls) (settled n) (\<lambda>_. held_by n rv)"
  using reservation_ends_free by (auto simp: prepare_headers_def reject_locally_def)

lemma send_held: "held_by n rv ls \<Longrightarrow> held_by n rv (send r ls)"
  by (subst held_by_cong [of _ ls]) simp_all

lemma send_first_settled:
  "held_by n rv ls \<Longrightarrow> quiet w \<Longrightarrow> ensures (send_first r w ls) (settled n) (\<lambda>_. held_by n rv)"
  by (simp add: send_first_def during_held send_held)

lemma begin_held:
  "begin_budget br (on_gates (aw_during w k) ls) = (ok, ls') \<Longrightarrow> held_by n rv ls \<Longrightarrow> quiet w \<Longrightarrow> held_by n rv ls'"
  using begin_budget_gates [of br "on_gates (aw_during w k) ls" ok ls'] by (simp add: held_by_def quiet_def)

lemma inflight_record_error [simp]:
  "inflight (on_runtime (\<lambda>b. record_error b p e k c status now) st) = inflight st"
  by (simp add: inflight_def on_runtime_def record_error_def prb_entry_def Let_def fun_eq_iff)

lemma oauth_replay_settled:
  assumes "held_by n rv ls" and "quiet w"
  shows "ensures (oauth_replay r w rv d ls) (settled n) (\<lambda>_. held_by n rv)"
proof -
  obtain ok ls1 where b: "begin_budget (aw_replay w) (on_gates (aw_during w 3) ls) = (ok, ls1)" by (rule prod.exhaust)
  have held: "held_by n rv ls1" by (rule begin_held [OF b assms])
  have free: "free_at n (fail_with a (on_gates (neutral_reservation (aw_now_ms w) rv) ls1))" for a
    using reservation_ends_free(2) [OF held] by (simp add: free_at_def)
  have sent: "held_by n rv (on_gates (\<lambda>st. aw_during w 4 (on_runtime (\<lambda>b. record_error b p e k c status now) st)) (send r ls1))"
    for p e k c status now
    using held assms(2) by (simp add: held_by_def quiet_def)
  show ?thesis using reservation_ends_free held assms(1) free sent
    by (cases ok) (simp_all add: oauth_replay_def reject_locally_def Let_def b)
qed

lemma recover_settled:
  assumes "held_by n rv ls" and "quiet w"
  shows "ensures (recover_encrypted cfg r w rv d ls) (settled n) (\<lambda>_. held_by n rv)"
proof -
  obtain ok ls1 where b: "begin_budget (aw_recover w)
      (on_gates (aw_during w 5) (ls\<lparr>ls_recovery_retries := ls_recovery_retries ls + 1\<rparr>)) = (ok, ls1)"
    by (rule prod.exhaust)
  have "held_by n rv (ls\<lparr>ls_recovery_retries := ls_recovery_retries ls + 1\<rparr>)"
    using assms(1) by (simp add: held_by_def)
  then have held: "held_by n rv ls1" by (rule begin_held [OF b _ assms(2)])
  then have sent: "held_by n rv (on_gates (aw_during w 6) (send r ls1))"
    by (simp add: during_held send_held assms(2))
  show ?thesis unfolding recover_encrypted_def b prod.case using held sent assms(1) by simp
qed

lemma dispatch_result_settled:
  assumes "held_by n rv ls"
  shows "ensures (dispatch_result cfg index r w rv d ls) (settled n) (\<lambda>_. held_by n rv)"
proof (cases d)
  case (Inl err)
  obtain status code message where e: "dispatch_error_to_http (lc_timeout_text cfg) err = (status, code, message)"
    by (rule prod_cases3)
  show ?thesis unfolding dispatch_result_def Inl e sum.case prod.case
    by (rule fail_over_ensures [OF assms own_answers(2)])
qed (simp add: dispatch_result_def assms)

lemma observe_upstream_held: "held_by n rv (observe_upstream cfg r now reply ls) = held_by n rv ls"
  by (rule held_by_cong) (auto simp: observe_upstream_def Let_def split: prod.splits option.splits)

lemma retry_response_settled:
  assumes "held_by n rv ls"
  shows "ensures (retry_response cfg index r w reply rv ls) (settled n) (held_by n)"
proof (cases "\<not> should_retry_response_status (ur_status reply) \<or> ur_has_usage reply")
  case True
  then show ?thesis using assms by (simp add: retry_response_def)
next
  case False
  have "held_by n (take_guards rv) ls" using assms by (simp add: held_by_def)
  then have held: "held_by n (take_guards rv) ls'" if "inflight (ls_gates ls') = inflight (ls_gates ls)" for ls'
    using held_by_cong [OF that] by simp
  show ?thesis
    unfolding retry_response_def Let_def case_prod_unfold finish_take_guards
    using False by (auto split: option.splits intro!: held reservation_ends_free(1))
qed

lemma deliver_settled:
  fixes cfg :: "'d loop_config"
  assumes "held_by n rv ls" and "quiet w"
  shows "case deliver cfg index r w stream reply rv ls of (signal, ls') \<Rightarrow> settled n signal ls'"
proof -
  have held: "held_by n rv (on_gates (aw_during w 7) ls)" by (rule during_held [OF assms])
  have failed: "settled n (fst (fail_over cfg index r now scope aff oc failure answer rv (on_gates (aw_during w 7) ls)))
      (snd (fail_over cfg index r now scope aff oc failure answer rv (on_gates (aw_during w 7) ls)))"
    if "own_answer answer" for now scope aff oc failure answer
    using fail_over_settled [OF held that] by (simp add: case_prod_unfold)
  have retry: "held_by n rv (on_gates (\<lambda>st. st\<lparr>ats_gates := snd (plan_retry_times gs now rs)\<rparr>) (on_gates (aw_during w 7) ls))"
    if "gs = ats_gates (aw_during w 7 (ls_gates ls))" for gs now and rs :: "'d resolved_upstream list"
    using held by (subst held_by_cong [of _ "on_gates (aw_during w 7) ls"])
      (simp_all add: that inflight_def plan_retry_runtime fun_eq_iff)
  show ?thesis
    unfolding deliver_def deliver_converted_def Let_def
    using held failed [OF own_answers(1)] retry [OF refl] reservation_ends_free(3) [OF held]
    by (simp add: case_prod_unfold split: option.splits)
qed

lemma request_step_settled:
  assumes "free_at n ls" and "quiet w" and "n (p_id (ru_provider r)) < u32_max"
  shows "case request_step cfg index r w ls of (signal, ls') \<Rightarrow> settled n signal ls'"
  unfolding request_step_def
  apply (rule signal_of_ensures)
  apply (rule then_ensures [OF admit_settled [OF assms]])
  apply (rule then_ensures, rule prepare_body_settled, assumption)
  apply (rule then_ensures, rule resolve_uri_settled, assumption)
  apply (rule then_ensures, rule authorize_settled, assumption, rule assms(2))
  apply (rule then_ensures, rule prepare_headers_settled, assumption)
  apply (rule then_ensures, rule send_first_settled, assumption, rule assms(2))
  apply (rule then_ensures, rule oauth_replay_settled, assumption, rule assms(2))
  apply (rule then_ensures, rule recover_settled, assumption, rule assms(2))
  apply (rule then_ensures, rule dispatch_result_settled, assumption)
  apply (rule then_ensures, rule retry_response_settled, simp add: observe_upstream_held)
  using deliver_settled [OF _ assms(2)] apply (fastforce split: prod.splits)
  done

text \<open>What the loop as a whole leaves.\<close>

definition exit_settled :: "(int \<Rightarrow> nat) \<Rightarrow> 'd loop_exit \<Rightarrow> loop_state \<Rightarrow> bool" where
  "exit_settled n e ls \<longleftrightarrow> settled n (Exit e) ls"

lemma attempt_loop_settled:
  assumes "free_at n ls" and "\<forall>k. quiet (world k)" and "\<forall>r \<in> set rs. n (p_id (ru_provider r)) < u32_max"
  shows "case attempt_loop cfg world index rs ls of
           (Some e, ls') \<Rightarrow> exit_settled n e ls' | (None, ls') \<Rightarrow> free_at n ls'"
  using assms
proof (induction rs arbitrary: index ls)
  case (Cons r rs)
  obtain signal ls' where s: "request_step cfg index r (world index) ls = (signal, ls')" by (rule prod.exhaust)
  then have "settled n signal ls'"
    using request_step_settled [of n ls "world index" r cfg index] Cons.prems by simp
  then show ?case using Cons.IH [of ls' "index + 1"] Cons.prems
    by (cases signal) (simp_all add: s exit_settled_def)
qed simp

lemma run_request_settled:
  assumes "free_at n ls" and "\<forall>k. quiet (world k)"
    and "\<forall>r \<in> set (lc_attempts cfg). n (p_id (ru_provider r)) < u32_max"
    and "run_request cfg world now ls = (e, ls')"
  shows "exit_settled n e ls'"
proof -
  obtain res ls1 where l: "attempt_loop cfg world 0 (lc_attempts cfg) ls = (res, ls1)" by (rule prod.exhaust)
  show ?thesis
  proof (cases res)
    case None
    then have "free_at n ls1" using attempt_loop_settled [OF assms(1-3), of cfg 0] l by simp
    then show ?thesis
      using own_answer_settled [OF own_answers(2), of n ls1] assms(4)
      by (auto simp: run_request_def l None Let_def case_prod_unfold exit_settled_def)
  next
    case (Some e1)
    then show ?thesis using attempt_loop_settled [OF assms(1-3), of cfg 0] l assms(4)
      by (simp add: run_request_def)
  qed
qed

section \<open>Properties\<close>

text \<open>C5: whatever the outside does, a request sends at most three upstream requests, counting the
  replay after a token refresh and the retry without encrypted content, and to one provider at most
  as many as that provider is configured for (at least one).\<close>

theorem request_sends_bounded:
  assumes "\<forall>r \<in> set (lc_attempts cfg). nat (max (p_max_attempts (ru_provider r)) 1) \<le> limit (p_id (ru_provider r))"
    and "run_request cfg world now (loop_start st book start timeout) = (e, ls)"
  shows "sent_count (ls_log ls) \<le> 3 \<and> (\<forall>p. sent_to p (ls_log ls) \<le> limit p)"
proof -
  have "control_inv limit ls"
    using run_request_control [OF loop_start_control, of cfg limit world now st book start timeout] assms
    by (simp add: limited_def)
  then show ?thesis by (auto simp: control_inv_def MAX_ATTEMPTS_def)
qed


text \<open>A request gives back every permit it took, on every way out: after it, each provider's
  in-flight counter is what it was before, plus one exactly for the provider whose response body is
  being handed to the client, and that body's reservation holds the permit (other requests are taken
  to leave the counters as they find them).\<close>

theorem request_returns_permits:
  assumes "\<forall>k. quiet (world k)"
    and "\<forall>r \<in> set (lc_attempts cfg). inflight st (p_id (ru_provider r)) < u32_max"
    and "run_request cfg world now (loop_start st book start timeout) = (e, ls)"
  shows "case e of
           TapReply kind tap rv until \<Rightarrow>
             \<exists>p. rsv_capacity rv = Some p \<and>
                 (\<forall>i. inflight (ls_gates ls) i = inflight st i + (if i = p then 1 else 0))
         | _ \<Rightarrow> \<forall>i. inflight (ls_gates ls) i = inflight st i"
proof -
  have "free_at (inflight st) (loop_start st book start timeout)" by (simp add: free_at_def loop_start_def)
  from run_request_settled [OF this assms]
  show ?thesis by (cases e) (simp_all add: exit_settled_def free_at_def held_by_def)
qed

section \<open>A request at concrete inputs\<close>

text \<open>Two endpoints of one provider: the first attempt times out, the second is answered.\<close>

definition wit_second :: "int resolved_upstream" where
  "wit_second = (wit_attempt 5)\<lparr>ru_endpoint := wit_endpoint\<lparr>e_id := 9\<rparr>\<rparr>"

definition wit_loop :: "int loop_config" where
  "wit_loop =
     \<lparr>lc_attempts = [wit_attempt 4, wit_second], lc_model = ''gpt'', lc_identity = None, lc_binding = None,
      lc_recovery_enabled = False, lc_fallback_ms = 60000, lc_timeout_text = ''30s'',
      lc_http_date = (\<lambda>_. None), lc_rfc3339 = (\<lambda>_. None)\<rparr>"

definition wit_reply :: upstream_reply where
  "wit_reply =
     \<lparr>ur_status = 200, ur_headers = [], ur_encrypted_rejected = False, ur_has_usage = False,
      ur_model_scoped = False, ur_preflight_error = None, ur_collect_error = None, ur_convert_error = None\<rparr>"

definition wit_reading :: begin_reading where
  "wit_reading = \<lparr>br_available_at = 10, br_clock = (10, 10, 10), br_jitter = 0\<rparr>"

definition wit_world :: "nat \<Rightarrow> attempt_world" where
  "wit_world i =
     \<lparr>aw_check_ms = 100, aw_reserve_ms = 100, aw_begin = wit_reading, aw_convert_error = None,
      aw_rewrite_ok = True, aw_normalized = Inr True, aw_body_override_error = None, aw_uri_error = None,
      aw_auth_error = None, aw_header_override_error = None, aw_now_ms = 100, aw_during = (\<lambda>_ st. st),
      aw_dispatch = (if i = 0 then Inl DispatchTimeout else Inr wit_reply), aw_refreshed = False,
      aw_retry_header_error = None, aw_replay = wit_reading, aw_replay_dispatch = Inr wit_reply,
      aw_cleaned = False, aw_recover = wit_reading, aw_recover_dispatch = Inr wit_reply,
      aw_retry_available_at = 10, aw_latency_ms = 5\<rparr>"

definition wit_run :: "int loop_exit \<times> loop_state" where
  "wit_run = run_request wit_loop wit_world 100
     (loop_start wit_attempt_state (affinity_new 1000 10) 0 10000000000)"

lemma wit_run_eq: "run_request wit_loop wit_world 100
     (loop_start wit_attempt_state (affinity_new 1000 10) 0 10000000000) = (fst wit_run, snd wit_run)"
  by (simp add: wit_run_def)

theorem request_sends_bounded_witness:
  "sent_count (ls_log (snd wit_run)) \<le> 3 \<and> sent_to 1 (ls_log (snd wit_run)) \<le> 10"
  using request_sends_bounded [OF _ wit_run_eq, of "\<lambda>_. 10"]
  by (simp add: wit_loop_def wit_second_def wit_attempt_def wit_provider_def)

theorem request_returns_permits_witness:
  "case fst wit_run of
     TapReply kind tap rv until \<Rightarrow>
       \<exists>p. rsv_capacity rv = Some p \<and>
           (\<forall>i. inflight (ls_gates (snd wit_run)) i = inflight wit_attempt_state i + (if i = p then 1 else 0))
   | _ \<Rightarrow> \<forall>i. inflight (ls_gates (snd wit_run)) i = inflight wit_attempt_state i"
proof -
  have "inflight wit_attempt_state i < u32_max" for i
    by (simp add: inflight_def wit_gates_def prb_entry_def runtime_book_new_def unwrap_or_def runtime_default_def u32_max_def)
  then show ?thesis
    by (intro request_returns_permits [OF _ _ wit_run_eq]) (simp_all add: quiet_def wit_world_def)
qed

end
