(* ===== verification/Utf8.thy ===== *)
theory Utf8
  imports Text
begin

text \<open>
  \<open>String::from_utf8_lossy\<close> of the standard library: a byte sequence that is not UTF-8 is read with
  U+FFFD in place of every maximal invalid part.  \<open>utf8_seq\<close> reads the first sequence: its length
  and whether it is valid; the ranges of the second byte are those of the Unicode table.
\<close>

definition is_cont :: "char \<Rightarrow> bool" where
  "is_cont c \<longleftrightarrow> 128 \<le> byte c \<and> byte c \<le> 191"

definition utf8_width :: "char \<Rightarrow> nat" where
  "utf8_width c =
     (let b = byte c in
      if b < 128 then 1
      else if 194 \<le> b \<and> b \<le> 223 then 2
      else if 224 \<le> b \<and> b \<le> 239 then 3
      else if 240 \<le> b \<and> b \<le> 244 then 4
      else 0)"

text \<open>The second byte of a sequence of three or four bytes, which excludes overlong forms and surrogates.\<close>

definition second_ok :: "char \<Rightarrow> char \<Rightarrow> bool" where
  "second_ok a b \<longleftrightarrow>
     (if byte a = 224 then 160 \<le> byte b \<and> byte b \<le> 191
      else if byte a = 237 then 128 \<le> byte b \<and> byte b \<le> 159
      else if byte a = 240 then 144 \<le> byte b \<and> byte b \<le> 191
      else if byte a = 244 then 128 \<le> byte b \<and> byte b \<le> 143
      else is_cont b)"

text \<open>The length of the part read, and whether it is a character; a missing byte is no continuation.\<close>

fun conts :: "nat \<Rightarrow> nat \<Rightarrow> string \<Rightarrow> nat \<times> bool" where
  "conts n 0 s = (n, True)"
| "conts n (Suc k) (c # s) = (if is_cont c then conts (n + 1) k s else (n, False))"
| "conts n (Suc k) [] = (n, False)"

fun utf8_seq :: "char \<Rightarrow> string \<Rightarrow> nat \<times> bool" where
  "utf8_seq a s =
     (case utf8_width a of
        0 \<Rightarrow> (1, False)
      | Suc 0 \<Rightarrow> (1, True)
      | Suc (Suc 0) \<Rightarrow> conts 1 1 s
      | Suc (Suc (Suc k)) \<Rightarrow>
          (case s of
             [] \<Rightarrow> (1, False)
           | b # s' \<Rightarrow> (if second_ok a b then conts 2 (Suc k) s' else (1, False))))"

definition replacement_character :: string where
  "replacement_character = [char_of (239 :: nat), char_of (191 :: nat), char_of (189 :: nat)]"

lemma conts_ge: "conts n k s = (m, ok) \<Longrightarrow> n \<le> m"
  by (induction n k s rule: conts.induct) (auto split: if_splits)

lemma utf8_seq_pos: "utf8_seq a s = (m, ok) \<Longrightarrow> 0 < m"
  by (auto split: nat.splits list.splits if_splits dest!: conts_ge)

declare utf8_seq.simps [simp del]

function from_utf8_lossy :: "string \<Rightarrow> string" where
  "from_utf8_lossy [] = []"
| "from_utf8_lossy (a # s) =
     (case utf8_seq a s of
        (n, ok) \<Rightarrow>
          (if ok then take n (a # s) else replacement_character) @ from_utf8_lossy (drop n (a # s)))"
  by pat_completeness auto
termination
  by (relation "measure length") (auto dest!: utf8_seq_pos [OF sym])

section \<open>Text that is UTF-8 is read unchanged\<close>

function is_utf8 :: "string \<Rightarrow> bool" where
  "is_utf8 [] \<longleftrightarrow> True"
| "is_utf8 (a # s) \<longleftrightarrow> (case utf8_seq a s of (n, ok) \<Rightarrow> ok \<and> is_utf8 (drop n (a # s)))"
  by pat_completeness auto
termination
  by (relation "measure length") (auto dest!: utf8_seq_pos [OF sym])

lemma from_utf8_lossy_id: "is_utf8 s \<Longrightarrow> from_utf8_lossy s = s"
  by (induction s rule: is_utf8.induct) (auto split: prod.splits)

lemma is_utf8_ascii: "\<forall>c \<in> set s. byte c < 128 \<Longrightarrow> is_utf8 s"
  by (induction s) (auto simp: utf8_seq.simps utf8_width_def One_nat_def split: nat.splits)

end
