(* ===== verification/Response_Events.thy ===== *)
theory Response_Events
  imports Utf8 Json Types
begin

text \<open>
  The decoding of upstream event streams and what the gateway reads from the events
  (response_events.rs, and \<open>SseParser\<close> of proxy.rs): server-sent event framing, usage, terminal events
  and their status, the first output.  A byte sequence is a \<open>string\<close>; \<open>serde_json::from_slice\<close> is
  the argument \<open>parse\<close>.
\<close>

definition MAX_EVENT_BYTES :: nat where
  "MAX_EVENT_BYTES = 4 * 1024 * 1024"

abbreviation get_str :: "json \<Rightarrow> string \<Rightarrow> string option" where
  "get_str v k \<equiv> Option.bind (json_get v k) as_str"

definition reasoning_effort :: "json \<Rightarrow> string option" where
  "reasoning_effort value =
     opt_filter (\<lambda>s. s \<noteq> [] \<and> length s \<le> 64)
       (map_option trim
         (Option.bind (opt_or (json_pointer value [''reasoning'', ''effort'']) (json_get value ''reasoning_effort''))
            as_str))"

definition nonempty_string :: "json \<Rightarrow> string \<Rightarrow> bool" where
  "nonempty_string value field \<longleftrightarrow> is_some_and (get_str value field) (\<lambda>s. s \<noteq> [])"

definition output_part :: "json \<Rightarrow> bool" where
  "output_part value \<longleftrightarrow> nonempty_string value ''text'' \<or> nonempty_string value ''refusal''"

definition output_item :: "json \<Rightarrow> bool" where
  "output_item value =
     (case get_str value ''type'' of
        None \<Rightarrow> False
      | Some kind \<Rightarrow>
          if kind \<in> set [''message'', ''reasoning''] then
            list_ex (\<lambda>field. is_some_and (Option.bind (json_get value field) as_array) (list_ex output_part))
              [''content'', ''summary'']
          else if kind \<in> set [''function_call'', ''mcp_call''] then nonempty_string value ''arguments''
          else if kind = ''custom_tool_call'' then nonempty_string value ''input''
          else if kind = ''code_interpreter_call'' then nonempty_string value ''code''
          else if kind = ''image_generation_call'' then nonempty_string value ''result''
          else False)"

definition output_event_source :: "json \<Rightarrow> string \<Rightarrow> bool \<times> string" where
  "output_event_source value kind =
     (if kind = ''response.audio.delta'' then (nonempty_string value ''data'', ''delta'')
      else if kind = ''response.image_generation_call.partial_image'' then
        (nonempty_string value ''partial_image_b64'', ''delta'')
      else if kind \<in> set [''response.shell_call_command.added'', ''response.shell_call_command.done''] then
        (nonempty_string value ''command'', ''output_done'')
      else if kind \<in> set [''response.output_text.done'', ''response.reasoning_text.done'',
                         ''response.reasoning_summary_text.done''] then
        (nonempty_string value ''text'', ''output_done'')
      else if kind = ''response.refusal.done'' then (nonempty_string value ''refusal'', ''output_done'')
      else if kind \<in> set [''response.function_call_arguments.done'', ''response.mcp_call_arguments.done''] then
        (nonempty_string value ''arguments'', ''output_done'')
      else if kind = ''response.custom_tool_call_input.done'' then
        (nonempty_string value ''input'', ''output_done'')
      else if kind = ''response.code_interpreter_call_code.done'' then
        (nonempty_string value ''code'', ''output_done'')
      else if kind \<in> set [''response.content_part.done'', ''response.reasoning_summary_part.done''] then
        (is_some_and (json_get value ''part'') output_part, ''output_done'')
      else if kind = ''response.output_item.done'' then
        (is_some_and (json_get value ''item'') output_item, ''output_done'')
      else if kind \<in> set [''response.completed'', ''response.done'', ''response.incomplete''] then
        (is_some_and (Option.bind (json_pointer value [''response'', ''output'']) as_array) (list_ex output_item),
         ''response_done'')
      else (False, ''delta''))"

definition output_event_kind :: "json \<Rightarrow> string option" where
  "output_event_kind value =
     (case get_str value ''type'' of
        None \<Rightarrow> None
      | Some kind \<Rightarrow>
          if starts_with ''response.'' kind \<and> ends_with ''.delta'' kind \<and> nonempty_string value ''delta''
          then Some ''delta''
          else (case output_event_source value kind of
                  (has_output, source) \<Rightarrow> (if has_output then Some source else None)))"

section \<open>Server-sent events\<close>

record sse_decoder =
  sd_line :: string
  sd_data :: string
  sd_event :: "string option"
  sd_frame_bytes :: nat
  sd_discarding :: bool
  sd_error :: "string option"

definition sse_decoder_new :: sse_decoder where
  "sse_decoder_new =
     \<lparr>sd_line = [], sd_data = [], sd_event = None, sd_frame_bytes = 0, sd_discarding = False, sd_error = None\<rparr>"

abbreviation LF :: char where "LF \<equiv> CHR 0x0A"
abbreviation CR :: char where "CR \<equiv> CHR 0x0D"

definition take_event :: "(string \<Rightarrow> json option) \<Rightarrow> sse_decoder \<Rightarrow> json option \<times> sse_decoder" where
  "take_event parse d0 =
     (let data = sd_data d0; kind = sd_event d0; d = d0\<lparr>sd_data := [], sd_event := None\<rparr> in
      if data = [] \<or> data = ''[DONE]'' then (None, d)
      else (case parse data of
              None \<Rightarrow> (None, d\<lparr>sd_error := Some ''SSE data is not valid JSON''\<rparr>)
            | Some value \<Rightarrow>
                (Some (if get_str value ''type'' = None then
                         (case (kind, as_object value) of
                            (Some k, Some root) \<Rightarrow> JObject (map_insert ''type'' (JString k) root)
                          | _ \<Rightarrow> value)
                       else value), d)))"

definition strip_cr :: "string \<Rightarrow> string" where
  "strip_cr line = (if line \<noteq> [] \<and> last line = CR then butlast line else line)"

definition complete_line :: "(string \<Rightarrow> json option) \<Rightarrow> sse_decoder \<Rightarrow> json option \<times> sse_decoder" where
  "complete_line parse d0 =
     (let line = strip_cr (sd_line d0); d = d0\<lparr>sd_line := []\<rparr> in
      if line = [] then
        (case (if sd_discarding d then (None, d) else take_event parse d) of
           (event, d') \<Rightarrow> (event, d'\<lparr>sd_discarding := False, sd_frame_bytes := 0\<rparr>))
      else if sd_discarding d then (None, d)
      else (case strip_prefix ''event:'' line of
              Some value \<Rightarrow> (None, d\<lparr>sd_event := Some (trim (from_utf8_lossy value))\<rparr>)
            | None \<Rightarrow>
                (case strip_prefix ''data:'' line of
                   Some value \<Rightarrow>
                     (None, d\<lparr>sd_data := (if sd_data d \<noteq> [] then sd_data d @ [LF] else sd_data d) @
                                (case strip_prefix '' '' value of Some v \<Rightarrow> v | None \<Rightarrow> value)\<rparr>)
                 | None \<Rightarrow> (None, d))))"

definition push_content :: "char \<Rightarrow> sse_decoder \<Rightarrow> sse_decoder" where
  "push_content b d0 =
     (let d1 = d0\<lparr>sd_frame_bytes := u64_saturating_add (sd_frame_bytes d0) 1\<rparr>;
          d2 = (if MAX_EVENT_BYTES < sd_frame_bytes d1 \<and> \<not> sd_discarding d1
                then d1\<lparr>sd_error := Some ''SSE frame exceeds 4 MiB parsing limit'', sd_discarding := True,
                        sd_line := [], sd_data := [], sd_event := None\<rparr>
                else d1)
      in if \<not> sd_discarding d2 \<or> length (sd_line d2) < 2 then d2\<lparr>sd_line := sd_line d2 @ [b]\<rparr> else d2)"

definition push_byte :: "(string \<Rightarrow> json option) \<Rightarrow> char \<Rightarrow> sse_decoder \<Rightarrow> json option \<times> sse_decoder" where
  "push_byte parse b d = (if b = LF then complete_line parse d else (None, push_content b d))"

fun push_bytes :: "(string \<Rightarrow> json option) \<Rightarrow> string \<Rightarrow> sse_decoder \<Rightarrow> json list \<times> sse_decoder" where
  "push_bytes parse [] d = ([], d)"
| "push_bytes parse (b # bs) d =
     (case push_byte parse b d of
        (event, d') \<Rightarrow>
          (case push_bytes parse bs d' of (events, d'') \<Rightarrow> (somes [event] @ events, d'')))"

definition sse_finish :: "(string \<Rightarrow> json option) \<Rightarrow> sse_decoder \<Rightarrow> json list \<times> sse_decoder" where
  "sse_finish parse d0 =
     (case (if sd_line d0 \<noteq> [] then complete_line parse d0 else (None, d0)) of
        (e1, d1) \<Rightarrow>
          (case (if \<not> sd_discarding d1 then take_event parse d1 else (None, d1)) of
             (e2, d2) \<Rightarrow> (somes [e1, e2], d2\<lparr>sd_frame_bytes := 0\<rparr>)))"

section \<open>Usage, tier and terminal events\<close>

definition terminal_statuses :: "string list" where
  "terminal_statuses = [''completed'', ''failed'', ''incomplete'', ''cancelled'', ''canceled'']"

definition terminal_types :: "string list" where
  "terminal_types =
     [''response.completed'', ''response.done'', ''response.failed'', ''response.incomplete'',
      ''response.cancelled'', ''response.canceled'', ''error'']"

definition is_terminal_response_event :: "json \<Rightarrow> bool" where
  "is_terminal_response_event value \<longleftrightarrow>
     is_some_and (get_str (unwrap_or (json_get value ''response'') value) ''status'') (\<lambda>s. s \<in> set terminal_statuses) \<or>
     is_some_and (get_str value ''type'') (\<lambda>t. t \<in> set terminal_types)"

definition service_tier :: "json \<Rightarrow> string option" where
  "service_tier value =
     Option.bind (opt_or (Option.bind (json_get value ''response'') (\<lambda>r. json_get r ''service_tier''))
                         (json_get value ''service_tier''))
       as_str"

text \<open>\<open>find_map\<close> over the paths, then the sign is checked.\<close>

fun find_map :: "('a \<Rightarrow> 'b option) \<Rightarrow> 'a list \<Rightarrow> 'b option" where
  "find_map f [] = None"
| "find_map f (x # xs) = (case f x of Some y \<Rightarrow> Some y | None \<Rightarrow> find_map f xs)"

definition usage_number :: "json \<Rightarrow> string list list \<Rightarrow> int option" where
  "usage_number value names =
     opt_filter (\<lambda>n. 0 \<le> n) (find_map (\<lambda>name. Option.bind (json_pointer value name) as_i64) names)"

definition cached_paths :: "string list list" where
  "cached_paths =
     [[''input_tokens_details'', ''cached_tokens''], [''prompt_tokens_details'', ''cached_tokens''],
      [''cached_tokens''], [''cache_read_input_tokens'']]"

definition created_paths :: "string list list" where
  "created_paths =
     [[''input_tokens_details'', ''cache_creation_tokens''], [''input_tokens_details'', ''cache_write_tokens''],
      [''prompt_tokens_details'', ''cache_creation_tokens''], [''prompt_tokens_details'', ''cache_write_tokens''],
      [''cache_creation_tokens''], [''cache_creation_input_tokens''], [''cached_creation_tokens''],
      [''cache_write_tokens'']]"

definition reasoning_paths :: "string list list" where
  "reasoning_paths =
     [[''output_tokens_details'', ''reasoning_tokens''], [''completion_tokens_details'', ''reasoning_tokens''],
      [''reasoning_tokens'']]"

definition parse_usage :: "json \<Rightarrow> usage option" where
  "parse_usage value =
     (case usage_number value [[''input_tokens''], [''prompt_tokens'']] of
        None \<Rightarrow> None
      | Some input \<Rightarrow>
          (case usage_number value [[''output_tokens''], [''completion_tokens'']] of
             None \<Rightarrow> None
           | Some output \<Rightarrow>
               (let cached = unwrap_or (usage_number value cached_paths) 0;
                    created = unwrap_or (usage_number value created_paths) 0;
                    reasoning = unwrap_or (usage_number value reasoning_paths) 0
                in Some \<lparr>u_input_tokens = max (i64_saturating_sub (i64_saturating_sub input cached) created) 0,
                         u_output_tokens = output,
                         u_cache_read_input_tokens = cached,
                         u_cache_creation_input_tokens = created,
                         u_reasoning_output_tokens = reasoning\<rparr>)))"

definition event_usage :: "json \<Rightarrow> usage option" where
  "event_usage value =
     opt_or (Option.bind (Option.bind (json_get value ''response'') (\<lambda>r. json_get r ''usage'')) parse_usage)
       (Option.bind (json_get value ''usage'') parse_usage)"

definition is_invalid_encrypted_content :: "json \<Rightarrow> bool" where
  "is_invalid_encrypted_content value \<longleftrightarrow>
     list_ex (\<lambda>error. get_str error ''code'' = Some ''invalid_encrypted_content'')
       (somes [json_get value ''error'', json_pointer value [''response'', ''error'']])"

definition rejection_without_output :: "json \<Rightarrow> bool" where
  "rejection_without_output value \<longleftrightarrow>
     is_invalid_encrypted_content value \<and> event_usage value = None \<and>
     is_none_or (Option.bind (json_get value ''output'') as_array) (\<lambda>xs. xs = []) \<and>
     is_none_or (Option.bind (json_pointer value [''response'', ''output'']) as_array) (\<lambda>xs. xs = [])"

section \<open>What a stream has shown so far\<close>

record observation =
  ob_first_output_kind :: "string option"
  ob_usage :: "usage option"
  ob_service_tier :: "string option"
  ob_terminal :: bool
  ob_terminal_usage :: bool

definition observation_new :: observation where
  "observation_new =
     \<lparr>ob_first_output_kind = None, ob_usage = None, ob_service_tier = None, ob_terminal = False,
      ob_terminal_usage = False\<rparr>"

definition observe :: "json \<Rightarrow> observation \<Rightarrow> observation" where
  "observe value o0 =
     (let o1 = (if ob_first_output_kind o0 = None then o0\<lparr>ob_first_output_kind := output_event_kind value\<rparr> else o0);
          terminal = is_terminal_response_event value;
          o2 = (case event_usage value of
                  None \<Rightarrow> o1
                | Some usage \<Rightarrow>
                    (if terminal \<or> \<not> ob_terminal_usage o1
                     then o1\<lparr>ob_usage := Some usage, ob_terminal_usage := ob_terminal_usage o1 \<or> terminal\<rparr>
                     else o1));
          o3 = (case service_tier value of None \<Rightarrow> o2 | Some tier \<Rightarrow> o2\<lparr>ob_service_tier := Some tier\<rparr>)
      in o3\<lparr>ob_terminal := ob_terminal o3 \<or> terminal\<rparr>)"

section \<open>The status of a terminal event\<close>

text \<open>\<open>StatusCode::from_u16\<close> accepts 100 to 999; the number is cut to 16 bits before.\<close>

definition status_from_u16 :: "nat \<Rightarrow> int option" where
  "status_from_u16 n = (if 100 \<le> n \<and> n < 1000 then Some (int n) else None)"

definition status_from_value :: "json option \<Rightarrow> int option" where
  "status_from_value value =
     Option.bind value (\<lambda>v.
       Option.bind (opt_or (json_get v ''status'') (json_get v ''status_code'')) (\<lambda>status.
         Option.bind (opt_or (as_u64 status) (Option.bind (as_str status) parse_u64)) (\<lambda>n.
           status_from_u16 (n mod 2 ^ 16))))"

definition error_field :: "(json \<Rightarrow> json option) \<Rightarrow> json option \<Rightarrow> string \<Rightarrow> string" where
  "error_field field error fallback =
     unwrap_or (opt_filter (\<lambda>s. s \<noteq> []) (Option.bind (Option.bind error field) as_str)) fallback"

definition error_code :: "json \<Rightarrow> json option" where
  "error_code error = opt_or (json_get error ''code'') (json_get error ''type'')"

definition error_fields :: "json option \<Rightarrow> string \<Rightarrow> string \<Rightarrow> string \<times> string" where
  "error_fields error fallback_code fallback_message =
     (error_field error_code error fallback_code,
      error_field (\<lambda>e. json_get e ''message'') error fallback_message)"

type_synonym event_status = "int \<times> string option \<times> string option"

definition response_error :: "json \<Rightarrow> json option" where
  "response_error value =
     opt_or (Option.bind (json_get value ''response'') (\<lambda>r. json_get r ''error'')) (json_get value ''error'')"

definition response_failure_status :: "json \<Rightarrow> string \<Rightarrow> string \<Rightarrow> event_status" where
  "response_failure_status value fallback_code fallback_message =
     (let error = response_error value;
          status = unwrap_or (opt_or (status_from_value (json_get value ''response''))
                     (opt_or (status_from_value error) (status_from_value (Some value)))) 502
      in case error_fields error fallback_code fallback_message of
           (code, message) \<Rightarrow> (status, Some code, Some message))"

definition response_incomplete_status :: "json \<Rightarrow> event_status" where
  "response_incomplete_status value =
     (let response = json_get value ''response'' in
      if response_error value \<noteq> None
      then response_failure_status value ''response_incomplete'' ''response incomplete''
      else (let reason = unwrap_or (opt_or
                  (Option.bind (Option.bind response (\<lambda>r. json_get r ''incomplete_details''))
                     (\<lambda>details. get_str details ''reason''))
                  (Option.bind response (\<lambda>r. get_str r ''status''))) ''response incomplete'';
                status = unwrap_or (opt_or (status_from_value response) (status_from_value (Some value))) 200
            in (status, Some ''response_incomplete'', Some reason)))"

definition response_cancelled_status :: "json \<Rightarrow> event_status" where
  "response_cancelled_status value =
     (let response = json_get value ''response'' in
      if response_error value \<noteq> None
      then response_failure_status value ''response_cancelled'' ''response cancelled''
      else (unwrap_or (opt_or (status_from_value response) (status_from_value (Some value))) 200,
            Some ''response_cancelled'', Some ''response cancelled''))"

definition terminal_kind :: "json \<Rightarrow> string option" where
  "terminal_kind value =
     (case get_str (unwrap_or (json_get value ''response'') value) ''status'' of
        Some s \<Rightarrow>
          (if s = ''completed'' then Some ''response.completed''
           else if s = ''failed'' then Some ''response.failed''
           else if s = ''incomplete'' then Some ''response.incomplete''
           else if s \<in> set [''cancelled'', ''canceled''] then Some ''response.cancelled''
           else get_str value ''type'')
      | None \<Rightarrow> get_str value ''type'')"

definition terminal_error_status :: "json \<Rightarrow> event_status" where
  "terminal_error_status value =
     (let error = json_get value ''error'' in
      (unwrap_or (opt_or (status_from_value (Some value)) (status_from_value error)) 502,
       Some (unwrap_or (Option.bind (Option.bind error error_code) as_str) ''upstream_error''),
       Some (unwrap_or (Option.bind error (\<lambda>e. get_str e ''message'')) ''upstream websocket returned an error'')))"

definition terminal_status :: "json \<Rightarrow> event_status" where
  "terminal_status value =
     (if is_invalid_encrypted_content value then
        (case error_fields (opt_or (json_get value ''error'') (json_pointer value [''response'', ''error'']))
                ''invalid_encrypted_content'' ''encrypted content could not be verified'' of
           (code, message) \<Rightarrow> (400, Some code, Some message))
      else (case terminal_kind value of
              None \<Rightarrow> terminal_error_status value
            | Some kind \<Rightarrow>
                if kind \<in> set [''response.completed'', ''response.done''] then (200, None, None)
                else if kind = ''response.failed'' then
                  response_failure_status value ''response_failed'' ''response failed''
                else if kind = ''response.incomplete'' then response_incomplete_status value
                else if kind \<in> set [''response.cancelled'', ''response.canceled''] then
                  response_cancelled_status value
                else terminal_error_status value))"

section \<open>The parser of a streamed response\<close>

definition chat_function_has_output :: "json \<Rightarrow> bool" where
  "chat_function_has_output value \<longleftrightarrow> list_ex (nonempty_string value) [''name'', ''arguments'']"

definition chat_delta_has_output :: "json \<Rightarrow> bool" where
  "chat_delta_has_output delta \<longleftrightarrow>
     list_ex (nonempty_string delta) [''reasoning_content'', ''reasoning'', ''refusal''] \<or>
     nonempty_string delta ''content'' \<or>
     is_some_and (Option.bind (json_get delta ''tool_calls'') as_array)
       (list_ex (\<lambda>call. is_some_and (json_get call ''function'') chat_function_has_output \<or>
                        is_some_and (json_get call ''custom'') (\<lambda>custom. nonempty_string custom ''input''))) \<or>
     is_some_and (json_get delta ''function_call'') chat_function_has_output"

definition chat_has_output_delta :: "json \<Rightarrow> bool" where
  "chat_has_output_delta v \<longleftrightarrow>
     is_some_and (Option.bind (json_get v ''choices'') as_array)
       (list_ex (\<lambda>choice. is_some_and (json_get choice ''delta'') chat_delta_has_output))"

definition extract_usage :: "string \<Rightarrow> json \<Rightarrow> usage option" where
  "extract_usage api_format root =
     (if api_format = ''chat_completions'' then Option.bind (json_get root ''usage'') parse_usage
      else if api_format = ''responses'' then event_usage root
      else None)"

record sse_push_out =
  spo_saw_first_token :: bool
  spo_saw_valid_event :: bool
  spo_saw_error_event :: bool
  spo_usage :: "usage option"

record sse_parser =
  sp_api_format :: string
  sp_decoder :: sse_decoder
  sp_observation :: observation
  sp_done_first_token :: bool
  sp_terminal_result :: "event_status option"

definition sse_parser_new :: "string \<Rightarrow> sse_parser" where
  "sse_parser_new api_format =
     \<lparr>sp_api_format = api_format, sp_decoder = sse_decoder_new, sp_observation = observation_new,
      sp_done_first_token = False, sp_terminal_result = None\<rparr>"

definition is_error_type :: "string \<Rightarrow> bool" where
  "is_error_type kind \<longleftrightarrow> kind = ''error'' \<or> ends_with ''.error'' kind \<or> ends_with ''_error'' kind"

definition event_failed :: "json \<Rightarrow> bool" where
  "event_failed value \<longleftrightarrow>
     (if is_terminal_response_event value then fst (snd (terminal_status value)) \<noteq> None
      else is_some_and (get_str value ''type'') is_error_type \<or>
           is_some_and (json_get value ''error'') (\<lambda>error. error \<noteq> JNull))"

definition parser_observe_event :: "json \<Rightarrow> sse_push_out \<times> sse_parser \<Rightarrow> sse_push_out \<times> sse_parser" where
  "parser_observe_event value op =
     (case op of (out0, p0) \<Rightarrow>
        (let p1 = p0\<lparr>sp_observation := observe value (sp_observation p0)\<rparr>;
             failed = event_failed value;
             p2 = (if is_terminal_response_event value
                   then p1\<lparr>sp_terminal_result := Some (terminal_status value)\<rparr> else p1);
             out1 = out0\<lparr>spo_saw_error_event := spo_saw_error_event out0 \<or> failed,
                         spo_saw_valid_event := spo_saw_valid_event out0 \<or> \<not> failed\<rparr>
         in if \<not> sp_done_first_token p2 \<and>
               (sp_api_format p2 = ''chat_completions'' \<and> chat_has_output_delta value \<or>
                sp_api_format p2 = ''responses'' \<and> ob_first_output_kind (sp_observation p2) \<noteq> None)
            then (out1\<lparr>spo_saw_first_token := True\<rparr>,
                  p2\<lparr>sp_observation := (sp_observation p2)\<lparr>ob_first_output_kind :=
                       Some (unwrap_or (ob_first_output_kind (sp_observation p2)) ''delta'')\<rparr>,
                     sp_done_first_token := True\<rparr>)
            else (out1, p2)))"

definition parser_observe :: "json list \<Rightarrow> sse_parser \<Rightarrow> sse_push_out \<times> sse_parser" where
  "parser_observe events p0 =
     (case fold parser_observe_event events
             (\<lparr>spo_saw_first_token = False, spo_saw_valid_event = False, spo_saw_error_event = False,
               spo_usage = None\<rparr>, p0) of
        (out, p) \<Rightarrow> (out\<lparr>spo_usage := ob_usage (sp_observation p)\<rparr>, p))"

definition parser_push :: "(string \<Rightarrow> json option) \<Rightarrow> string \<Rightarrow> sse_parser \<Rightarrow> sse_push_out \<times> sse_parser" where
  "parser_push parse bytes p =
     (case push_bytes parse bytes (sp_decoder p) of
        (events, d) \<Rightarrow> parser_observe events (p\<lparr>sp_decoder := d\<rparr>))"

definition parser_finish :: "(string \<Rightarrow> json option) \<Rightarrow> sse_parser \<Rightarrow> sse_push_out \<times> sse_parser" where
  "parser_finish parse p =
     (case sse_finish parse (sp_decoder p) of
        (events, d) \<Rightarrow> parser_observe events (p\<lparr>sp_decoder := d\<rparr>))"

section \<open>What a stream means\<close>

text \<open>
  The reference reading of an event stream: it is cut into lines at LF (the rest after the last LF is a
  line if it is not empty), a final CR of a line is dropped, an empty line ends a frame, and what is
  left at the end is a frame too.  The data of a frame are its data lines joined by LF (leading empty
  ones left out), its kind is the last event line.  A frame with more bytes than the limit, line ends
  not counted, is skipped.
\<close>

fun sse_lines :: "string \<Rightarrow> string list" where
  "sse_lines [] = []"
| "sse_lines (b # bs) =
     (if b = LF then [] # sse_lines bs
      else (case sse_lines bs of [] \<Rightarrow> [[b]]
            | l # ls \<Rightarrow> (b # l) # ls))"

fun frames_from :: "string list \<Rightarrow> string list \<Rightarrow> string list list" where
  "frames_from f [] = (if f = [] then [] else [f])"
| "frames_from f (l # ls) =
     (if strip_cr l = [] then (f @ [l]) # frames_from [] ls else frames_from (f @ [l]) ls)"

fun join_lf :: "string list \<Rightarrow> string" where
  "join_lf [] = []"
| "join_lf [v] = v"
| "join_lf (v # w # vs) = v @ LF # join_lf (w # vs)"

definition frame_field :: "string \<Rightarrow> string list \<Rightarrow> string list" where
  "frame_field name f = somes (map (\<lambda>l. strip_prefix name (strip_cr l)) f)"

definition strip_space :: "string \<Rightarrow> string" where
  "strip_space v = (case strip_prefix '' '' v of Some w \<Rightarrow> w | None \<Rightarrow> v)"

definition frame_data :: "string list \<Rightarrow> string" where
  "frame_data f = join_lf (dropWhile (\<lambda>v. v = []) (map strip_space (frame_field ''data:'' f)))"

definition frame_kind :: "string list \<Rightarrow> string option" where
  "frame_kind f =
     (case rev (frame_field ''event:'' f) of [] \<Rightarrow> None | v # _ \<Rightarrow> Some (trim (from_utf8_lossy v)))"

definition frame_size :: "string list \<Rightarrow> nat" where
  "frame_size f = sum_list (map length f)"

text \<open>The value of a frame: the kind becomes the member \<open>type\<close> of an object that has none.\<close>

definition with_type :: "string option \<Rightarrow> json \<Rightarrow> json" where
  "with_type kind value =
     (if get_str value ''type'' = None then
        (case (kind, as_object value) of
           (Some k, Some root) \<Rightarrow> JObject (map_insert ''type'' (JString k) root)
         | _ \<Rightarrow> value)
      else value)"

definition frame_event :: "(string \<Rightarrow> json option) \<Rightarrow> string list \<Rightarrow> json option" where
  "frame_event parse f =
     (if MAX_EVENT_BYTES < frame_size f \<or> frame_data f = [] \<or> frame_data f = ''[DONE]'' then None
      else map_option (with_type (frame_kind f)) (parse (frame_data f)))"

definition sse_events :: "(string \<Rightarrow> json option) \<Rightarrow> string \<Rightarrow> json list" where
  "sse_events parse stream = somes (map (frame_event parse) (frames_from [] (sse_lines stream)))"

text \<open>
  The one case the decoder reads differently: the byte that exceeds the limit is the CR at the end of a
  line that is not empty.
\<close>

definition overruns_at_cr :: "string list \<Rightarrow> string \<Rightarrow> bool" where
  "overruns_at_cr f l \<longleftrightarrow> strip_cr l \<noteq> [] \<and> frame_size f + length l = MAX_EVENT_BYTES + 1 \<and> last l = CR"

fun no_overrun_at_cr :: "string list \<Rightarrow> string list \<Rightarrow> bool" where
  "no_overrun_at_cr f [] = True"
| "no_overrun_at_cr f (l # ls) =
     (if strip_cr l = [] then no_overrun_at_cr [] ls
      else \<not> overruns_at_cr f l \<and> no_overrun_at_cr (f @ [l]) ls)"

text \<open>A stream that arrives in chunks, and the end of the stream.\<close>

fun push_chunks :: "(string \<Rightarrow> json option) \<Rightarrow> string list \<Rightarrow> sse_decoder \<Rightarrow> json list \<times> sse_decoder" where
  "push_chunks parse [] d = ([], d)"
| "push_chunks parse (c # cs) d =
     (case push_bytes parse c d of (es, d') \<Rightarrow> (case push_chunks parse cs d' of (es', d'') \<Rightarrow> (es @ es', d'')))"

definition decode_chunks :: "(string \<Rightarrow> json option) \<Rightarrow> string list \<Rightarrow> json list" where
  "decode_chunks parse chunks =
     (case push_chunks parse chunks sse_decoder_new of (es, d) \<Rightarrow> es @ fst (sse_finish parse d))"

section \<open>The decoder implements the reference\<close>

lemma push_bytes_append:
  "push_bytes parse (xs @ ys) d =
     (case push_bytes parse xs d of (es, d') \<Rightarrow>
        (case push_bytes parse ys d' of (es', d'') \<Rightarrow> (es @ es', d'')))"
  by (induction xs arbitrary: d) (simp_all split: prod.splits)

lemma push_chunks_concat: "push_chunks parse cs d = push_bytes parse (concat cs) d"
  by (induction cs arbitrary: d) (simp_all add: push_bytes_append)

lemma push_bytes_content: "LF \<notin> set l \<Longrightarrow> push_bytes parse l d = ([], fold push_content l d)"
  by (induction l arbitrary: d) (auto simp: push_byte_def)

lemma push_content_line: "sd_line (push_content b d) \<noteq> []"
  by (auto simp: push_content_def Let_def)

lemma fold_push_content_line: "l \<noteq> [] \<Longrightarrow> sd_line (fold push_content l d) \<noteq> []"
  by (induction l rule: rev_induct) (simp_all add: push_content_line)

lemma MAX_EVENT_BYTES_lt: "MAX_EVENT_BYTES < u64_max"
  by (simp add: MAX_EVENT_BYTES_def u64_max_def)

lemma push_content_within:
  assumes "\<not> sd_discarding d" and "sd_frame_bytes d < MAX_EVENT_BYTES"
  shows "push_content b d = d\<lparr>sd_frame_bytes := sd_frame_bytes d + 1, sd_line := sd_line d @ [b]\<rparr>"
  using assms MAX_EVENT_BYTES_lt by (simp add: push_content_def Let_def u64_saturating_add_def)

lemma fold_push_content_within:
  "\<not> sd_discarding d \<Longrightarrow> sd_frame_bytes d + length l \<le> MAX_EVENT_BYTES \<Longrightarrow>
   fold push_content l d = d\<lparr>sd_frame_bytes := sd_frame_bytes d + length l, sd_line := sd_line d @ l\<rparr>"
  by (induction l arbitrary: d) (simp_all add: push_content_within)

text \<open>While it discards, the decoder keeps the first two bytes of a line and nothing else.\<close>

lemma fold_push_content_discarding:
  assumes "sd_discarding d" and "length (sd_line d) \<le> 2"
  shows "\<exists>n. fold push_content l d = d\<lparr>sd_frame_bytes := n, sd_line := take 2 (sd_line d @ l)\<rparr>"
  using assms
proof (induction l arbitrary: d)
  case Nil
  then show ?case by (intro exI [of _ "sd_frame_bytes d"]) simp
next
  case (Cons b l)
  show ?case
  proof (cases "length (sd_line d) < 2")
    case True
    then obtain n where "push_content b d = d\<lparr>sd_frame_bytes := n, sd_line := sd_line d @ [b]\<rparr>"
      using Cons.prems by (simp add: push_content_def Let_def)
    then show ?thesis using Cons.IH [of "push_content b d"] Cons.prems True by auto
  next
    case False
    then obtain n where "push_content b d = d\<lparr>sd_frame_bytes := n\<rparr>"
      using Cons.prems by (simp add: push_content_def Let_def)
    then show ?thesis using Cons.IH [of "push_content b d"] Cons.prems False by auto
  qed
qed

lemma fold_push_content_overrun:
  assumes "\<not> sd_discarding d" and "sd_line d = []" and "sd_frame_bytes d \<le> MAX_EVENT_BYTES"
    and "MAX_EVENT_BYTES < sd_frame_bytes d + length l"
  obtains n err where "fold push_content l d =
    \<lparr>sd_line = take 2 (drop (MAX_EVENT_BYTES - sd_frame_bytes d) l), sd_data = [], sd_event = None,
     sd_frame_bytes = n, sd_discarding = True, sd_error = err\<rparr>"
proof -
  define k where "k = MAX_EVENT_BYTES - sd_frame_bytes d"
  have k: "k < length l" using assms by (simp add: k_def)
  then have l: "l = take k l @ l ! k # drop (Suc k) l" by (simp add: id_take_nth_drop)
  let ?d = "fold push_content (take k l) d"
  have d: "?d = d\<lparr>sd_frame_bytes := MAX_EVENT_BYTES, sd_line := take k l\<rparr>"
    using fold_push_content_within [of d "take k l"] assms k by (simp add: k_def)
  have b: "push_content (l ! k) ?d =
    \<lparr>sd_line = [l ! k], sd_data = [], sd_event = None, sd_frame_bytes = MAX_EVENT_BYTES + 1,
     sd_discarding = True, sd_error = Some ''SSE frame exceeds 4 MiB parsing limit''\<rparr>"
    using assms(1) MAX_EVENT_BYTES_lt by (simp add: d push_content_def Let_def u64_saturating_add_def)
  obtain n where n: "fold push_content (drop (Suc k) l) (push_content (l ! k) ?d) =
    (push_content (l ! k) ?d)\<lparr>sd_frame_bytes := n, sd_line := take 2 ([l ! k] @ drop (Suc k) l)\<rparr>"
    using fold_push_content_discarding [of "push_content (l ! k) ?d" "drop (Suc k) l"] by (auto simp: b)
  have "fold push_content l d = fold push_content (drop (Suc k) l) (push_content (l ! k) ?d)"
    by (subst l) simp
  also have "\<dots> = \<lparr>sd_line = take 2 (drop k l), sd_data = [], sd_event = None,
     sd_frame_bytes = n, sd_discarding = True, sd_error = Some ''SSE frame exceeds 4 MiB parsing limit''\<rparr>"
    using k n by (simp add: b Cons_nth_drop_Suc)
  finally show thesis by (rule that [unfolded k_def [symmetric]])
qed

text \<open>The decoder between two lines, after the lines \<open>f\<close> of the current frame.\<close>

definition decoder_after :: "string list \<Rightarrow> sse_decoder \<Rightarrow> bool" where
  "decoder_after f d \<longleftrightarrow> sd_line d = [] \<and>
     (if frame_size f \<le> MAX_EVENT_BYTES
      then \<not> sd_discarding d \<and> sd_frame_bytes d = frame_size f \<and> sd_data d = frame_data f \<and> sd_event d = frame_kind f
      else sd_discarding d \<and> sd_data d = [] \<and> sd_event d = None)"

lemma frame_Nil [simp]: "frame_size [] = 0" "frame_data [] = []" "frame_kind [] = None"
  by (simp_all add: frame_size_def frame_data_def frame_kind_def frame_field_def)

lemma decoder_after_new: "decoder_after [] sse_decoder_new"
  by (simp add: decoder_after_def sse_decoder_new_def)

lemma frame_size_snoc [simp]: "frame_size (f @ [l]) = frame_size f + length l"
  by (simp add: frame_size_def)

lemma frame_field_snoc:
  "frame_field name (f @ [l]) =
     frame_field name f @ (case strip_prefix name (strip_cr l) of None \<Rightarrow> [] | Some v \<Rightarrow> [v])"
  by (simp add: frame_field_def somes_append split: option.splits)

lemma join_lf_snoc: "vs \<noteq> [] \<Longrightarrow> join_lf (vs @ [v]) = join_lf vs @ LF # v"
  by (induction vs rule: join_lf.induct) auto

lemma join_lf_eq_Nil: "join_lf (v # vs) = [] \<longleftrightarrow> v = [] \<and> vs = []"
  by (cases vs) auto

lemma frame_data_snoc:
  "frame_data (f @ [l]) =
     (case strip_prefix ''data:'' (strip_cr l) of
        None \<Rightarrow> frame_data f
      | Some v \<Rightarrow> (if frame_data f \<noteq> [] then frame_data f @ [LF] else frame_data f) @ strip_space v)"
proof (cases "strip_prefix ''data:'' (strip_cr l)")
  case None
  then show ?thesis by (simp add: frame_data_def frame_field_snoc)
next
  case (Some v)
  define vs where "vs = map strip_space (frame_field ''data:'' f)"
  have "join_lf (dropWhile (\<lambda>v. v = []) (vs @ [w])) =
      (if join_lf (dropWhile (\<lambda>v. v = []) vs) \<noteq> [] then join_lf (dropWhile (\<lambda>v. v = []) vs) @ [LF]
       else join_lf (dropWhile (\<lambda>v. v = []) vs)) @ w" for w
  proof (cases "dropWhile (\<lambda>v. v = []) vs")
    case Nil
    then have "\<forall>v \<in> set vs. v = []" by (simp add: dropWhile_eq_Nil_conv)
    then have "dropWhile (\<lambda>v. v = []) (vs @ [w]) = dropWhile (\<lambda>v. v = []) [w]"
      by - (rule dropWhile_append2, blast)
    then show ?thesis unfolding Nil by simp
  next
    case (Cons x xs)
    then have "x \<noteq> []" using hd_dropWhile [of "\<lambda>v. v = []" vs] by (metis list.distinct(1) list.sel(1))
    have "x \<in> set vs" using Cons set_dropWhileD [of x "\<lambda>v. v = []" vs] by simp
    then have "dropWhile (\<lambda>v. v = []) (vs @ [w]) = (x # xs) @ [w]"
      using dropWhile_append1 [of x vs "\<lambda>v. v = []" "[w]"] Cons \<open>x \<noteq> []\<close> by simp
    then show ?thesis using Cons \<open>x \<noteq> []\<close> join_lf_snoc [of "x # xs" w] by (simp add: join_lf_eq_Nil)
  qed
  then show ?thesis using Some by (simp add: frame_data_def frame_field_snoc vs_def)
qed

lemma frame_kind_snoc:
  "frame_kind (f @ [l]) =
     (case strip_prefix ''event:'' (strip_cr l) of
        None \<Rightarrow> frame_kind f | Some v \<Rightarrow> Some (trim (from_utf8_lossy v)))"
  by (simp add: frame_kind_def frame_field_snoc split: option.splits)

lemma event_line_not_data:
  assumes "strip_prefix ''event:'' l = Some v"
  shows "strip_prefix ''data:'' l = None"
  using assms by (cases l) (auto simp: strip_prefix_def starts_with_def split: if_splits)

lemma strip_prefix_Nil: "p \<noteq> [] \<Longrightarrow> strip_prefix p [] = None"
  by (simp add: strip_prefix_def starts_with_def)

lemma take_event_value:
  "take_event parse d =
     (if sd_data d = [] \<or> sd_data d = ''[DONE]'' then None else map_option (with_type (sd_event d)) (parse (sd_data d)),
      d\<lparr>sd_data := [], sd_event := None,
        sd_error := (if sd_data d = [] \<or> sd_data d = ''[DONE]'' \<or> parse (sd_data d) \<noteq> None then sd_error d
                     else Some ''SSE data is not valid JSON'')\<rparr>)"
  by (auto simp: take_event_def with_type_def Let_def split: option.splits)

lemma decoder_line_within:
  assumes "decoder_after f d" and "LF \<notin> set l" and "frame_size (f @ [l]) \<le> MAX_EVENT_BYTES"
    and "push_bytes parse (l @ [LF]) d = (es, d')"
  shows "if strip_cr l = [] then es = somes [frame_event parse (f @ [l])] \<and> decoder_after [] d'
         else es = [] \<and> decoder_after (f @ [l]) d'"
proof -
  let ?d = "fold push_content l d"
  have d: "\<not> sd_discarding d" "sd_line d = []" "sd_frame_bytes d = frame_size f" "sd_data d = frame_data f"
    "sd_event d = frame_kind f" and size: "frame_size f + length l \<le> MAX_EVENT_BYTES"
    using assms by (auto simp: decoder_after_def)
  have at: "?d = d\<lparr>sd_frame_bytes := frame_size f + length l, sd_line := l\<rparr>"
    using fold_push_content_within [of d l] d size by simp
  have r: "(es, d') = (somes [fst (complete_line parse ?d)], snd (complete_line parse ?d))"
    using assms(2, 4) by (simp add: push_bytes_append push_bytes_content push_byte_def split: prod.splits)
  show ?thesis
  proof (cases "strip_cr l = []")
    case True
    have "frame_event parse (f @ [l]) = fst (take_event parse ?d)"
      using size by (simp add: frame_event_def take_event_value at d frame_data_snoc frame_kind_snoc True strip_prefix_Nil)
    then show ?thesis using r d True
      by (simp add: complete_line_def at Let_def take_event_value decoder_after_def cong: if_cong)
  next
    case False
    then show ?thesis using r size
      by (auto simp: complete_line_def at d Let_def decoder_after_def frame_data_snoc frame_kind_snoc strip_space_def
          event_line_not_data split: option.splits)
  qed
qed

text \<open>A line that keeps or makes the frame too long: the two bytes kept tell whether it is empty.\<close>

lemma strip_cr_Nil: "strip_cr l = [] \<longleftrightarrow> l = [] \<or> l = [CR]"
  by (cases l rule: rev_cases) (auto simp: strip_cr_def)

lemma strip_cr_take_2: "strip_cr (take 2 l) = [] \<longleftrightarrow> strip_cr l = []"
proof -
  consider "l = []" | a where "l = [a]" | a b k where "l = a # b # k" by (metis neq_Nil_conv)
  then show ?thesis by cases (auto simp: strip_cr_def)
qed

lemma decoder_line_beyond:
  assumes "decoder_after f d" and "LF \<notin> set l" and "MAX_EVENT_BYTES < frame_size (f @ [l])"
    and "\<not> overruns_at_cr f l" and "push_bytes parse (l @ [LF]) d = (es, d')"
  shows "if strip_cr l = [] then es = somes [frame_event parse (f @ [l])] \<and> decoder_after [] d'
         else es = [] \<and> decoder_after (f @ [l]) d'"
proof -
  let ?d = "fold push_content l d"
  have "sd_discarding ?d \<and> sd_data ?d = [] \<and> sd_event ?d = None \<and> (strip_cr (sd_line ?d) = [] \<longleftrightarrow> strip_cr l = [])"
  proof (cases "frame_size f \<le> MAX_EVENT_BYTES")
    case True
    let ?k = "MAX_EVENT_BYTES - frame_size f"
    obtain n err where at: "?d = \<lparr>sd_line = take 2 (drop ?k l), sd_data = [], sd_event = None,
        sd_frame_bytes = n, sd_discarding = True, sd_error = err\<rparr>"
      using fold_push_content_overrun [of d l] assms(1, 3) True by (auto simp: decoder_after_def)
    have k: "?k < length l" using assms(3) True by auto
    have "strip_cr (drop ?k l) = [] \<longleftrightarrow> strip_cr l = []"
    proof (cases "?k = 0")
      case False
      have "strip_cr l \<noteq> []" if "strip_cr (drop ?k l) \<noteq> []"
        using that k False by (auto simp: strip_cr_Nil)
      moreover have "strip_cr l = []" if "strip_cr (drop ?k l) = []"
      proof (rule ccontr)
        assume l: "strip_cr l \<noteq> []"
        have "drop ?k l = [CR]" using that k by (auto simp: strip_cr_Nil)
        then have "l = take ?k l @ [CR]" by (metis append_take_drop_id)
        then have "length l = ?k + 1" "last l = CR" using k
          by (metis length_append_singleton length_take min.absorb4 Suc_eq_plus1, metis last_snoc)
        then show False using assms(4) l True by (simp add: overruns_at_cr_def)
      qed
      ultimately show ?thesis by blast
    qed simp
    then show ?thesis by (simp add: at strip_cr_take_2)
  next
    case False
    obtain n where at: "?d = d\<lparr>sd_frame_bytes := n, sd_line := take 2 l\<rparr>"
      using fold_push_content_discarding [of d l] assms(1) False by (auto simp: decoder_after_def)
    then show ?thesis using assms(1) False by (simp add: decoder_after_def strip_cr_take_2)
  qed
  moreover have "(es, d') = (somes [fst (complete_line parse ?d)], snd (complete_line parse ?d))"
    using assms(2, 5) by (simp add: push_bytes_append push_bytes_content push_byte_def split: prod.splits)
  moreover have "frame_event parse (f @ [l]) = None" using assms(3) by (simp add: frame_event_def)
  ultimately show ?thesis using assms(3) by (auto simp: complete_line_def Let_def decoder_after_def)
qed

lemma decoder_line:
  assumes "decoder_after f d" and "LF \<notin> set l" and "\<not> overruns_at_cr f l"
    and "push_bytes parse (l @ [LF]) d = (es, d')"
  shows "if strip_cr l = [] then es = somes [frame_event parse (f @ [l])] \<and> decoder_after [] d'
         else es = [] \<and> decoder_after (f @ [l]) d'"
  using decoder_line_within [OF assms(1, 2) _ assms(4)] decoder_line_beyond [OF assms(1, 2) _ assms(3, 4)]
  by linarith

lemma strip_cr_no_overrun: "strip_cr l = [] \<Longrightarrow> \<not> overruns_at_cr f l"
  by (simp add: overruns_at_cr_def)

text \<open>The end of the stream counts as the end of a line and of a frame.\<close>

lemma sse_finish_line:
  assumes "sd_line d \<noteq> []"
  shows "fst (sse_finish parse d) = fst (push_bytes parse [LF] d) @ fst (sse_finish parse (snd (push_bytes parse [LF] d)))"
proof -
  obtain e d1 where c: "complete_line parse d = (e, d1)" by (rule prod.exhaust)
  then have "sd_line d1 = []" by (auto simp: complete_line_def take_event_value Let_def split: if_splits option.splits)
  then show ?thesis using assms c by (cases e) (simp_all add: sse_finish_def push_byte_def case_prod_unfold)
qed

lemma sse_finish_frame:
  assumes "decoder_after f d"
  shows "fst (sse_finish parse d) = somes (map (frame_event parse) (if f = [] then [] else [f]))"
proof -
  have "fst (sse_finish parse d) = somes [frame_event parse f]"
    using assms by (auto simp: sse_finish_def decoder_after_def take_event_value frame_event_def split: if_splits)
  moreover have "frame_event parse [] = None"
    by (simp add: frame_event_def frame_data_def frame_field_def)
  ultimately show ?thesis by auto
qed

text \<open>A stream is its lines, each with its LF, and a rest.\<close>

lemma sse_lines_split:
  "\<exists>ls t. stream = concat (map (\<lambda>l. l @ [LF]) ls) @ t \<and> sse_lines stream = ls @ (if t = [] then [] else [t]) \<and>
     (\<forall>l \<in> set ls. LF \<notin> set l) \<and> LF \<notin> set t"
proof (induction stream)
  case Nil
  show ?case by (rule exI [of _ "[]"], rule exI [of _ "[]"]) simp
next
  case (Cons b bs)
  then obtain ls t where IH: "bs = concat (map (\<lambda>l. l @ [LF]) ls) @ t"
    "sse_lines bs = ls @ (if t = [] then [] else [t])" "\<forall>l \<in> set ls. LF \<notin> set l" "LF \<notin> set t" by blast
  show ?case
  proof (cases "b = LF")
    case True
    then show ?thesis using IH by (intro exI [of _ "[] # ls"] exI [of _ t]) auto
  next
    case b: False
    show ?thesis
    proof (cases ls)
      case Nil
      then show ?thesis using IH b by (intro exI [of _ "[]"] exI [of _ "b # t"]) auto
    next
      case (Cons l ls')
      then show ?thesis using IH b by (intro exI [of _ "(b # l) # ls'"] exI [of _ t]) auto
    qed
  qed
qed

lemma decoder_lines:
  assumes "decoder_after f d" and "\<forall>l \<in> set ls. LF \<notin> set l" and "no_overrun_at_cr f ls"
    and "push_bytes parse (concat (map (\<lambda>l. l @ [LF]) ls)) d = (es, d')"
  shows "es @ fst (sse_finish parse d') = somes (map (frame_event parse) (frames_from f ls))"
  using assms
proof (induction ls arbitrary: f d es)
  case Nil
  then show ?case by (simp add: sse_finish_frame)
next
  case (Cons l ls)
  obtain e1 d1 where l: "push_bytes parse (l @ [LF]) d = (e1, d1)" by (rule prod.exhaust)
  obtain e2 where ls: "push_bytes parse (concat (map (\<lambda>l. l @ [LF]) ls)) d1 = (e2, d')" and es: "es = e1 @ e2"
    using Cons.prems(4) l push_bytes_append [of parse "l @ [LF]" _ d] by (auto split: prod.splits)
  have "\<not> overruns_at_cr f l" using Cons.prems(3) strip_cr_no_overrun by (auto split: if_splits)
  note step = decoder_line [OF Cons.prems(1) _ this l]
  show ?case
  proof (cases "strip_cr l = []")
    case True
    then have "e2 @ fst (sse_finish parse d') = somes (map (frame_event parse) (frames_from [] ls))"
      using Cons.IH [OF _ _ _ ls, of "[]"] step Cons.prems by auto
    then show ?thesis using True step Cons.prems es by (cases "frame_event parse (f @ [l])") auto
  next
    case False
    then have "e2 @ fst (sse_finish parse d') = somes (map (frame_event parse) (frames_from (f @ [l]) ls))"
      using Cons.IH [OF _ _ _ ls, of "f @ [l]"] step Cons.prems by auto
    then show ?thesis using False step Cons.prems es by auto
  qed
qed

lemma no_overrun_at_cr_stream:
  assumes "no_overrun_at_cr f (sse_lines stream)"
  shows "fst (push_bytes parse stream d) @ fst (sse_finish parse (snd (push_bytes parse stream d))) =
    (let ls = sse_lines stream; r = push_bytes parse (concat (map (\<lambda>l. l @ [LF]) ls)) d
     in fst r @ fst (sse_finish parse (snd r)))"
proof -
  obtain ls t where s: "stream = concat (map (\<lambda>l. l @ [LF]) ls) @ t"
    "sse_lines stream = ls @ (if t = [] then [] else [t])" "LF \<notin> set t"
    using sse_lines_split [of stream] by blast
  show ?thesis
  proof (cases "t = []")
    case True
    then show ?thesis using s by (simp add: Let_def)
  next
    case False
    let ?r = "push_bytes parse stream d"
    have "sd_line (snd ?r) \<noteq> []"
      using s False by (simp add: push_bytes_append push_bytes_content fold_push_content_line split: prod.splits)
    note sse_finish_line [OF this, of parse]
    moreover have "push_bytes parse (concat (map (\<lambda>l. l @ [LF]) (sse_lines stream))) d = push_bytes parse (stream @ [LF]) d"
      using s False by simp
    ultimately show ?thesis by (simp add: Let_def push_bytes_append case_prod_unfold)
  qed
qed

lemma decoder_exact:
  assumes "no_overrun_at_cr [] (sse_lines (concat chunks))"
  shows "decode_chunks parse chunks = sse_events parse (concat chunks)"
proof -
  let ?ls = "sse_lines (concat chunks)"
  have "LF \<notin> set l" if "l \<in> set ?ls" for l
    using that sse_lines_split [of "concat chunks"] by (auto split: if_splits)
  moreover obtain es d' where "push_bytes parse (concat (map (\<lambda>l. l @ [LF]) ?ls)) sse_decoder_new = (es, d')"
    by (rule prod.exhaust)
  ultimately show ?thesis
    using decoder_lines [OF decoder_after_new _ assms] no_overrun_at_cr_stream [OF assms, of parse sse_decoder_new]
    by (auto simp: decode_chunks_def push_chunks_concat sse_events_def Let_def case_prod_unfold)
qed

text \<open>C8: the decoder of event streams gives, however the bytes of the stream are cut into chunks, exactly
  the events of the reference reading of the whole stream: lines, frames, data joined, the kind of the
  event line as type, frames beyond 4 MiB skipped; except that a frame must not cross the limit with the
  CR of a line that is not empty.\<close>

theorem sse_decoding_exact:
  assumes "no_overrun_at_cr [] (sse_lines (concat chunks))"
  shows "decode_chunks parse chunks = sse_events parse (concat chunks)"
  using assms by (rule decoder_exact)

theorem sse_decoding_exact_witness:
  "decode_chunks (\<lambda>s. Some (JObject [(''n'', JString s)])) [''event: a'' @ [CR], [LF] @ ''data: 1'' @ [LF] @ ''data'', '':2'', [LF, LF] @ ''data: 3'']
   = [JObject [(''n'', JString (''1'' @ [LF] @ ''2'')), (''type'', JString ''a'')], JObject [(''n'', JString ''3'')]]"
proof -
  let ?c = "[''event: a'' @ [CR], [LF] @ ''data: 1'' @ [LF] @ ''data'', '':2'', [LF, LF] @ ''data: 3'']"
  have "no_overrun_at_cr [] (sse_lines (concat ?c))"
    by (simp add: overruns_at_cr_def frame_size_def strip_cr_def MAX_EVENT_BYTES_def)
  moreover have "sse_events (\<lambda>s. Some (JObject [(''n'', JString s)])) (concat ?c)
   = [JObject [(''n'', JString (''1'' @ [LF] @ ''2'')), (''type'', JString ''a'')], JObject [(''n'', JString ''3'')]]"
    by (simp add: sse_events_def frame_event_def frame_data_def frame_kind_def frame_field_def frame_size_def
        strip_cr_def MAX_EVENT_BYTES_def strip_prefix_def starts_with_def strip_space_def with_type_def map_get_def
        from_utf8_lossy.simps utf8_seq.simps utf8_width_def byte_def trim_def trim_start_def trim_end_def ws1_def
        ws2_def ws3_def)
  ultimately show ?thesis using sse_decoding_exact [of ?c] by simp
qed

text \<open>
  A frame that crosses the limit with the CR of a line that is not empty: the decoder takes the next LF
  for the end of the frame and reads the rest of the same frame as if it were a frame of its own.
\<close>

theorem oversized_frame_resumes_early:
  assumes "LF \<notin> set l" and "length l = MAX_EVENT_BYTES"
  shows "push_bytes parse (l @ [CR, LF] @ rest) sse_decoder_new =
    push_bytes parse rest (sse_decoder_new\<lparr>sd_error := Some ''SSE frame exceeds 4 MiB parsing limit''\<rparr>)"
proof -
  have "fold push_content l sse_decoder_new = sse_decoder_new\<lparr>sd_frame_bytes := MAX_EVENT_BYTES, sd_line := l\<rparr>"
    using fold_push_content_within [of sse_decoder_new l] assms by (simp add: sse_decoder_new_def)
  then show ?thesis using assms MAX_EVENT_BYTES_lt
    by (simp add: push_bytes_append push_bytes_content push_byte_def push_content_def sse_decoder_new_def
        u64_saturating_add_def complete_line_def strip_cr_def Let_def split: prod.splits)
qed

section \<open>Usage\<close>

lemma usage_number_bounds: "usage_number v names = Some n \<Longrightarrow> 0 \<le> n \<and> n \<le> i64_max"
proof -
  assume a: "usage_number v names = Some n"
  have "find_map (\<lambda>name. Option.bind (json_pointer v name) as_i64) names = Some n \<Longrightarrow> in_i64 n" for n
  proof (induction names)
    case (Cons name names)
    have "as_i64 w = Some k \<Longrightarrow> in_i64 k" for w k by (cases w) (auto dest: parse_i64_bound)
    then show ?case using Cons by (auto split: option.splits bind_splits)
  qed simp
  then show ?thesis using a by (auto simp: usage_number_def opt_filter_def in_i64_def split: option.splits if_splits)
qed

lemma unwrap_usage_number: "0 \<le> unwrap_or (usage_number v names) 0 \<and> unwrap_or (usage_number v names) 0 \<le> i64_max"
  using usage_number_bounds [of v names]
  by (cases "usage_number v names") (auto simp: unwrap_or_def i64_max_def)

definition usage_bounded :: "usage \<Rightarrow> bool" where
  "usage_bounded u \<longleftrightarrow>
     (\<forall>n \<in> {u_input_tokens u, u_output_tokens u, u_cache_read_input_tokens u, u_cache_creation_input_tokens u,
            u_reasoning_output_tokens u}. 0 \<le> n \<and> n \<le> i64_max)"

text \<open>A usage that is read from an event has only counts between zero and the largest i64, and its
  input, cache reads and cache writes add up to the input count the provider reported, or exceed it
  when the provider's cache counts do.\<close>

theorem parse_usage_consistent:
  assumes "parse_usage v = Some u" and "usage_number v [[''input_tokens''], [''prompt_tokens'']] = Some input"
  shows "usage_bounded u \<and>
    u_input_tokens u + u_cache_read_input_tokens u + u_cache_creation_input_tokens u =
      max input (u_cache_read_input_tokens u + u_cache_creation_input_tokens u)"
proof -
  obtain out where o: "usage_number v [[''output_tokens''], [''completion_tokens'']] = Some out"
    using assms by (auto simp: parse_usage_def split: option.splits)
  define c1 where "c1 = unwrap_or (usage_number v cached_paths) 0"
  define c2 where "c2 = unwrap_or (usage_number v created_paths) 0"
  define r where "r = unwrap_or (usage_number v reasoning_paths) 0"
  have u: "u = \<lparr>u_input_tokens = max (i64_saturating_sub (i64_saturating_sub input c1) c2) 0, u_output_tokens = out,
      u_cache_read_input_tokens = c1, u_cache_creation_input_tokens = c2, u_reasoning_output_tokens = r\<rparr>"
    using assms o by (simp add: parse_usage_def c1_def c2_def r_def Let_def)
  have b: "0 \<le> c1" "c1 \<le> i64_max" "0 \<le> c2" "c2 \<le> i64_max" "0 \<le> r" "r \<le> i64_max"
    unfolding c1_def c2_def r_def using unwrap_usage_number by blast+
  have i: "0 \<le> input" "input \<le> i64_max" "0 \<le> out" "out \<le> i64_max"
    using usage_number_bounds assms(2) o by blast+
  have s: "i64_saturating_sub (i64_saturating_sub input c1) c2 = max (input - c1 - c2) i64_min"
    using b i by (auto simp: i64_saturating_sub_def sat_defs)
  then have m: "max (i64_saturating_sub (i64_saturating_sub input c1) c2) 0 = max (input - c1 - c2) 0"
    by (simp add: i64_min_def)
  show ?thesis using b i by (auto simp: u usage_bounded_def m)
qed

theorem parse_usage_consistent_witness:
  "let v = JObject [(''completion_tokens'', JNumber ''7''), (''prompt_tokens'', JNumber ''100''),
                    (''prompt_tokens_details'', JObject [(''cached_tokens'', JNumber ''40'')])] in
   is_some_and (parse_usage v) (\<lambda>u. usage_bounded u \<and>
     u_input_tokens u + u_cache_read_input_tokens u + u_cache_creation_input_tokens u = 100)"
proof -
  let ?v = "JObject [(''completion_tokens'', JNumber ''7''), (''prompt_tokens'', JNumber ''100''),
                    (''prompt_tokens_details'', JObject [(''cached_tokens'', JNumber ''40'')])]"
  have u: "parse_usage ?v = Some \<lparr>u_input_tokens = 60, u_output_tokens = 7, u_cache_read_input_tokens = 40,
     u_cache_creation_input_tokens = 0, u_reasoning_output_tokens = 0\<rparr>" by code_simp
  have "usage_number ?v [[''input_tokens''], [''prompt_tokens'']] = Some 100" by code_simp
  from parse_usage_consistent [OF u this] show ?thesis by (simp add: u Let_def is_some_and_def)
qed

section \<open>What an observation holds\<close>

definition opt_last :: "'a list \<Rightarrow> 'a option" where
  "opt_last xs = (case rev xs of [] \<Rightarrow> None | x # _ \<Rightarrow> Some x)"

definition opt_first :: "'a list \<Rightarrow> 'a option" where
  "opt_first xs = (case xs of [] \<Rightarrow> None | x # _ \<Rightarrow> Some x)"

definition final_usage :: "json list \<Rightarrow> usage option" where
  "final_usage events =
     opt_or (opt_last (somes (map event_usage (filter is_terminal_response_event events))))
            (opt_last (somes (map event_usage events)))"

lemma opt_last_snoc: "opt_last (xs @ [x]) = Some x" "opt_last [x] = Some x" and opt_last_Nil: "opt_last [] = None"
  by (simp_all add: opt_last_def)

lemma opt_last_None: "opt_last xs = None \<longleftrightarrow> xs = []"
  by (cases xs rule: rev_cases) (auto simp: opt_last_def)

lemma somes_snoc: "somes (xs @ [x]) = somes xs @ (case x of None \<Rightarrow> [] | Some y \<Rightarrow> [y])"
  by (cases x) (simp_all add: somes_append)

definition observation_of :: "json list \<Rightarrow> observation" where
  "observation_of events =
     \<lparr>ob_first_output_kind = opt_first (somes (map output_event_kind events)),
      ob_usage = final_usage events,
      ob_service_tier = opt_last (somes (map service_tier events)),
      ob_terminal = list_ex is_terminal_response_event events,
      ob_terminal_usage = (somes (map event_usage (filter is_terminal_response_event events)) \<noteq> [])\<rparr>"

lemma observe_observation_of: "observe v (observation_of events) = observation_of (events @ [v])"
proof -
  have first: "opt_first (xs @ ys) = opt_or (opt_first xs) (opt_first ys)" for xs ys :: "string list"
    by (cases xs) (simp_all add: opt_first_def opt_or_def)
  let ?k = "opt_first (somes (map output_event_kind events))"
  show ?thesis
    by (cases "event_usage v"; cases "service_tier v"; cases "output_event_kind v"; cases ?k;
        cases "is_terminal_response_event v"; cases "somes (map event_usage (filter is_terminal_response_event events)) = []")
      (simp_all add: observe_def observation_of_def final_usage_def somes_snoc first opt_last_snoc opt_last_Nil
        opt_last_None opt_first_def [of "[]"] opt_first_def [of "[_]"] opt_or_def Let_def split: option.splits)
qed

text \<open>After any sequence of events an observation holds the kind of the first output, the usage of the
  last terminal event that reports one (the last reported one if no terminal event does: what comes
  after the terminal event does not replace it), the last service tier, and whether a terminal event came.\<close>

theorem observation_exact: "fold observe events observation_new = observation_of events"
proof (induction events rule: rev_induct)
  case Nil
  show ?case by (simp add: observation_new_def observation_of_def opt_first_def final_usage_def opt_last_Nil opt_or_def)
qed (simp add: observe_observation_of)

section \<open>What a parser reports about a stream\<close>

definition has_output :: "string \<Rightarrow> json \<Rightarrow> bool" where
  "has_output api_format v \<longleftrightarrow>
     api_format = ''chat_completions'' \<and> chat_has_output_delta v \<or>
     api_format = ''responses'' \<and> output_event_kind v \<noteq> None"

definition last_terminal_status :: "json list \<Rightarrow> event_status option" where
  "last_terminal_status events = opt_last (map terminal_status (filter is_terminal_response_event events))"

text \<open>The parser after the events: its observation, up to the kind of the first output that the chat format inserts.\<close>

definition parser_after :: "string \<Rightarrow> json list \<Rightarrow> sse_parser \<Rightarrow> bool" where
  "parser_after api_format events p \<longleftrightarrow>
     sp_api_format p = api_format \<and>
     sp_done_first_token p = list_ex (has_output api_format) events \<and>
     sp_terminal_result p = last_terminal_status events \<and>
     (\<exists>kind. sp_observation p = (observation_of events)\<lparr>ob_first_output_kind := kind\<rparr> \<and>
        (api_format = ''responses'' \<longrightarrow> kind = ob_first_output_kind (observation_of events)))"

lemma observe_first_kind:
  "observe v (o0\<lparr>ob_first_output_kind := kind\<rparr>) =
     (observe v o0)\<lparr>ob_first_output_kind := (if kind = None then output_event_kind v else kind)\<rparr>"
  by (simp add: observe_def Let_def split: option.splits)

lemma opt_first_None: "opt_first xs = None \<longleftrightarrow> xs = []"
  by (cases xs) (simp_all add: opt_first_def)

lemma somes_Nil: "somes xs = [] \<longleftrightarrow> (\<forall>x \<in> set xs. x = None)"
  by (induction xs rule: somes.induct) auto

lemma first_output_kind_ex:
  "ob_first_output_kind (observation_of events) \<noteq> None \<longleftrightarrow> list_ex (\<lambda>v. output_event_kind v \<noteq> None) events"
  by (auto simp: observation_of_def opt_first_None somes_Nil list_ex_iff)

lemma parser_event_step:
  assumes "parser_after api_format events p" and "parser_observe_event v (out, p) = (out', p')"
  shows "parser_after api_format (events @ [v]) p' \<and> sp_decoder p' = sp_decoder p \<and>
    spo_saw_first_token out' = (spo_saw_first_token out \<or> \<not> sp_done_first_token p \<and> sp_done_first_token p') \<and>
    spo_saw_error_event out' = (spo_saw_error_event out \<or> event_failed v) \<and>
    spo_saw_valid_event out' = (spo_saw_valid_event out \<or> \<not> event_failed v)"
proof -
  obtain kind where o: "sp_observation p = (observation_of events)\<lparr>ob_first_output_kind := kind\<rparr>"
    and k: "api_format = ''responses'' \<Longrightarrow> kind = ob_first_output_kind (observation_of events)"
    using assms(1) by (auto simp: parser_after_def)
  define kind' where "kind' = (if kind = None then output_event_kind v else kind)"
  have o': "observe v (sp_observation p) = (observation_of (events @ [v]))\<lparr>ob_first_output_kind := kind'\<rparr>"
    by (simp add: o observe_first_kind observe_observation_of kind'_def)
  have k': "kind' = ob_first_output_kind (observation_of (events @ [v]))" if "api_format = ''responses''"
  proof -
    have "ob_first_output_kind (observe v o0) =
        (if ob_first_output_kind o0 = None then output_event_kind v else ob_first_output_kind o0)" for o0
      by (cases "ob_first_output_kind o0") (simp_all add: observe_def Let_def split: option.splits)
    then show ?thesis using k [OF that] by (simp add: kind'_def flip: observe_observation_of)
  qed
  have resp: "has_output ''responses'' = (\<lambda>w. output_event_kind w \<noteq> None)"
    by (rule ext) (simp add: has_output_def)
  have done': "list_ex (has_output api_format) (events @ [v]) \<longleftrightarrow>
      sp_done_first_token p \<or> api_format = ''chat_completions'' \<and> chat_has_output_delta v \<or>
      api_format = ''responses'' \<and> kind' \<noteq> None"
  proof (cases "api_format = ''responses''")
    case True
    have "kind' \<noteq> None \<longleftrightarrow> list_ex (has_output api_format) (events @ [v])"
      using k' [OF True] first_output_kind_ex [of "events @ [v]"] True by (simp add: resp)
    then show ?thesis using assms(1) True by (auto simp: parser_after_def)
  next
    case False
    then show ?thesis using assms(1) by (auto simp: parser_after_def has_output_def)
  qed
  have fmt: "sp_api_format p = api_format" using assms(1) by (simp add: parser_after_def)
  have res: "last_terminal_status (events @ [v]) =
      (if is_terminal_response_event v then Some (terminal_status v) else sp_terminal_result p)"
    using assms(1) by (simp add: parser_after_def last_terminal_status_def opt_last_snoc)
  define new where "new \<longleftrightarrow> \<not> sp_done_first_token p \<and> (api_format = ''chat_completions'' \<and> chat_has_output_delta v \<or>
      api_format = ''responses'' \<and> kind' \<noteq> None)"
  define first where "first = (if new then Some (unwrap_or kind' ''delta'') else kind')"
  have first: "api_format = ''responses'' \<Longrightarrow> first = kind'"
    by (auto simp: first_def new_def unwrap_or_def)
  have "parser_observe_event v (out, p) =
      (out\<lparr>spo_saw_error_event := spo_saw_error_event out \<or> event_failed v,
           spo_saw_valid_event := spo_saw_valid_event out \<or> \<not> event_failed v,
           spo_saw_first_token := spo_saw_first_token out \<or> new\<rparr>,
       p\<lparr>sp_observation := (observation_of (events @ [v]))\<lparr>ob_first_output_kind := first\<rparr>,
         sp_terminal_result := last_terminal_status (events @ [v]),
         sp_done_first_token := sp_done_first_token p \<or> new\<rparr>)"
    unfolding parser_observe_event_def Let_def new_def first_def res using o' fmt
    by (cases "is_terminal_response_event v"; cases "sp_done_first_token p") auto
  then have out: "out' = out\<lparr>spo_saw_error_event := spo_saw_error_event out \<or> event_failed v,
      spo_saw_valid_event := spo_saw_valid_event out \<or> \<not> event_failed v,
      spo_saw_first_token := spo_saw_first_token out \<or> new\<rparr>"
    and p: "p' = p\<lparr>sp_observation := (observation_of (events @ [v]))\<lparr>ob_first_output_kind := first\<rparr>,
      sp_terminal_result := last_terminal_status (events @ [v]),
      sp_done_first_token := sp_done_first_token p \<or> new\<rparr>"
    using assms(2) by auto
  have "list_ex (has_output api_format) (events @ [v]) \<longleftrightarrow> sp_done_first_token p \<or> new"
    using done' by (auto simp: new_def)
  then have "parser_after api_format (events @ [v]) p'"
    using first k' fmt unfolding parser_after_def p by auto
  moreover have "\<not> sp_done_first_token p \<and> sp_done_first_token p' \<longleftrightarrow> new" by (auto simp: p new_def)
  ultimately show ?thesis by (simp add: out p)
qed

lemma parser_fold:
  assumes "parser_after api_format events p" and "fold parser_observe_event vs (out, p) = (out', p')"
  shows "parser_after api_format (events @ vs) p' \<and> sp_decoder p' = sp_decoder p \<and>
    spo_saw_first_token out' = (spo_saw_first_token out \<or> \<not> sp_done_first_token p \<and> sp_done_first_token p') \<and>
    spo_saw_error_event out' = (spo_saw_error_event out \<or> list_ex event_failed vs) \<and>
    spo_saw_valid_event out' = (spo_saw_valid_event out \<or> list_ex (\<lambda>v. \<not> event_failed v) vs)"
  using assms
proof (induction vs arbitrary: events p out)
  case (Cons v vs)
  obtain o1 p1 where v: "parser_observe_event v (out, p) = (o1, p1)" by (rule prod.exhaust)
  note step = parser_event_step [OF Cons.prems(1) v]
  have rest: "fold parser_observe_event vs (o1, p1) = (out', p')" using Cons.prems(2) v by simp
  have after: "parser_after api_format ((events @ [v]) @ vs) p'" using Cons.IH [OF _ rest] step by blast
  have "sp_done_first_token p \<Longrightarrow> sp_done_first_token p1" "sp_done_first_token p1 \<Longrightarrow> sp_done_first_token p'"
    using step after Cons.prems(1) by (auto simp: parser_after_def)
  then show ?case using Cons.IH [OF _ rest] step after by auto
qed simp

lemma parser_observe_run:
  assumes "parser_after api_format events p" and "parser_observe vs p = (out, p')"
  shows "parser_after api_format (events @ vs) p' \<and> sp_decoder p' = sp_decoder p \<and>
    spo_saw_first_token out = (\<not> sp_done_first_token p \<and> sp_done_first_token p') \<and>
    spo_saw_error_event out = list_ex event_failed vs \<and>
    spo_saw_valid_event out = list_ex (\<lambda>v. \<not> event_failed v) vs \<and>
    spo_usage out = final_usage (events @ vs)"
proof -
  obtain o1 where "fold parser_observe_event vs
      (\<lparr>spo_saw_first_token = False, spo_saw_valid_event = False, spo_saw_error_event = False, spo_usage = None\<rparr>, p)
      = (o1, p')" and o: "out = o1\<lparr>spo_usage := ob_usage (sp_observation p')\<rparr>"
    using assms(2) by (auto simp: parser_observe_def split: prod.splits)
  note run = parser_fold [OF assms(1) this(1)]
  have "ob_usage (sp_observation p') = final_usage (events @ vs)"
    using run by (auto simp: parser_after_def observation_of_def)
  then show ?thesis using run by (simp add: o)
qed

lemma parser_after_decoder: "parser_after api_format events (p\<lparr>sp_decoder := d\<rparr>) = parser_after api_format events p"
  by (simp add: parser_after_def)

text \<open>A response read to its end: the reports of every chunk and of the end.\<close>

fun read_chunks :: "(string \<Rightarrow> json option) \<Rightarrow> string list \<Rightarrow> sse_parser \<Rightarrow> sse_push_out list \<times> sse_parser" where
  "read_chunks parse [] p = (case parser_finish parse p of (out, p') \<Rightarrow> ([out], p'))"
| "read_chunks parse (c # cs) p =
     (case parser_push parse c p of
        (out, p') \<Rightarrow> (case read_chunks parse cs p' of (outs, p'') \<Rightarrow> (out # outs, p'')))"

definition read_stream :: "(string \<Rightarrow> json option) \<Rightarrow> string \<Rightarrow> string list \<Rightarrow> sse_push_out list \<times> sse_parser" where
  "read_stream parse api_format chunks = read_chunks parse chunks (sse_parser_new api_format)"

definition reports :: "json list \<Rightarrow> json list \<Rightarrow> bool \<Rightarrow> bool \<Rightarrow> sse_push_out list \<Rightarrow> bool" where
  "reports events vs done done' outs \<longleftrightarrow> outs \<noteq> [] \<and>
     length (filter spo_saw_first_token outs) = (if \<not> done \<and> done' then 1 else 0) \<and>
     list_ex spo_saw_error_event outs = list_ex event_failed vs \<and>
     list_ex spo_saw_valid_event outs = list_ex (\<lambda>v. \<not> event_failed v) vs \<and>
     spo_usage (last outs) = final_usage (events @ vs)"

lemma read_chunks_reports:
  assumes "parser_after api_format events p" and "read_chunks parse chunks p = (outs, p')"
    and "push_chunks parse chunks (sp_decoder p) = (es, d)"
  shows "parser_after api_format (events @ es @ fst (sse_finish parse d)) p' \<and>
    reports events (es @ fst (sse_finish parse d)) (sp_done_first_token p) (sp_done_first_token p') outs"
  using assms
proof (induction chunks arbitrary: events p outs es)
  case Nil
  obtain vs d' where f: "sse_finish parse (sp_decoder p) = (vs, d')" by (rule prod.exhaust)
  then obtain out where "parser_observe vs (p\<lparr>sp_decoder := d'\<rparr>) = (out, p')" and "outs = [out]"
    using Nil.prems(2) by (auto simp: parser_finish_def split: prod.splits)
  then show ?case using parser_observe_run [of api_format events "p\<lparr>sp_decoder := d'\<rparr>" vs out p'] Nil.prems f
    by (simp add: parser_after_decoder reports_def)
next
  case (Cons c cs)
  obtain vs d1 where c: "push_bytes parse c (sp_decoder p) = (vs, d1)" by (rule prod.exhaust)
  obtain out p1 where o: "parser_observe vs (p\<lparr>sp_decoder := d1\<rparr>) = (out, p1)" by (rule prod.exhaust)
  then obtain outs1 where rest: "read_chunks parse cs p1 = (outs1, p')" and outs: "outs = out # outs1"
    using Cons.prems(2) c by (auto simp: parser_push_def split: prod.splits)
  obtain es1 where es1: "push_chunks parse cs d1 = (es1, d)" and es: "es = vs @ es1"
    using Cons.prems(3) c by (auto split: prod.splits)
  note run = parser_observe_run [OF _ o, of api_format events, unfolded parser_after_decoder, OF Cons.prems(1)]
  have d1: "sp_decoder p1 = d1" using run by simp
  note IH = Cons.IH [of "events @ vs" p1, OF _ rest es1 [folded d1]]
  have mono: "sp_done_first_token p \<Longrightarrow> sp_done_first_token p1" "sp_done_first_token p1 \<Longrightarrow> sp_done_first_token p'"
    using run IH Cons.prems(1) by (auto simp: parser_after_def)
  show ?case using run IH mono unfolding reports_def
    by (auto simp: outs es)
qed

text \<open>C12: reading a streamed response to its end, however it is cut into chunks: the first output is reported
  once if the stream has any and never otherwise, an error or a valid event is reported exactly if the
  stream has one, the usage at the end is the final one of the stream, and the status kept is that of its
  last terminal event.\<close>

theorem stream_reading_exact:
  fixes parse :: "string \<Rightarrow> json option" and chunks :: "string list"
  defines "es \<equiv> sse_events parse (concat chunks)"
  assumes "no_overrun_at_cr [] (sse_lines (concat chunks))"
    and "read_stream parse api_format chunks = (outs, p)"
  shows "length (filter spo_saw_first_token outs) = (if list_ex (has_output api_format) es then 1 else 0) \<and>
    list_ex spo_saw_error_event outs = list_ex event_failed es \<and>
    list_ex spo_saw_valid_event outs = list_ex (\<lambda>v. \<not> event_failed v) es \<and>
    spo_usage (last outs) = final_usage es \<and>
    sp_terminal_result p = last_terminal_status es"
proof -
  let ?p = "sse_parser_new api_format"
  obtain vs d where c: "push_chunks parse chunks sse_decoder_new = (vs, d)" by (rule prod.exhaust)
  have es: "es = vs @ fst (sse_finish parse d)"
    using decoder_exact [OF assms(2), of parse] c by (simp add: es_def decode_chunks_def)
  have "parser_after api_format [] ?p"
    by (simp add: parser_after_def sse_parser_new_def last_terminal_status_def opt_last_Nil observation_new_def
        observation_of_def opt_first_def final_usage_def opt_or_def)
  from read_chunks_reports [OF this assms(3) [unfolded read_stream_def], of vs d] c es
  show ?thesis by (simp add: sse_parser_new_def reports_def parser_after_def)
qed

theorem stream_reading_exact_witness:
  "case read_stream (\<lambda>s. Some (JObject [(''delta'', JString s), (''type'', JString ''response.output_text.delta'')]))
          ''responses'' [''data: a'' @ [LF], [LF] @ ''data: b'']
   of (outs, p) \<Rightarrow> length (filter spo_saw_first_token outs) = 1 \<and> \<not> list_ex spo_saw_error_event outs"
proof -
  let ?parse = "\<lambda>s. Some (JObject [(''delta'', JString s), (''type'', JString ''response.output_text.delta'')])"
  let ?c = "[''data: a'' @ [LF], [LF] @ ''data: b'']"
  obtain outs p where r: "read_stream ?parse ''responses'' ?c = (outs, p)" by (rule prod.exhaust)
  have "no_overrun_at_cr [] (sse_lines (concat ?c))"
    by (simp add: overruns_at_cr_def frame_size_def strip_cr_def MAX_EVENT_BYTES_def)
  note read = stream_reading_exact [OF this r]
  define v where "v s = JObject [(''delta'', JString s), (''type'', JString ''response.output_text.delta'')]" for s
  have es: "sse_events ?parse (concat ?c) = [v ''a'', v ''b'']"
    by (simp add: sse_events_def frame_event_def frame_data_def frame_kind_def frame_field_def frame_size_def
        strip_cr_def MAX_EVENT_BYTES_def strip_prefix_def starts_with_def strip_space_def with_type_def map_get_def v_def)
  have "has_output ''responses'' (v ''a'')" "\<not> event_failed (v ''a'')" "\<not> event_failed (v ''b'')"
    unfolding v_def by code_simp+
  then show ?thesis using read [unfolded es] unfolding r by simp
qed

section \<open>The status of a stream that has ended\<close>

lemma status_from_value_range: "status_from_value v = Some s \<Longrightarrow> 100 \<le> s \<and> s < 1000"
  by (auto simp: status_from_value_def status_from_u16_def split: bind_splits if_splits)

definition status_ok :: "int \<Rightarrow> bool" where
  "status_ok s \<longleftrightarrow> 100 \<le> s \<and> s < 1000"

lemma unwrap_status_ok:
  "status_ok d \<Longrightarrow> (\<And>s. a = Some s \<Longrightarrow> status_ok s) \<Longrightarrow> status_ok (unwrap_or a d)"
  by (cases a) (auto simp: unwrap_or_def)

lemma opt_or_Some: "opt_or a b = Some x \<Longrightarrow> a = Some x \<or> a = None \<and> b = Some x"
  by (auto simp: opt_or_def split: option.splits)

lemma status_from_values_ok:
  assumes "status_ok d"
  shows "status_ok (unwrap_or (opt_or (status_from_value a) (status_from_value b)) d)"
    and "status_ok (unwrap_or (opt_or (status_from_value a) (opt_or (status_from_value b) (status_from_value c))) d)"
  by (rule unwrap_status_ok [OF assms]; auto dest!: opt_or_Some status_from_value_range simp: status_ok_def)+

text \<open>C32: the outcome that is read from a terminal event has a valid HTTP status, its code and message are
  both there or both missing, they are missing exactly for a completed response (status 200), and a
  rejection of encrypted content is a client error (400), so it is not sent to another provider.\<close>

theorem terminal_status_sound:
  assumes "terminal_status v = (status, code, message)"
  shows "100 \<le> status \<and> status < 1000 \<and> (code = None \<longleftrightarrow> message = None) \<and>
    (code = None \<longleftrightarrow> \<not> is_invalid_encrypted_content v \<and>
       terminal_kind v \<in> {Some ''response.completed'', Some ''response.done''}) \<and>
    (if code = None then status = 200 else is_invalid_encrypted_content v \<longrightarrow> status = 400)"
proof -
  have ok: "status_ok 502" "status_ok 200" by (simp_all add: status_ok_def)
  note s = status_from_values_ok [OF ok(1)] status_from_values_ok [OF ok(2)]
  have fail: "status_ok (fst (response_failure_status v a b)) \<and> fst (snd (response_failure_status v a b)) \<noteq> None \<and>
      snd (snd (response_failure_status v a b)) \<noteq> None" for a b
    using s by (simp add: response_failure_status_def Let_def error_fields_def)
  have inc: "status_ok (fst (response_incomplete_status v)) \<and> fst (snd (response_incomplete_status v)) \<noteq> None \<and>
      snd (snd (response_incomplete_status v)) \<noteq> None"
    using s fail by (simp add: response_incomplete_status_def Let_def)
  have can: "status_ok (fst (response_cancelled_status v)) \<and> fst (snd (response_cancelled_status v)) \<noteq> None \<and>
      snd (snd (response_cancelled_status v)) \<noteq> None"
    using s fail by (simp add: response_cancelled_status_def Let_def)
  have err: "status_ok (fst (terminal_error_status v)) \<and> fst (snd (terminal_error_status v)) \<noteq> None \<and>
      snd (snd (terminal_error_status v)) \<noteq> None"
    using s by (simp add: terminal_error_status_def Let_def)
  show ?thesis
  proof (cases "is_invalid_encrypted_content v")
    case True
    then show ?thesis using assms by (auto simp: terminal_status_def error_fields_def)
  next
    case False
    show ?thesis
    proof (cases "terminal_kind v \<in> {Some ''response.completed'', Some ''response.done''}")
      case True
      then show ?thesis using assms False by (auto simp: terminal_status_def)
    next
      case kind: False
      have "status_ok status \<and> code \<noteq> None \<and> message \<noteq> None"
        using assms False kind fail inc can err
        by (auto simp: terminal_status_def split: option.splits if_splits)
          (metis fst_conv snd_conv option.distinct(1))+
      then show ?thesis using False kind by (auto simp: status_ok_def)
    qed
  qed
qed

theorem terminal_status_sound_witness:
  "let v = JObject [(''error'', JObject [(''code'', JString ''invalid_encrypted_content'')]), (''type'', JString ''error'')] in
   fst (terminal_status v) = 400 \<and> fst (snd (terminal_status v)) \<noteq> None"
proof -
  let ?v = "JObject [(''error'', JObject [(''code'', JString ''invalid_encrypted_content'')]), (''type'', JString ''error'')]"
  have "is_invalid_encrypted_content ?v" by code_simp
  then show ?thesis
    using terminal_status_sound [of ?v "fst (terminal_status ?v)" "fst (snd (terminal_status ?v))" "snd (snd (terminal_status ?v))"]
    by (auto simp: Let_def split: if_splits)
qed

end
