(* ===== verification/Usage_Capture.thy ===== *)
theory Usage_Capture
  imports Response_Events Attempt
begin

text \<open>
  What the gateway keeps of a response body to read the usage and the error from it (proxy.rs,
  \<open>UsageCaptureBuffer\<close> and the functions after it): the first bytes and the last bytes of the body, and
  the search for the last \<open>"usage"\<close> member in them, which also works on a body whose middle is missing.
  \<open>serde_json::from_slice\<close> is the argument \<open>parse\<close>.
\<close>

section \<open>The buffer\<close>

record capture_buffer =
  cb_head :: string
  cb_tail :: string
  cb_total_seen :: nat
  cb_head_limit :: nat
  cb_tail_limit :: nat

definition capture_new :: "nat \<Rightarrow> nat \<Rightarrow> capture_buffer" where
  "capture_new max_bytes0 tail_bytes =
     (let max_bytes = max max_bytes0 1; tail_limit = min tail_bytes max_bytes in
      \<lparr>cb_head = [], cb_tail = [], cb_total_seen = 0, cb_head_limit = max_bytes - tail_limit,
       cb_tail_limit = tail_limit\<rparr>)"

definition push_tail :: "string \<Rightarrow> capture_buffer \<Rightarrow> capture_buffer" where
  "push_tail bytes c =
     (if cb_tail_limit c = 0 \<or> bytes = [] then c
      else if cb_tail_limit c \<le> length bytes then
        c\<lparr>cb_tail := drop (length bytes - cb_tail_limit c) bytes\<rparr>
      else (let tail = cb_tail c @ bytes in
            c\<lparr>cb_tail := (if cb_tail_limit c < length tail then drop (length tail - cb_tail_limit c) tail
                         else tail)\<rparr>))"

definition capture_push :: "string \<Rightarrow> capture_buffer \<Rightarrow> capture_buffer" where
  "capture_push remaining c0 =
     (let c1 = c0\<lparr>cb_total_seen := u64_saturating_add (cb_total_seen c0) (length remaining)\<rparr> in
      if length (cb_head c1) < cb_head_limit c1 then
        (let n = min (cb_head_limit c1 - length (cb_head c1)) (length remaining) in
         push_tail (drop n remaining) (c1\<lparr>cb_head := cb_head c1 @ take n remaining\<rparr>))
      else push_tail remaining c1)"

definition capture_is_empty :: "capture_buffer \<Rightarrow> bool" where
  "capture_is_empty c \<longleftrightarrow> cb_head c = [] \<and> cb_tail c = []"

definition is_truncated :: "capture_buffer \<Rightarrow> bool" where
  "is_truncated c \<longleftrightarrow> u64_saturating_add (cb_head_limit c) (cb_tail_limit c) < cb_total_seen c"

definition to_vec :: "capture_buffer \<Rightarrow> string" where
  "to_vec c = cb_head c @ cb_tail c"

section \<open>Errors of the body\<close>

definition upstream_error_details :: "(string \<Rightarrow> json option) \<Rightarrow> string \<Rightarrow> (string \<times> string option) option" where
  "upstream_error_details parse body =
     (case parse body of
        None \<Rightarrow> None
      | Some value \<Rightarrow>
          (let error = unwrap_or (json_get value ''error'') value in
           case as_str error of
             Some message \<Rightarrow> Some (''upstream_error'', Some message)
           | None \<Rightarrow>
               (case Option.bind (opt_or (json_get error ''type'') (json_get error ''code'')) as_str of
                  None \<Rightarrow> None
                | Some kind0 \<Rightarrow>
                    (let kind = trim kind0 in
                     if kind = [] then None else Some (kind, get_str error ''message'')))))"

definition model_error_kinds :: "string list" where
  "model_error_kinds = [''model_not_found'', ''invalid_model'', ''unsupported_model'', ''model_not_supported'']"

definition upstream_error_is_model_scoped :: "(string \<Rightarrow> json option) \<Rightarrow> string \<Rightarrow> bool" where
  "upstream_error_is_model_scoped parse body \<longleftrightarrow>
     is_some_and (upstream_error_details parse body)
       (\<lambda>(kind, _). to_ascii_lowercase (trim kind) \<in> set model_error_kinds)"

definition classify_failure_scope_with_body ::
  "(string \<Rightarrow> json option) \<Rightarrow> int option \<Rightarrow> outcome_origin \<Rightarrow> capture_buffer \<Rightarrow> failure_scope" where
  "classify_failure_scope_with_body parse status origin capture =
     (let scope = classify_failure_scope status origin in
      if scope \<noteq> ScopeProvider \<or> origin \<noteq> UpstreamResponse \<or> is_truncated capture then scope
      else if upstream_error_is_model_scoped parse (to_vec capture) then ScopeModel
      else scope)"

section \<open>The usage in a window of the body\<close>

definition usage_key :: string where
  "usage_key = CHR 0x22 # ''usage'' @ [CHR 0x22]"

definition is_ascii_whitespace :: "char \<Rightarrow> bool" where
  "is_ascii_whitespace c \<longleftrightarrow> byte c \<in> {9, 10, 12, 13, 32}"

text \<open>\<open>rposition\<close> over the windows of the haystack.\<close>

definition rfind_subslice :: "string \<Rightarrow> string \<Rightarrow> nat option" where
  "rfind_subslice haystack needle =
     (if needle = [] \<or> length haystack < length needle then None
      else rposition (\<lambda>candidate. candidate = needle)
             (map (\<lambda>i. take (length needle) (drop i haystack)) [0..<length haystack - length needle + 1]))"

function skip_whitespace :: "string \<Rightarrow> nat \<Rightarrow> nat" where
  "skip_whitespace input idx =
     (if idx < length input \<and> is_ascii_whitespace (input ! idx) then skip_whitespace input (idx + 1) else idx)"
  by pat_completeness auto
termination by (relation "measure (\<lambda>(input, idx). length input - idx)") auto

declare skip_whitespace.simps [simp del]

record scan_state =
  sc_depth :: int
  sc_in_string :: bool
  sc_escape :: bool

text \<open>One byte of the scan of an object or array; \<open>True\<close> when the bracket that opened it is closed.\<close>

definition scan_byte :: "char \<Rightarrow> scan_state \<Rightarrow> scan_state \<times> bool" where
  "scan_byte b s =
     (if sc_in_string s then
        (if sc_escape s then s\<lparr>sc_escape := False\<rparr>
         else if b = CHR 0x5C then s\<lparr>sc_escape := True\<rparr>
         else if b = CHR 0x22 then s\<lparr>sc_in_string := False\<rparr>
         else s, False)
      else if b = CHR 0x22 then (s\<lparr>sc_in_string := True, sc_escape := False\<rparr>, False)
      else if b = CHR ''{'' \<or> b = CHR ''['' then (s\<lparr>sc_depth := sc_depth s + 1\<rparr>, False)
      else if b = CHR ''}'' \<or> b = CHR '']'' then (s\<lparr>sc_depth := sc_depth s - 1\<rparr>, sc_depth s - 1 = 0)
      else (s, False))"

function scan_brackets :: "string \<Rightarrow> nat \<Rightarrow> scan_state \<Rightarrow> nat option" where
  "scan_brackets input idx s =
     (if idx < length input then
        (case scan_byte (input ! idx) s of
           (s', finished) \<Rightarrow> (if finished then Some (idx + 1) else scan_brackets input (idx + 1) s'))
      else None)"
  by pat_completeness auto
termination by (relation "measure (\<lambda>(input, idx, s). length input - idx)") auto

function scan_string :: "string \<Rightarrow> nat \<Rightarrow> bool \<Rightarrow> nat option" where
  "scan_string input idx escape =
     (if idx < length input then
        (if escape then scan_string input (idx + 1) False
         else if input ! idx = CHR 0x5C then scan_string input (idx + 1) True
         else if input ! idx = CHR 0x22 then Some (idx + 1)
         else scan_string input (idx + 1) False)
      else None)"
  by pat_completeness auto
termination by (relation "measure (\<lambda>(input, idx, escape). length input - idx)") auto

definition ends_scalar :: "char \<Rightarrow> bool" where
  "ends_scalar b \<longleftrightarrow> b = CHR '','' \<or> b = CHR ''}'' \<or> b = CHR '']'' \<or> is_ascii_whitespace b"

function scan_scalar :: "string \<Rightarrow> nat \<Rightarrow> nat" where
  "scan_scalar input idx =
     (if idx < length input \<and> \<not> ends_scalar (input ! idx) then scan_scalar input (idx + 1) else idx)"
  by pat_completeness auto
termination by (relation "measure (\<lambda>(input, idx). length input - idx)") auto

declare scan_brackets.simps [simp del] scan_string.simps [simp del] scan_scalar.simps [simp del]

definition scan_json_value_end :: "string \<Rightarrow> nat \<Rightarrow> nat option" where
  "scan_json_value_end input start =
     (if length input \<le> start then None
      else if input ! start = CHR ''{'' \<or> input ! start = CHR ''['' then
        scan_brackets input start \<lparr>sc_depth = 0, sc_in_string = False, sc_escape = False\<rparr>
      else if input ! start = CHR 0x22 then scan_string input (start + 1) False
      else Some (scan_scalar input start))"

definition json_value_span_after_key :: "string \<Rightarrow> nat \<Rightarrow> (nat \<times> nat) option" where
  "json_value_span_after_key input key_pos =
     (let idx = skip_whitespace input (key_pos + length usage_key) in
      if idx < length input \<and> input ! idx = CHR '':'' then
        (let start = skip_whitespace input (idx + 1) in
         map_option (\<lambda>end_pos. (start, end_pos)) (scan_json_value_end input start))
      else None)"

definition parse_usage_value :: "string \<Rightarrow> json \<Rightarrow> usage option" where
  "parse_usage_value api_format value =
     (if api_format \<in> set [''chat_completions'', ''responses''] then parse_usage value else None)"

text \<open>The body of the search loop, and the loop: a value of \<open>None\<close> is a search that does not return.\<close>

definition usage_at :: "(string \<Rightarrow> json option) \<Rightarrow> string \<Rightarrow> string \<Rightarrow> nat \<Rightarrow> usage option" where
  "usage_at parse api_format window key_pos =
     Option.bind (json_value_span_after_key window key_pos) (\<lambda>(start, end_pos).
       Option.bind (parse (take (end_pos - start) (drop start window))) (parse_usage_value api_format))"

partial_function (option) search_usage ::
  "(string \<Rightarrow> json option) \<Rightarrow> string \<Rightarrow> string \<Rightarrow> nat \<Rightarrow> usage option option" where
  [code]: "search_usage parse api_format window search_end =
     (case rfind_subslice (take search_end window) usage_key of
        None \<Rightarrow> Some None
      | Some key_pos \<Rightarrow>
          (case usage_at parse api_format window key_pos of
             Some usage \<Rightarrow> Some (Some usage)
           | None \<Rightarrow> search_usage parse api_format window key_pos))"

definition extract_usage_from_window :: "(string \<Rightarrow> json option) \<Rightarrow> string \<Rightarrow> string \<Rightarrow> usage option option" where
  "extract_usage_from_window parse api_format window = search_usage parse api_format window (length window)"

definition extract_usage_from_capture ::
  "(string \<Rightarrow> json option) \<Rightarrow> string \<Rightarrow> capture_buffer \<Rightarrow> usage option option" where
  "extract_usage_from_capture parse api_format capture =
     (let window = to_vec capture in
      case (if is_truncated capture then None else Option.bind (parse window) (extract_usage api_format)) of
        Some usage \<Rightarrow> Some (Some usage)
      | None \<Rightarrow> extract_usage_from_window parse api_format window)"

section \<open>The buffer holds the two ends of the body\<close>

definition last_bytes :: "nat \<Rightarrow> string \<Rightarrow> string" where
  "last_bytes n s = drop (length s - n) s"

text \<open>What a buffer with the given limits holds of a body.\<close>

definition capture_of :: "nat \<Rightarrow> nat \<Rightarrow> string \<Rightarrow> capture_buffer" where
  "capture_of head_limit tail_limit body =
     \<lparr>cb_head = take head_limit body, cb_tail = last_bytes tail_limit (drop head_limit body),
      cb_total_seen = length body, cb_head_limit = head_limit, cb_tail_limit = tail_limit\<rparr>"

lemma last_bytes_append: "last_bytes n (last_bytes n s @ t) = last_bytes n (s @ t)"
proof (cases "n \<le> length s")
  case True
  then have "last_bytes n s @ t = drop (length s - n) (s @ t)" by (simp add: last_bytes_def)
  then show ?thesis using True by (simp add: last_bytes_def add.commute)
next
  case False
  then show ?thesis by (simp add: last_bytes_def)
qed

lemma last_bytes_short: "length s \<le> n \<Longrightarrow> last_bytes n s = s"
  by (simp add: last_bytes_def)

lemma last_bytes_long: "n \<le> length t \<Longrightarrow> last_bytes n (s @ t) = last_bytes n t"
  by (simp add: last_bytes_def)

lemma length_last_bytes: "length (last_bytes n s) = min n (length s)"
  by (simp add: last_bytes_def)

lemma push_tail_last_bytes:
  assumes "cb_tail c = last_bytes (cb_tail_limit c) s"
  shows "push_tail t c = c\<lparr>cb_tail := last_bytes (cb_tail_limit c) (s @ t)\<rparr>"
proof (cases "cb_tail_limit c = 0 \<or> t = []")
  case True
  then show ?thesis using assms by (auto simp: push_tail_def last_bytes_def)
next
  case False
  show ?thesis
  proof (cases "cb_tail_limit c \<le> length t")
    case True
    then show ?thesis using False by (simp add: push_tail_def last_bytes_long) (simp add: last_bytes_def)
  next
    case short: False
    have "last_bytes (cb_tail_limit c) (s @ t) = last_bytes (cb_tail_limit c) (cb_tail c @ t)"
      by (simp add: assms last_bytes_append)
    then show ?thesis using False short by (auto simp: push_tail_def Let_def last_bytes_def)
  qed
qed

lemma capture_push_of:
  assumes "length body + length chunk \<le> u64_max"
  shows "capture_push chunk (capture_of h t body) = capture_of h t (body @ chunk)"
proof (cases "length body < h")
  case True
  have n: "min (h - length body) (length chunk) = min (h - length body) (length chunk)" by simp
  show ?thesis using assms True
    by (simp add: capture_push_def Let_def capture_of_def push_tail_last_bytes [where s = "[]"] last_bytes_short
        u64_saturating_add_def min_def)
next
  case False
  then show ?thesis using assms
    by (simp add: capture_push_def Let_def capture_of_def push_tail_last_bytes [where s = "drop h body"]
        u64_saturating_add_def)
qed

lemma capture_new_of:
  "capture_new m k = capture_of (max m 1 - min k (max m 1)) (min k (max m 1)) []"
  by (simp add: capture_new_def Let_def capture_of_def last_bytes_def)

lemma capture_fold:
  "length body + length (concat chunks) \<le> u64_max \<Longrightarrow>
   fold capture_push chunks (capture_of h t body) = capture_of h t (body @ concat chunks)"
proof (induction chunks arbitrary: body)
  case (Cons chunk chunks)
  then show ?case using Cons.IH [of "body @ chunk"] by (simp add: capture_push_of)
qed simp

text \<open>C24: however a body arrives, the buffer refines its two ends: it holds the whole body and is not
  truncated if the body is not larger than the buffer, and otherwise its first bytes followed by its last
  ones, of the configured lengths, and says so.\<close>

theorem capture_refines_body:
  fixes chunks :: "string list" and max_bytes tail_bytes :: nat
  defines "body \<equiv> concat chunks" and "c \<equiv> fold capture_push chunks (capture_new max_bytes tail_bytes)"
    and "tail \<equiv> min tail_bytes (max max_bytes 1)"
  assumes "length body \<le> u64_max" and "max_bytes \<le> u64_max"
  shows "if length body \<le> max max_bytes 1 then \<not> is_truncated c \<and> to_vec c = body
    else is_truncated c \<and>
         to_vec c = take (max max_bytes 1 - tail) body @ drop (length body - tail) body \<and>
         length (to_vec c) = max max_bytes 1"
proof -
  let ?m = "max max_bytes 1"
  have c: "c = capture_of (?m - tail) tail body"
    using capture_fold [of "[]" chunks] assms(4) by (simp add: c_def body_def tail_def capture_new_of)
  have t: "tail \<le> ?m" by (simp add: tail_def)
  have "u64_saturating_add (?m - tail) tail = ?m"
    using t assms(5) by (simp add: u64_saturating_add_def u64_max_def)
  then have trunc: "is_truncated c \<longleftrightarrow> ?m < length body" by (simp add: is_truncated_def c capture_of_def)
  show ?thesis
  proof (cases "length body \<le> ?m")
    case True
    then have "last_bytes tail (drop (?m - tail) body) = drop (?m - tail) body" by (intro last_bytes_short) auto
    moreover have "\<not> is_truncated c" using True trunc by auto
    ultimately show ?thesis using True by (simp add: to_vec_def c capture_of_def)
  next
    case False
    then have "last_bytes tail (drop (?m - tail) body) = drop (length body - tail) body"
      using t by (simp add: last_bytes_def)
    moreover have "is_truncated c" using False trunc by auto
    ultimately show ?thesis using False t by (simp add: to_vec_def c capture_of_def)
  qed
qed

theorem capture_refines_body_witness:
  "to_vec (fold capture_push [''abc'', ''defg'', ''hij''] (capture_new 5 2)) = ''abcij''"
  using capture_refines_body [of "[''abc'', ''defg'', ''hij'']" 5 2] by (simp add: u64_max_def)

section \<open>The search finds the last usage\<close>

text \<open>The positions at which the key occurs, overlapping ones included.\<close>

definition occurrences :: "string \<Rightarrow> string \<Rightarrow> nat list" where
  "occurrences needle s = filter (\<lambda>i. take (length needle) (drop i s) = needle) [0..<length s]"

lemma rposition_None_iff: "rposition p xs = None \<longleftrightarrow> (\<forall>x \<in> set xs. \<not> p x)"
  by (induction xs) (auto split: option.splits)

lemma rposition_last:
  "rposition P xs = opt_last (filter (\<lambda>i. P (xs ! i)) [0..<length xs])"
proof (cases "rposition P xs")
  case None
  then have "\<forall>i < length xs. \<not> P (xs ! i)" by (auto simp: rposition_None_iff)
  then have "filter (\<lambda>i. P (xs ! i)) [0..<length xs] = []" by (simp add: filter_empty_conv)
  then show ?thesis by (simp add: None opt_last_Nil)
next
  case (Some i)
  then have i: "i < length xs" "P (xs ! i)" "\<forall>j. i < j \<and> j < length xs \<longrightarrow> \<not> P (xs ! j)"
    by (auto simp: rposition_Some_iff)
  have "[0..<length xs] = [0..<i] @ i # [Suc i..<length xs]"
    using i(1) by (metis upt_add_eq_append upt_conv_Cons less_imp_le_nat le_add_diff_inverse zero_le)
  then have "filter (\<lambda>i. P (xs ! i)) [0..<length xs] =
      filter (\<lambda>i. P (xs ! i)) [0..<i] @ [i]"
    using i by (auto simp: filter_empty_conv)
  then show ?thesis by (simp add: Some opt_last_snoc)
qed

lemma rfind_subslice_last:
  assumes "needle \<noteq> []"
  shows "rfind_subslice s needle = opt_last (occurrences needle s)"
proof (cases "length s < length needle")
  case True
  then have "take (length needle) (drop i s) \<noteq> needle" for i
    by (metis length_drop length_take min_less_iff_conj not_less diff_le_self le_trans less_irrefl)
  then show ?thesis using True by (simp add: rfind_subslice_def occurrences_def opt_last_Nil)
next
  case False
  define n where "n = length s - length needle + 1"
  have n: "n \<le> length s" using False assms by (cases needle) (auto simp: n_def)
  have "take (length needle) (drop i s) \<noteq> needle" if "n \<le> i" for i
  proof
    assume "take (length needle) (drop i s) = needle"
    then have "length needle \<le> length s - i" by (metis length_drop length_take min.cobounded1 min.commute)
    moreover have "0 < length needle" using assms by simp
    ultimately show False using that False unfolding n_def by linarith
  qed
  then have "filter (\<lambda>i. take (length needle) (drop i s) = needle) [n..<length s] = []"
    by (auto simp: filter_empty_conv)
  moreover have "[0..<length s] = [0..<n] @ [n..<length s]" using n by (metis upt_add_eq_append le_add_diff_inverse zero_le)
  ultimately have "occurrences needle s = filter (\<lambda>i. take (length needle) (drop i s) = needle) [0..<n]"
    by (simp add: occurrences_def)
  moreover have "rfind_subslice s needle = rposition (\<lambda>c. c = needle) (map (\<lambda>i. take (length needle) (drop i s)) [0..<n])"
    using False assms by (simp add: rfind_subslice_def n_def)
  moreover have "filter (\<lambda>i. map (\<lambda>i. take (length needle) (drop i s)) [0..<n] ! i = needle) [0..<n] =
      filter (\<lambda>i. take (length needle) (drop i s) = needle) [0..<n]"
    by (rule filter_cong) auto
  ultimately show ?thesis by (simp add: rposition_last del: upt_Suc)
qed

text \<open>An occurrence that overlaps a later one is followed by a letter, so no value is read there.\<close>

lemma skip_whitespace_stop: "idx < length s \<Longrightarrow> \<not> is_ascii_whitespace (s ! idx) \<Longrightarrow> skip_whitespace s idx = idx"
  by (subst skip_whitespace.simps) simp

lemma usage_key_length: "length usage_key = 7"
  by (simp add: usage_key_def)

lemma take_drop_nth:
  assumes "take (length n) (drop i s) = n" and "k < length n"
  shows "i + k < length s" and "s ! (i + k) = n ! k"
proof -
  have len: "length n \<le> length s - i" using assms(1) by (metis length_drop length_take min.cobounded1 min.commute)
  then show "i + k < length s" using assms(2) by linarith
  have "n ! k = take (length n) (drop i s) ! k" by (simp add: assms(1))
  then show "s ! (i + k) = n ! k" using len assms(2) by simp
qed

lemma overlapping_key:
  assumes "take 7 (drop i s) = usage_key" and "take 7 (drop j s) = usage_key" and "i < j" and "j < i + 7"
  shows "usage_at parse api_format s i = None"
proof -
  note i = take_drop_nth [of usage_key i s, unfolded usage_key_length, OF assms(1)]
  note j = take_drop_nth [of usage_key j s, unfolded usage_key_length, OF assms(2)]
  have "s ! j = CHR 0x22" using j(2) [of 0] by (simp add: usage_key_def)
  moreover have "j = i + (j - i)" "j - i < 7" using assms(3, 4) by auto
  moreover have "usage_key ! k \<noteq> CHR 0x22" if "0 < k" "k < 6" for k
    using that by (auto simp: usage_key_def less_Suc_eq numeral_eq_Suc)
  ultimately have "j - i = 6" using i(2) [of "j - i"] assms(3)
    by (metis less_Suc_eq numeral_eq_Suc pred_numeral_simps(3) zero_less_diff semiring_norm(26, 27, 28) eval_nat_numeral(2, 3))
  then have "i + 7 = j + 1" using assms(3) by auto
  moreover have "j + 1 < length s" "s ! (j + 1) = CHR ''u''" using j [of 1] by (simp_all add: usage_key_def)
  ultimately have "i + 7 < length s" "s ! (i + 7) = CHR ''u''" by (simp_all only:)
  then have "skip_whitespace s (i + 7) = i + 7" "s ! (i + 7) \<noteq> CHR '':''"
    by (auto intro!: skip_whitespace_stop simp: is_ascii_whitespace_def byte_def)
  then show ?thesis by (simp add: usage_at_def json_value_span_after_key_def usage_key_length)
qed

text \<open>The search from a position on: the last occurrence that ends before it and has a usage.\<close>

definition usages_until :: "(string \<Rightarrow> json option) \<Rightarrow> string \<Rightarrow> string \<Rightarrow> nat \<Rightarrow> usage list" where
  "usages_until parse api_format window e =
     somes (map (usage_at parse api_format window) (filter (\<lambda>i. i + 7 \<le> e) (occurrences usage_key window)))"

lemma occurrences_take:
  "e \<le> length s \<Longrightarrow> occurrences usage_key (take e s) = filter (\<lambda>i. i + 7 \<le> e) (occurrences usage_key s)"
proof -
  assume e: "e \<le> length s"
  have "take 7 (drop i (take e s)) = usage_key \<longleftrightarrow> i + 7 \<le> e \<and> take 7 (drop i s) = usage_key" for i
  proof (cases "i + 7 \<le> e")
    case True
    then show ?thesis by (simp add: drop_take min_def)
  next
    case False
    then have "length (take 7 (drop i (take e s))) < 7" using e by simp
    then show ?thesis using False usage_key_length by (metis less_irrefl)
  qed
  moreover have "filter P [0..<length s] = filter P [0..<e]" if "\<And>i. P i \<Longrightarrow> i < e" for P
  proof -
    have "[0..<length s] = [0..<e] @ [e..<length s]" using e by (metis upt_add_eq_append le_add_diff_inverse zero_le)
    moreover have "filter P [e..<length s] = []"
      unfolding filter_empty_conv by (metis atLeastLessThan_iff leD set_upt that)
    ultimately show ?thesis by simp
  qed
  note this [of "\<lambda>i. take 7 (drop i s) = usage_key \<and> i + 7 \<le> e"]
  ultimately show ?thesis using e
    by (simp add: occurrences_def usage_key_length conj_commute)
qed

lemma somes_map_filter:
  "(\<And>x. x \<in> set xs \<Longrightarrow> \<not> P x \<Longrightarrow> f x = None) \<Longrightarrow> somes (map f xs) = somes (map f (filter P xs))"
proof (induction xs)
  case (Cons x xs)
  then show ?case by (cases "P x"; cases "f x") auto
qed simp

lemma search_usage_result:
  assumes "e \<le> length window"
  shows "search_usage parse api_format window e = Some (opt_last (usages_until parse api_format window e))"
  using assms
proof (induction e rule: less_induct)
  case (less e)
  have ne: "usage_key \<noteq> []" by (simp add: usage_key_def)
  let ?occ = "filter (\<lambda>i. i + 7 \<le> e) (occurrences usage_key window)"
  have rf: "rfind_subslice (take e window) usage_key = opt_last ?occ"
    using less.prems by (simp add: rfind_subslice_last [OF ne] occurrences_take)
  show ?case
  proof (cases ?occ rule: rev_cases)
    case Nil
    then show ?thesis using rf
      by (subst search_usage.simps) (simp add: opt_last_Nil usages_until_def)
  next
    case (snoc xs p)
    then have rp: "rfind_subslice (take e window) usage_key = Some p" using rf by (simp add: opt_last_snoc)
    have "p \<in> set ?occ" unfolding snoc by simp
    then have p: "p + 7 \<le> e" "take 7 (drop p window) = usage_key"
      by (simp_all add: occurrences_def usage_key_length)
    have sorted: "sorted_wrt (<) (xs @ [p])"
      by (subst snoc [symmetric]) (auto simp: occurrences_def sorted_wrt_filter)
    show ?thesis
    proof (cases "usage_at parse api_format window p")
      case (Some u)
      then show ?thesis
        by (subst search_usage.simps) (simp add: rp usages_until_def snoc somes_snoc opt_last_snoc)
    next
      case None
      have "somes (map (usage_at parse api_format window) xs) =
          somes (map (usage_at parse api_format window) (filter (\<lambda>i. i + 7 \<le> p) xs))"
      proof (rule somes_map_filter, rule overlapping_key)
        fix i assume i: "i \<in> set xs" "\<not> i + 7 \<le> p"
        then have "i \<in> set ?occ" unfolding snoc by simp
        then show "take 7 (drop i window) = usage_key" by (simp add: occurrences_def usage_key_length)
        show "take 7 (drop p window) = usage_key" by (rule p)
        show "i < p" using sorted i by (simp add: sorted_wrt_append)
        show "p < i + 7" using i by simp
      qed
      moreover have "filter (\<lambda>i. i + 7 \<le> p) (occurrences usage_key window) = filter (\<lambda>i. i + 7 \<le> p) xs"
      proof -
        have "filter (\<lambda>i. i + 7 \<le> p) (occurrences usage_key window) = filter (\<lambda>i. i + 7 \<le> p) ?occ"
          using p(1) by (auto intro: filter_cong)
        then show ?thesis unfolding snoc by simp
      qed
      ultimately have "usages_until parse api_format window e = usages_until parse api_format window p"
        by (simp add: usages_until_def snoc somes_snoc None)
      then show ?thesis using less.IH [of p] less.prems p(1)
        by (subst search_usage.simps) (simp add: rp None)
    qed
  qed
qed

text \<open>C31: the search for the usage in a window of a body always ends, and it finds the value of the last
  \<open>"usage"\<close> key, wherever it is, whose value can be read as a usage: no occurrence is missed, although
  each step cuts the window at the key it has just tried.\<close>

theorem usage_search_ends:
  "extract_usage_from_window parse api_format window =
     Some (opt_last (somes (map (usage_at parse api_format window) (occurrences usage_key window))))"
proof -
  have "i + 7 \<le> length window" if "i \<in> set (occurrences usage_key window)" for i
    using take_drop_nth(1) [of usage_key i window 6] that by (auto simp: occurrences_def usage_key_length)
  then have "filter (\<lambda>i. i + 7 \<le> length window) (occurrences usage_key window) = occurrences usage_key window"
    by (auto simp: filter_id_conv)
  then show ?thesis by (simp add: extract_usage_from_window_def search_usage_result usages_until_def)
qed

section \<open>The end of a value\<close>

text \<open>The depth of the brackets outside of strings after a text.\<close>

definition scan_text :: "string \<Rightarrow> scan_state \<Rightarrow> scan_state" where
  "scan_text s = fold (\<lambda>b st. fst (scan_byte b st)) s"

definition bracket_depth :: "string \<Rightarrow> int" where
  "bracket_depth s = sc_depth (scan_text s \<lparr>sc_depth = 0, sc_in_string = False, sc_escape = False\<rparr>)"

lemma scan_byte_closes:
  "0 < sc_depth s \<Longrightarrow> snd (scan_byte b s) \<longleftrightarrow> sc_depth (fst (scan_byte b s)) = 0"
  "0 < sc_depth s \<Longrightarrow> 0 \<le> sc_depth (fst (scan_byte b s))"
  by (auto simp: scan_byte_def)

lemma find_of_map: "find P (map f xs) = map_option f (find (P \<circ> f) xs)"
  by (induction xs) auto

lemma plus_Suc_fun: "(+) (Suc n) = (\<lambda>x. Suc (n + x))"
  by (rule ext) simp

lemma scan_brackets_first:
  "0 < sc_depth s \<Longrightarrow>
   scan_brackets input idx s =
     map_option ((+) idx) (find (\<lambda>k. sc_depth (scan_text (take k (drop idx input)) s) = 0) [1..<length input - idx + 1])"
proof (induction input idx s rule: scan_brackets.induct)
  case (1 input idx s)
  show ?case
  proof (cases "idx < length input")
    case False
    then show ?thesis by (subst scan_brackets.simps) simp
  next
    case True
    obtain s' c where b: "scan_byte (input ! idx) s = (s', c)" by (rule prod.exhaust)
    have d: "drop idx input = input ! idx # drop (Suc idx) input" using True by (simp add: Cons_nth_drop_Suc)
    have closes: "c \<longleftrightarrow> sc_depth s' = 0" "0 \<le> sc_depth s'"
      using scan_byte_closes [OF "1.prems", of "input ! idx"] b by simp_all
    have upt: "[1..<length input - idx + 1] = 1 # map Suc [1..<length input - (idx + 1) + 1]"
      using True by (simp add: upt_conv_Cons map_Suc_upt Suc_diff_Suc del: upt_Suc)
    show ?thesis
    proof (cases c)
      case True
      then show ?thesis using b closes \<open>idx < length input\<close>
        unfolding upt d by (subst scan_brackets.simps) (simp add: scan_text_def del: upt_Suc)
    next
      case False
      then have "0 < sc_depth s'" using closes by simp
      note IH = "1.IH" [OF \<open>idx < length input\<close> b [symmetric] False this]
      have "scan_brackets input idx s = scan_brackets input (idx + 1) s'"
        using b False \<open>idx < length input\<close> by (subst scan_brackets.simps) simp
      then show ?thesis using b False closes IH unfolding upt d
        by (simp add: plus_Suc_fun find_of_map option.map_comp comp_def scan_text_def del: upt_Suc)
    qed
  qed
qed

text \<open>An object or array ends at the first position where every bracket outside of strings is closed.\<close>

theorem scan_ends_at_close:
  assumes "start < length input" and "input ! start = CHR ''{'' \<or> input ! start = CHR ''[''"
  shows "scan_json_value_end input start =
    map_option ((+) start) (find (\<lambda>k. bracket_depth (take k (drop start input)) = 0) [1..<length input - start + 1])"
proof -
  let ?s = "\<lparr>sc_depth = 0, sc_in_string = False, sc_escape = False\<rparr>"
  let ?s' = "\<lparr>sc_depth = 1, sc_in_string = False, sc_escape = False\<rparr>"
  have b: "scan_byte (input ! start) ?s = (?s', False)" using assms(2) by (auto simp: scan_byte_def)
  have d: "drop start input = input ! start # drop (Suc start) input" using assms(1) by (simp add: Cons_nth_drop_Suc)
  have upt: "[1..<length input - start + 1] = 1 # map Suc [1..<length input - (start + 1) + 1]"
    using assms(1) by (simp add: upt_conv_Cons map_Suc_upt Suc_diff_Suc del: upt_Suc)
  have "scan_json_value_end input start = scan_brackets input start ?s"
    using assms by (simp add: scan_json_value_end_def)
  also have "\<dots> = scan_brackets input (start + 1) ?s'"
    using assms(1) b by (subst scan_brackets.simps) simp
  also have "\<dots> = map_option ((+) start) (find (\<lambda>k. bracket_depth (take k (drop start input)) = 0) [1..<length input - start + 1])"
    unfolding upt d using b
    by (subst scan_brackets_first)
      (simp_all add: plus_Suc_fun find_of_map option.map_comp comp_def bracket_depth_def scan_text_def del: upt_Suc)
  finally show ?thesis .
qed

end
