(* ===== verification/Response_Body.thy ===== *)
theory Response_Body
  imports Usage_Capture
begin

text \<open>
  Upstream bodies that are looked at before anything is sent to the client (proxy.rs,
  \<open>ReplayIncomingBody\<close> and the functions after it): frames that were read are kept and handed out again.
  A body is the list of what polling it gives; \<open>n\<close> bounds how many of these items (the end counts as
  one) arrive before the timeout of a peek.
\<close>

section \<open>Replayable bodies\<close>

datatype body_item = Data string | Trailers | Broken string

record replay_body =
  rb_buffered :: "body_item list"
  rb_error :: "string option"
  rb_inner :: "body_item list"

definition replay_new :: "body_item list \<Rightarrow> replay_body" where
  "replay_new inner = \<lparr>rb_buffered = [], rb_error = None, rb_inner = inner\<rparr>"

definition poll_frame :: "replay_body \<Rightarrow> body_item option \<times> replay_body" where
  "poll_frame b =
     (case rb_buffered b of
        frame # rest \<Rightarrow> (Some frame, b\<lparr>rb_buffered := rest\<rparr>)
      | [] \<Rightarrow>
          (case rb_error b of
             Some error \<Rightarrow> (Some (Broken error), b\<lparr>rb_error := None\<rparr>)
           | None \<Rightarrow>
               (case rb_inner b of
                  [] \<Rightarrow> (None, b)
                | item # rest \<Rightarrow> (Some item, b\<lparr>rb_inner := rest\<rparr>))))"

text \<open>\<open>body.inner.frame()\<close> and \<open>body.buffered.push_back(frame)\<close>.\<close>

definition keep_frame :: "body_item \<Rightarrow> body_item list \<Rightarrow> replay_body \<Rightarrow> replay_body" where
  "keep_frame frame rest b = b\<lparr>rb_buffered := rb_buffered b @ [frame], rb_inner := rest\<rparr>"

section \<open>Is the response a rejection of encrypted content?\<close>

definition is_sole_rejection :: "json list \<Rightarrow> bool" where
  "is_sole_rejection events = (case events of [event] \<Rightarrow> rejection_without_output event | _ \<Rightarrow> False)"

fun encrypted_peek ::
  "(string \<Rightarrow> json option) \<Rightarrow> bool \<Rightarrow> nat \<Rightarrow> sse_decoder \<Rightarrow> string \<Rightarrow> replay_body \<Rightarrow> bool \<times> replay_body" where
  "encrypted_peek parse is_sse 0 parser capture body = (False, body)"
| "encrypted_peek parse is_sse (Suc n) parser capture body =
     (case rb_inner body of
        [] \<Rightarrow>
          (if is_sse
           then (case sse_finish parse parser of
                   (events, parser') \<Rightarrow> sd_error parser' = None \<and> is_sole_rejection events)
           else is_some_and (parse capture) rejection_without_output, body)
      | Broken error # rest \<Rightarrow> (False, body\<lparr>rb_error := Some error, rb_inner := rest\<rparr>)
      | Trailers # rest \<Rightarrow> encrypted_peek parse is_sse n parser capture (keep_frame Trailers rest body)
      | Data data # rest \<Rightarrow>
          (let body' = keep_frame (Data data) rest body in
           if MAX_EVENT_BYTES < u64_saturating_add (length capture) (length data) then (False, body')
           else if \<not> is_sse then encrypted_peek parse is_sse n parser (capture @ data) body'
           else (case push_bytes parse data parser of
                   (events, parser') \<Rightarrow>
                     if sd_error parser' \<noteq> None then (False, body')
                     else if events \<noteq> [] then (is_sole_rejection events, body')
                     else encrypted_peek parse is_sse n parser' (capture @ data) body')))"

definition encrypted_content_rejected ::
  "(string \<Rightarrow> json option) \<Rightarrow> int \<Rightarrow> bool \<Rightarrow> nat \<Rightarrow> replay_body \<Rightarrow> bool \<times> replay_body" where
  "encrypted_content_rejected parse status is_sse n body =
     (if status \<noteq> 400 \<and> \<not> (200 \<le> status \<and> status \<le> 299 \<and> is_sse) then (False, body)
      else encrypted_peek parse is_sse n sse_decoder_new [] body)"

section \<open>Does a retryable response report usage?\<close>

definition found_usage :: "usage option option \<Rightarrow> bool" where
  "found_usage u = (case u of Some (Some _) \<Rightarrow> True | _ \<Rightarrow> False)"

fun retry_peek ::
  "(string \<Rightarrow> json option) \<Rightarrow> string \<Rightarrow> bool \<Rightarrow> nat \<Rightarrow> capture_buffer \<Rightarrow> sse_parser \<Rightarrow> replay_body
     \<Rightarrow> bool \<times> replay_body" where
  "retry_peek parse api_format is_sse 0 capture parser body = (True, body)"
| "retry_peek parse api_format is_sse (Suc n) capture parser body =
     (case rb_inner body of
        [] \<Rightarrow>
          (if is_sse then ob_usage (sp_observation (snd (parser_finish parse parser))) \<noteq> None
           else found_usage (extract_usage_from_capture parse api_format capture), body)
      | Broken error # rest \<Rightarrow> (True, body\<lparr>rb_inner := rest\<rparr>)
      | Trailers # rest \<Rightarrow>
          (let body' = keep_frame Trailers rest body in
           if is_truncated capture then (True, body')
           else retry_peek parse api_format is_sse n capture parser body')
      | Data data # rest \<Rightarrow>
          (let body' = keep_frame (Data data) rest body;
               capture' = capture_push data capture;
               parser' = (if is_sse then snd (parser_push parse data parser) else parser)
           in if is_truncated capture' then (True, body')
              else retry_peek parse api_format is_sse n capture' parser' body'))"

definition retry_body_has_usage ::
  "(string \<Rightarrow> json option) \<Rightarrow> string \<Rightarrow> bool \<Rightarrow> nat \<Rightarrow> replay_body \<Rightarrow> bool \<times> replay_body" where
  "retry_body_has_usage parse api_format is_sse n body =
     retry_peek parse api_format is_sse n (capture_new MAX_EVENT_BYTES (32 * 1024)) (sse_parser_new api_format) body"

section \<open>Does a stream start with a valid event?\<close>

definition non_retryable_terminal :: "sse_parser \<Rightarrow> bool" where
  "non_retryable_terminal p \<longleftrightarrow>
     is_some_and (sp_terminal_result p) (\<lambda>(status, _). \<not> should_retry_response_status status)"

definition commits :: "sse_push_out \<Rightarrow> sse_parser \<Rightarrow> bool" where
  "commits out p \<longleftrightarrow> spo_saw_valid_event out \<or> spo_usage out \<noteq> None \<or> non_retryable_terminal p"

text \<open>What was read is put in front of what is still buffered.\<close>

definition replayed :: "body_item list \<Rightarrow> replay_body \<Rightarrow> replay_body" where
  "replayed read body = body\<lparr>rb_buffered := read @ rb_buffered body\<rparr>"

fun preflight_loop ::
  "(string \<Rightarrow> json option) \<Rightarrow> nat \<Rightarrow> nat \<Rightarrow> sse_parser \<Rightarrow> body_item list \<Rightarrow> nat \<Rightarrow> string option \<Rightarrow> replay_body
     \<Rightarrow> (string + replay_body) \<times> string option" where
  "preflight_loop parse max_bytes 0 parser read bytes tier body =
     (Inl ''upstream SSE did not produce a valid event in time'', tier)"
| "preflight_loop parse max_bytes (Suc n) parser read bytes tier body =
     (case poll_frame body of
        (None, body') \<Rightarrow>
          (case parser_finish parse parser of
             (out, parser') \<Rightarrow>
               (if commits out parser' then Inr (replayed read body')
                else Inl ''upstream SSE ended before its first valid event'',
                ob_service_tier (sp_observation parser')))
      | (Some (Broken error), body') \<Rightarrow>
          (Inl (''upstream SSE failed before its first valid event: '' @ error), tier)
      | (Some Trailers, body') \<Rightarrow>
          preflight_loop parse max_bytes n parser (read @ [Trailers]) bytes tier body'
      | (Some (Data data), body') \<Rightarrow>
          (let bytes' = u64_saturating_add bytes (length data); read' = read @ [Data data] in
           if max_bytes < bytes' then (Inr (replayed read' body'), tier)
           else (case parser_push parse data parser of
                   (out, parser') \<Rightarrow>
                     (let tier' = ob_service_tier (sp_observation parser') in
                      if spo_saw_error_event out \<and> \<not> commits out parser'
                      then (Inl ''upstream SSE returned an error before its first valid event'', tier')
                      else if commits out parser' then (Inr (replayed read' body'), tier')
                      else preflight_loop parse max_bytes n parser' read' bytes' tier' body'))))"

definition preflight_sse ::
  "(string \<Rightarrow> json option) \<Rightarrow> string \<Rightarrow> nat \<Rightarrow> nat \<Rightarrow> string option \<Rightarrow> replay_body
     \<Rightarrow> (string + replay_body) \<times> string option" where
  "preflight_sse parse api_format n max_bytes tier body =
     preflight_loop parse max_bytes n (sse_parser_new api_format) [] 0 tier body"

section \<open>Nothing that was looked at is lost\<close>

text \<open>What polling the body gives from now on.\<close>

definition replay_items :: "replay_body \<Rightarrow> body_item list" where
  "replay_items b =
     rb_buffered b @ (case rb_error b of None \<Rightarrow> [] | Some e \<Rightarrow> [Broken e]) @ rb_inner b"

lemma replay_items_poll:
  "poll_frame b = (item, b') \<Longrightarrow>
   replay_items b = (case item of None \<Rightarrow> [] | Some x \<Rightarrow> x # replay_items b') \<and> (item = None \<longrightarrow> b' = b)"
  by (auto simp: poll_frame_def replay_items_def split: list.splits option.splits)

lemma replay_items_new: "replay_items (replay_new items) = items"
  by (simp add: replay_items_def replay_new_def)

lemma keep_frame_items:
  assumes "rb_error b = None" and "rb_inner b = frame # rest"
  shows "replay_items (keep_frame frame rest b) = replay_items b" "rb_error (keep_frame frame rest b) = None"
    "rb_inner (keep_frame frame rest b) = rest"
  using assms by (simp_all add: keep_frame_def replay_items_def)

lemma encrypted_peek_items:
  "rb_error body = None \<Longrightarrow> replay_items (snd (encrypted_peek parse is_sse n parser capture body)) = replay_items body"
proof (induction parse is_sse n parser capture body rule: encrypted_peek.induct)
  case (2 parse is_sse n parser capture body)
  show ?case
  proof (cases "rb_inner body")
    case (Cons item rest)
    note keep = keep_frame_items [OF "2.prems" Cons]
    show ?thesis
    proof (cases item)
      case (Data data)
      obtain events parser' where p: "push_bytes parse data parser = (events, parser')" by (rule prod.exhaust)
      show ?thesis
        using "2.IH"(1,2) Cons Data keep p by (auto simp: Let_def)
    next
      case Trailers
      then show ?thesis using "2.IH"(3) Cons keep by simp
    next
      case (Broken error)
      then show ?thesis using Cons "2.prems" by (simp add: replay_items_def)
    qed
  qed simp
qed simp

lemma encrypted_rejected_items:
  "rb_error body = None \<Longrightarrow> replay_items (snd (encrypted_content_rejected parse status is_sse n body)) = replay_items body"
  by (simp add: encrypted_content_rejected_def encrypted_peek_items)

lemma preflight_loop_items:
  "fst (preflight_loop parse max_bytes n parser read bytes tier body) = Inr body' \<Longrightarrow>
   replay_items body' = read @ replay_items body"
proof (induction parse max_bytes n parser read bytes tier body rule: preflight_loop.induct)
  case (2 parse max_bytes n parser read bytes tier body)
  obtain item b where poll: "poll_frame body = (item, b)" by (rule prod.exhaust)
  note items = replay_items_poll [OF poll]
  have put: "replay_items (replayed r c) = r @ replay_items c" for r c
    by (simp add: replayed_def replay_items_def)
  show ?case
  proof (cases item)
    case None
    then show ?thesis using "2.prems" poll items
      by (auto simp: put split: prod.splits if_splits)
  next
    case (Some x)
    show ?thesis
    proof (cases x)
      case (Data data)
      obtain out parser' where p: "parser_push parse data parser = (out, parser')" by (rule prod.exhaust)
      show ?thesis using "2.IH"(1) "2.prems" poll items Some Data p
        by (auto simp: put Let_def split: if_splits)
    next
      case Trailers
      then show ?thesis using "2.IH"(2) "2.prems" poll items Some by simp
    next
      case (Broken error)
      then show ?thesis using "2.prems" poll Some by simp
    qed
  qed
qed simp

lemma retry_peek_items:
  "rb_error body = None \<Longrightarrow>
   replay_items (snd (retry_peek parse api_format is_sse n capture parser body)) = replay_items body \<or>
   (\<exists>e \<in> set (rb_inner body). \<exists>m. e = Broken m) \<and> fst (retry_peek parse api_format is_sse n capture parser body)"
proof (induction parse api_format is_sse n capture parser body rule: retry_peek.induct)
  case (2 parse api_format is_sse n capture parser body)
  show ?case
  proof (cases "rb_inner body")
    case (Cons item rest)
    note keep = keep_frame_items [OF "2.prems" Cons]
    show ?thesis
    proof (cases item)
      case (Data data)
      then show ?thesis
        using "2.IH"(1) [OF Cons Data refl refl refl] Cons keep by (auto simp: Let_def)
    next
      case Trailers
      then show ?thesis using "2.IH"(2) [OF Cons Trailers refl] Cons keep by (auto simp: Let_def)
    next
      case (Broken error)
      then show ?thesis using Cons by simp
    qed
  qed simp
qed simp

text \<open>Looking into a response body before it is passed on keeps it whole: after the check for rejected
  encrypted content, after the check for usage in a retryable response, and after a stream was accepted,
  polling the body gives exactly what the upstream sent, in order, errors at their place; the check for
  usage can change a body only if the upstream broke it off, and then it answers that there is usage.\<close>

theorem peeks_keep_body:
  "replay_items (snd (encrypted_content_rejected parse status is_sse n (replay_new items))) = items \<and>
   (case fst (preflight_sse parse api_format n max_bytes tier (replay_new items)) of
      Inl _ \<Rightarrow> True | Inr body \<Rightarrow> replay_items body = items) \<and>
   (case retry_body_has_usage parse api_format is_sse n (replay_new items) of (has_usage, body) \<Rightarrow>
      replay_items body = items \<or> (\<exists>e \<in> set items. \<exists>m. e = Broken m) \<and> has_usage)"
proof -
  have new: "rb_error (replay_new items) = None" "rb_inner (replay_new items) = items"
    by (simp_all add: replay_new_def)
  show ?thesis
    using encrypted_rejected_items [OF new(1)] preflight_loop_items
      retry_peek_items [OF new(1), of parse api_format is_sse n "capture_new MAX_EVENT_BYTES (32 * 1024)"
        "sse_parser_new api_format"]
    by (auto simp: replay_items_new new preflight_sse_def retry_body_has_usage_def case_prod_unfold
        split: sum.splits)
qed

text \<open>
  The check for usage drops the error of a body that breaks off: the client then gets the frames before
  it and, after them, a body that ends as if it were complete.
\<close>

theorem retry_peek_loses_error:
  "retry_body_has_usage parse api_format is_sse 2 (replay_new [Trailers, Broken error]) =
     (True, \<lparr>rb_buffered = [Trailers], rb_error = None, rb_inner = []\<rparr>)"
  by (simp add: retry_body_has_usage_def numeral_2_eq_2 replay_new_def keep_frame_def is_truncated_def capture_new_def
      Let_def)

section \<open>What a failed preflight has seen\<close>

definition frame_data_of :: "body_item list \<Rightarrow> string list" where
  "frame_data_of items = concat (map (\<lambda>i. case i of Data d \<Rightarrow> [d] | _ \<Rightarrow> []) items)"

text \<open>No event of these shows output that the client could have had, or usage that was charged.\<close>

definition nothing_seen :: "json list \<Rightarrow> bool" where
  "nothing_seen events \<longleftrightarrow> list_all event_failed events \<and> final_usage events = None"

definition events_of_frames :: "(string \<Rightarrow> json option) \<Rightarrow> body_item list \<Rightarrow> json list \<times> sse_decoder" where
  "events_of_frames parse items = push_chunks parse (frame_data_of items) sse_decoder_new"

definition preflight_reason :: "(string \<Rightarrow> json option) \<Rightarrow> nat \<Rightarrow> body_item list \<Rightarrow> nat \<Rightarrow> bool" where
  "preflight_reason parse n items k \<longleftrightarrow>
     k = n \<or>
     k = length items \<and> nothing_seen (fst (events_of_frames parse items) @
        fst (sse_finish parse (snd (events_of_frames parse items)))) \<or>
     k < length items \<and> (\<exists>m. items ! k = Broken m) \<or>
     fst (events_of_frames parse (take k items)) \<noteq> []"

lemma push_chunks_snoc:
  "push_chunks parse (cs @ [c]) d =
     (case push_chunks parse cs d of (es, d') \<Rightarrow> (case push_bytes parse c d' of (es', d'') \<Rightarrow> (es @ es', d'')))"
  by (simp add: push_chunks_concat push_bytes_append)

lemma commits_nothing:
  assumes "parser_after api_format (events @ vs) p" and "nothing_seen events" and "\<not> commits out p"
    and "spo_saw_valid_event out = list_ex (\<lambda>v. \<not> event_failed v) vs" and "spo_usage out = final_usage (events @ vs)"
  shows "nothing_seen (events @ vs)"
  using assms by (auto simp: nothing_seen_def commits_def list_ex_iff list_all_iff)

lemma preflight_loop_failed:
  assumes "fst (preflight_loop parse max_bytes n parser read bytes tier body) = Inl message"
    and "parser_after api_format events parser" and "nothing_seen events"
    and "events_of_frames parse read = (events, sp_decoder parser)"
  shows "\<exists>k \<le> n. k \<le> length (replay_items body) \<and>
    nothing_seen (fst (events_of_frames parse (read @ take k (replay_items body)))) \<and>
    (k = n \<or>
     k = length (replay_items body) \<and> nothing_seen (fst (events_of_frames parse (read @ replay_items body)) @
        fst (sse_finish parse (snd (events_of_frames parse (read @ replay_items body))))) \<or>
     k < length (replay_items body) \<and> (\<exists>m. replay_items body ! k = Broken m) \<or>
     fst (events_of_frames parse (read @ take k (replay_items body))) \<noteq> [])"
  using assms
proof (induction parse max_bytes n parser read bytes tier body arbitrary: events rule: preflight_loop.induct)
  case (1 parse max_bytes parser read bytes tier body)
  then show ?case by (intro exI [of _ 0]) simp
next
  case (2 parse max_bytes n parser read bytes tier body)
  obtain item b where poll: "poll_frame body = (item, b)" by (rule prod.exhaust)
  note items = replay_items_poll [OF poll]
  show ?case
  proof (cases item)
    case None
    obtain out p where f: "parser_finish parse parser = (out, p)" by (rule prod.exhaust)
    obtain vs d where vs: "sse_finish parse (sp_decoder parser) = (vs, d)" by (rule prod.exhaust)
    have no: "\<not> commits out p" using "2.prems"(1) poll None f by (auto split: if_splits)
    have "parser_observe vs (parser\<lparr>sp_decoder := d\<rparr>) = (out, p)" using f vs by (simp add: parser_finish_def)
    note run = parser_observe_run [OF _ this, of api_format events, unfolded parser_after_decoder, OF "2.prems"(2)]
    have "nothing_seen (events @ vs)"
      using commits_nothing [OF _ "2.prems"(3) no, of api_format vs] run by blast
    then show ?thesis using None items "2.prems"(3, 4) vs by (intro exI [of _ 0]) simp
  next
    case (Some x)
    then have it: "replay_items body = x # replay_items b" using items by simp
    show ?thesis
    proof (cases x)
      case (Broken m)
      then show ?thesis using it "2.prems"(3, 4) by (intro exI [of _ 0]) simp
    next
      case Trailers
      have ev: "events_of_frames parse (read @ [Trailers]) = (events, sp_decoder parser)"
        using "2.prems"(4) by (simp add: events_of_frames_def frame_data_of_def)
      obtain k where "k \<le> n" "k \<le> length (replay_items b)"
        and k: "nothing_seen (fst (events_of_frames parse ((read @ [Trailers]) @ take k (replay_items b))))"
        "k = n \<or>
         k = length (replay_items b) \<and> nothing_seen (fst (events_of_frames parse ((read @ [Trailers]) @ replay_items b)) @
            fst (sse_finish parse (snd (events_of_frames parse ((read @ [Trailers]) @ replay_items b))))) \<or>
         k < length (replay_items b) \<and> (\<exists>m. replay_items b ! k = Broken m) \<or>
         fst (events_of_frames parse ((read @ [Trailers]) @ take k (replay_items b))) \<noteq> []"
        using "2.IH"(2) [OF poll [symmetric] Some Trailers _ "2.prems"(2, 3) ev] "2.prems"(1) poll Some Trailers by auto
      then show ?thesis using it Trailers by (intro exI [of _ "Suc k"]) auto
    next
      case (Data data)
      obtain out p where f: "parser_push parse data parser = (out, p)" by (rule prod.exhaust)
      obtain vs d where vs: "push_bytes parse data (sp_decoder parser) = (vs, d)" by (rule prod.exhaust)
      have "parser_observe vs (parser\<lparr>sp_decoder := d\<rparr>) = (out, p)" using f vs by (simp add: parser_push_def)
      note run = parser_observe_run [OF _ this, of api_format events, unfolded parser_after_decoder, OF "2.prems"(2)]
      have ev: "events_of_frames parse (read @ [Data data]) = (events @ vs, sp_decoder p)"
        using "2.prems"(4) vs run by (simp add: events_of_frames_def frame_data_of_def push_chunks_snoc)
      have no: "\<not> commits out p" and small: "\<not> max_bytes < u64_saturating_add bytes (length data)"
        using "2.prems"(1) poll Some Data f by (auto simp: Let_def split: if_splits)
      have none_seen: "nothing_seen (events @ vs)"
        using commits_nothing [OF _ "2.prems"(3) no, of api_format vs] run by blast
      show ?thesis
      proof (cases "spo_saw_error_event out")
        case True
        then have "vs \<noteq> []" using run by auto
        then show ?thesis by (intro exI [of _ 1]) (simp add: it Data ev none_seen)
      next
        case False
        obtain k where "k \<le> n" "k \<le> length (replay_items b)"
          and k: "nothing_seen (fst (events_of_frames parse ((read @ [Data data]) @ take k (replay_items b))))"
          "k = n \<or>
           k = length (replay_items b) \<and> nothing_seen (fst (events_of_frames parse ((read @ [Data data]) @ replay_items b)) @
              fst (sse_finish parse (snd (events_of_frames parse ((read @ [Data data]) @ replay_items b))))) \<or>
           k < length (replay_items b) \<and> (\<exists>m. replay_items b ! k = Broken m) \<or>
           fst (events_of_frames parse ((read @ [Data data]) @ take k (replay_items b))) \<noteq> []"
          using "2.IH"(1) [OF poll [symmetric] Some Data refl refl small f [symmetric] refl _ no _ _ none_seen ev]
            "2.prems"(1) poll Some Data f no small False run by (auto simp: Let_def)
        then show ?thesis using it Data by (intro exI [of _ "Suc k"]) auto
      qed
    qed
  qed
qed

text \<open>C10: a streamed response is only given up for another provider while it has shown nothing: every event
  decoded from the frames that were examined is an error and no usage was reported; and the examination
  ended because the time was up, the stream ended (then the same holds of all its events), broke off, or
  had shown an event.\<close>

theorem preflight_failure_sound:
  assumes "fst (preflight_sse parse api_format n max_bytes tier (replay_new items)) = Inl message"
  shows "\<exists>k \<le> n. k \<le> length items \<and> nothing_seen (fst (events_of_frames parse (take k items))) \<and>
    preflight_reason parse n items k"
proof -
  have after: "parser_after api_format [] (sse_parser_new api_format)"
    by (simp add: parser_after_def sse_parser_new_def last_terminal_status_def opt_last_Nil observation_new_def
        observation_of_def opt_first_def final_usage_def opt_or_def)
  have "nothing_seen []" by (simp add: nothing_seen_def final_usage_def opt_last_Nil opt_or_def)
  moreover have "events_of_frames parse [] = ([], sp_decoder (sse_parser_new api_format))"
    by (simp add: events_of_frames_def frame_data_of_def sse_parser_new_def)
  ultimately show ?thesis
    using preflight_loop_failed [OF assms [unfolded preflight_sse_def] after]
    by (simp add: replay_items_new preflight_reason_def)
qed

theorem preflight_failure_sound_witness:
  "\<exists>k \<le> 2. k \<le> 2 \<and> nothing_seen (fst (events_of_frames (\<lambda>_. None) (take k [Trailers, Broken ''reset'']))) \<and>
    preflight_reason (\<lambda>_. None) 2 [Trailers, Broken ''reset''] k"
proof -
  have "fst (preflight_sse (\<lambda>_. None) ''responses'' 2 1000 None (replay_new [Trailers, Broken ''reset''])) =
      Inl (''upstream SSE failed before its first valid event: '' @ ''reset'')"
    by (simp add: preflight_sse_def numeral_2_eq_2 replay_new_def poll_frame_def)
  from preflight_failure_sound [OF this] show ?thesis by (simp add: numeral_2_eq_2)
qed

end
