(* ===== verification/Response_Tap.thy ===== *)
theory Response_Tap
  imports Request_Loop Response_Body
begin

text \<open>
  The task that reads the response body of the last attempt and settles the request (proxy.rs,
  \<open>ProxyTapBody::new\<close> and \<open>finalize_tap\<close>).  It outlives the client: each turn of its loop sees the client
  go, a frame arrive, the body end or fail, or its deadline pass, and these inputs are a list.  At the
  end it reads usage and outcome off what it has seen, and reports them to the books.
\<close>

section \<open>State and inputs\<close>

definition DISCONNECT_GRACE_MS :: int where
  "DISCONNECT_GRACE_MS = 30000"

record tap_settings =
  tg_is_sse :: bool
  tg_api_format :: string
  tg_capture_bytes :: nat
  tg_capture_tail_bytes :: nat
  tg_read_timeout_ms :: int
  tg_first_deadline_ms :: int
  tg_start_ms :: int
  tg_stream_ms :: "int option"

text \<open>
  An input carries the instant at which it is seen; that of a frame also tells whether the client
  took it.
\<close>

datatype tap_input =
    SenderClosed int
  | FrameData int string bool
  | FrameOther int bool
  | BodyEnd
  | BodyError string
  | ReadTimeout

record tap_state =
  tp_first_byte_ms :: "int option"
  tp_first_token_ms :: "int option"
  tp_error_type :: "string option"
  tp_error_message :: "string option"
  tp_capture :: capture_buffer
  tp_sse :: "sse_parser option"
  tp_disconnected_at :: "int option"
  tp_client_duration_ms :: "int option"
  tp_preflight_complete :: bool
  tp_read_deadline_ms :: int

definition tap_start :: "tap_settings \<Rightarrow> tap_state" where
  "tap_start tg =
     \<lparr>tp_first_byte_ms = None, tp_first_token_ms = None, tp_error_type = None, tp_error_message = None,
      tp_capture = capture_new (max (tg_capture_bytes tg) MAX_EVENT_BYTES) (tg_capture_tail_bytes tg),
      tp_sse = (if tg_is_sse tg then Some (sse_parser_new (tg_api_format tg)) else None),
      tp_disconnected_at = None, tp_client_duration_ms = None, tp_preflight_complete = (\<not> tg_is_sse tg),
      tp_read_deadline_ms = tg_first_deadline_ms tg\<rparr>"

definition elapsed_ms :: "tap_settings \<Rightarrow> int \<Rightarrow> int" where
  "elapsed_ms tg t = max (t - tg_start_ms tg) 0"

definition tap_deadline :: "tap_state \<Rightarrow> int" where
  "tap_deadline st =
     (case tp_disconnected_at st of
        None \<Rightarrow> tp_read_deadline_ms st
      | Some t \<Rightarrow> min (t + DISCONNECT_GRACE_MS) (tp_read_deadline_ms st))"

definition get_or_insert :: "'a option \<Rightarrow> 'a \<Rightarrow> 'a option" where
  "get_or_insert a x = Some (unwrap_or a x)"

section \<open>The reading loop\<close>

definition client_gone :: "tap_settings \<Rightarrow> int \<Rightarrow> tap_state \<Rightarrow> tap_state" where
  "client_gone tg t st = st\<lparr>tp_disconnected_at := Some t, tp_client_duration_ms := Some (elapsed_ms tg t)\<rparr>"

definition stream_terminal :: "tap_state \<Rightarrow> bool" where
  "stream_terminal st = is_some_and (tp_sse st) (\<lambda>p. ob_terminal (sp_observation p))"

definition note_error_event :: "sse_push_out \<Rightarrow> tap_state \<Rightarrow> tap_state" where
  "note_error_event out st =
     (if spo_saw_error_event out
      then st\<lparr>tp_error_type := Some ''upstream_stream_error'',
              tp_error_message := Some ''upstream returned a failed, incomplete or cancelled response''\<rparr>
      else st)"

definition tap_data :: "(string \<Rightarrow> json option) \<Rightarrow> tap_settings \<Rightarrow> int \<Rightarrow> string \<Rightarrow> tap_state \<Rightarrow> tap_state" where
  "tap_data parse tg t data st0 =
     (let st = st0\<lparr>tp_first_byte_ms := get_or_insert (tp_first_byte_ms st0) (elapsed_ms tg t)\<rparr> in
      case tp_sse st of
        None \<Rightarrow> st\<lparr>tp_capture := capture_push data (tp_capture st)\<rparr>
      | Some parser \<Rightarrow>
          (case parser_push parse data parser of
             (out, parser') \<Rightarrow>
               note_error_event out
                 (st\<lparr>tp_sse := Some parser',
                     tp_preflight_complete := tp_preflight_complete st \<or> commits out parser',
                     tp_first_token_ms := (if spo_saw_first_token out
                       then get_or_insert (tp_first_token_ms st) (elapsed_ms tg t) else tp_first_token_ms st)\<rparr>)))"

text \<open>After a frame: the deadline moves, the frame goes to the client, and a terminal stream nobody reads ends.\<close>

definition tap_forward :: "tap_settings \<Rightarrow> int \<Rightarrow> bool \<Rightarrow> tap_state \<Rightarrow> tap_state \<times> bool" where
  "tap_forward tg t delivered st0 =
     (let st1 = (if tp_preflight_complete st0 then st0\<lparr>tp_read_deadline_ms := t + tg_read_timeout_ms tg\<rparr> else st0);
          st2 = (if tp_disconnected_at st1 = None \<and> \<not> delivered then client_gone tg t st1 else st1)
      in (st2, stream_terminal st2 \<and> tp_disconnected_at st2 \<noteq> None))"

text \<open>One turn of the loop: the new state, and whether the loop ends.\<close>

fun tap_step :: "(string \<Rightarrow> json option) \<Rightarrow> tap_settings \<Rightarrow> tap_input \<Rightarrow> tap_state \<Rightarrow> tap_state \<times> bool" where
  "tap_step parse tg (SenderClosed t) st =
     (if tp_disconnected_at st \<noteq> None then (st, False)
      else (client_gone tg t st, stream_terminal st))"
| "tap_step parse tg (FrameData t data delivered) st = tap_forward tg t delivered (tap_data parse tg t data st)"
| "tap_step parse tg (FrameOther t delivered) st = tap_forward tg t delivered st"
| "tap_step parse tg BodyEnd st = (st, True)"
| "tap_step parse tg (BodyError message) st =
     (st\<lparr>tp_error_type := Some ''upstream_body_error'', tp_error_message := Some message\<rparr>, True)"
| "tap_step parse tg ReadTimeout st =
     (st\<lparr>tp_error_type := Some ''upstream_timeout'',
         tp_error_message := Some ''upstream body read deadline exceeded''\<rparr>, True)"

fun tap_read :: "(string \<Rightarrow> json option) \<Rightarrow> tap_settings \<Rightarrow> tap_input list \<Rightarrow> tap_state \<Rightarrow> tap_state" where
  "tap_read parse tg [] st = st"
| "tap_read parse tg (i # is) st =
     (case tap_step parse tg i st of (st', stop) \<Rightarrow> (if stop then st' else tap_read parse tg is st'))"

section \<open>What was read\<close>

record tap_result =
  tr_status :: "int option"
  tr_terminal_observed :: bool
  tr_error_type :: "string option"
  tr_error_message :: "string option"
  tr_usage :: "usage option"
  tr_first_byte_ms :: "int option"
  tr_first_token_ms :: "int option"
  tr_ttft_source :: "string option"
  tr_service_tier :: "string option"
  tr_client_duration_ms :: "int option"
  tr_capture :: capture_buffer

text \<open>\<open>t\<close> is the instant of the last reading of the clock in the task.\<close>

definition settle_sse ::
  "(string \<Rightarrow> json option) \<Rightarrow> tap_settings \<Rightarrow> int \<Rightarrow> int option \<Rightarrow> sse_parser \<Rightarrow> tap_state \<Rightarrow> tap_result" where
  "settle_sse parse tg t status parser st0 =
     (case parser_finish parse parser of
        (out, parser') \<Rightarrow>
          (let st = note_error_event out st0; terminal = sp_terminal_result parser' in
           \<lparr>tr_status = (case terminal of Some (code, _) \<Rightarrow> Some code | None \<Rightarrow> status),
            tr_terminal_observed = (terminal \<noteq> None),
            tr_error_type = (case terminal of Some (_, kind, _) \<Rightarrow> kind | None \<Rightarrow> tp_error_type st),
            tr_error_message = (case terminal of Some (_, _, message) \<Rightarrow> message | None \<Rightarrow> tp_error_message st),
            tr_usage = ob_usage (sp_observation parser'),
            tr_first_byte_ms = tp_first_byte_ms st,
            tr_first_token_ms = (if spo_saw_first_token out
               then get_or_insert (tp_first_token_ms st) (elapsed_ms tg t) else tp_first_token_ms st),
            tr_ttft_source = ob_first_output_kind (sp_observation parser'),
            tr_service_tier = ob_service_tier (sp_observation parser'),
            tr_client_duration_ms = tp_client_duration_ms st, tr_capture = tp_capture st\<rparr>))"

definition settle_plain ::
  "(string \<Rightarrow> json option) \<Rightarrow> tap_settings \<Rightarrow> int option \<Rightarrow> tap_state \<Rightarrow> tap_result" where
  "settle_plain parse tg status st =
     (let body = parse (to_vec (tp_capture st));
          terminal = (case body of
             Some value \<Rightarrow>
               (if tg_api_format tg = ''responses'' \<and> is_terminal_response_event value
                then Some (terminal_status value) else None)
           | None \<Rightarrow> None)
      in \<lparr>tr_status = (case terminal of Some (code, _) \<Rightarrow> Some code | None \<Rightarrow> status),
          tr_terminal_observed = (terminal \<noteq> None),
          tr_error_type = (case terminal of Some (_, kind, _) \<Rightarrow> kind | None \<Rightarrow> tp_error_type st),
          tr_error_message = (case terminal of Some (_, _, message) \<Rightarrow> message | None \<Rightarrow> tp_error_message st),
          tr_usage = None,
          tr_first_byte_ms = tp_first_byte_ms st, tr_first_token_ms = tp_first_token_ms st,
          tr_ttft_source = None,
          tr_service_tier = Option.bind body service_tier,
          tr_client_duration_ms = tp_client_duration_ms st, tr_capture = tp_capture st\<rparr>)"

definition tap_settle ::
  "(string \<Rightarrow> json option) \<Rightarrow> tap_settings \<Rightarrow> int \<Rightarrow> int option \<Rightarrow> tap_state \<Rightarrow> tap_result" where
  "tap_settle parse tg t status st =
     (let r = (case tp_sse st of
                 Some parser \<Rightarrow> settle_sse parse tg t status parser st
               | None \<Rightarrow> settle_plain parse tg status st)
      in if tp_disconnected_at st \<noteq> None
         then r\<lparr>tr_error_type := Some ''client_disconnected'',
                tr_error_message := Some ''client disconnected; upstream metering collection finished''\<rparr>
         else r)"

section \<open>Codex errors\<close>

definition integer_at :: "json \<Rightarrow> string list \<Rightarrow> int option" where
  "integer_at value keys =
     Option.bind (find_map (json_get value) keys) (\<lambda>v.
       opt_or (as_i64 v) (opt_or (Option.bind (as_u64 v) (\<lambda>n. if in_i64 (int n) then Some (int n) else None))
         (Option.bind (as_str v) (\<lambda>raw. parse_i64 (trim raw)))))"

definition timestamp_ms_at :: "json \<Rightarrow> string list \<Rightarrow> int option" where
  "timestamp_ms_at value keys =
     Option.bind (integer_at value keys) (\<lambda>raw.
       if raw \<le> 0 then None else if 10000000000 < raw then Some raw else i64_checked_mul raw 1000)"

definition seconds_from_now :: "int \<Rightarrow> json \<Rightarrow> int option" where
  "seconds_from_now now_ms value =
     Option.bind (integer_at value [''resets_in_seconds'', ''reset_after_seconds''])
       (\<lambda>seconds. i64_checked_add now_ms (i64_saturating_mul seconds 1000))"

definition quota_reset_hint_from_error :: "(string \<Rightarrow> json option) \<Rightarrow> string \<Rightarrow> int \<Rightarrow> int option" where
  "quota_reset_hint_from_error parse bytes now_ms =
     Option.bind (parse bytes) (\<lambda>value.
       opt_or (timestamp_ms_at value [''resets_at'', ''reset_at''])
         (opt_or (Option.bind (json_get value ''error'') (\<lambda>e. timestamp_ms_at e [''resets_at'', ''reset_at'']))
           (opt_or (seconds_from_now now_ms value)
             (Option.bind (json_get value ''error'') (seconds_from_now now_ms)))))"

definition is_account_forbidden_error :: "string \<Rightarrow> bool" where
  "is_account_forbidden_error bytes \<longleftrightarrow>
     list_ex (\<lambda>needle. sublist needle (to_ascii_lowercase (from_utf8_lossy bytes)))
       [''missing entitlement'', ''missing_entitlement'', ''missing_codex_entitlement'',
        ''workspace deactivated'', ''workspace_deactivated'', ''account deactivated'']"

section \<open>Settling the request\<close>

text \<open>
  \<open>tf_marks_forbidden\<close> tells that the task which marks the account as forbidden in the database is
  started.
\<close>

record tap_final =
  tf_usage :: "usage option"
  tf_scope :: failure_scope
  tf_error_type :: "string option"
  tf_error_message :: "string option"
  tf_marks_forbidden :: bool
  tf_gates :: attempt_state
  tf_affinity :: affinity_book

definition tap_usage :: "(string \<Rightarrow> json option) \<Rightarrow> tap_settings \<Rightarrow> tap_result \<Rightarrow> usage option" where
  "tap_usage parse tg r =
     (if \<not> tg_is_sse tg \<and> \<not> capture_is_empty (tr_capture r)
      then (case extract_usage_from_capture parse (tg_api_format tg) (tr_capture r) of
              Some (Some u) \<Rightarrow> Some u
            | _ \<Rightarrow> tr_usage r)
      else tr_usage r)"

definition is_disconnected :: "tap_result \<Rightarrow> bool" where
  "is_disconnected r \<longleftrightarrow> tr_error_type r = Some ''client_disconnected''"

definition tap_origin :: "tap_result \<Rightarrow> outcome_origin" where
  "tap_origin r =
     (if is_disconnected r then Gateway
      else if tr_terminal_observed r then UpstreamEvent
      else if tr_error_type r \<noteq> None then LocalTransport
      else UpstreamResponse)"

definition captured_error :: "(string \<Rightarrow> json option) \<Rightarrow> tap_result \<Rightarrow> (string \<times> string option) option" where
  "captured_error parse r =
     (if tap_origin r = UpstreamResponse \<and> is_some_and (tr_status r) (\<lambda>s. 400 \<le> s) \<and> \<not> is_truncated (tr_capture r)
      then upstream_error_details parse (to_vec (tr_capture r)) else None)"

definition codex_hints ::
  "(string \<Rightarrow> json option) \<Rightarrow> 'd tap_config \<Rightarrow> tap_result \<Rightarrow> int \<Rightarrow> attempt_state \<Rightarrow> bool \<times> attempt_state" where
  "codex_hints parse tap r now_ms st =
     (case tr_status r of
        Some status \<Rightarrow>
          (if tc_codex tap
           then (let captured = to_vec (tr_capture r) in
                 (status = 403 \<and> is_account_forbidden_error captured,
                  case (if status = 402 \<or> status = 429 then quota_reset_hint_from_error parse captured now_ms else None) of
                    None \<Rightarrow> st
                  | Some reset \<Rightarrow>
                      st\<lparr>ats_gates := (ats_gates st)\<lparr>gs_quota :=
                        set_cooldown_until (gs_quota (ats_gates st)) (k_id (ru_key (tc_target tap))) reset now_ms\<rparr>\<rparr>))
           else (False, st))
      | None \<Rightarrow> (False, st))"

definition settle_affinity ::
  "'d tap_config \<Rightarrow> failure_scope \<Rightarrow> int \<Rightarrow> affinity_book \<Rightarrow> affinity_book" where
  "settle_affinity tap scope now_ms book =
     (let r = tc_target tap; p = p_id (ru_provider r); k = Some (k_id (ru_key r)); e = Some (e_id (ru_endpoint r)) in
      if scope = ScopeSuccess then
        (case (tc_identity tap, tc_binding tap) of
           (Some identity, Some binding) \<Rightarrow>
             (if ab_provider_id binding = p \<and> ab_upstream_key_id binding = k \<and> ab_endpoint_id binding = e
              then (if ab_confirmed binding then snd (refresh_if_target book identity binding now_ms)
                    else snd (confirm book identity binding now_ms))
              else if tc_should_migrate tap then snd (migrate_target book identity p k e now_ms)
              else book)
         | _ \<Rightarrow> book)
      else (case (should_avoid_affinity_immediately scope, tc_identity tap) of
              (True, Some identity) \<Rightarrow>
                mark_provider_failed book identity p now_ms (max (p_circuit_breaker_open_ms (ru_provider r)) 1)
            | _ \<Rightarrow> book))"

definition first_some :: "'a option list \<Rightarrow> 'a option" where
  "first_some xs = (case somes xs of [] \<Rightarrow> None | x # _ \<Rightarrow> Some x)"

text \<open>\<open>elapsed\<close> is the time since the start of the request when the task settles it.\<close>

definition finalize_tap ::
  "(string \<Rightarrow> json option) \<Rightarrow> tap_settings \<Rightarrow> 'd tap_config \<Rightarrow> tap_result \<Rightarrow> int \<Rightarrow> int \<Rightarrow> reservation
     \<Rightarrow> attempt_state \<Rightarrow> affinity_book \<Rightarrow> tap_final" where
  "finalize_tap parse tg tap r now_ms elapsed rv st0 book =
     (let origin = tap_origin r;
          captured = captured_error parse r;
          (forbidden, st1) = codex_hints parse tap r now_ms st0;
          error_type = opt_or (tr_error_type r) (map_option fst captured);
          error_message = opt_or (tr_error_message r) (Option.bind captured snd);
          scope = classify_failure_scope_with_body parse (tr_status r) origin (tr_capture r);
          latency = first_some [tr_first_byte_ms r, tr_first_token_ms r, tg_stream_ms tg, Some elapsed];
          st2 = (if is_disconnected r then neutral_reservation now_ms rv st1
                 else (case finish_with_scope
                         \<lparr>ao_status = tr_status r, ao_origin = origin, ao_error_type = error_type,
                          ao_error_message = error_message, ao_observed_latency_ms = latency\<rparr>
                         scope now_ms rv st1 of
                         (rv', st) \<Rightarrow> drop_reservation rv' now_ms st))
      in \<lparr>tf_usage = tap_usage parse tg r, tf_scope = scope, tf_error_type = error_type,
          tf_error_message = error_message, tf_marks_forbidden = forbidden, tf_gates = st2,
          tf_affinity = settle_affinity tap scope now_ms book\<rparr>)"

text \<open>The whole task.\<close>

definition run_tap ::
  "(string \<Rightarrow> json option) \<Rightarrow> tap_settings \<Rightarrow> 'd tap_config \<Rightarrow> tap_input list \<Rightarrow> int \<Rightarrow> int \<Rightarrow> reservation
     \<Rightarrow> attempt_state \<Rightarrow> affinity_book \<Rightarrow> tap_result \<times> tap_final" where
  "run_tap parse tg tap inputs t now_ms rv st book =
     (let r = tap_settle parse tg t (Some (tc_status tap)) (tap_read parse tg inputs (tap_start tg))
      in (r, finalize_tap parse tg tap r now_ms (elapsed_ms tg t) rv st book))"

section \<open>Every permit comes back\<close>

lemma inflight_codex_hints [simp]: "inflight (snd (codex_hints parse tap r now st)) = inflight st"
  by (auto simp: codex_hints_def Let_def split: option.splits)

lemma finalize_tap_free:
  assumes "held_by n rv (ls\<lparr>ls_gates := st\<rparr>)"
  shows "inflight (tf_gates (finalize_tap parse tg tap r now elapsed rv st book)) i = n i"
proof -
  let ?st = "snd (codex_hints parse tap r now st)"
  have held: "held_by n (take_guards rv) (ls\<lparr>ls_gates := st'\<rparr>)" if "inflight st' = inflight st" for st'
    using assms that by (simp add: held_by_def)
  have "inflight (drop_reservation (take_guards rv) now (neutral_guards now rv ?st)) i = n i"
    by (rule drop_free [OF held]) simp
  moreover have "inflight (drop_reservation (take_guards rv) now (snd (finish_with_scope oc scope now rv ?st))) i = n i" for oc scope
    by (rule drop_free [OF held]) simp
  ultimately show ?thesis
    by (simp add: finalize_tap_def Let_def case_prod_unfold neutral_reservation_def finish_take_guards)
qed

text \<open>C7: a request gives back every permit it took, on every way out: after the request, and after the task
  that reads the response body if one was started, each provider's in-flight counter is what it was
  before, however the body goes (other requests are taken to leave the counters as they find them).\<close>

theorem all_permits_returned:
  assumes "\<forall>k. quiet (world k)"
    and "\<forall>r \<in> set (lc_attempts cfg). inflight st (p_id (ru_provider r)) < u32_max"
    and "run_request cfg world now (loop_start st book start timeout) = (e, ls)"
  shows "case e of
      TapReply kind tap rv until \<Rightarrow>
        inflight (tf_gates (snd (run_tap parse tg tap inputs t now' rv (ls_gates ls) (ls_affinity ls)))) = inflight st
    | _ \<Rightarrow> inflight (ls_gates ls) = inflight st"
proof -
  have "free_at (inflight st) (loop_start st book start timeout)" by (simp add: free_at_def loop_start_def)
  note run = run_request_settled [OF this assms]
  have "inflight (tf_gates (snd (run_tap parse tg tap inputs t now' rv (ls_gates ls) (ls_affinity ls)))) i = inflight st i"
    if "e = TapReply kind tap rv until" for kind tap rv until i
  proof -
    have "held_by (inflight st) rv (ls\<lparr>ls_gates := ls_gates ls\<rparr>)" using run that by (simp add: exit_settled_def)
    from finalize_tap_free [OF this] show ?thesis by (simp add: run_tap_def Let_def)
  qed
  then show ?thesis using run by (cases e) (simp_all add: exit_settled_def free_at_def fun_eq_iff)
qed

definition wit_settings :: "bool \<Rightarrow> tap_settings" where
  "wit_settings is_sse =
     \<lparr>tg_is_sse = is_sse, tg_api_format = ''responses'', tg_capture_bytes = 0, tg_capture_tail_bytes = 0,
      tg_read_timeout_ms = 1000, tg_first_deadline_ms = 1000, tg_start_ms = 0, tg_stream_ms = None\<rparr>"

definition wit_tap :: "int tap_config" where
  "wit_tap =
     \<lparr>tc_target = wit_attempt 4, tc_status = 200, tc_binding = None, tc_identity = None, tc_should_migrate = False,
      tc_codex = False\<rparr>"

theorem all_permits_returned_witness:
  "case fst wit_run of
     TapReply kind tap rv until \<Rightarrow>
       inflight (tf_gates (snd (run_tap (\<lambda>_. None) (wit_settings False) tap [ReadTimeout] 0 0 rv (ls_gates (snd wit_run)) (ls_affinity (snd wit_run))))) =
         inflight wit_attempt_state
   | _ \<Rightarrow> inflight (ls_gates (snd wit_run)) = inflight wit_attempt_state"
proof -
  have "inflight wit_attempt_state i < u32_max" for i
    by (simp add: inflight_def wit_gates_def prb_entry_def runtime_book_new_def unwrap_or_def runtime_default_def u32_max_def)
  then show ?thesis
    by (intro all_permits_returned [OF _ _ wit_run_eq]) (simp_all add: quiet_def wit_world_def)
qed

section \<open>A client that goes away\<close>

lemma tap_step_disconnect:
  "tap_step parse tg i st = (st', stop) \<Longrightarrow> tp_disconnected_at st = Some t \<Longrightarrow> tp_disconnected_at st' = Some t"
  by (cases i)
    (auto simp: tap_forward_def tap_data_def note_error_event_def client_gone_def Let_def
      split: if_splits option.splits prod.splits)

text \<open>The grace period starts when the client goes and is never extended.\<close>

theorem grace_period_bounded:
  "tp_disconnected_at st = Some t \<Longrightarrow> tap_deadline (tap_read parse tg inputs st) \<le> t + DISCONNECT_GRACE_MS"
proof (induction inputs arbitrary: st)
  case Nil
  then show ?case by (simp add: tap_deadline_def)
next
  case (Cons i inputs)
  obtain st' stop where s: "tap_step parse tg i st = (st', stop)" by (rule prod.exhaust)
  note gone = tap_step_disconnect [OF s Cons.prems]
  show ?case using Cons.IH [OF gone] gone by (auto simp: s tap_deadline_def)
qed

lemma neutral_drop_books:
  "health_layer False False (rsv_key rv) (gs_key_health (ats_gates st))
     (gs_key_health (ats_gates (neutral_reservation now rv st)))"
  "health_layer False False (rsv_endpoint rv) (gs_endpoint_health (ats_gates st))
     (gs_endpoint_health (ats_gates (neutral_reservation now rv st)))"
proof -
  have "gs_key_health (ats_gates (drop_reservation (take_guards rv) now s)) = gs_key_health (ats_gates s)"
    "gs_endpoint_health (ats_gates (drop_reservation (take_guards rv) now s)) = gs_endpoint_health (ats_gates s)" for s
    by (simp_all add: drop_reservation_def take_guards_def opt_apply_books opt_apply_def [of _ None])
  then show "health_layer False False (rsv_key rv) (gs_key_health (ats_gates st))
     (gs_key_health (ats_gates (neutral_reservation now rv st)))"
    "health_layer False False (rsv_endpoint rv) (gs_endpoint_health (ats_gates st))
     (gs_endpoint_health (ats_gates (neutral_reservation now rv st)))"
    by (simp_all add: neutral_reservation_def neutral_guards_def neutral_provider_def neutral_key_def neutral_endpoint_def
        opt_apply_books health_layer_steps)
qed

text \<open>The counters of a provider that decide about its circuit.\<close>

definition provider_record :: "provider_runtime_book \<Rightarrow> int \<Rightarrow> nat \<times> nat \<times> int option" where
  "provider_record b i =
     (rs_failure_count (prb_entry b i), rs_success_count (prb_entry b i), rs_open_until_ms (prb_entry b i))"

lemma release_capacity_record:
  "provider_record (release_capacity b p) i = provider_record b i"
  by (auto simp: provider_record_def release_capacity_def prb_entry_def prb_put_def unwrap_or_def split: option.splits)

lemma pguard_neutral_record: "provider_record (pguard_neutral b g) i = provider_record b i"
  by (simp add: provider_record_def pguard_neutral_def pguard_drop_def Let_def prb_finish_neutral_entry)

lemma prb_errors_kept:
  "prb_errors (release_capacity b p) = prb_errors b" "prb_errors (pguard_neutral b g) = prb_errors b"
  by (simp_all add: release_capacity_def pguard_neutral_def pguard_drop_def prb_finish_neutral_def prb_put_def Let_def
      split: option.splits)

lemma neutral_drop_runtime:
  "gs_runtime (ats_gates (neutral_reservation now rv st)) =
     opt_apply (\<lambda>p b. release_capacity b p) (rsv_capacity rv)
       (opt_apply (\<lambda>g b. pguard_neutral b g) (rsv_provider rv) (gs_runtime (ats_gates st)))"
  by (simp add: neutral_reservation_def drop_reservation_def take_guards_def neutral_guards_def neutral_provider_def
      neutral_key_def neutral_endpoint_def opt_apply_books opt_apply_def [of _ None])

lemma neutral_drop_provider:
  "provider_record (gs_runtime (ats_gates (neutral_reservation now rv st))) i =
     provider_record (gs_runtime (ats_gates st)) i"
  "prb_errors (gs_runtime (ats_gates (neutral_reservation now rv st))) = prb_errors (gs_runtime (ats_gates st))"
  by (cases "rsv_capacity rv"; cases "rsv_provider rv";
      simp add: neutral_drop_runtime opt_apply_def release_capacity_record pguard_neutral_record prb_errors_kept)+

lemma codex_hints_books:
  "gs_key_health (ats_gates (snd (codex_hints parse tap r now st))) = gs_key_health (ats_gates st)"
  "gs_endpoint_health (ats_gates (snd (codex_hints parse tap r now st))) = gs_endpoint_health (ats_gates st)"
  "gs_runtime (ats_gates (snd (codex_hints parse tap r now st))) = gs_runtime (ats_gates st)"
  by (auto simp: codex_hints_def Let_def split: option.splits)

lemma settle_disconnected: "tp_disconnected_at st \<noteq> None \<Longrightarrow> is_disconnected (tap_settle parse tg t status st)"
  by (simp add: tap_settle_def is_disconnected_def Let_def)

text \<open>C11: a client that goes away costs its target nothing: whatever the body did before and after, the
  request counts neither as a success nor as a failure of the key, the endpoint or the provider, opens no
  circuit and is not recorded as an error.\<close>

theorem disconnect_is_neutral:
  assumes "tp_disconnected_at (tap_read parse tg inputs (tap_start tg)) = Some gone"
    and "run_tap parse tg tap inputs t now rv st book = (r, fin)"
  shows "health_layer False False (rsv_key rv) (gs_key_health (ats_gates st)) (gs_key_health (ats_gates (tf_gates fin))) \<and>
    health_layer False False (rsv_endpoint rv) (gs_endpoint_health (ats_gates st)) (gs_endpoint_health (ats_gates (tf_gates fin))) \<and>
    provider_record (gs_runtime (ats_gates (tf_gates fin))) = provider_record (gs_runtime (ats_gates st)) \<and>
    prb_errors (gs_runtime (ats_gates (tf_gates fin))) = prb_errors (gs_runtime (ats_gates st))"
proof -
  have "is_disconnected r"
    using assms settle_disconnected by (auto simp: run_tap_def Let_def)
  then have "tf_gates fin = neutral_reservation now rv (snd (codex_hints parse tap r now st))"
    using assms by (auto simp: run_tap_def finalize_tap_def Let_def case_prod_unfold)
  then show ?thesis
    using neutral_drop_books [of rv "snd (codex_hints parse tap r now st)" now]
      neutral_drop_provider [of now rv "snd (codex_hints parse tap r now st)"]
    by (simp add: codex_hints_books fun_eq_iff)
qed

section \<open>A stream read to its end\<close>

definition stream_error :: "json list \<Rightarrow> string option" where
  "stream_error es = (if list_ex event_failed es then Some ''upstream_stream_error'' else None)"

text \<open>The tap after the events of a stream whose client is still there.\<close>

definition tap_after :: "string \<Rightarrow> json list \<Rightarrow> sse_decoder \<Rightarrow> tap_state \<Rightarrow> bool" where
  "tap_after api_format es d st \<longleftrightarrow>
     (\<exists>p. tp_sse st = Some p \<and> parser_after api_format es p \<and> sp_decoder p = d) \<and>
     tp_disconnected_at st = None \<and> tp_error_type st = stream_error es"

lemma tap_frames:
  assumes "tap_after api_format es d st" and "push_chunks parse (map snd frames) d = (vs, d')"
  shows "\<exists>st'. tap_read parse tg (map (\<lambda>(t, data). FrameData t data True) frames @ [BodyEnd]) st =
           tap_read parse tg [BodyEnd] st' \<and> tap_after api_format (es @ vs) d' st'"
  using assms
proof (induction frames arbitrary: es d st vs)
  case (Cons f frames)
  obtain t data where f: "f = (t, data)" by (rule prod.exhaust)
  obtain p where p: "tp_sse st = Some p" "parser_after api_format es p" "sp_decoder p = d"
    and st: "tp_disconnected_at st = None" "tp_error_type st = stream_error es"
    using Cons.prems(1) by (auto simp: tap_after_def)
  obtain es1 d1 where c: "push_bytes parse data d = (es1, d1)" by (rule prod.exhaust)
  then obtain vs1 where rest: "push_chunks parse (map snd frames) d1 = (vs1, d')" and vs: "vs = es1 @ vs1"
    using Cons.prems(2) f by (auto split: prod.splits)
  obtain out p1 where o: "parser_push parse data p = (out, p1)" by (rule prod.exhaust)
  then have "parser_observe es1 (p\<lparr>sp_decoder := d1\<rparr>) = (out, p1)" using c p(3) by (simp add: parser_push_def)
  note run = parser_observe_run [OF _ this, of api_format es, unfolded parser_after_decoder, OF p(2)]
  obtain st1 where s: "tap_step parse tg (FrameData t data True) st = (st1, False)"
    and after: "tap_after api_format (es @ es1) d1 st1"
    using p st o run
    by (auto simp: tap_forward_def tap_data_def note_error_event_def Let_def tap_after_def stream_terminal_def
        stream_error_def)
  obtain st' where "tap_read parse tg (map (\<lambda>(t, data). FrameData t data True) frames @ [BodyEnd]) st1 =
      tap_read parse tg [BodyEnd] st'" "tap_after api_format ((es @ es1) @ vs1) d' st'"
    using Cons.IH [OF after rest] by blast
  then show ?case by (intro exI [of _ st']) (simp add: f s vs del: tap_step.simps)
qed auto

text \<open>C9: an event stream that is read to its end to a client that stays is settled by what it said: the
  usage is its final usage, the status and the error are those of its last terminal event; without one the
  status is that of the response and there is an error exactly if an event reported one.\<close>

theorem stream_settled_by_events:
  fixes parse :: "string \<Rightarrow> json option" and frames :: "(int \<times> string) list"
  defines "stream \<equiv> concat (map snd frames)"
  assumes "no_overrun_at_cr [] (sse_lines stream)" and "tg_is_sse tg"
    and "run_tap parse tg tap (map (\<lambda>(t, data). FrameData t data True) frames @ [BodyEnd]) t now rv st book = (r, fin)"
  shows "tf_usage fin = final_usage (sse_events parse stream) \<and>
    (case last_terminal_status (sse_events parse stream) of
       Some (status, code, message) \<Rightarrow>
         tr_status r = Some status \<and> tr_error_type r = code \<and> tr_error_message r = message \<and>
         tap_origin r = (if code = Some ''client_disconnected'' then Gateway else UpstreamEvent)
     | None \<Rightarrow>
         tr_status r = Some (tc_status tap) \<and> tr_error_type r = stream_error (sse_events parse stream) \<and>
         tap_origin r = (if list_ex event_failed (sse_events parse stream) then LocalTransport else UpstreamResponse))"
proof -
  let ?es = "sse_events parse stream"
  obtain vs d where c: "push_chunks parse (map snd frames) sse_decoder_new = (vs, d)" by (rule prod.exhaust)
  have "parser_after (tg_api_format tg) [] (sse_parser_new (tg_api_format tg))"
    by (simp add: parser_after_def sse_parser_new_def last_terminal_status_def opt_last_Nil observation_new_def
        observation_of_def opt_first_def final_usage_def opt_or_def)
  then have "tap_after (tg_api_format tg) [] sse_decoder_new (tap_start tg)"
    using assms(3) by (simp add: tap_after_def tap_start_def stream_error_def) (simp add: sse_parser_new_def)
  from tap_frames [OF this c, of tg] obtain st' where
    read: "tap_read parse tg (map (\<lambda>(t, data). FrameData t data True) frames @ [BodyEnd]) (tap_start tg) = st'"
    and after: "tap_after (tg_api_format tg) vs d st'" by auto
  obtain p where p: "tp_sse st' = Some p" "parser_after (tg_api_format tg) vs p" "sp_decoder p = d"
    and st': "tp_disconnected_at st' = None" "tp_error_type st' = stream_error vs"
    using after by (auto simp: tap_after_def)
  obtain fs d' where f: "sse_finish parse d = (fs, d')" by (rule prod.exhaust)
  obtain out p' where o: "parser_finish parse p = (out, p')" by (rule prod.exhaust)
  then have "parser_observe fs (p\<lparr>sp_decoder := d'\<rparr>) = (out, p')" using f p(3) by (simp add: parser_finish_def)
  note run = parser_observe_run [OF _ this, of "tg_api_format tg" vs, unfolded parser_after_decoder, OF p(2)]
  have es: "?es = vs @ fs"
    using decoder_exact [OF assms(2) [unfolded stream_def], of parse] c f by (simp add: decode_chunks_def stream_def)
  have obs: "ob_usage (sp_observation p') = final_usage ?es" "sp_terminal_result p' = last_terminal_status ?es"
    "spo_saw_error_event out = list_ex event_failed fs"
    using run by (auto simp: es parser_after_def observation_of_def)
  have err: "tp_error_type (note_error_event out st') = stream_error ?es"
    using obs(3) st' by (auto simp: note_error_event_def stream_error_def es)
  have r: "r = settle_sse parse tg t (Some (tc_status tap)) p st'"
    using assms(4) read p(1) st' by (auto simp: run_tap_def tap_settle_def Let_def)
  have "tf_usage fin = tr_usage r"
    using assms(3, 4) by (auto simp: run_tap_def Let_def finalize_tap_def case_prod_unfold tap_usage_def)
  then show ?thesis
    by (cases "last_terminal_status ?es")
      (auto simp: r settle_sse_def o Let_def obs(1, 2) err tap_origin_def is_disconnected_def stream_error_def)
qed

theorem disconnect_is_neutral_witness:
  "prb_errors (gs_runtime (ats_gates (tf_gates (snd (run_tap (\<lambda>_. None) (wit_settings False) wit_tap
      [SenderClosed 5, ReadTimeout] 9 9 wit_reservation wit_attempt_state (affinity_new 1000 10)))))) =
    prb_errors (gs_runtime (ats_gates wit_attempt_state))"
proof -
  let ?tap = "run_tap (\<lambda>_. None) (wit_settings False) wit_tap [SenderClosed 5, ReadTimeout] 9 9 wit_reservation
      wit_attempt_state (affinity_new 1000 10)"
  have "tp_disconnected_at (tap_read (\<lambda>_. None) (wit_settings False) [SenderClosed 5, ReadTimeout]
      (tap_start (wit_settings False))) = Some 5"
    by (simp add: tap_start_def client_gone_def stream_terminal_def is_some_and_def wit_settings_def)
  from disconnect_is_neutral [OF this prod.collapse [symmetric, of ?tap]] show ?thesis by simp
qed

theorem stream_settled_by_events_witness:
  "tr_status (fst (run_tap (\<lambda>s. Some (JObject [(''type'', JString s)])) (wit_settings True) wit_tap
      [FrameData 5 (''data: response.failed'' @ [LF]) True, FrameData 6 [LF] True, BodyEnd]
      9 9 wit_reservation wit_attempt_state (affinity_new 1000 10))) = Some 502"
proof -
  let ?parse = "\<lambda>s. Some (JObject [(''type'', JString s)])"
  let ?frames = "[(5, ''data: response.failed'' @ [LF]), (6, [LF])] :: (int \<times> string) list"
  let ?tap = "run_tap ?parse (wit_settings True) wit_tap (map (\<lambda>(t, data). FrameData t data True) ?frames @ [BodyEnd])
      9 9 wit_reservation wit_attempt_state (affinity_new 1000 10)"
  have clean: "no_overrun_at_cr [] (sse_lines (concat (map snd ?frames)))"
    by (simp add: overruns_at_cr_def frame_size_def strip_cr_def MAX_EVENT_BYTES_def)
  have es: "sse_events ?parse (concat (map snd ?frames)) = [JObject [(''type'', JString ''response.failed'')]]"
    by (simp add: sse_events_def frame_event_def frame_data_def frame_kind_def frame_field_def frame_size_def
        strip_cr_def MAX_EVENT_BYTES_def strip_prefix_def starts_with_def strip_space_def with_type_def map_get_def)
  have st: "last_terminal_status [JObject [(''type'', JString ''response.failed'')]] =
      Some (502, Some ''response_failed'', Some ''response failed'')"
    by code_simp
  have "tg_is_sse (wit_settings True)" by (simp add: wit_settings_def)
  note settled = stream_settled_by_events [OF clean this prod.collapse [symmetric, of ?tap], unfolded es st]
  have "?tap = run_tap ?parse (wit_settings True) wit_tap
      [FrameData 5 (''data: response.failed'' @ [LF]) True, FrameData 6 [LF] True, BodyEnd]
      9 9 wit_reservation wit_attempt_state (affinity_new 1000 10)" by simp
  then show ?thesis using settled by simp
qed

section \<open>An error that is recorded twice\<close>

text \<open>
  A retryable response that is passed on because nothing is left to try is finished twice with the same
  reservation, by the loop and by the task that reads its body.  The guards are gone the second time, but
  the provider's list of recent errors gets the same failure again.
\<close>

lemma prb_errors_outcomes:
  "prb_errors (pguard_success b g status lat now) = prb_errors b"
  "prb_errors (snd (pguard_failure b g status et em now)) = prb_errors b"
  by (simp_all add: pguard_success_def pguard_failure_def pguard_drop_def prb_finish_success_def
      prb_finish_failure_def prb_put_def Let_def case_prod_unfold)

lemma prb_errors_steps:
  "prb_errors (opt_apply (\<lambda>g b. pguard_success b g status lat now) g b) = prb_errors b"
  "prb_errors (opt_apply (\<lambda>g b. snd (pguard_failure b g status et em now)) g b) = prb_errors b"
  "prb_errors (opt_apply (\<lambda>g b. pguard_neutral b g) g b) = prb_errors b"
  by (cases g; simp add: opt_apply_def prb_errors_outcomes prb_errors_kept)+

lemma opt_apply_Some: "opt_apply f (Some x) s = f x s"
  by (simp add: opt_apply_def)

definition errors_of :: "attempt_state \<Rightarrow> int \<Rightarrow> runtime_error list" where
  "errors_of st p = unwrap_or (prb_errors (gs_runtime (ats_gates st)) p) []"

lemma errors_of_finish:
  assumes "scope \<noteq> ScopeSuccess" and "rsv_error_book rv = Some (p, e, k)" and "length (errors_of st p) < 50"
  shows "length (errors_of (snd (finish_with_scope oc scope now rv st)) p) = length (errors_of st p) + 1"
proof -
  let ?st = "on_runtime (\<lambda>b. record_error b p e k (scope_name scope) (ao_status oc) now) st"
  have "length (errors_of ?st p) = length (errors_of st p) + 1"
    using assms(3) by (simp add: errors_of_def on_runtime_def record_error_def Let_def)
  moreover have "prb_errors (gs_runtime (ats_gates (snd (finish_with_scope oc scope now rv st)))) =
      prb_errors (gs_runtime (ats_gates ?st))"
    using assms(1, 2) by (cases scope) (simp_all add: book_writes opt_apply_Some prb_errors_steps)
  ultimately show ?thesis by (simp add: errors_of_def)
qed

theorem error_recorded_twice:
  assumes "rsv_error_book rv = Some (p, e, k)" and "scope \<noteq> ScopeSuccess"
    and "finish_with_scope oc scope now rv st = (rv', st')"
    and "\<not> is_disconnected r" and "classify_failure_scope_with_body parse (tr_status r) (tap_origin r) (tr_capture r) \<noteq> ScopeSuccess"
    and "length (errors_of st p) < 49"
  shows "length (errors_of (tf_gates (finalize_tap parse tg tap r now' elapsed rv' st' book)) p) = length (errors_of st p) + 2"
proof -
  let ?st = "snd (codex_hints parse tap r now' st')"
  have rv': "rv' = take_guards rv" and st': "st' = snd (finish_with_scope oc scope now rv st)"
    using assms(3) by (auto simp: finish_with_scope_def Let_def)
  have "length (errors_of st' p) = length (errors_of st p) + 1"
    using errors_of_finish [OF assms(2, 1)] assms(6) by (simp add: st')
  moreover have "errors_of ?st p = errors_of st' p" by (simp add: errors_of_def codex_hints_books)
  moreover have "rsv_error_book rv' = Some (p, e, k)" using assms(1) by (simp add: rv' take_guards_def)
  ultimately have "length (errors_of (snd (finish_with_scope oc2 (classify_failure_scope_with_body parse (tr_status r)
      (tap_origin r) (tr_capture r)) now' rv' ?st)) p) = length (errors_of st p) + 2" for oc2
    using errors_of_finish [OF assms(5), of rv' p e k ?st] assms(6) by simp
  moreover have "errors_of (drop_reservation (take_guards rv') now' s) p = errors_of s p" for s
    by (cases "rsv_capacity rv'")
      (simp_all add: errors_of_def drop_reservation_def take_guards_def opt_apply_def on_runtime_def prb_errors_kept)
  ultimately show ?thesis using assms(4)
    by (simp add: finalize_tap_def Let_def case_prod_unfold finish_take_guards)
qed

end
