(* ===== verification/Request_Overrides.thy ===== *)
theory Request_Overrides
  imports Types Headers
begin

text \<open>
  The request overrides of a provider (request_overrides.rs): rules that set or remove headers and
  body members of the requests it gets.  They are validated when they are configured and when they are
  read from the database, and applied to every attempt: first the rules for all formats, then those of
  the format.  \<open>HeaderName::from_bytes\<close>, \<open>HeaderValue::from_str\<close> and the length of encoded JSON are
  parameters.
\<close>

section \<open>Rules\<close>

datatype override_target = TargetModels | TargetChatCompletions | TargetResponses

datatype override_error =
    OvConfigTooLarge | OvTooManyHeaders | OvTooManyFields
  | OvInvalidHeader string | OvReservedHeader string | OvHeaderValueTooLong string
  | OvInvalidHeaderValue string | OvDuplicateHeader string
  | OvPathEmpty | OvPathTooLong | OvPathTooDeep | OvEmptySegment string
  | OvReservedField string | OvFieldValueTooLong string | OvDuplicatePath string
  | OvNotJson | OvNotObject

record override_codec =
  ov_header_name :: "string \<Rightarrow> string option"
  ov_header_value :: "string \<Rightarrow> bool"
  ov_config_len :: "request_overrides \<Rightarrow> nat"
  ov_value_len :: "json \<Rightarrow> nat"

definition MAX_HEADER_OVERRIDES :: nat where "MAX_HEADER_OVERRIDES = 64"
definition MAX_BODY_OVERRIDES :: nat where "MAX_BODY_OVERRIDES = 128"
definition MAX_CONFIG_BYTES :: nat where "MAX_CONFIG_BYTES = 256 * 1024"
definition MAX_HEADER_VALUE_BYTES :: nat where "MAX_HEADER_VALUE_BYTES = 8 * 1024"
definition MAX_BODY_PATH_BYTES :: nat where "MAX_BODY_PATH_BYTES = 512"
definition MAX_BODY_PATH_DEPTH :: nat where "MAX_BODY_PATH_DEPTH = 16"
definition MAX_BODY_VALUE_BYTES :: nat where "MAX_BODY_VALUE_BYTES = 64 * 1024"

definition REQUEST_ID_TEMPLATE :: string where
  "REQUEST_ID_TEMPLATE = ''{{request_id}}''"

fun scope_matches :: "override_scope \<Rightarrow> override_target \<Rightarrow> bool" where
  "scope_matches ScopeAll _ = True"
| "scope_matches ScopeChatCompletions t = (t = TargetChatCompletions)"
| "scope_matches ScopeResponses t = (t = TargetResponses)"

fun target_of_format :: "api_format \<Rightarrow> override_target" where
  "target_of_format ChatCompletions = TargetChatCompletions"
| "target_of_format Responses = TargetResponses"

fun target_specific_scope :: "override_target \<Rightarrow> override_scope option" where
  "target_specific_scope TargetModels = None"
| "target_specific_scope TargetChatCompletions = Some ScopeChatCompletions"
| "target_specific_scope TargetResponses = Some ScopeResponses"

section \<open>Validation\<close>

definition reserved_headers :: "string list" where
  "reserved_headers =
     [''authorization'', ''connection'', ''content-length'', ''host'', ''proxy-authenticate'',
      ''proxy-authorization'', ''te'', ''trailer'', ''transfer-encoding'', ''upgrade'',
      ''accept-encoding'', ''content-encoding'', ''expect'', ''keep-alive'', ''proxy-connection'', ''cookie'',
      ''set-cookie'', ''x-api-key'', ''api-key'', ''x-goog-api-key'', ''chatgpt-account-id'', ''forwarded'', ''via'',
      ''x-real-ip'', ''cf-connecting-ip'', ''cf-ray'', ''cdn-loop'', ''true-client-ip'', ''x-http-method-override'',
      ''x-http-method'', ''x-method-override'', ''x-original-host'', ''x-original-url'', ''x-original-uri'',
      ''x-rewrite-url'', ''x-envoy-original-path'']"

definition is_reserved_header :: "string \<Rightarrow> bool" where
  "is_reserved_header value \<longleftrightarrow>
     starts_with ''sec-websocket-'' value \<or> starts_with ''x-forwarded-'' value \<or>
     list_ex (eq_ignore_ascii_case value) reserved_headers"

definition is_reserved_body_root :: "string \<Rightarrow> bool" where
  "is_reserved_body_root value \<longleftrightarrow> list_ex (eq_ignore_ascii_case value) [''model'', ''stream'', ''type'']"

fun split_dot :: "string \<Rightarrow> string list" where
  "split_dot [] = [[]]"
| "split_dot (c # s) =
     (if c = CHR ''.'' then [] # split_dot s
      else (case split_dot s of [] \<Rightarrow> [[c]] | w # ws \<Rightarrow> (c # w) # ws))"

definition body_path_segments :: "string \<Rightarrow> override_error + string list" where
  "body_path_segments path =
     (let trimmed = trim path in
      if trimmed = [] then Inl OvPathEmpty
      else if MAX_BODY_PATH_BYTES < length trimmed then Inl OvPathTooLong
      else (let segments = map trim (split_dot trimmed) in
            if MAX_BODY_PATH_DEPTH < length segments then Inl OvPathTooDeep
            else if [] \<in> set segments then Inl (OvEmptySegment trimmed)
            else Inr segments))"

fun join_dot :: "string list \<Rightarrow> string" where
  "join_dot [] = []"
| "join_dot [s] = s"
| "join_dot (s # t # ss) = s @ CHR ''.'' # join_dot (t # ss)"

fun check_headers ::
  "override_codec \<Rightarrow> (override_scope \<times> string) set \<Rightarrow> header_override list \<Rightarrow> override_error option" where
  "check_headers codec seen [] = None"
| "check_headers codec seen (rule # rules) =
     (case ov_header_name codec (trim (ho_name rule)) of
        None \<Rightarrow> Some (OvInvalidHeader (trim (ho_name rule)))
      | Some name \<Rightarrow>
          if is_reserved_header name then Some (OvReservedHeader name)
          else if MAX_HEADER_VALUE_BYTES < length (ho_value rule) then Some (OvHeaderValueTooLong name)
          else if ho_operation rule = OpSet \<and> \<not> ov_header_value codec (ho_value rule)
          then Some (OvInvalidHeaderValue name)
          else (let key = (ho_scope rule, to_ascii_lowercase name) in
                if key \<in> seen then Some (OvDuplicateHeader name)
                else check_headers codec (insert key seen) rules))"

fun check_fields ::
  "override_codec \<Rightarrow> (override_scope \<times> string) set \<Rightarrow> body_override list \<Rightarrow> override_error option" where
  "check_fields codec seen [] = None"
| "check_fields codec seen (rule # rules) =
     (case body_path_segments (bo_path rule) of
        Inl e \<Rightarrow> Some e
      | Inr segments \<Rightarrow>
          (let first = (case segments of [] \<Rightarrow> [] | s # _ \<Rightarrow> s) in
           if is_reserved_body_root first then Some (OvReservedField first)
           else if bo_operation rule = OpSet \<and> MAX_BODY_VALUE_BYTES < ov_value_len codec (bo_value rule)
           then Some (OvFieldValueTooLong (trim (bo_path rule)))
           else (let key = (bo_scope rule, join_dot segments) in
                 if key \<in> seen then Some (OvDuplicatePath (join_dot segments))
                 else check_fields codec (insert key seen) rules)))"

text \<open>\<open>None\<close> is \<open>Ok(())\<close>.\<close>

definition validate_request_overrides :: "override_codec \<Rightarrow> request_overrides \<Rightarrow> override_error option" where
  "validate_request_overrides codec ov =
     (if MAX_CONFIG_BYTES < ov_config_len codec ov then Some OvConfigTooLarge
      else if MAX_HEADER_OVERRIDES < length (ro_headers ov) then Some OvTooManyHeaders
      else if MAX_BODY_OVERRIDES < length (ro_body ov) then Some OvTooManyFields
      else (case check_headers codec {} (ro_headers ov) of
              Some e \<Rightarrow> Some e
            | None \<Rightarrow> check_fields codec {} (ro_body ov)))"

text \<open>\<open>decode\<close> is the JSON decoder of the stored text; what cannot be read or is invalid has no rules.\<close>

definition from_storage ::
  "override_codec \<Rightarrow> (string \<Rightarrow> request_overrides option) \<Rightarrow> string \<Rightarrow> request_overrides" where
  "from_storage codec decode raw =
     unwrap_or (opt_filter (\<lambda>ov. validate_request_overrides codec ov = None) (decode raw))
       \<lparr>ro_headers = [], ro_body = []\<rparr>"

section \<open>Application to a body\<close>

function expand_template :: "string \<Rightarrow> string \<Rightarrow> string" where
  "expand_template request_id [] = []"
| "expand_template request_id (c # s) =
     (if starts_with REQUEST_ID_TEMPLATE (c # s)
      then request_id @ expand_template request_id (drop (length REQUEST_ID_TEMPLATE) (c # s))
      else c # expand_template request_id s)"
  by pat_completeness auto
termination
  by (relation "measure (\<lambda>(_, s). length s)") (auto simp: REQUEST_ID_TEMPLATE_def)

lemma json_member_size: "member \<in> set m \<Longrightarrow> size (snd member) < size (JObject m)"
  by (induction m) auto

lemma json_element_size: "v \<in> set vs \<Longrightarrow> size v < size (JArray vs)"
  by (induction vs) auto

function expand_value_templates :: "string \<Rightarrow> json \<Rightarrow> json" where
  "expand_value_templates request_id (JString s) = JString (expand_template request_id s)"
| "expand_value_templates request_id (JArray values) = JArray (map (expand_value_templates request_id) values)"
| "expand_value_templates request_id (JObject members) =
     JObject (map (\<lambda>member. (fst member, expand_value_templates request_id (snd member))) members)"
| "expand_value_templates request_id JNull = JNull"
| "expand_value_templates request_id (JBool b) = JBool b"
| "expand_value_templates request_id (JNumber n) = JNumber n"
  by pat_completeness auto
termination
  by (relation "measure (\<lambda>(_, v). size v)") (use json_member_size json_element_size in auto)

text \<open>A parent that is missing or no object becomes an empty object.\<close>

fun set_in_map :: "json_map \<Rightarrow> string list \<Rightarrow> json \<Rightarrow> json_map" where
  "set_in_map m [] replacement = m"
| "set_in_map m [key] replacement = map_insert key replacement m"
| "set_in_map m (segment # s # rest) replacement =
     map_insert segment
       (JObject (set_in_map (case map_get m segment of Some (JObject m') \<Rightarrow> m' | _ \<Rightarrow> []) (s # rest) replacement)) m"

definition set_body_path :: "json \<Rightarrow> string list \<Rightarrow> json \<Rightarrow> override_error + json" where
  "set_body_path value segments replacement =
     (if segments = [] then Inl OvPathEmpty
      else (case as_object value of
              None \<Rightarrow> Inl OvNotObject
            | Some m \<Rightarrow> Inr (JObject (set_in_map m segments replacement))))"

fun remove_in_map :: "json_map \<Rightarrow> string list \<Rightarrow> json_map" where
  "remove_in_map m [] = m"
| "remove_in_map m [key] = map_remove key m"
| "remove_in_map m (segment # s # rest) =
     (case map_get m segment of
        Some (JObject m') \<Rightarrow> map_insert segment (JObject (remove_in_map m' (s # rest))) m
      | _ \<Rightarrow> m)"

definition remove_body_path :: "json \<Rightarrow> string list \<Rightarrow> json" where
  "remove_body_path value segments =
     (case as_object value of None \<Rightarrow> value | Some m \<Rightarrow> JObject (remove_in_map m segments))"

definition apply_body_rule :: "string \<Rightarrow> body_override \<Rightarrow> json \<Rightarrow> override_error + json" where
  "apply_body_rule request_id rule value =
     (case body_path_segments (bo_path rule) of
        Inl e \<Rightarrow> Inl e
      | Inr segments \<Rightarrow>
          (case bo_operation rule of
             OpSet \<Rightarrow> set_body_path value segments (expand_value_templates request_id (bo_value rule))
           | OpRemove \<Rightarrow> Inr (remove_body_path value segments)))"

fun apply_body_rules :: "string \<Rightarrow> body_override list \<Rightarrow> json \<Rightarrow> override_error + json" where
  "apply_body_rules request_id [] value = Inr value"
| "apply_body_rules request_id (rule # rules) value =
     (case apply_body_rule request_id rule value of
        Inl e \<Rightarrow> Inl e
      | Inr value' \<Rightarrow> apply_body_rules request_id rules value')"

text \<open>The scopes in the order in which they are applied.\<close>

definition override_scopes :: "override_target \<Rightarrow> override_scope list" where
  "override_scopes target = somes [Some ScopeAll, target_specific_scope target]"

definition apply_body_overrides_to_value ::
  "request_overrides \<Rightarrow> override_target \<Rightarrow> string \<Rightarrow> json \<Rightarrow> override_error + json" where
  "apply_body_overrides_to_value ov target request_id value =
     apply_body_rules request_id
       (concat (map (\<lambda>scope. filter (\<lambda>rule. bo_scope rule = scope) (ro_body ov)) (override_scopes target))) value"

definition apply_body_overrides ::
  "(string \<Rightarrow> json option) \<Rightarrow> (json \<Rightarrow> string) \<Rightarrow> request_overrides \<Rightarrow> override_target \<Rightarrow> string \<Rightarrow> string
     \<Rightarrow> override_error + string" where
  "apply_body_overrides parse print ov target request_id body =
     (if \<not> list_ex (\<lambda>rule. scope_matches (bo_scope rule) target) (ro_body ov) then Inr body
      else (case parse body of
              None \<Rightarrow> Inl OvNotJson
            | Some value \<Rightarrow> map_sum id print (apply_body_overrides_to_value ov target request_id value)))"

section \<open>Application to headers\<close>

definition header_insert :: "string \<Rightarrow> string \<Rightarrow> headers \<Rightarrow> headers" where
  "header_insert name value h = filter (\<lambda>f. fst f \<noteq> name) h @ [(name, value)]"

definition header_remove :: "string \<Rightarrow> headers \<Rightarrow> headers" where
  "header_remove name h = filter (\<lambda>f. fst f \<noteq> name) h"

definition apply_header_rule ::
  "override_codec \<Rightarrow> string \<Rightarrow> header_override \<Rightarrow> headers \<Rightarrow> override_error + headers" where
  "apply_header_rule codec request_id rule h =
     (case ov_header_name codec (trim (ho_name rule)) of
        None \<Rightarrow> Inl (OvInvalidHeader (trim (ho_name rule)))
      | Some name \<Rightarrow>
          (case ho_operation rule of
             OpSet \<Rightarrow>
               (let expanded = expand_template request_id (ho_value rule) in
                if ov_header_value codec expanded then Inr (header_insert name expanded h)
                else Inl (OvInvalidHeaderValue name))
           | OpRemove \<Rightarrow> Inr (header_remove name h)))"

fun apply_header_rules ::
  "override_codec \<Rightarrow> string \<Rightarrow> header_override list \<Rightarrow> headers \<Rightarrow> override_error + headers" where
  "apply_header_rules codec request_id [] h = Inr h"
| "apply_header_rules codec request_id (rule # rules) h =
     (case apply_header_rule codec request_id rule h of
        Inl e \<Rightarrow> Inl e
      | Inr h' \<Rightarrow> apply_header_rules codec request_id rules h')"

definition apply_header_overrides ::
  "override_codec \<Rightarrow> request_overrides \<Rightarrow> override_target \<Rightarrow> string \<Rightarrow> headers \<Rightarrow> override_error + headers" where
  "apply_header_overrides codec ov target request_id h =
     apply_header_rules codec request_id
       (concat (map (\<lambda>scope. filter (\<lambda>rule. ho_scope rule = scope) (ro_headers ov)) (override_scopes target))) h"

section \<open>What valid rules leave alone\<close>

lemma map_get_set_in_map:
  "segments \<noteq> [] \<Longrightarrow> hd segments \<noteq> k \<Longrightarrow> map_get (set_in_map m segments r) k = map_get m k"
  by (induction m segments r rule: set_in_map.induct) (auto simp: map_get_insert)

lemma map_get_remove_in_map:
  "segments \<noteq> [] \<Longrightarrow> hd segments \<noteq> k \<Longrightarrow> map_get (remove_in_map m segments) k = map_get m k"
  by (induction m segments rule: remove_in_map.induct)
    (auto simp: map_get_insert map_get_remove split: option.splits json.splits)

text \<open>A body rule whose path starts at a member the gateway does not manage.\<close>

definition rule_unmanaged :: "body_override \<Rightarrow> bool" where
  "rule_unmanaged rule \<longleftrightarrow>
     (\<exists>s ss. body_path_segments (bo_path rule) = Inr (s # ss) \<and> \<not> is_reserved_body_root s)"

lemma split_dot_nonempty: "split_dot s \<noteq> []"
  by (induction s) (auto split: list.splits)

lemma body_path_segments_nonempty: "body_path_segments path = Inr segments \<Longrightarrow> segments \<noteq> []"
  using split_dot_nonempty by (auto simp: body_path_segments_def Let_def split: if_splits)

lemma check_fields_unmanaged: "check_fields codec seen rules = None \<Longrightarrow> rule \<in> set rules \<Longrightarrow> rule_unmanaged rule"
proof (induction codec seen rules rule: check_fields.induct)
  case (2 codec seen r rules)
  then obtain segments where s: "body_path_segments (bo_path r) = Inr segments" by (auto split: sum.splits)
  then obtain s ss where ss: "segments = s # ss" using body_path_segments_nonempty by (cases segments) auto
  have "rule_unmanaged r" using "2.prems"(1) s ss by (auto simp: rule_unmanaged_def Let_def split: if_splits)
  moreover have "rule_unmanaged rule" if "rule \<in> set rules"
    using "2.IH" [OF s refl] "2.prems"(1) s ss that by (auto simp: Let_def split: if_splits)
  ultimately show ?case using "2.prems"(2) by auto
qed simp

definition same_managed :: "json_map \<Rightarrow> json_map \<Rightarrow> bool" where
  "same_managed m m' \<longleftrightarrow> (\<forall>k. is_reserved_body_root k \<longrightarrow> map_get m' k = map_get m k)"

lemma apply_body_rule_managed:
  assumes "rule_unmanaged rule" and "apply_body_rule request_id rule (JObject m) = Inr v"
  shows "\<exists>m'. v = JObject m' \<and> same_managed m m'"
proof -
  obtain s ss where s: "body_path_segments (bo_path rule) = Inr (s # ss)" "\<not> is_reserved_body_root s"
    using assms(1) by (auto simp: rule_unmanaged_def)
  then have "same_managed m (set_in_map m (s # ss) r)" "same_managed m (remove_in_map m (s # ss))" for r
    using map_get_set_in_map [of "s # ss"] map_get_remove_in_map [of "s # ss"] unfolding same_managed_def
    by (metis list.distinct(1) list.sel(1))+
  then show ?thesis using assms(2) s(1)
    by (auto simp: apply_body_rule_def set_body_path_def remove_body_path_def split: override_operation.splits)
qed

lemma apply_body_rules_managed:
  "\<forall>rule \<in> set rules. rule_unmanaged rule \<Longrightarrow> apply_body_rules request_id rules (JObject m) = Inr v \<Longrightarrow>
   \<exists>m'. v = JObject m' \<and> same_managed m m'"
proof (induction rules arbitrary: m)
  case Nil
  then show ?case by (auto simp: same_managed_def)
next
  case (Cons rule rules)
  obtain v1 where v1: "apply_body_rule request_id rule (JObject m) = Inr v1"
    and rest: "apply_body_rules request_id rules v1 = Inr v"
    using Cons.prems(2) by (auto split: sum.splits)
  obtain m1 where m1: "v1 = JObject m1" "same_managed m m1"
    using apply_body_rule_managed [OF _ v1] Cons.prems(1) by auto
  from Cons.IH [OF _ rest [unfolded m1(1)]] Cons.prems(1) obtain m' where "v = JObject m'" "same_managed m1 m'" by auto
  then show ?case using m1(2) by (auto simp: same_managed_def)
qed

definition rule_headers_unmanaged :: "override_codec \<Rightarrow> header_override \<Rightarrow> bool" where
  "rule_headers_unmanaged codec rule \<longleftrightarrow>
     (\<exists>name. ov_header_name codec (trim (ho_name rule)) = Some name \<and> \<not> is_reserved_header name)"

lemma check_headers_unmanaged:
  "check_headers codec seen rules = None \<Longrightarrow> rule \<in> set rules \<Longrightarrow> rule_headers_unmanaged codec rule"
proof (induction codec seen rules rule: check_headers.induct)
  case (2 codec seen r rules)
  then obtain name where n: "ov_header_name codec (trim (ho_name r)) = Some name" by (auto split: option.splits)
  have "rule_headers_unmanaged codec r"
    using "2.prems"(1) n by (auto simp: rule_headers_unmanaged_def split: if_splits)
  moreover have "rule_headers_unmanaged codec rule" if "rule \<in> set rules"
    using "2.IH" [OF n] "2.prems"(1) n that by (auto simp: Let_def split: if_splits)
  ultimately show ?case using "2.prems"(2) by auto
qed simp

definition managed_headers :: "headers \<Rightarrow> headers" where
  "managed_headers h = filter (\<lambda>f. is_reserved_header (fst f)) h"

lemma managed_headers_update:
  "\<not> is_reserved_header name \<Longrightarrow> managed_headers (header_insert name value h) = managed_headers h"
  "\<not> is_reserved_header name \<Longrightarrow> managed_headers (header_remove name h) = managed_headers h"
  by (auto simp: managed_headers_def header_insert_def header_remove_def intro: filter_cong)

lemma apply_header_rules_managed:
  "\<forall>rule \<in> set rules. rule_headers_unmanaged codec rule \<Longrightarrow> apply_header_rules codec request_id rules h = Inr h' \<Longrightarrow>
   managed_headers h' = managed_headers h"
proof (induction rules arbitrary: h)
  case (Cons rule rules)
  obtain h1 where h1: "apply_header_rule codec request_id rule h = Inr h1"
    and rest: "apply_header_rules codec request_id rules h1 = Inr h'"
    using Cons.prems(2) by (auto split: sum.splits)
  have "managed_headers h1 = managed_headers h"
    using Cons.prems(1) h1
    by (auto simp: rule_headers_unmanaged_def apply_header_rule_def Let_def managed_headers_update
        split: override_operation.splits if_splits)
  then show ?case using Cons.IH [OF _ rest] Cons.prems(1) by simp
qed simp

text \<open>C25: overrides that passed validation never touch what the gateway manages: whatever the rules, the
  format and the request, the members model, stream and type of the body (in any case) and the reserved
  headers (authorization, cookies, forwarding and hop headers) are those of the request.\<close>

theorem overrides_keep_managed:
  assumes "validate_request_overrides codec ov = None"
  shows "(case apply_body_overrides_to_value ov target request_id (JObject m) of
            Inl _ \<Rightarrow> True
          | Inr v \<Rightarrow> \<exists>m'. v = JObject m' \<and> same_managed m m') \<and>
    (case apply_header_overrides codec ov target request_id h of
       Inl _ \<Rightarrow> True | Inr h' \<Rightarrow> managed_headers h' = managed_headers h)"
proof -
  have "check_headers codec {} (ro_headers ov) = None" "check_fields codec {} (ro_body ov) = None"
    using assms by (auto simp: validate_request_overrides_def split: if_splits option.splits)
  then have "\<forall>rule \<in> set (ro_headers ov). rule_headers_unmanaged codec rule" "\<forall>rule \<in> set (ro_body ov). rule_unmanaged rule"
    using check_headers_unmanaged check_fields_unmanaged by blast+
  then show ?thesis
    by (auto simp: apply_body_overrides_to_value_def apply_header_overrides_def split: sum.splits
        dest!: apply_body_rules_managed [rotated] apply_header_rules_managed [rotated])
qed

section \<open>What a rule sets\<close>

lemma json_pointer_map: "json_pointer (JObject m) (k # ks) = Option.bind (map_get m k) (\<lambda>v. json_pointer v ks)"
  by (cases "map_get m k") simp_all

text \<open>Two paths of which neither is a prefix of the other.\<close>

fun diverge :: "string list \<Rightarrow> string list \<Rightarrow> bool" where
  "diverge (a # as) (b # bs) \<longleftrightarrow> a \<noteq> b \<or> diverge as bs"
| "diverge _ _ \<longleftrightarrow> False"

lemma set_in_map_pointer:
  "segments \<noteq> [] \<Longrightarrow> json_pointer (JObject (set_in_map m segments r)) segments = Some r"
  by (induction m segments r rule: set_in_map.induct) (simp_all add: map_get_insert)

lemma map_get_Nil [simp]: "map_get [] k = None"
  by (simp add: map_get_def)

lemma json_pointer_empty: "json_pointer (JObject []) (k # ks) = None"
  by (simp add: map_get_def)

lemma json_pointer_no_object: "as_object v = None \<Longrightarrow> json_pointer v (k # ks) = None"
  by (cases v) simp_all

lemma set_in_map_other:
  "diverge segments q \<Longrightarrow> json_pointer (JObject (set_in_map m segments r)) q = json_pointer (JObject m) q"
proof (induction m segments r arbitrary: q rule: set_in_map.induct)
  case (3 m segment s rest r)
  then obtain b bs where q: "q = b # bs" by (cases q) auto
  define m' where "m' = (case map_get m segment of Some (JObject m') \<Rightarrow> m' | _ \<Rightarrow> [])"
  show ?case
  proof (cases "segment = b")
    case False
    then show ?thesis by (simp add: q map_get_insert)
  next
    case True
    then have d: "diverge (s # rest) bs" using "3.prems" q by simp
    then obtain c cs where bs: "bs = c # cs" by (cases bs) auto
    have "json_pointer (JObject m') bs = json_pointer v bs" if "map_get m b = Some v" for v
      using that True bs by (cases v) (simp_all add: m'_def json_pointer_empty json_pointer_no_object)
    moreover have "json_pointer (JObject m') bs = None" if "map_get m b = None"
      using that True bs by (simp add: m'_def json_pointer_empty)
    ultimately show ?thesis
      using "3.IH" [OF d] True
      by (simp add: q json_pointer_map map_get_insert m'_def [symmetric] del: json_pointer.simps)
        (cases "map_get m b"; simp add: m'_def)
  qed
qed (auto simp: map_get_insert elim: diverge.elims)

lemma remove_in_map_pointer: "segments \<noteq> [] \<Longrightarrow> json_pointer (JObject (remove_in_map m segments)) segments = None"
proof (induction m segments rule: remove_in_map.induct)
  case (3 m segment s rest)
  show ?case
  proof (cases "map_get m segment")
    case (Some v)
    then show ?thesis using "3.IH" by (cases v) (simp_all add: map_get_insert)
  qed simp
qed (simp_all add: map_get_remove)

lemma remove_in_map_other:
  "diverge segments q \<Longrightarrow> json_pointer (JObject (remove_in_map m segments)) q = json_pointer (JObject m) q"
proof (induction m segments arbitrary: q rule: remove_in_map.induct)
  case (3 m segment s rest)
  then obtain b bs where q: "q = b # bs" by (cases q) auto
  show ?case
  proof (cases "map_get m segment")
    case (Some v)
    show ?thesis
    proof (cases "segment = b")
      case True
      then have "diverge (s # rest) bs" using "3.prems" q by simp
      then show ?thesis using "3.IH" Some True by (cases v) (simp_all add: q map_get_insert)
    next
      case False
      then show ?thesis using Some by (cases v) (simp_all add: q map_get_insert)
    qed
  qed simp
qed (auto simp: map_get_remove elim: diverge.elims)

text \<open>A rule does what it says and nothing else: after it was applied the body has the expanded value at
  the rule's path, or nothing there if the rule removes it, and whatever lies on a path that neither
  contains that path nor lies below it is unchanged.\<close>

theorem body_rule_exact:
  assumes "apply_body_rule request_id rule (JObject m) = Inr v" and "body_path_segments (bo_path rule) = Inr path"
  shows "json_pointer v path =
      (if bo_operation rule = OpSet then Some (expand_value_templates request_id (bo_value rule)) else None) \<and>
    (\<forall>q. diverge path q \<longrightarrow> json_pointer v q = json_pointer (JObject m) q)"
proof -
  have ne: "path \<noteq> []" using body_path_segments_nonempty assms(2) .
  show ?thesis
  proof (cases "bo_operation rule")
    case OpSet
    then have "v = JObject (set_in_map m path (expand_value_templates request_id (bo_value rule)))"
      using assms ne by (simp add: apply_body_rule_def set_body_path_def)
    then show ?thesis using OpSet set_in_map_pointer [OF ne] set_in_map_other by simp
  next
    case OpRemove
    then have "v = JObject (remove_in_map m path)"
      using assms ne by (simp add: apply_body_rule_def remove_body_path_def)
    then show ?thesis using OpRemove remove_in_map_pointer [OF ne] remove_in_map_other by simp
  qed
qed

definition wit_overrides :: request_overrides where
  "wit_overrides =
     \<lparr>ro_headers = [\<lparr>ho_scope = ScopeAll, ho_operation = OpSet, ho_name = ''x-id'', ho_value = REQUEST_ID_TEMPLATE\<rparr>],
      ro_body = [\<lparr>bo_scope = ScopeResponses, bo_operation = OpSet, bo_path = ''meta.id'',
                  bo_value = JString REQUEST_ID_TEMPLATE\<rparr>]\<rparr>"

definition wit_codec :: override_codec where
  "wit_codec =
     \<lparr>ov_header_name = (\<lambda>s. Some (to_ascii_lowercase s)), ov_header_value = (\<lambda>_. True), ov_config_len = (\<lambda>_. 0),
      ov_value_len = (\<lambda>_. 0)\<rparr>"

theorem overrides_keep_managed_witness:
  "let h = [(''host'', ''gw''), (''x-id'', ''old'')]; h' = [(''host'', ''gw''), (''x-id'', ''r1'')]
   in apply_header_overrides wit_codec wit_overrides TargetResponses ''r1'' h = Inr h' \<and>
      managed_headers h' = managed_headers h"
proof -
  have "body_path_segments ''meta.id'' = Inr [''meta'', ''id'']"
    by (simp add: body_path_segments_def Let_def MAX_BODY_PATH_BYTES_def MAX_BODY_PATH_DEPTH_def trim_def
        trim_start_def trim_end_def ws1_def ws2_def ws3_def byte_def)
  moreover have "\<not> is_reserved_header ''x-id''" "\<not> is_reserved_body_root ''meta''" "trim ''x-id'' = ''x-id''"
    "to_ascii_lowercase ''x-id'' = ''x-id''"
    by code_simp+
  ultimately have "validate_request_overrides wit_codec wit_overrides = None"
    by (simp add: validate_request_overrides_def wit_overrides_def wit_codec_def MAX_CONFIG_BYTES_def
        MAX_HEADER_OVERRIDES_def MAX_BODY_OVERRIDES_def MAX_HEADER_VALUE_BYTES_def MAX_BODY_VALUE_BYTES_def
        REQUEST_ID_TEMPLATE_def Let_def)
  note kept = overrides_keep_managed [OF this, where target = TargetResponses and request_id = "''r1''" and m = "[]"
      and h = "[(''host'', ''gw''), (''x-id'', ''old'')]"]
  have "apply_header_overrides wit_codec wit_overrides TargetResponses ''r1'' [(''host'', ''gw''), (''x-id'', ''old'')] =
      Inr [(''host'', ''gw''), (''x-id'', ''r1'')]"
    by code_simp
  with kept show ?thesis by (simp add: Let_def)
qed

theorem body_rule_exact_witness:
  "let rule = \<lparr>bo_scope = ScopeAll, bo_operation = OpSet, bo_path = ''a.b'', bo_value = JNull\<rparr>;
       v = JObject [(''a'', JObject [(''b'', JNull)]), (''c'', JBool True)]
   in apply_body_rule ''r1'' rule (JObject [(''c'', JBool True)]) = Inr v \<and> json_pointer v [''a'', ''b''] = Some JNull"
proof -
  let ?rule = "\<lparr>bo_scope = ScopeAll, bo_operation = OpSet, bo_path = ''a.b'', bo_value = JNull\<rparr>"
  let ?v = "JObject [(''a'', JObject [(''b'', JNull)]), (''c'', JBool True)]"
  have p: "body_path_segments (bo_path ?rule) = Inr [''a'', ''b'']"
    by (simp add: body_path_segments_def Let_def MAX_BODY_PATH_BYTES_def MAX_BODY_PATH_DEPTH_def trim_def
        trim_start_def trim_end_def ws1_def ws2_def ws3_def byte_def)
  have a: "apply_body_rule ''r1'' ?rule (JObject [(''c'', JBool True)]) = Inr ?v"
    using p by (simp add: apply_body_rule_def set_body_path_def map_get_def)
  from body_rule_exact [OF a p] a show ?thesis by (simp add: Let_def)
qed

end
