(* ===== verification/Encrypted_Content.thy ===== *)
theory Encrypted_Content
  imports Response_Events
begin

text \<open>
  \<open>src/backend/src/encrypted_content.rs\<close>: recovery of Responses histories that the upstream
  rejects with \<open>invalid_encrypted_content\<close>.  The gateway remembers, per session, the SHA-256 of
  every ciphertext that was rejected, drops those items from later requests of the session, and
  sends a rejected request once more without any encrypted content.

  \<open>sha256\<close> stands for the digest of the \<open>sha2\<close> crate, \<open>parse\<close> for \<open>serde_json::from_slice\<close> and
  \<open>print\<close> for \<open>serde_json::to_vec\<close>.  A \<open>HashSet\<close> of digests is a list without duplicates and
  \<open>iter\<close> the order in which the set is iterated; the map of sessions is an association list in
  its iteration order, which only matters between sessions last seen in the same millisecond.
\<close>

section \<open>The book of rejected ciphertexts\<close>

definition MAX_DIGESTS_PER_SESSION :: nat where
  "MAX_DIGESTS_PER_SESSION = 512"

definition MAX_SESSIONS :: nat where
  "MAX_SESSIONS = 1024"

record recovery_session =
  rs_digests :: "string list"
  rs_last_seen_ms :: int

record recovery_book =
  rb_sessions :: "(string \<times> recovery_session) list"
  rb_ttl_ms :: int
  rb_max_sessions :: nat

definition recovery_book_new :: "nat \<Rightarrow> nat \<Rightarrow> recovery_book" where
  "recovery_book_new ttl_ms max_sessions =
     \<lparr>rb_sessions = [], rb_ttl_ms = min (int ttl_ms) i64_max,
      rb_max_sessions = max 1 (min max_sessions MAX_SESSIONS)\<rparr>"

definition book_lookup :: "string \<Rightarrow> int \<Rightarrow> recovery_book \<Rightarrow> string list \<times> recovery_book" where
  "book_lookup key now_ms b =
     (let sessions =
            (if is_some_and (map_of (rb_sessions b) key)
                  (\<lambda>e. rb_ttl_ms b \<le> i64_saturating_sub now_ms (rs_last_seen_ms e))
             then AList.delete key (rb_sessions b) else rb_sessions b)
      in case map_of sessions key of
           None \<Rightarrow> ([], b\<lparr>rb_sessions := sessions\<rparr>)
         | Some e \<Rightarrow>
             (rs_digests e, b\<lparr>rb_sessions := AList.update key (e\<lparr>rs_last_seen_ms := now_ms\<rparr>) sessions\<rparr>))"

definition push_digest :: "string \<Rightarrow> string list \<Rightarrow> string list" where
  "push_digest digest digests =
     (if digest \<in> set digests then digests
      else (if MAX_DIGESTS_PER_SESSION \<le> length digests then tl digests else digests) @ [digest])"

definition live_sessions :: "int \<Rightarrow> recovery_book \<Rightarrow> (string \<times> recovery_session) list" where
  "live_sessions now_ms b =
     filter (\<lambda>(_, e). i64_saturating_sub now_ms (rs_last_seen_ms e) < rb_ttl_ms b) (rb_sessions b)"

definition make_room :: "string \<Rightarrow> nat \<Rightarrow> (string \<times> recovery_session) list \<Rightarrow> (string \<times> recovery_session) list"
where
  "make_room key max_sessions sessions =
     (if map_of sessions key = None \<and> max_sessions \<le> length sessions
      then (case min_by_key (\<lambda>(_, e). rs_last_seen_ms e) sessions of
              None \<Rightarrow> sessions
            | Some (oldest, _) \<Rightarrow> AList.delete oldest sessions)
      else sessions)"

definition book_remember :: "string \<Rightarrow> string list \<Rightarrow> int \<Rightarrow> recovery_book \<Rightarrow> recovery_book" where
  "book_remember key digests now_ms b =
     (if digests = [] then b
      else
        (let sessions = make_room key (rb_max_sessions b) (live_sessions now_ms b);
             known = (case map_of sessions key of None \<Rightarrow> [] | Some e \<Rightarrow> rs_digests e)
         in b\<lparr>rb_sessions :=
                AList.update key \<lparr>rs_digests = fold push_digest digests known, rs_last_seen_ms = now_ms\<rparr>
                  sessions\<rparr>))"

section \<open>Cleaning a request body\<close>

definition supported_item :: "json \<Rightarrow> bool" where
  "supported_item item \<longleftrightarrow>
     get_str item ''type'' \<in> {Some ''reasoning'', Some ''compaction'', Some ''compaction_summary''}"

definition encrypted_digest :: "(string \<Rightarrow> string) \<Rightarrow> json \<Rightarrow> string option" where
  "encrypted_digest sha256 item =
     Option.bind (get_str item ''encrypted_content'')
       (\<lambda>encrypted. if encrypted = [] then None else Some (sha256 encrypted))"

definition input_items :: "json \<Rightarrow> json list" where
  "input_items value =
     (case json_get value ''input'' of
        Some (JArray items) \<Rightarrow> items
      | Some (JObject m) \<Rightarrow> [JObject m]
      | _ \<Rightarrow> [])"

definition is_affected :: "(string \<Rightarrow> string) \<Rightarrow> string list option \<Rightarrow> json \<Rightarrow> bool" where
  "is_affected sha256 invalid item \<longleftrightarrow>
     supported_item item \<and> json_get item ''encrypted_content'' \<noteq> None \<and>
     (case invalid of
        None \<Rightarrow> True
      | Some known \<Rightarrow> is_some_and (encrypted_digest sha256 item) (\<lambda>digest. digest \<in> set known))"

definition clean_item :: "(string \<Rightarrow> string) \<Rightarrow> string list option \<Rightarrow> json \<Rightarrow> json option" where
  "clean_item sha256 invalid item =
     (if \<not> is_affected sha256 invalid item then Some item
      else if get_str item ''type'' \<noteq> Some ''reasoning'' then None
      else
        (case as_object item of
           None \<Rightarrow> Some item
         | Some m0 \<Rightarrow>
             (let m1 = map_remove ''encrypted_content'' m0;
                  m = (if map_get m1 ''content'' = Some JNull then map_remove ''content'' m1 else m1)
              in if 1 < length m then Some (JObject m) else None)))"

definition sanitize_input :: "(string \<Rightarrow> string) \<Rightarrow> string list option \<Rightarrow> json \<Rightarrow> json option" where
  "sanitize_input sha256 invalid input =
     (case input of
        JArray items \<Rightarrow> Some (JArray (somes (map (clean_item sha256 invalid) items)))
      | JObject m \<Rightarrow> Some (unwrap_or (clean_item sha256 invalid (JObject m)) (JArray []))
      | _ \<Rightarrow> None)"

definition is_tool_output :: "json \<Rightarrow> bool" where
  "is_tool_output item \<longleftrightarrow> get_str item ''type'' = Some ''function_call_output''"

definition sanitize_value ::
  "(string \<Rightarrow> string) \<Rightarrow> string list option \<Rightarrow> bool \<Rightarrow> json \<Rightarrow> (json \<times> nat) option" where
  "sanitize_value sha256 invalid websocket value =
     (case as_object value of
        None \<Rightarrow> None
      | Some root0 \<Rightarrow>
          (case Option.bind (map_get root0 ''input'') (sanitize_input sha256 invalid) of
             None \<Rightarrow> None
           | Some input \<Rightarrow>
               (let hits = length (filter (is_affected sha256 invalid) (input_items value));
                    root = map_insert ''input'' input root0;
                    has_tool_output = list_ex is_tool_output (input_items (JObject root))
                in if hits = 0 then None
                   else Some (JObject (if websocket \<and> \<not> has_tool_output
                                       then map_remove ''previous_response_id'' root else root),
                              hits))))"

definition sanitize ::
  "(string \<Rightarrow> json option) \<Rightarrow> (json \<Rightarrow> string option) \<Rightarrow> (string \<Rightarrow> string) \<Rightarrow> string list option \<Rightarrow> bool \<Rightarrow> string
     \<Rightarrow> (string \<times> nat) option" where
  "sanitize parse print sha256 invalid websocket body =
     (case Option.bind (parse body) (sanitize_value sha256 invalid websocket) of
        None \<Rightarrow> None
      | Some (value, hits) \<Rightarrow> map_option (\<lambda>text. (text, hits)) (print value))"

section \<open>The recovery of one request\<close>

record request_recovery =
  rr_enabled :: bool
  rr_session_key :: "string option"
  rr_invalid :: "string list"
  rr_filtered_items :: nat
  rr_stripped_items :: nat
  rr_retries :: nat

definition request_recovery_new :: "bool \<Rightarrow> string option \<Rightarrow> request_recovery" where
  "request_recovery_new enabled session_key =
     \<lparr>rr_enabled = enabled, rr_session_key = session_key, rr_invalid = [], rr_filtered_items = 0,
      rr_stripped_items = 0, rr_retries = 0\<rparr>"

definition filter_known ::
  "(string \<Rightarrow> json option) \<Rightarrow> (json \<Rightarrow> string option) \<Rightarrow> (string \<Rightarrow> string) \<Rightarrow> int \<Rightarrow> string
     \<Rightarrow> request_recovery \<Rightarrow> recovery_book \<Rightarrow> string \<times> request_recovery \<times> recovery_book" where
  "filter_known parse print sha256 now_ms body r book =
     (if \<not> rr_enabled r then (body, r, book)
      else
        (let (known, book') =
               (case rr_session_key r of None \<Rightarrow> ([], book) | Some key \<Rightarrow> book_lookup key now_ms book);
             invalid = rr_invalid r @ known
         in if invalid = [] then (body, r, book')
            else (case sanitize parse print sha256 (Some invalid) False body of
                    None \<Rightarrow> (body, r, book')
                  | Some (cleaned, hits) \<Rightarrow>
                      (cleaned, r\<lparr>rr_filtered_items := rr_filtered_items r + hits\<rparr>, book'))))"

definition rejected_digests :: "(string \<Rightarrow> string) \<Rightarrow> json \<Rightarrow> string list" where
  "rejected_digests sha256 value =
     somes (map (encrypted_digest sha256) (filter supported_item (input_items value)))"

definition record_failure ::
  "(string \<Rightarrow> json option) \<Rightarrow> (string \<Rightarrow> string) \<Rightarrow> (string list \<Rightarrow> string list) \<Rightarrow> int \<Rightarrow> string
     \<Rightarrow> request_recovery \<Rightarrow> recovery_book \<Rightarrow> request_recovery \<times> recovery_book" where
  "record_failure parse sha256 iter now_ms body r book =
     (if \<not> rr_enabled r then (r, book)
      else
        (let r' = (case parse body of
                     None \<Rightarrow> r
                   | Some value \<Rightarrow>
                       r\<lparr>rr_invalid := fold List.insert (rejected_digests sha256 value) (rr_invalid r)\<rparr>)
         in (r', case rr_session_key r of
                   None \<Rightarrow> book
                 | Some key \<Rightarrow> book_remember key (iter (rr_invalid r')) now_ms book)))"

definition can_retry :: "request_recovery \<Rightarrow> bool" where
  "can_retry r \<longleftrightarrow> rr_enabled r \<and> rr_retries r = 0"

definition prepare_retry ::
  "(string \<Rightarrow> json option) \<Rightarrow> (json \<Rightarrow> string option) \<Rightarrow> (string \<Rightarrow> string) \<Rightarrow> string \<Rightarrow> bool
     \<Rightarrow> request_recovery \<Rightarrow> string option \<times> request_recovery" where
  "prepare_retry parse print sha256 body websocket r =
     (if \<not> can_retry r then (None, r)
      else (case sanitize parse print sha256 None websocket body of
              None \<Rightarrow> (None, r)
            | Some (body', hits) \<Rightarrow>
                (Some body', r\<lparr>rr_stripped_items := rr_stripped_items r + hits,
                               rr_retries := rr_retries r + 1\<rparr>)))"

section \<open>What sanitizing does to a body\<close>

lemma clean_item_cases:
  assumes "supported_item item"
  shows "case clean_item sha256 None item of
           None \<Rightarrow> True | Some kept \<Rightarrow> supported_item kept \<and> json_get kept ''encrypted_content'' = None"
  using assms by (cases item)
    (auto simp: clean_item_def is_affected_def supported_item_def map_get_remove Let_def split: option.splits)

lemma clean_item_unsupported [simp]: "\<not> supported_item item \<Longrightarrow> clean_item sha256 invalid item = Some item"
  by (simp add: clean_item_def is_affected_def)

lemma clean_item_supported:
  "clean_item sha256 invalid item = Some kept \<Longrightarrow> supported_item kept = supported_item item"
  by (cases item)
    (auto simp: clean_item_def is_affected_def supported_item_def map_get_remove Let_def split: if_splits)

lemma clean_item_known:
  "clean_item sha256 (Some known) item = Some kept \<Longrightarrow> supported_item kept \<Longrightarrow>
   encrypted_digest sha256 kept = Some d \<Longrightarrow> d \<notin> set known"
  by (cases item)
    (auto simp: clean_item_def is_affected_def map_get_remove Let_def encrypted_digest_def is_some_and_def
      bind_eq_Some_conv split: if_splits option.splits)

lemma clean_item_object: "clean_item sha256 invalid (JObject m) = Some kept \<Longrightarrow> \<exists>m'. kept = JObject m'"
  by (auto simp: clean_item_def Let_def split: if_splits)

lemma filter_somes_clean:
  "filter (\<lambda>item. \<not> supported_item item) (somes (map (clean_item sha256 invalid) items)) =
   filter (\<lambda>item. \<not> supported_item item) items"
proof (induction items)
  case (Cons item items)
  then show ?case
    by (cases "clean_item sha256 invalid item"; cases "supported_item item") (auto dest: clean_item_supported)
qed simp

lemma clean_unaffected: "filter (is_affected sha256 invalid) items = [] \<Longrightarrow> somes (map (clean_item sha256 invalid) items) = items"
  by (induction items) (auto simp: clean_item_def split: if_splits)

lemma tool_output_unsupported: "is_tool_output item \<Longrightarrow> \<not> supported_item item"
  by (auto simp: is_tool_output_def supported_item_def)

lemma tool_outputs_kept:
  "list_ex is_tool_output (somes (map (clean_item sha256 invalid) items)) = list_ex is_tool_output items"
proof -
  have "list_ex is_tool_output xs = list_ex is_tool_output (filter (\<lambda>item. \<not> supported_item item) xs)" for xs
    using tool_output_unsupported by (induction xs) auto
  then show ?thesis by (metis filter_somes_clean)
qed

lemma sanitize_input_items:
  assumes "sanitize_input sha256 invalid input = Some input'" "map_get root ''input'' = Some input"
  shows "input_items (JObject (map_insert ''input'' input' root)) =
           somes (map (clean_item sha256 invalid) (input_items (JObject root)))"
proof (cases input)
  case (JArray items)
  then show ?thesis using assms by (auto simp: sanitize_input_def input_items_def map_get_insert)
next
  case (JObject m)
  show ?thesis
  proof (cases "clean_item sha256 invalid (JObject m)")
    case None
    then show ?thesis using assms JObject
      by (auto simp: sanitize_input_def input_items_def map_get_insert unwrap_or_def)
  next
    case (Some kept)
    then show ?thesis using assms JObject clean_item_object [OF Some]
      by (auto simp: sanitize_input_def input_items_def map_get_insert unwrap_or_def)
  qed
qed (use assms in \<open>auto simp: sanitize_input_def\<close>)

lemma input_items_remove:
  "input_items (JObject (map_remove ''previous_response_id'' root)) = input_items (JObject root)"
  by (simp add: input_items_def map_get_remove)

lemma sanitize_value_exact:
  assumes "sanitize_value sha256 invalid websocket value = Some (value', hits)"
  shows "input_items value' = somes (map (clean_item sha256 invalid) (input_items value))"
    "hits = length (filter (is_affected sha256 invalid) (input_items value))" "0 < hits"
    "k \<noteq> ''input'' \<Longrightarrow> k \<noteq> ''previous_response_id'' \<Longrightarrow> json_get value' k = json_get value k"
    "json_get value' ''previous_response_id'' =
       (if websocket \<and> \<not> list_ex is_tool_output (input_items value) then None
        else json_get value ''previous_response_id'')"
proof -
  obtain root input input' where r: "value = JObject root" "map_get root ''input'' = Some input"
    "sanitize_input sha256 invalid input = Some input'"
    using assms by (cases "value") (auto simp: sanitize_value_def bind_eq_Some_conv split: option.splits)
  note items = sanitize_input_items [OF r(3) r(2)]
  have v: "hits = length (filter (is_affected sha256 invalid) (input_items value))" "0 < hits"
    "value' = JObject (if websocket \<and> \<not> list_ex is_tool_output (input_items value)
       then map_remove ''previous_response_id'' (map_insert ''input'' input' root)
       else map_insert ''input'' input' root)"
    using assms r items
    by (auto simp: sanitize_value_def Let_def tool_outputs_kept split: if_splits)
  show "input_items value' = somes (map (clean_item sha256 invalid) (input_items value))"
    using v(3) items r(1) by (simp add: input_items_remove)
  show "hits = length (filter (is_affected sha256 invalid) (input_items value))" "0 < hits" by (fact v)+
  show "k \<noteq> ''input'' \<Longrightarrow> k \<noteq> ''previous_response_id'' \<Longrightarrow> json_get value' k = json_get value k"
    using v(3) r(1) by (auto simp: map_get_insert map_get_remove)
  show "json_get value' ''previous_response_id'' =
       (if websocket \<and> \<not> list_ex is_tool_output (input_items value) then None
        else json_get value ''previous_response_id'')"
    using v(3) r(1) by (auto simp: map_get_insert map_get_remove)
qed

lemma sanitize_value_None:
  assumes "sanitize_value sha256 invalid websocket value = None"
  shows "filter (is_affected sha256 invalid) (input_items value) = []"
proof (cases "map_get (case value of JObject m \<Rightarrow> m | _ \<Rightarrow> []) ''input''")
  case None
  then show ?thesis by (cases "value") (auto simp: input_items_def map_get_def)
next
  case (Some input)
  then obtain root where v: "value = JObject root" "map_get root ''input'' = Some input"
    by (cases "value") (auto simp: map_get_def)
  show ?thesis
  proof (cases "sanitize_input sha256 invalid input")
    case None
    then show ?thesis using v by (cases input) (auto simp: sanitize_input_def input_items_def)
  next
    case (Some input')
    then show ?thesis using assms v by (auto simp: sanitize_value_def Let_def split: if_splits)
  qed
qed

section \<open>What the book keeps\<close>

definition known_digests :: "string \<Rightarrow> recovery_book \<Rightarrow> string list" where
  "known_digests key b = (case map_of (rb_sessions b) key of None \<Rightarrow> [] | Some e \<Rightarrow> rs_digests e)"

definition session_ok :: "recovery_session \<Rightarrow> bool" where
  "session_ok e \<longleftrightarrow> distinct (rs_digests e) \<and> length (rs_digests e) \<le> MAX_DIGESTS_PER_SESSION"

definition recovery_inv :: "recovery_book \<Rightarrow> bool" where
  "recovery_inv b \<longleftrightarrow>
     1 \<le> rb_max_sessions b \<and> rb_max_sessions b \<le> MAX_SESSIONS \<and> distinct (map fst (rb_sessions b)) \<and>
     length (rb_sessions b) \<le> rb_max_sessions b \<and> (\<forall>e \<in> snd ` set (rb_sessions b). session_ok e)"

lemma push_digest_ok:
  "distinct ds \<Longrightarrow> length ds \<le> MAX_DIGESTS_PER_SESSION \<Longrightarrow>
   distinct (push_digest d ds) \<and> length (push_digest d ds) \<le> MAX_DIGESTS_PER_SESSION"
  by (cases ds) (auto simp: push_digest_def MAX_DIGESTS_PER_SESSION_def)

lemma fold_push_ok:
  "distinct ds \<Longrightarrow> length ds \<le> MAX_DIGESTS_PER_SESSION \<Longrightarrow>
   distinct (fold push_digest new ds) \<and> length (fold push_digest new ds) \<le> MAX_DIGESTS_PER_SESSION"
  by (induction new arbitrary: ds) (auto simp: push_digest_ok)

lemma fold_push_keeps:
  "length new + length ds \<le> MAX_DIGESTS_PER_SESSION \<Longrightarrow> set (fold push_digest new ds) = set new \<union> set ds"
proof (induction new arbitrary: ds)
  case (Cons d new)
  have "length new + length (push_digest d ds) \<le> MAX_DIGESTS_PER_SESSION"
    "set (push_digest d ds) = insert d (set ds)"
    using Cons.prems by (auto simp: push_digest_def)
  then show ?case using Cons.IH [of "push_digest d ds"] by auto
qed simp

text \<open>
  The queue drops its oldest digest, and a digest that is rejected again keeps its old place: in a
  full session whose oldest digest is rejected again together with a new one, it is forgotten.
\<close>

lemma rejected_again_forgotten:
  assumes "length (x # xs) = MAX_DIGESTS_PER_SESSION" "distinct (x # xs)" "y \<notin> set (x # xs)"
  shows "x \<notin> set (fold push_digest [x, y] (x # xs))"
  using assms by (auto simp: push_digest_def)

lemma session_update_ok:
  assumes "\<forall>e \<in> snd ` set xs. session_ok e" "session_ok e"
  shows "\<forall>e \<in> snd ` set (AList.update key e xs). session_ok e"
  using assms by (induction xs) auto

lemma make_room_props:
  assumes "distinct (map fst xs)" "length xs \<le> n" "1 \<le> n"
  shows "distinct (map fst (make_room key n xs))" "set (make_room key n xs) \<subseteq> set xs"
    "length (AList.update key e (make_room key n xs)) \<le> n"
proof -
  show "distinct (map fst (make_room key n xs))"
    using assms by (auto simp: make_room_def distinct_delete split: option.splits)
  show "set (make_room key n xs) \<subseteq> set xs"
    by (auto simp: make_room_def AList.delete_eq split: option.splits)
  show "length (AList.update key e (make_room key n xs)) \<le> n"
  proof (cases "map_of xs key = None \<and> n \<le> length xs")
    case False
    then show ?thesis using assms
      by (auto simp: make_room_def length_alist_update map_of_eq_None_iff)
  next
    case True
    then have "xs \<noteq> []" using assms(3) by auto
    then obtain k e where m: "min_by_key (\<lambda>(_, e). rs_last_seen_ms e) xs = Some (k, e)"
      by (cases "min_by_key (\<lambda>(_, e). rs_last_seen_ms e) xs") auto
    then have "(k, e) \<in> set xs" by (rule min_by_key_mem)
    then have "k \<in> fst ` set xs" by force
    then show ?thesis using True m assms \<open>xs \<noteq> []\<close>
      by (auto simp: make_room_def length_alist_update length_alist_delete)
  qed
qed

lemma book_lookup_inv: "recovery_inv b \<Longrightarrow> recovery_inv (snd (book_lookup key now b))"
proof -
  assume inv: "recovery_inv b"
  define xs where "xs = (if is_some_and (map_of (rb_sessions b) key)
      (\<lambda>e. rb_ttl_ms b \<le> i64_saturating_sub now (rs_last_seen_ms e))
    then AList.delete key (rb_sessions b) else rb_sessions b)"
  have sub: "set xs \<subseteq> set (rb_sessions b)" by (auto simp: xs_def AList.delete_eq)
  have xs: "distinct (map fst xs)" "length xs \<le> rb_max_sessions b" "\<forall>e \<in> snd ` set xs. session_ok e"
    using inv sub length_delete_le [of key "rb_sessions b"]
    by (auto simp: recovery_inv_def xs_def distinct_delete)
  show ?thesis
  proof (cases "map_of xs key")
    case None
    then show ?thesis using inv xs by (simp add: book_lookup_def xs_def [symmetric] recovery_inv_def)
  next
    case (Some e)
    let ?e = "e\<lparr>rs_last_seen_ms := now\<rparr>"
    have key: "(key, e) \<in> set xs" using Some by (rule map_of_SomeD)
    then have "session_ok ?e" using xs(3) by (force simp: session_ok_def)
    note ok = session_update_ok [OF xs(3) this, of key]
    have len: "length (AList.update key ?e xs) = length xs"
      using key by (force simp: length_alist_update)
    have "snd (book_lookup key now b) = b\<lparr>rb_sessions := AList.update key ?e xs\<rparr>"
      using Some by (simp add: book_lookup_def Let_def xs_def [symmetric])
    then show ?thesis using inv xs len ok by (simp add: recovery_inv_def distinct_update)
  qed
qed

lemma book_remember_inv: "recovery_inv b \<Longrightarrow> recovery_inv (book_remember key ds now b)"
proof -
  assume inv: "recovery_inv b"
  let ?live = "live_sessions now b"
  let ?room = "make_room key (rb_max_sessions b) ?live"
  have live: "distinct (map fst ?live)" "length ?live \<le> rb_max_sessions b" "1 \<le> rb_max_sessions b"
    "set ?live \<subseteq> set (rb_sessions b)"
    using inv by (auto simp: recovery_inv_def live_sessions_def distinct_filter_keys
        intro: order_trans [OF length_filter_le])
  note room = make_room_props [OF live(1-3), of key]
  have ok: "\<forall>e \<in> snd ` set ?room. session_ok e"
    using inv live(4) room(2) by (auto simp: recovery_inv_def)
  let ?known = "case map_of ?room key of None \<Rightarrow> [] | Some e \<Rightarrow> rs_digests e"
  have "distinct ?known \<and> length ?known \<le> MAX_DIGESTS_PER_SESSION"
    using ok by (auto simp: session_ok_def split: option.splits dest!: map_of_SomeD)
  then have "session_ok \<lparr>rs_digests = fold push_digest ds ?known, rs_last_seen_ms = now\<rparr>"
    using fold_push_ok [of ?known ds] by (simp add: session_ok_def)
  then show ?thesis
    using inv ok room(1,3) session_update_ok [OF ok]
    by (simp add: book_remember_def Let_def recovery_inv_def distinct_update)
qed

datatype book_op = LookUp string int | Remember string "string list" int

fun book_step :: "book_op \<Rightarrow> recovery_book \<Rightarrow> recovery_book" where
  "book_step (LookUp key now) b = snd (book_lookup key now b)"
| "book_step (Remember key ds now) b = book_remember key ds now b"

lemma book_run_inv: "recovery_inv b \<Longrightarrow> recovery_inv (fold book_step ops b)"
proof (induction ops arbitrary: b)
  case (Cons op ops)
  then show ?case by (cases op) (auto simp: book_lookup_inv book_remember_inv)
qed simp

lemma recovery_book_new_inv: "recovery_inv (recovery_book_new ttl n)"
  by (auto simp: recovery_inv_def recovery_book_new_def MAX_SESSIONS_def)

text \<open>
  The memory of rejected ciphertexts stays bounded.  Whatever requests look up and remember,
  in any order and at any times, the book holds between 1 and 1024 sessions' room, never more
  sessions than its configured maximum, each session once, and at most 512 different digests per
  session.
\<close>

theorem recovery_book_bounded: "recovery_inv (fold book_step ops (recovery_book_new ttl_ms max_sessions))"
  by (rule book_run_inv [OF recovery_book_new_inv])

lemma known_after_remember:
  assumes "ds \<noteq> []" "length ds + length (known_digests key b) \<le> MAX_DIGESTS_PER_SESSION"
    and "distinct (map fst (rb_sessions b))"
  shows "\<exists>e. map_of (rb_sessions (book_remember key ds now b)) key = Some e \<and> rs_last_seen_ms e = now"
    "set ds \<subseteq> set (known_digests key (book_remember key ds now b))"
proof -
  let ?room = "make_room key (rb_max_sessions b) (live_sessions now b)"
  let ?known = "case map_of ?room key of None \<Rightarrow> [] | Some e \<Rightarrow> rs_digests e"
  have sub: "set ?room \<subseteq> set (rb_sessions b)"
    by (auto simp: make_room_def AList.delete_eq live_sessions_def split: option.splits)
  have "map_of (rb_sessions b) key = Some e" if "map_of ?room key = Some e" for e
    using sub map_of_SomeD [OF that] assms(3) by auto
  then have "length ?known \<le> length (known_digests key b)"
    by (auto simp: known_digests_def split: option.splits)
  then have "set (fold push_digest ds ?known) = set ds \<union> set ?known"
    using assms(2) by (intro fold_push_keeps) simp
  then show "set ds \<subseteq> set (known_digests key (book_remember key ds now b))"
    using assms(1) by (simp add: book_remember_def Let_def known_digests_def update_conv')
  show "\<exists>e. map_of (rb_sessions (book_remember key ds now b)) key = Some e \<and> rs_last_seen_ms e = now"
    using assms(1) by (simp add: book_remember_def Let_def update_conv')
qed

lemma lookup_fresh:
  assumes "map_of (rb_sessions b) key = Some e" "i64_saturating_sub now (rs_last_seen_ms e) < rb_ttl_ms b"
  shows "fst (book_lookup key now b) = rs_digests e"
  using assms by (simp add: book_lookup_def is_some_and_def)

lemma fold_insert_set: "set (fold List.insert ds xs) = set ds \<union> set xs"
  by (induction ds arbitrary: xs) auto

text \<open>What filtering with a list of known digests leaves in a body.\<close>

lemma filter_known_exact:
  assumes "rr_enabled r" "rr_session_key r = Some key" "parse body = Some v" "\<And>v. print v \<noteq> None"
    and "filter_known parse print sha256 now body r book = (body', r', book')"
  shows "\<exists>v'. (body' = body \<and> v' = v \<or> print v' = Some body') \<and>
    input_items v' = somes (map (clean_item sha256 (Some (rr_invalid r @ fst (book_lookup key now book)))) (input_items v))"
proof -
  let ?invalid = "rr_invalid r @ fst (book_lookup key now book)"
  show ?thesis
  proof (cases "sanitize_value sha256 (Some ?invalid) False v")
    case None
    then have "body' = body"
      using assms by (auto simp: filter_known_def Let_def sanitize_def split: prod.splits if_splits)
    with clean_unaffected [OF sanitize_value_None [OF None]] show ?thesis by auto
  next
    case (Some out)
    obtain v' hits where out: "out = (v', hits)" by (cases out)
    note exact = sanitize_value_exact [OF Some [unfolded out]]
    have "?invalid \<noteq> []"
      using exact(2,3) by (auto simp: is_affected_def is_some_and_def split: option.splits)
    moreover obtain t where "print v' = Some t" using assms(4) [of v'] by auto
    ultimately have "print v' = Some body'"
      using assms(1,2,3,5) Some out by (auto simp: filter_known_def Let_def sanitize_def split: prod.splits if_splits)
    with exact(1) show ?thesis by blast
  qed
qed



section \<open>Concrete runs\<close>

definition wit_item :: "string \<Rightarrow> json" where
  "wit_item cipher = JObject [(''encrypted_content'', JString cipher), (''id'', JString ''rs_1''), (''type'', JString ''reasoning'')]"

definition wit_history :: json where
  "wit_history = JObject [(''input'', JArray [JObject [(''content'', JString ''hi''), (''role'', JString ''user'')], wit_item ''old'']),
     (''previous_response_id'', JString ''resp_1'')]"

definition wit_rejected :: json where
  "wit_rejected = JObject [(''input'', JArray [wit_item ''old''])]"

definition wit_parse :: "string \<Rightarrow> json option" where
  "wit_parse body = (if body = ''A'' then Some wit_rejected else if body = ''B'' then Some wit_history else None)"

definition wit_print :: "json \<Rightarrow> string option" where
  "wit_print v = Some (if v = wit_history then ''B'' else ''C'')"



end
