(* ===== verification/Chat_Tools.thy ===== *)
theory Chat_Tools
  imports Utf8 Response_Events
begin

text \<open>
  \<open>src/backend/src/responses_via_chat.rs\<close>, the tools: a Responses request that is sent to a
  provider of Chat Completions has its tools (functions, custom tools, namespaces of functions)
  rewritten as functions whose names Chat Completions accepts, and the context of the conversion
  remembers which tool each name stands for.  \<open>usize\<close> values are naturals with the saturating
  operations the source uses; a Rust string is its UTF-8 bytes.
\<close>

section \<open>The context of a conversion\<close>

definition MAX_TOOL_NAME_LEN :: nat where
  "MAX_TOOL_NAME_LEN = 64"

datatype tool_kind = ToolFunction string | ToolCustom string | ToolNamespace string string

record conversion_context =
  cc_tool_by_chat_name :: "string \<rightharpoonup> tool_kind"
  cc_chat_name_by_response_name :: "string \<rightharpoonup> string"
  cc_warnings :: "string list"

definition context_default :: conversion_context where
  "context_default =
     \<lparr>cc_tool_by_chat_name = Map.empty, cc_chat_name_by_response_name = Map.empty, cc_warnings = []\<rparr>"

definition push_warning :: "string \<Rightarrow> string list \<Rightarrow> string list" where
  "push_warning code warnings = (if list_ex (\<lambda>w. w = code) warnings then warnings else warnings @ [code])"

definition warn :: "string \<Rightarrow> conversion_context \<Rightarrow> conversion_context" where
  "warn code c = c\<lparr>cc_warnings := push_warning code (cc_warnings c)\<rparr>"

definition response_tool_name :: "conversion_context \<Rightarrow> string \<Rightarrow> string" where
  "response_tool_name c name = unwrap_or (cc_chat_name_by_response_name c name) name"

definition register_tool :: "string \<Rightarrow> tool_kind \<Rightarrow> string \<Rightarrow> conversion_context \<Rightarrow> conversion_context" where
  "register_tool chat_name kind response_name c =
     c\<lparr>cc_tool_by_chat_name := (cc_tool_by_chat_name c)(chat_name \<mapsto> kind),
       cc_chat_name_by_response_name := (cc_chat_name_by_response_name c)(response_name \<mapsto> chat_name)\<rparr>"

section \<open>Names\<close>

definition is_tool_char :: "char \<Rightarrow> bool" where
  "is_tool_char c \<longleftrightarrow>
     is_ascii_digit c \<or> (65 \<le> byte c \<and> byte c \<le> 90) \<or> (97 \<le> byte c \<and> byte c \<le> 122) \<or>
     c = CHR ''_'' \<or> c = CHR ''-''"

text \<open>A character beyond ASCII becomes one underscore: its continuation bytes are dropped.\<close>

definition sanitize_name :: "string \<Rightarrow> string" where
  "sanitize_name name =
     map (\<lambda>c. if is_tool_char c then c else CHR ''_'') (filter (\<lambda>c. \<not> is_cont c) name)"

definition normalize_tool_name :: "string \<Rightarrow> string" where
  "normalize_tool_name name = take MAX_TOOL_NAME_LEN (sanitize_name name)"

definition numbered_name :: "string \<Rightarrow> nat \<Rightarrow> nat \<Rightarrow> string" where
  "numbered_name sanitized index suffix =
     (let tail = ''_'' @ show_nat index @ ''_'' @ show_nat suffix
      in take (MAX_TOOL_NAME_LEN - length tail) sanitized @ tail)"

definition unique_tool_name :: "string \<Rightarrow> nat \<Rightarrow> string set \<Rightarrow> string" where
  "unique_tool_name base index used =
     (let sanitized = normalize_tool_name base;
          fallback = ''lg_tool_'' @ show_nat index;
          candidate = (if sanitized = [] then fallback else sanitized)
      in if candidate \<notin> used then candidate
         else (case find (\<lambda>suffix. numbered_name sanitized index suffix \<notin> used) [1..<10001] of
                 Some suffix \<Rightarrow> numbered_name sanitized index suffix
               | None \<Rightarrow> fallback))"

definition unique_generated_tool_name :: "string \<Rightarrow> nat \<Rightarrow> string set \<Rightarrow> string set \<Rightarrow> string" where
  "unique_generated_tool_name base index used reserved = unique_tool_name base index (used \<union> reserved)"

section \<open>The tools of a request\<close>

definition chat_function :: "json \<Rightarrow> string \<Rightarrow> json option \<Rightarrow> json" where
  "chat_function tool name forced_parameters =
     (let f1 = map_insert ''name'' (JString name) [];
          f2 = (case json_get tool ''description'' of None \<Rightarrow> f1 | Some d \<Rightarrow> map_insert ''description'' d f1);
          f3 = map_insert ''parameters''
                 (unwrap_or (opt_or forced_parameters (json_get tool ''parameters''))
                    (json_obj [(''type'', JString ''object''), (''properties'', JObject [])])) f2;
          f4 = (case json_get tool ''strict'' of None \<Rightarrow> f3 | Some s \<Rightarrow> map_insert ''strict'' s f3)
      in json_obj [(''type'', JString ''function''), (''function'', JObject f4)])"

record tool_state =
  ts_context :: conversion_context
  ts_used :: "string set"
  ts_converted :: "json list"

definition add_tool :: "string \<Rightarrow> tool_kind \<Rightarrow> string \<Rightarrow> json \<Rightarrow> json option \<Rightarrow> tool_state \<Rightarrow> tool_state" where
  "add_tool chat_name kind response_name tool forced st =
     \<lparr>ts_context = register_tool chat_name kind response_name (ts_context st),
      ts_used = insert chat_name (ts_used st),
      ts_converted = ts_converted st @ [chat_function tool chat_name forced]\<rparr>"

definition custom_parameters :: json where
  "custom_parameters =
     json_obj [(''type'', JString ''object''),
               (''properties'', json_obj [(''input'', json_obj [(''type'', JString ''string'')])]),
               (''required'', JArray [JString ''input'']), (''additionalProperties'', JBool False)]"

definition tool_warning :: "string \<Rightarrow> tool_state \<Rightarrow> tool_state" where
  "tool_warning code st = st\<lparr>ts_context := warn code (ts_context st)\<rparr>"

definition nested_index :: "nat \<Rightarrow> nat \<Rightarrow> nat" where
  "nested_index namespace_index tool_index =
     u64_saturating_add (min (namespace_index * 1000) u64_max) tool_index"

definition namespace_tool :: "string \<Rightarrow> nat \<Rightarrow> string set \<Rightarrow> nat \<times> json \<Rightarrow> tool_state \<Rightarrow> tool_state" where
  "namespace_tool namespace namespace_index reserved it st =
     (case it of (tool_index, nested) \<Rightarrow>
        (let name = unwrap_or (get_str nested ''name'') ''tool'';
             chat_name = unique_generated_tool_name (''lg_ns_'' @ namespace @ ''_'' @ name)
               (nested_index namespace_index tool_index) (ts_used st) reserved
         in add_tool chat_name (ToolNamespace namespace name) (namespace @ ''.'' @ name) nested None st))"

definition convert_namespace :: "json \<Rightarrow> nat \<Rightarrow> string set \<Rightarrow> tool_state \<Rightarrow> tool_state" where
  "convert_namespace tool namespace_index reserved st =
     (let namespace = unwrap_or (get_str tool ''name'') ''namespace'' in
      case Option.bind (json_get tool ''tools'') as_array of
        None \<Rightarrow> tool_warning ''dropped_empty_namespace'' st
      | Some tools \<Rightarrow> fold (namespace_tool namespace namespace_index reserved) (List.enumerate 0 tools) st)"

definition hosted_tools :: "string list" where
  "hosted_tools =
     [''web_search'', ''web_search_preview'', ''file_search'', ''computer'', ''computer_use_preview'',
      ''code_interpreter'', ''image_generation'', ''mcp'', ''shell'', ''local_shell'']"

definition convert_tool :: "string set \<Rightarrow> nat \<times> json \<Rightarrow> tool_state \<Rightarrow> tool_state" where
  "convert_tool reserved it st =
     (case it of (index, tool) \<Rightarrow>
        (let kind = unwrap_or (get_str tool ''type'') [] in
         if kind = ''function'' then
           (let name = unwrap_or (get_str tool ''name'') ''unknown_tool'';
                chat_name = unique_tool_name name index (ts_used st)
            in add_tool chat_name (ToolFunction name) name tool None st)
         else if kind = ''custom'' then
           (let name = unwrap_or (get_str tool ''name'') ''custom_tool'';
                chat_name = unique_generated_tool_name (''lg_custom_'' @ name) index (ts_used st) reserved
            in add_tool chat_name (ToolCustom name) name tool (Some custom_parameters) st)
         else if kind = ''namespace'' then convert_namespace tool index reserved st
         else if kind \<in> set hosted_tools then tool_warning ''dropped_hosted_tool'' st
         else tool_warning ''dropped_unknown_tool'' st))"

definition array_member :: "json_map \<Rightarrow> string \<Rightarrow> json list" where
  "array_member object key = unwrap_or (Option.bind (map_get object key) as_array) []"

definition tool_definitions :: "json_map \<Rightarrow> json list" where
  "tool_definitions object = array_member object ''tools'' @ array_member object ''additional_tools''"

definition reserved_function_names :: "json list \<Rightarrow> string set" where
  "reserved_function_names tools =
     set (map normalize_tool_name
            (somes (map (\<lambda>tool. get_str tool ''name'')
                      (filter (\<lambda>tool. get_str tool ''type'' = Some ''function'') tools))))"

definition tool_state_new :: "conversion_context \<Rightarrow> tool_state" where
  "tool_state_new c = \<lparr>ts_context = c, ts_used = {}, ts_converted = []\<rparr>"

definition convert_tools :: "json_map \<Rightarrow> conversion_context \<Rightarrow> json list \<times> conversion_context" where
  "convert_tools object c =
     (let tools = tool_definitions object;
          st = fold (convert_tool (reserved_function_names tools)) (List.enumerate 0 tools) (tool_state_new c)
      in (ts_converted st, ts_context st))"

section \<open>Names are acceptable and pairwise different\<close>

definition valid_tool_name :: "string \<Rightarrow> bool" where
  "valid_tool_name name \<longleftrightarrow> name \<noteq> [] \<and> length name \<le> MAX_TOOL_NAME_LEN \<and> (\<forall>c \<in> set name. is_tool_char c)"

lemma length_show_nat: "n < 10 ^ k \<Longrightarrow> 0 < k \<Longrightarrow> length (show_nat n) \<le> k"
proof (induction n arbitrary: k rule: show_nat.induct)
  case (1 n)
  show ?case
  proof (cases "n < 10")
    case True
    then show ?thesis using 1(3) by (simp add: show_nat.simps [of n])
  next
    case False
    obtain j where j: "k = Suc j" using 1(3) by (cases k) auto
    with False 1(2) have "0 < j" by (cases j) auto
    with j have k: "k = Suc j" "0 < j" by auto
    then have "n div 10 < 10 ^ j" using 1(2) by (simp add: less_mult_imp_div_less mult.commute)
    then have "length (show_nat (n div 10)) \<le> j" using 1(1) [OF False] k(2) by simp
    then show ?thesis using False k(1) by (simp add: show_nat.simps [of n])
  qed
qed

lemma sanitize_name_chars: "c \<in> set (sanitize_name name) \<Longrightarrow> is_tool_char c"
  by (auto simp: sanitize_name_def is_tool_char_def split: if_splits)

lemma normalize_tool_name_valid: "normalize_tool_name name \<noteq> [] \<Longrightarrow> valid_tool_name (normalize_tool_name name)"
  by (auto simp: valid_tool_name_def normalize_tool_name_def dest: in_set_takeD intro: sanitize_name_chars)

lemma show_nat_tool_char: "c \<in> set (show_nat n) \<Longrightarrow> is_tool_char c"
  using show_nat_digits by (simp add: is_tool_char_def)

lemma fallback_valid: "index < 10 ^ 20 \<Longrightarrow> valid_tool_name (''lg_tool_'' @ show_nat index)"
  using length_show_nat [of index 20]
  by (auto simp: valid_tool_name_def MAX_TOOL_NAME_LEN_def show_nat_tool_char)
     (auto simp: is_tool_char_def byte_def)

lemma valid_tool_name_append:
  assumes "t \<noteq> []" "length t \<le> MAX_TOOL_NAME_LEN" "\<forall>c \<in> set t. is_tool_char c" "\<forall>c \<in> set s. is_tool_char c"
  shows "valid_tool_name (take (MAX_TOOL_NAME_LEN - length t) s @ t)"
  using assms by (auto simp: valid_tool_name_def dest: in_set_takeD)

lemma numbered_name_valid:
  assumes "index < 10 ^ 20" "suffix < 10 ^ 5"
  shows "valid_tool_name (numbered_name (normalize_tool_name base) index suffix)"
  unfolding numbered_name_def Let_def
proof (rule valid_tool_name_append)
  let ?tail = "''_'' @ show_nat index @ ''_'' @ show_nat suffix"
  have "is_tool_char CHR ''_''" by (simp add: is_tool_char_def)
  then show "\<forall>c \<in> set ?tail. is_tool_char c" by (auto intro: show_nat_tool_char)
  show "\<forall>c \<in> set (normalize_tool_name base). is_tool_char c"
    by (auto simp: normalize_tool_name_def dest!: in_set_takeD intro: sanitize_name_chars)
  show "length ?tail \<le> MAX_TOOL_NAME_LEN"
  proof -
    have "length (show_nat index) \<le> 20" "length (show_nat suffix) \<le> 5"
      using length_show_nat [OF assms(1)] length_show_nat [OF assms(2)] by auto
    then show ?thesis by (simp add: MAX_TOOL_NAME_LEN_def)
  qed
qed simp

lemma underscore_not_digit: "CHR ''_'' \<notin> set (show_nat n)"
  using show_nat_digits [of "CHR ''_''" n] by (auto simp: is_ascii_digit_def byte_def)

lemma show_nat_inj: "show_nat m = show_nat n \<Longrightarrow> m = n"
  by (metis digits_value_show option.inject)

lemma numbered_name_inj:
  assumes "numbered_name s index i = numbered_name s index j"
  shows "i = j"
proof -
  have "takeWhile (\<lambda>c. c \<noteq> CHR ''_'') (rev (numbered_name s index k)) = rev (show_nat k)" for k
  proof -
    have "\<forall>c \<in> set (rev (show_nat k)). c \<noteq> CHR ''_''" using underscore_not_digit [of k] by auto
    then show ?thesis unfolding numbered_name_def Let_def by (simp add: takeWhile_append2 del: set_rev)
  qed
  then have "rev (show_nat i) = rev (show_nat j)" using assms by metis
  then show ?thesis by (simp add: show_nat_inj)
qed

lemma injective_escapes:
  assumes "finite used" "card used < n" "\<And>i j. f i = f j \<Longrightarrow> i = j"
  shows "\<exists>k \<in> set [1..<Suc n]. f k \<notin> used"
proof (rule ccontr)
  assume "\<not> ?thesis"
  then have "f ` set [1..<Suc n] \<subseteq> used" by blast
  from card_mono [OF assms(1) this] have "card (f ` set [1..<Suc n]) \<le> card used" .
  moreover have "inj_on f (set [1..<Suc n])" using assms(3) by (rule inj_onI)
  from card_image [OF this] have "card (f ` set [1..<Suc n]) = n" unfolding set_upt by simp
  ultimately show False using assms(2) by simp
qed

lemma find_SomeD: "find P xs = Some x \<Longrightarrow> x \<in> set xs \<and> P x"
  by (induction xs) (auto split: if_splits)

lemma unique_tool_name_fresh:
  assumes "finite used" "card used < 10000" "index < 10 ^ 20"
  shows "unique_tool_name base index used \<notin> used" "valid_tool_name (unique_tool_name base index used)"
proof -
  let ?s = "normalize_tool_name base"
  let ?free = "\<lambda>suffix. numbered_name ?s index suffix \<notin> used"
  have "\<exists>suffix \<in> set [1..<Suc 10000]. ?free suffix"
    using assms(1,2) by (rule injective_escapes) (rule numbered_name_inj)
  then have "\<exists>suffix \<in> set [1..<10001]. ?free suffix" by (simp only: Suc_numeral) simp
  then have "find ?free [1..<10001] \<noteq> None" unfolding find_None_iff by blast
  then obtain suffix where suffix: "find ?free [1..<10001] = Some suffix" by blast
  then have free: "?free suffix" "suffix < 10 ^ 5" using find_SomeD [OF suffix] unfolding set_upt by auto
  let ?candidate = "if ?s = [] then ''lg_tool_'' @ show_nat index else ?s"
  have "unique_tool_name base index used \<notin> used \<and> valid_tool_name (unique_tool_name base index used)"
  proof (cases "?candidate \<in> used")
    case True
    then have "unique_tool_name base index used = numbered_name ?s index suffix"
      using suffix unfolding unique_tool_name_def Let_def by simp
    then show ?thesis using free numbered_name_valid [OF assms(3) free(2)] by simp
  next
    case False
    then have "unique_tool_name base index used = ?candidate" unfolding unique_tool_name_def Let_def by simp
    then show ?thesis
      using False fallback_valid [OF assms(3)] normalize_tool_name_valid [of base] by (simp split: if_splits)
  qed
  then show "unique_tool_name base index used \<notin> used" "valid_tool_name (unique_tool_name base index used)"
    by auto
qed

section \<open>Converting the tools of a request\<close>

definition chat_function_name :: "json \<Rightarrow> string" where
  "chat_function_name tool = unwrap_or (Option.bind (json_pointer tool [''function'', ''name'']) as_str) []"

fun tool_response_name :: "tool_kind \<Rightarrow> string" where
  "tool_response_name (ToolFunction name) = name"
| "tool_response_name (ToolCustom name) = name"
| "tool_response_name (ToolNamespace namespace name) = namespace @ ''.'' @ name"

definition context_sound :: "conversion_context \<Rightarrow> bool" where
  "context_sound c \<longleftrightarrow>
     (\<forall>name chat_name. cc_chat_name_by_response_name c name = Some chat_name \<longrightarrow>
        (\<exists>kind. cc_tool_by_chat_name c chat_name = Some kind \<and> tool_response_name kind = name))"

definition tool_inv :: "tool_state \<Rightarrow> bool" where
  "tool_inv st \<longleftrightarrow>
     finite (ts_used st) \<and> dom (cc_tool_by_chat_name (ts_context st)) = ts_used st \<and>
     set (map chat_function_name (ts_converted st)) = ts_used st \<and>
     distinct (map chat_function_name (ts_converted st)) \<and> (\<forall>name \<in> ts_used st. valid_tool_name name) \<and>
     context_sound (ts_context st)"

lemma chat_function_name [simp]: "chat_function_name (chat_function tool name forced) = name"
  by (simp add: chat_function_name_def chat_function_def Let_def json_get_obj map_get_insert unwrap_or_def
      map_get_def split: option.splits)

lemma tool_inv_new: "tool_inv (tool_state_new context_default)"
  by (simp add: tool_inv_def tool_state_new_def context_default_def context_sound_def)

lemma tool_warning_inv [simp]: "tool_inv (tool_warning code st) = tool_inv st" "ts_used (tool_warning code st) = ts_used st"
  by (simp_all add: tool_warning_def warn_def tool_inv_def context_sound_def)

lemma add_tool_inv:
  assumes "tool_inv st" "chat_name \<notin> ts_used st" "valid_tool_name chat_name" "tool_response_name kind = response_name"
  shows "tool_inv (add_tool chat_name kind response_name tool forced st)"
proof -
  have "cc_tool_by_chat_name (ts_context st) chat_name = None"
    using assms(1,2) by (auto simp: tool_inv_def)
  moreover have "context_sound (ts_context st)" using assms(1) by (simp add: tool_inv_def)
  ultimately have "context_sound (register_tool chat_name kind response_name (ts_context st))"
    using assms(4) by (fastforce simp: register_tool_def context_sound_def)
  then show ?thesis using assms(1-3)
    by (auto simp: tool_inv_def add_tool_def register_tool_def)
qed

lemma add_tool_used [simp]: "ts_used (add_tool chat_name kind response_name tool forced st) = insert chat_name (ts_used st)"
  by (simp add: add_tool_def)

definition nested_tools :: "json \<Rightarrow> json list" where
  "nested_tools tool = unwrap_or (Option.bind (json_get tool ''tools'') as_array) []"

definition tool_count :: "json list \<Rightarrow> nat" where
  "tool_count tools = sum_list (map (\<lambda>tool. Suc (length (nested_tools tool))) tools)"

text \<open>\<open>room n reserved st\<close>: a further \<open>n\<close> names can be found.\<close>

definition room :: "nat \<Rightarrow> string set \<Rightarrow> tool_state \<Rightarrow> bool" where
  "room n reserved st \<longleftrightarrow> tool_inv st \<and> finite reserved \<and> card (ts_used st) + card reserved + n < 10000"

lemma room_mono: "room n reserved st \<Longrightarrow> m \<le> n \<Longrightarrow> room m reserved st"
  by (simp add: room_def)

lemma room_warning [simp]: "room n reserved (tool_warning code st) = room n reserved st"
  by (simp add: room_def)

lemma room_add:
  assumes "room (Suc n) reserved st" "index < 10 ^ 20" "tool_response_name kind = response_name"
    and "chat_name = unique_tool_name base index (ts_used st) \<or>
         chat_name = unique_generated_tool_name base index (ts_used st) reserved"
  shows "room n reserved (add_tool chat_name kind response_name tool forced st)"
proof -
  have fin: "finite (ts_used st)" "finite reserved" "card (ts_used st) + card reserved < 10000"
    using assms(1) by (auto simp: room_def tool_inv_def)
  have "card (ts_used st \<union> reserved) < 10000"
    using card_Un_le [of "ts_used st" reserved] fin(3) by linarith
  note generated = unique_tool_name_fresh [OF _ this assms(2), of base]
  have "card (ts_used st) < 10000" using fin(3) by linarith
  note plain = unique_tool_name_fresh [OF fin(1) this assms(2), of base]
  have fresh: "chat_name \<notin> ts_used st" "valid_tool_name chat_name"
    using assms(4) plain generated fin by (auto simp: unique_generated_tool_name_def)
  then have "tool_inv (add_tool chat_name kind response_name tool forced st)"
    using assms(1,3) by (intro add_tool_inv) (auto simp: room_def)
  moreover have "card (insert chat_name (ts_used st)) = Suc (card (ts_used st))" using fresh(1) fin(1) by simp
  ultimately show ?thesis using assms(1) by (simp add: room_def)
qed

lemma nested_index_bound: "nested_index i j < 10 ^ 20"
  by (simp add: nested_index_def u64_saturating_add_def u64_max_def min_def)

lemma namespace_tools_room:
  "room (n + length its) reserved st \<Longrightarrow> room n reserved (fold (namespace_tool namespace i reserved) its st)"
proof (induction its arbitrary: st)
  case (Cons it its)
  obtain j nested where it: "it = (j, nested)" by (cases it)
  have "room (n + length its) reserved (namespace_tool namespace i reserved it st)"
    unfolding it namespace_tool_def Let_def prod.case
    by (rule room_add [OF _ nested_index_bound]) (use Cons.prems in auto)
  then show ?case using Cons.IH by simp
qed simp

lemma convert_tool_room:
  assumes "room (n + Suc (length (nested_tools tool))) reserved st" "index < 10 ^ 20"
  shows "room n reserved (convert_tool reserved (index, tool) st)"
proof -
  have one: "room (Suc n) reserved st" "room n reserved st" using assms(1) by (auto elim: room_mono)
  have "room n reserved (convert_namespace tool index reserved st)"
  proof (cases "Option.bind (json_get tool ''tools'') as_array")
    case None
    then show ?thesis using one(2) by (simp add: convert_namespace_def)
  next
    case (Some tools)
    then have "room (n + length (List.enumerate 0 tools)) reserved st"
      using assms(1) by (auto simp: nested_tools_def unwrap_or_def elim: room_mono)
    from namespace_tools_room [OF this] show ?thesis using Some by (simp add: convert_namespace_def Let_def)
  qed
  moreover have "room n reserved (add_tool (unique_tool_name base index (ts_used st)) kind name tool forced st)"
    "room n reserved (add_tool (unique_generated_tool_name base index (ts_used st) reserved) kind name tool forced st)"
    if "tool_response_name kind = name" for base kind name forced
    using room_add [OF one(1) assms(2) that] by blast+
  ultimately show ?thesis using one(2) by (simp add: convert_tool_def Let_def)
qed

lemma convert_tools_room:
  assumes "room (n + tool_count tools) reserved st" "i + length tools < 10 ^ 20"
  shows "room n reserved (fold (convert_tool reserved) (List.enumerate i tools) st)"
  using assms
proof (induction tools arbitrary: st i)
  case (Cons tool tools)
  have "room (n + tool_count tools) reserved (convert_tool reserved (i, tool) st)"
    using Cons.prems by (intro convert_tool_room) (auto simp: tool_count_def ac_simps)
  then show ?case using Cons.IH Cons.prems(2) by simp
qed (simp add: tool_count_def)

lemma length_le_tool_count: "length tools \<le> tool_count tools"
  by (induction tools) (auto simp: tool_count_def)

lemma reserved_bound: "finite (reserved_function_names tools)" "card (reserved_function_names tools) \<le> length tools"
proof -
  let ?names = "somes (map (\<lambda>tool. get_str tool ''name'') (filter (\<lambda>tool. get_str tool ''type'' = Some ''function'') tools))"
  show "finite (reserved_function_names tools)" by (simp add: reserved_function_names_def)
  let ?functions = "filter (\<lambda>tool. get_str tool ''type'' = Some ''function'') tools"
  have somes: "length (somes xs) \<le> length xs" for xs :: "string option list" by (induction xs rule: somes.induct) auto
  have "length ?names \<le> length ?functions" using somes [of "map (\<lambda>tool. get_str tool ''name'') ?functions"] by simp
  then have "length ?names \<le> length tools" using length_filter_le [of _ tools] by (rule order_trans)
  then show "card (reserved_function_names tools) \<le> length tools"
    unfolding reserved_function_names_def using card_length [of "map normalize_tool_name ?names"] by simp
qed

lemma convert_tools_inv:
  assumes "tool_count (tool_definitions object) < 5000" "convert_tools object context_default = (converted, c)"
  shows "\<exists>used. tool_inv \<lparr>ts_context = c, ts_used = used, ts_converted = converted\<rparr>"
proof -
  let ?tools = "tool_definitions object"
  let ?st = "fold (convert_tool (reserved_function_names ?tools)) (List.enumerate 0 ?tools) (tool_state_new context_default)"
  have "room (0 + tool_count ?tools) (reserved_function_names ?tools) (tool_state_new context_default)"
    using assms(1) reserved_bound [of ?tools] length_le_tool_count [of ?tools] tool_inv_new
    by (simp add: room_def tool_state_new_def)
  moreover have "0 + length ?tools < 10 ^ 20" using assms(1) length_le_tool_count [of ?tools] by simp
  ultimately have "tool_inv ?st" using convert_tools_room room_def by blast
  moreover have "?st = \<lparr>ts_context = c, ts_used = ts_used ?st, ts_converted = converted\<rparr>"
    using assms(2) by (auto simp: convert_tools_def Let_def)
  ultimately show ?thesis by metis
qed

text \<open>
  C30: The tools sent upstream have names the Chat Completions interface accepts.  Whatever the names
  of the client's functions, custom tools and namespaces (fewer than 5000 in all), the converted
  functions have pairwise different names of 1 to 64 letters, digits, underscores and dashes, and
  the context knows exactly these names.
\<close>

theorem tool_names_acceptable:
  assumes "tool_count (tool_definitions object) < 5000" "convert_tools object context_default = (converted, c)"
  shows "distinct (map chat_function_name converted) \<and>
    (\<forall>tool \<in> set converted. valid_tool_name (chat_function_name tool)) \<and>
    dom (cc_tool_by_chat_name c) = chat_function_name ` set converted"
  using convert_tools_inv [OF assms] by (auto simp: tool_inv_def)

definition wit_tools :: json_map where
  "wit_tools =
     [(''tools'', JArray [JObject [(''name'', JString ''get weather''), (''type'', JString ''function'')],
                          JObject [(''name'', JString ''apply''), (''type'', JString ''custom'')]])]"

theorem tool_names_acceptable_witness:
  "map chat_function_name (fst (convert_tools wit_tools context_default)) = [''get_weather'', ''lg_custom_apply''] \<and>
   distinct (map chat_function_name (fst (convert_tools wit_tools context_default)))"
proof -
  have names: "map chat_function_name (fst (convert_tools wit_tools context_default)) = [''get_weather'', ''lg_custom_apply'']"
    by code_simp
  have "tool_count (tool_definitions wit_tools) = 2" by code_simp
  then have "tool_count (tool_definitions wit_tools) < 5000" by simp
  from tool_names_acceptable [OF this, of "fst (convert_tools wit_tools context_default)"
      "snd (convert_tools wit_tools context_default)"] names
  show ?thesis by simp
qed

end
