(* ===== verification/Chat_Conversion.thy ===== *)
theory Chat_Conversion
  imports Chat_Tools Affinity
begin

text \<open>
  \<open>src/backend/src/responses_via_chat.rs\<close>: a Responses request as a Chat Completions request, and
  the complete (not streamed) Chat Completions response as a Responses response.  \<open>parse\<close> stands
  for \<open>serde_json::from_slice\<close>, \<open>print\<close> for \<open>serde_json::to_vec\<close> and \<open>to_string\<close> (\<open>None\<close>
  when it fails), \<open>blake3\<close> for the hash of the \<open>blake3\<close> crate.
\<close>

section \<open>Message contents\<close>

definition or_null :: "json option \<Rightarrow> json" where
  "or_null v = unwrap_or v JNull"

definition with_cache_control :: "json \<Rightarrow> json \<Rightarrow> json" where
  "with_cache_control converted source =
     (case json_get source ''cache_control'' of
        None \<Rightarrow> converted
      | Some cache_control \<Rightarrow>
          (case converted of
             JObject m \<Rightarrow> JObject (map_insert ''cache_control'' cache_control m)
           | _ \<Rightarrow> converted))"

definition convert_image :: "json \<Rightarrow> json" where
  "convert_image part =
     (let image_url = or_null (opt_or (json_get part ''image_url'') (json_get part ''url''))
      in json_obj [(''type'', JString ''image_url''),
                   (''image_url'',
                    case image_url of
                      JString s \<Rightarrow>
                        JObject (let image = map_insert ''url'' (JString s) [] in
                          case json_get part ''detail'' of
                            None \<Rightarrow> image | Some detail \<Rightarrow> map_insert ''detail'' detail image)
                    | _ \<Rightarrow> image_url)])"

definition convert_content_part :: "json \<Rightarrow> string list \<Rightarrow> json option \<times> string list" where
  "convert_content_part part warnings =
     (let kind = unwrap_or (get_str part ''type'') [] in
      if kind \<in> {''input_text'', ''output_text'', ''text''} then
        (Some (with_cache_control
                 (json_obj [(''type'', JString ''text''), (''text'', JString (unwrap_or (get_str part ''text'') []))])
                 part), warnings)
      else if kind \<in> {''input_image'', ''image_url''} then
        (Some (with_cache_control (convert_image part) part), warnings)
      else if kind = ''cache_breakpoint'' then
        (Some (json_obj [(''type'', JString ''text''), (''text'', JString []),
                         (''cache_control'',
                          unwrap_or (json_get part ''cache_control'') (json_obj [(''type'', JString ''ephemeral'')]))]),
         warnings)
      else if kind \<in> {''input_file'', ''file''} then (None, push_warning ''dropped_file_content'' warnings)
      else if kind \<in> {''input_audio'', ''audio''} then (None, push_warning ''dropped_audio_content'' warnings)
      else (None, push_warning ''dropped_unknown_content_part'' warnings))"

fun convert_parts :: "json list \<Rightarrow> string list \<Rightarrow> json list \<times> string list" where
  "convert_parts [] warnings = ([], warnings)"
| "convert_parts (part # parts) warnings =
     (case convert_content_part part warnings of
        (converted, warnings') \<Rightarrow>
          (case convert_parts parts warnings' of
             (rest, warnings'') \<Rightarrow> (somes [converted] @ rest, warnings'')))"

definition response_content_to_chat :: "json \<Rightarrow> string list \<Rightarrow> json \<times> string list" where
  "response_content_to_chat value warnings =
     (case value of
        JArray parts \<Rightarrow> (case convert_parts parts warnings of (converted, ws) \<Rightarrow> (JArray converted, ws))
      | _ \<Rightarrow> (value, warnings))"

section \<open>The input items\<close>

definition reasoning_summary_text :: "json \<Rightarrow> string" where
  "reasoning_summary_text item =
     join_lf (somes (map (\<lambda>part. get_str part ''text'')
       (unwrap_or (Option.bind (json_get item ''summary'') as_array) [])))"

definition stringify_tool_output :: "(json \<Rightarrow> string option) \<Rightarrow> json \<Rightarrow> string" where
  "stringify_tool_output print value =
     (case as_str value of Some s \<Rightarrow> s | None \<Rightarrow> unwrap_or (print value) [])"

definition call_id_of :: "json \<Rightarrow> string" where
  "call_id_of item =
     unwrap_or (Option.bind (opt_or (json_get item ''call_id'') (json_get item ''id'')) as_str) ''call_missing''"

definition empty_input_text :: string where
  "empty_input_text = [CHR 0x7B, CHR 0x22] @ ''input'' @ [CHR 0x22] @ '':'' @ [CHR 0x22, CHR 0x22, CHR 0x7D]"

definition chat_call :: "string \<Rightarrow> string \<Rightarrow> string \<Rightarrow> json" where
  "chat_call call_id name arguments =
     json_obj [(''id'', JString call_id), (''type'', JString ''function''),
               (''function'', json_obj [(''name'', JString name), (''arguments'', JString arguments)])]"

definition convert_call_input :: "(json \<Rightarrow> string option) \<Rightarrow> conversion_context \<Rightarrow> json \<Rightarrow> json" where
  "convert_call_input print c item =
     (let response_name = unwrap_or (get_str item ''name'') ''unknown_tool'';
          arguments =
            (if get_str item ''type'' = Some ''custom_tool_call''
             then unwrap_or (print (json_obj [(''input'', JString (unwrap_or (get_str item ''input'') []))]))
                    empty_input_text
             else unwrap_or (get_str item ''arguments'') ''{}'')
      in chat_call (call_id_of item) (response_tool_name c response_name) arguments)"

definition calls_message :: "json list \<Rightarrow> json" where
  "calls_message calls =
     json_obj [(''role'', JString ''assistant''), (''content'', JNull), (''tool_calls'', JArray calls)]"

definition flush_calls :: "json list \<Rightarrow> json list \<Rightarrow> json list" where
  "flush_calls pending messages = (if pending = [] then messages else messages @ [calls_message pending])"

definition text_message :: "string \<Rightarrow> json \<Rightarrow> json" where
  "text_message role content = json_obj [(''role'', JString role), (''content'', content)]"

definition item_kind :: "json \<Rightarrow> string" where
  "item_kind item = unwrap_or (get_str item ''type'') ''message''"

definition is_call_item :: "json \<Rightarrow> bool" where
  "is_call_item item \<longleftrightarrow> item_kind item \<in> {''function_call'', ''custom_tool_call''}"

definition convert_item :: "(json \<Rightarrow> string option) \<Rightarrow> json \<Rightarrow> json list \<times> string list \<Rightarrow> json list \<times> string list" where
  "convert_item print item st =
     (case st of (messages, warnings) \<Rightarrow>
        (let kind = item_kind item in
         if kind = ''message'' then
           (case response_content_to_chat (or_null (json_get item ''content'')) [] of
              (content, local) \<Rightarrow>
                (messages @ [text_message (unwrap_or (get_str item ''role'') ''user'') content],
                 fold push_warning local warnings))
         else if kind \<in> {''function_call_output'', ''custom_tool_call_output''} then
           (messages @
              [json_obj [(''role'', JString ''tool''), (''tool_call_id'', JString (call_id_of item)),
                         (''content'', JString (stringify_tool_output print
                            (unwrap_or (opt_or (json_get item ''output'') (json_get item ''input'')) (JString []))))]],
            warnings)
         else if kind = ''reasoning'' then
           (let t = reasoning_summary_text item
            in (if t = [] then messages else messages @ [text_message ''assistant'' (JString t)], warnings))
         else if kind = ''item_reference'' then (messages, push_warning ''dropped_item_reference'' warnings)
         else (messages, push_warning ''dropped_unknown_input_item'' warnings)))"

fun convert_items ::
  "(json \<Rightarrow> string option) \<Rightarrow> conversion_context \<Rightarrow> json list \<Rightarrow> json list \<Rightarrow> json list \<times> string list
     \<Rightarrow> json list \<times> string list" where
  "convert_items print c [] pending (messages, warnings) = (flush_calls pending messages, warnings)"
| "convert_items print c (item # items) pending (messages, warnings) =
     (if is_call_item item
      then convert_items print c items (pending @ [convert_call_input print c item]) (messages, warnings)
      else convert_items print c items [] (convert_item print item (flush_calls pending messages, warnings)))"

definition convert_input ::
  "(json \<Rightarrow> string option) \<Rightarrow> conversion_context \<Rightarrow> json \<Rightarrow> json list \<times> string list \<Rightarrow> json list \<times> string list"
where
  "convert_input print c input st =
     (case st of (messages, warnings) \<Rightarrow>
        (case input of
           JString t \<Rightarrow> (messages @ [text_message ''user'' (JString t)], warnings)
         | JArray items \<Rightarrow> convert_items print c items [] (messages, warnings)
         | JNull \<Rightarrow> (messages, warnings)
         | _ \<Rightarrow> (messages, push_warning ''dropped_unknown_input'' warnings)))"

section \<open>The request\<close>

datatype conversion_error =
    InvalidRequest | RequestNotObject | NeedsNativeResponses | EncodeFailed
  | InvalidResponse | UpstreamError json | NoChoice | NoMessage

definition has_previous_response_id :: "(string \<Rightarrow> json option) \<Rightarrow> string \<Rightarrow> bool" where
  "has_previous_response_id parse body =
     unwrap_or (map_option (\<lambda>value. trim value \<noteq> [])
       (Option.bind (parse body) (\<lambda>root. get_str root ''previous_response_id''))) False"

definition copy_field :: "json_map \<Rightarrow> string \<Rightarrow> json_map \<Rightarrow> json_map" where
  "copy_field source field target =
     (case map_get source field of None \<Rightarrow> target | Some value \<Rightarrow> map_insert field value target)"

definition copied_fields :: "string list" where
  "copied_fields =
     [''temperature'', ''top_p'', ''parallel_tool_calls'', ''user'', ''seed'', ''service_tier'',
      ''prompt_cache_key'', ''prompt_cache_retention'', ''cache_control'', ''retention'']"

definition convert_text_format :: "json_map \<Rightarrow> json_map \<times> string list \<Rightarrow> json_map \<times> string list" where
  "convert_text_format object st =
     (case st of (chat, warnings) \<Rightarrow>
        (case Option.bind (Option.bind (map_get object ''text'') (\<lambda>t. json_get t ''format'')) as_object of
           None \<Rightarrow> st
         | Some format \<Rightarrow>
             (case Option.bind (map_get format ''type'') as_str of
                None \<Rightarrow> st
              | Some kind \<Rightarrow>
                  if kind = ''json_object''
                  then (map_insert ''response_format'' (json_obj [(''type'', JString ''json_object'')]) chat, warnings)
                  else if kind = ''json_schema''
                  then (map_insert ''response_format''
                          (json_obj [(''type'', JString ''json_schema''),
                                     (''json_schema'', JObject (map_remove ''type'' format))]) chat, warnings)
                  else if kind = ''text'' then st
                  else (chat, push_warning ''dropped_unknown_text_format'' warnings))))"

definition convert_tool_choice :: "json_map \<Rightarrow> conversion_context \<Rightarrow> json_map \<times> string list \<Rightarrow> json_map \<times> string list"
where
  "convert_tool_choice object c st =
     (case st of (chat, warnings) \<Rightarrow>
        (case map_get object ''tool_choice'' of
           None \<Rightarrow> st
         | Some (JString s) \<Rightarrow> (map_insert ''tool_choice'' (JString s) chat, warnings)
         | Some (JObject choice) \<Rightarrow>
             if Option.bind (map_get choice ''type'') as_str = Some ''allowed_tools''
             then (map_insert ''tool_choice'' (JString ''required'') chat,
                   push_warning ''dropped_allowed_tools_choice'' warnings)
             else (case Option.bind (map_get choice ''name'') as_str of
                     None \<Rightarrow> (chat, push_warning ''dropped_unknown_tool_choice'' warnings)
                   | Some name \<Rightarrow>
                       (map_insert ''tool_choice''
                          (json_obj [(''type'', JString ''function''),
                                     (''function'', json_obj [(''name'', JString (response_tool_name c name))])])
                          chat, warnings))
         | Some _ \<Rightarrow> (chat, push_warning ''dropped_unknown_tool_choice'' warnings)))"

fun is_set_value :: "json \<Rightarrow> bool" where
  "is_set_value JNull = False"
| "is_set_value (JBool b) = b"
| "is_set_value (JArray values) = (values \<noteq> [])"
| "is_set_value (JString s) = (s \<noteq> [])"
| "is_set_value _ = True"

definition record_unsupported_fields :: "json_map \<Rightarrow> string list \<Rightarrow> string list" where
  "record_unsupported_fields object warnings =
     fold (\<lambda>(field, code) ws. if is_some_and (map_get object field) is_set_value then push_warning code ws else ws)
       [(''store'', ''dropped_store''), (''background'', ''dropped_background''),
        (''conversation'', ''dropped_conversation''), (''include'', ''dropped_include''),
        (''truncation'', ''dropped_truncation'')] warnings"

definition insert_optional :: "string \<Rightarrow> json option \<Rightarrow> json_map \<Rightarrow> json_map" where
  "insert_optional key value chat = (case value of None \<Rightarrow> chat | Some v \<Rightarrow> map_insert key v chat)"

definition convert_messages ::
  "(json \<Rightarrow> string option) \<Rightarrow> json_map \<Rightarrow> conversion_context \<Rightarrow> json list \<times> conversion_context" where
  "convert_messages print object c =
     (let (system, c1) =
            (case map_get object ''instructions'' of
               Some instructions \<Rightarrow>
                 (if instructions = JNull then ([], c)
                  else (case response_content_to_chat instructions (cc_warnings c) of
                          (content, ws) \<Rightarrow> ([text_message ''system'' content], c\<lparr>cc_warnings := ws\<rparr>)))
             | None \<Rightarrow> ([], c));
          (messages, warnings) = convert_input print c1 (or_null (map_get object ''input'')) (system, [])
      in (messages, c1\<lparr>cc_warnings := fold push_warning warnings (cc_warnings c1)\<rparr>))"

definition convert_request_object ::
  "(json \<Rightarrow> string option) \<Rightarrow> json_map \<Rightarrow> string \<Rightarrow> affinity_identity option \<Rightarrow> json_map \<times> conversion_context" where
  "convert_request_object print object upstream_model identity =
     (let chat0 = map_insert ''stream''
                    (JBool (unwrap_or (Option.bind (map_get object ''stream'') as_bool) False))
                    (map_insert ''model'' (JString upstream_model) []);
          (tools, c0) = convert_tools object context_default;
          chat1 = (if tools = [] then chat0 else map_insert ''tools'' (JArray tools) chat0);
          (messages, c1) = convert_messages print object c0;
          chat2 = fold (copy_field object) copied_fields (map_insert ''messages'' (JArray messages) chat1);
          chat3 = (if map_contains_key chat2 ''prompt_cache_key'' then chat2
                   else insert_optional ''prompt_cache_key''
                          (map_option (\<lambda>i. JString (derived_prompt_cache_key i)) identity) chat2);
          chat4 = insert_optional ''max_tokens'' (map_get object ''max_output_tokens'') chat3;
          chat5 = insert_optional ''reasoning_effort''
                    (Option.bind (Option.bind (map_get object ''reasoning'') as_object) (\<lambda>r. map_get r ''effort''))
                    chat4;
          chat6 = insert_optional ''stream_options'' (map_get object ''stream_options'') chat5;
          (chat7, warnings1) = convert_text_format object (chat6, cc_warnings c1);
          (chat8, choice_warnings) = convert_tool_choice object c1 (chat7, []);
          warnings2 = fold push_warning choice_warnings warnings1
      in (chat8, c1\<lparr>cc_warnings := record_unsupported_fields object warnings2\<rparr>))"

definition responses_request_to_chat ::
  "(string \<Rightarrow> json option) \<Rightarrow> (json \<Rightarrow> string option) \<Rightarrow> string \<Rightarrow> string \<Rightarrow> affinity_identity option
     \<Rightarrow> conversion_error + string \<times> conversion_context" where
  "responses_request_to_chat parse print body upstream_model identity =
     (case parse body of
        None \<Rightarrow> Inl InvalidRequest
      | Some root \<Rightarrow>
          (case as_object root of
             None \<Rightarrow> Inl RequestNotObject
           | Some object \<Rightarrow>
               if is_some_and (Option.bind (map_get object ''previous_response_id'') as_str) (\<lambda>v. trim v \<noteq> [])
               then Inl NeedsNativeResponses
               else (case convert_request_object print object upstream_model identity of
                       (chat, c) \<Rightarrow>
                         (case print (JObject chat) of
                            None \<Rightarrow> Inl EncodeFailed | Some encoded \<Rightarrow> Inr (encoded, c)))))"

section \<open>The response\<close>

definition short_hash :: "(string \<Rightarrow> string) \<Rightarrow> string \<Rightarrow> string" where
  "short_hash blake3 s = hex_encode (take 12 (blake3 s))"

definition response_id :: "(string \<Rightarrow> string) \<Rightarrow> string option \<Rightarrow> string" where
  "response_id blake3 chat_id =
     (case chat_id of
        None \<Rightarrow> ''resp_'' @ short_hash blake3 ''missing-response-id''
      | Some i \<Rightarrow> if starts_with ''resp_'' i then i else ''resp_'' @ short_hash blake3 i)"

definition output_text_part :: "string \<Rightarrow> json" where
  "output_text_part t =
     json_obj [(''type'', JString ''output_text''), (''text'', JString t), (''annotations'', JArray []),
               (''logprobs'', JArray [])]"

definition content_parts :: "json option \<Rightarrow> json list" where
  "content_parts content =
     (case content of
        Some (JString t) \<Rightarrow> [output_text_part t]
      | Some (JArray parts) \<Rightarrow>
          somes (map (\<lambda>part. map_option output_text_part (opt_or (get_str part ''text'') (as_str part))) parts)
      | _ \<Rightarrow> [])"

definition message_item :: "string \<Rightarrow> string \<Rightarrow> json list \<Rightarrow> json" where
  "message_item message_id status content =
     json_obj [(''id'', JString message_id), (''type'', JString ''message''), (''status'', JString status),
               (''role'', JString ''assistant''), (''content'', JArray content)]"

definition response_message_item :: "(string \<Rightarrow> string) \<Rightarrow> json \<Rightarrow> string \<Rightarrow> json" where
  "response_message_item blake3 message rid =
     message_item (''msg_'' @ short_hash blake3 rid) ''completed'' (content_parts (json_get message ''content''))"

definition custom_input :: "(string \<Rightarrow> json option) \<Rightarrow> string \<Rightarrow> string" where
  "custom_input parse arguments =
     unwrap_or (Option.bind (parse arguments) (\<lambda>value. get_str value ''input'')) arguments"

definition function_call_item :: "(string \<Rightarrow> string) \<Rightarrow> string \<Rightarrow> string \<Rightarrow> string \<Rightarrow> json" where
  "function_call_item blake3 call_id name arguments =
     json_obj [(''id'', JString (''fc_'' @ short_hash blake3 call_id)), (''type'', JString ''function_call''),
               (''status'', JString ''completed''), (''call_id'', JString call_id), (''name'', JString name),
               (''arguments'', JString arguments)]"

definition response_tool_item ::
  "(string \<Rightarrow> json option) \<Rightarrow> (string \<Rightarrow> string) \<Rightarrow> json \<Rightarrow> nat \<Rightarrow> conversion_context \<Rightarrow> json" where
  "response_tool_item parse blake3 tool_call index c =
     (let call_id = unwrap_or (get_str tool_call ''id'') (''call_'' @ short_hash blake3 (show_nat index));
          name = unwrap_or (Option.bind (json_pointer tool_call [''function'', ''name'']) as_str) ''unknown_tool'';
          arguments = unwrap_or (Option.bind (json_pointer tool_call [''function'', ''arguments'']) as_str) ''{}''
      in case cc_tool_by_chat_name c name of
           Some (ToolCustom custom_name) \<Rightarrow>
             json_obj [(''id'', JString (''ctc_'' @ short_hash blake3 call_id)), (''type'', JString ''custom_tool_call''),
                       (''status'', JString ''completed''), (''call_id'', JString call_id),
                       (''name'', JString custom_name), (''input'', JString (custom_input parse arguments))]
         | Some (ToolNamespace namespace nested) \<Rightarrow>
             function_call_item blake3 call_id (namespace @ ''.'' @ nested) arguments
         | Some (ToolFunction function) \<Rightarrow> function_call_item blake3 call_id function arguments
         | None \<Rightarrow> function_call_item blake3 call_id name arguments)"

definition pointer_i64 :: "json \<Rightarrow> string list \<Rightarrow> int option" where
  "pointer_i64 value path = Option.bind (json_pointer value path) as_i64"

definition responses_usage :: "int \<Rightarrow> int \<Rightarrow> int \<Rightarrow> int \<Rightarrow> int \<Rightarrow> int \<Rightarrow> json" where
  "responses_usage input_tokens output_tokens cached created reasoning total_tokens =
     json_obj
       [(''input_tokens'', json_int input_tokens),
        (''input_tokens_details'',
         json_obj [(''cached_tokens'', json_int cached), (''cache_creation_tokens'', json_int created)]),
        (''output_tokens'', json_int output_tokens),
        (''output_tokens_details'', json_obj [(''reasoning_tokens'', json_int reasoning)]),
        (''total_tokens'', json_int total_tokens)]"

definition chat_usage_to_responses :: "json \<Rightarrow> json" where
  "chat_usage_to_responses usage =
     (let input_tokens = unwrap_or (pointer_i64 usage [''prompt_tokens'']) 0;
          output_tokens = unwrap_or (pointer_i64 usage [''completion_tokens'']) 0;
          cached = unwrap_or (opt_or (pointer_i64 usage [''prompt_tokens_details'', ''cached_tokens''])
                                     (pointer_i64 usage [''cached_tokens''])) 0;
          created = unwrap_or (opt_or (opt_or (pointer_i64 usage [''prompt_tokens_details'', ''cache_creation_tokens''])
                                              (pointer_i64 usage [''cache_creation_tokens'']))
                                      (pointer_i64 usage [''cached_creation_tokens''])) 0;
          reasoning = unwrap_or (pointer_i64 usage [''completion_tokens_details'', ''reasoning_tokens'']) 0
      in responses_usage input_tokens output_tokens cached created reasoning
           (unwrap_or (pointer_i64 usage [''total_tokens'']) (i64_saturating_add input_tokens output_tokens)))"

definition incomplete_details :: "string option \<Rightarrow> json option" where
  "incomplete_details finish_reason =
     (if finish_reason = Some ''length'' then Some (json_obj [(''reason'', JString ''max_output_tokens'')])
      else if finish_reason = Some ''content_filter''
      then Some (json_obj [(''reason'', JString ''content_filter'')])
      else None)"

definition first_choice :: "json \<Rightarrow> json option" where
  "first_choice chat =
     (case Option.bind (json_get chat ''choices'') as_array of
        Some (choice # _) \<Rightarrow> Some choice
      | _ \<Rightarrow> None)"

definition response_output ::
  "(string \<Rightarrow> json option) \<Rightarrow> (string \<Rightarrow> string) \<Rightarrow> json \<Rightarrow> string \<Rightarrow> conversion_context \<Rightarrow> json list" where
  "response_output parse blake3 message rid c =
     (if is_some_and (json_get message ''content'') (\<lambda>content. content \<noteq> JNull)
      then [response_message_item blake3 message rid] else []) @
     map (\<lambda>(index, tool_call). response_tool_item parse blake3 tool_call index c)
       (List.enumerate 0 (unwrap_or (Option.bind (json_get message ''tool_calls'') as_array) []))"

definition full_response ::
  "(string \<Rightarrow> json option) \<Rightarrow> (string \<Rightarrow> string) \<Rightarrow> json \<Rightarrow> json \<Rightarrow> json \<Rightarrow> conversion_context \<Rightarrow> json" where
  "full_response parse blake3 chat choice message c =
     (let rid = response_id blake3 (get_str chat ''id'');
          created = pointer_i64 chat [''created''];
          incomplete = incomplete_details (get_str choice ''finish_reason'')
      in json_obj
           [(''id'', JString rid), (''object'', JString ''response''),
            (''created_at'', json_int (unwrap_or created 0)),
            (''status'', JString (if incomplete \<noteq> None then ''incomplete'' else ''completed'')),
            (''completed_at'', json_opt json_int created), (''error'', JNull),
            (''incomplete_details'', or_null incomplete), (''instructions'', JNull),
            (''max_output_tokens'', JNull), (''model'', or_null (json_get chat ''model'')),
            (''service_tier'', or_null (json_get chat ''service_tier'')),
            (''output'', JArray (response_output parse blake3 message rid c)),
            (''parallel_tool_calls'', JBool True), (''previous_response_id'', JNull),
            (''reasoning'', json_obj [(''effort'', JNull), (''summary'', JNull)]), (''store'', JBool False),
            (''temperature'', JNull),
            (''text'', json_obj [(''format'', json_obj [(''type'', JString ''text'')])]),
            (''tool_choice'', JString ''auto''), (''tools'', JArray []), (''top_p'', JNull),
            (''truncation'', JString ''disabled''),
            (''usage'', or_null (map_option chat_usage_to_responses (json_get chat ''usage''))),
            (''user'', JNull), (''metadata'', JObject [])])"

definition chat_response_to_responses ::
  "(string \<Rightarrow> json option) \<Rightarrow> (json \<Rightarrow> string option) \<Rightarrow> (string \<Rightarrow> string) \<Rightarrow> string \<Rightarrow> conversion_context
     \<Rightarrow> conversion_error + string" where
  "chat_response_to_responses parse print blake3 body c =
     (case parse body of
        None \<Rightarrow> Inl InvalidResponse
      | Some chat \<Rightarrow>
          (case json_get chat ''error'' of
             Some error \<Rightarrow> Inl (UpstreamError error)
           | None \<Rightarrow>
               (case first_choice chat of
                  None \<Rightarrow> Inl NoChoice
                | Some choice \<Rightarrow>
                    (case json_get choice ''message'' of
                       None \<Rightarrow> Inl NoMessage
                     | Some message \<Rightarrow>
                         (case print (full_response parse blake3 chat choice message c) of
                            None \<Rightarrow> Inl EncodeFailed
                          | Some encoded \<Rightarrow> Inr encoded)))))"

section \<open>Tool calls come back under the client's names\<close>

text \<open>
  The arguments of a call after its way through the client: a custom tool's input is the text in
  the member \<open>input\<close> of the arguments, and is wrapped again.
\<close>

definition arguments_after ::
  "(string \<Rightarrow> json option) \<Rightarrow> (json \<Rightarrow> string option) \<Rightarrow> tool_kind \<Rightarrow> string \<Rightarrow> string" where
  "arguments_after parse print kind arguments =
     (case kind of
        ToolCustom _ \<Rightarrow>
          unwrap_or (print (json_obj [(''input'', JString (custom_input parse arguments))])) empty_input_text
      | _ \<Rightarrow> arguments)"

lemma response_tool_item_call:
  "response_tool_item parse blake3 (chat_call call_id name arguments) index c =
     (case cc_tool_by_chat_name c name of
        Some (ToolCustom custom_name) \<Rightarrow>
          json_obj [(''id'', JString (''ctc_'' @ short_hash blake3 call_id)), (''type'', JString ''custom_tool_call''),
                    (''status'', JString ''completed''), (''call_id'', JString call_id),
                    (''name'', JString custom_name), (''input'', JString (custom_input parse arguments))]
      | Some kind \<Rightarrow> function_call_item blake3 call_id (tool_response_name kind) arguments
      | None \<Rightarrow> function_call_item blake3 call_id name arguments)"
  by (simp add: response_tool_item_def chat_call_def json_get_obj unwrap_or_def split: option.splits tool_kind.splits)

lemma convert_function_call_item:
  "convert_call_input print c (function_call_item blake3 call_id name arguments) =
     chat_call call_id (response_tool_name c name) arguments"
  by (simp add: convert_call_input_def function_call_item_def json_get_obj call_id_of_def opt_or_def unwrap_or_def)

lemma call_goes_round:
  assumes "cc_tool_by_chat_name c name = Some kind"
    and "cc_chat_name_by_response_name c (tool_response_name kind) = Some name"
  shows "convert_call_input print c (response_tool_item parse blake3 (chat_call call_id name arguments) index c) =
    chat_call call_id name (arguments_after parse print kind arguments)"
proof (cases kind)
  case (ToolCustom custom_name)
  then show ?thesis using assms
    by (simp add: response_tool_item_call convert_call_input_def json_get_obj call_id_of_def opt_or_def unwrap_or_def
        arguments_after_def response_tool_name_def)
qed (use assms in \<open>simp_all add: response_tool_item_call convert_function_call_item arguments_after_def
      response_tool_name_def unwrap_or_def\<close>)

lemma warn_keeps [simp]:
  "cc_tool_by_chat_name (c\<lparr>cc_warnings := ws\<rparr>) = cc_tool_by_chat_name c"
  "cc_chat_name_by_response_name (c\<lparr>cc_warnings := ws\<rparr>) = cc_chat_name_by_response_name c"
  by simp_all

lemma convert_messages_keeps:
  "convert_messages print object c = (messages, c') \<Longrightarrow>
   cc_tool_by_chat_name c' = cc_tool_by_chat_name c \<and>
   cc_chat_name_by_response_name c' = cc_chat_name_by_response_name c"
  by (auto simp: convert_messages_def Let_def split: option.splits prod.splits if_splits)

lemma convert_request_tools:
  assumes "convert_request_object print object upstream_model identity = (chat, c)"
    and "convert_tools object context_default = (tools, c0)"
  shows "cc_tool_by_chat_name c = cc_tool_by_chat_name c0"
    "cc_chat_name_by_response_name c = cc_chat_name_by_response_name c0"
proof -
  obtain messages c1 where m: "convert_messages print object c0 = (messages, c1)"
    by (cases "convert_messages print object c0")
  have "\<exists>ws. c = c1\<lparr>cc_warnings := ws\<rparr>"
    using assms m by (auto simp: convert_request_object_def Let_def split: prod.splits)
  then show "cc_tool_by_chat_name c = cc_tool_by_chat_name c0"
    "cc_chat_name_by_response_name c = cc_chat_name_by_response_name c0"
    using convert_messages_keeps [OF m] by auto
qed


section \<open>Usage\<close>

text \<open>What the conversion does not read.\<close>

definition ignored_usage_paths :: "string list list" where
  "ignored_usage_paths =
     [[''input_tokens''], [''output_tokens''],
      [''input_tokens_details'', ''cached_tokens''], [''input_tokens_details'', ''cache_creation_tokens''],
      [''input_tokens_details'', ''cache_write_tokens''], [''prompt_tokens_details'', ''cache_write_tokens''],
      [''cache_read_input_tokens''], [''cache_creation_input_tokens''], [''cache_write_tokens''],
      [''output_tokens_details'', ''reasoning_tokens''], [''reasoning_tokens'']]"

lemma find_map_pointer: "find_map (\<lambda>name. Option.bind (json_pointer value name) as_i64) = find_map (pointer_i64 value)"
  by (simp add: pointer_i64_def [abs_def])

lemma pointer_i64_range: "pointer_i64 value path = Some i \<Longrightarrow> in_i64 i"
proof -
  assume "pointer_i64 value path = Some i"
  then obtain v where "as_i64 v = Some i" by (auto simp: pointer_i64_def bind_eq_Some_conv)
  then show "in_i64 i" by (cases v) (auto simp: parse_i64_bound)
qed

definition opt_in_i64 :: "int option \<Rightarrow> bool" where
  "opt_in_i64 x \<longleftrightarrow> (\<forall>i. x = Some i \<longrightarrow> in_i64 i)"

lemma opt_in_i64:
  "opt_in_i64 (pointer_i64 value path)"
  "opt_in_i64 x \<Longrightarrow> opt_in_i64 y \<Longrightarrow> opt_in_i64 (opt_or x y)"
  "opt_in_i64 x \<Longrightarrow> in_i64 (unwrap_or x 0)"
  by (auto simp: opt_in_i64_def opt_or_def unwrap_or_def in_i64_def i64_min_def i64_max_def
      dest: pointer_i64_range split: option.splits)

lemma opt_filter_Some: "opt_filter P x = Some y \<Longrightarrow> x = Some y"
  by (auto simp: opt_filter_def split: option.splits if_splits)

lemma parse_usage_numbers:
  "parse_usage v = Some u \<Longrightarrow>
   \<exists>i out. usage_number v [[''input_tokens''], [''prompt_tokens'']] = Some i \<and>
     usage_number v [[''output_tokens''], [''completion_tokens'']] = Some out"
  by (auto simp: parse_usage_def split: option.splits)

lemma unwrap_nonneg: "unwrap_or (opt_filter (\<lambda>n. 0 \<le> n) (Some (unwrap_or x 0))) 0 = unwrap_or (opt_filter (\<lambda>n. 0 \<le> n) x) (0 :: int)"
  by (cases x) (auto simp: unwrap_or_def opt_filter_def)

lemma responses_usage_read:
  "in_i64 a \<Longrightarrow> pointer_i64 (responses_usage a b c d e t) [''input_tokens''] = Some a"
  "in_i64 b \<Longrightarrow> pointer_i64 (responses_usage a b c d e t) [''output_tokens''] = Some b"
  "in_i64 c \<Longrightarrow> pointer_i64 (responses_usage a b c d e t) [''input_tokens_details'', ''cached_tokens''] = Some c"
  "in_i64 d \<Longrightarrow> pointer_i64 (responses_usage a b c d e t) [''input_tokens_details'', ''cache_creation_tokens''] = Some d"
  "in_i64 e \<Longrightarrow> pointer_i64 (responses_usage a b c d e t) [''output_tokens_details'', ''reasoning_tokens''] = Some e"
  by (simp_all add: pointer_i64_def responses_usage_def json_get_obj as_i64_json_int)

text \<open>
  C28: A converted response is billed like the original.  For a Chat Completions usage that carries
  no number at the places the conversion does not read, the usage read from the converted object is
  the usage read from the original one: input, output, cached, cache creation and reasoning tokens.
\<close>

theorem usage_conversion_exact:
  assumes "\<forall>path \<in> set ignored_usage_paths. pointer_i64 usage path = None"
    and "parse_usage usage = Some u"
  shows "parse_usage (chat_usage_to_responses usage) = Some u"
proof -
  let ?c = "chat_usage_to_responses usage"
  let ?input = "pointer_i64 usage [''prompt_tokens'']" and ?output = "pointer_i64 usage [''completion_tokens'']"
  let ?cached = "opt_or (pointer_i64 usage [''prompt_tokens_details'', ''cached_tokens'']) (pointer_i64 usage [''cached_tokens''])"
  let ?created = "opt_or (opt_or (pointer_i64 usage [''prompt_tokens_details'', ''cache_creation_tokens''])
      (pointer_i64 usage [''cache_creation_tokens''])) (pointer_i64 usage [''cached_creation_tokens''])"
  let ?reasoning = "pointer_i64 usage [''completion_tokens_details'', ''reasoning_tokens'']"
  have range: "in_i64 (unwrap_or ?input 0)" "in_i64 (unwrap_or ?output 0)" "in_i64 (unwrap_or ?cached 0)"
    "in_i64 (unwrap_or ?created 0)" "in_i64 (unwrap_or ?reasoning 0)"
    by (intro opt_in_i64)+
  note ignored = assms(1) [unfolded ignored_usage_paths_def, simplified]
  have original: "usage_number usage [[''input_tokens''], [''prompt_tokens'']] = opt_filter (\<lambda>n. 0 \<le> n) ?input"
    "usage_number usage [[''output_tokens''], [''completion_tokens'']] = opt_filter (\<lambda>n. 0 \<le> n) ?output"
    "usage_number usage cached_paths = opt_filter (\<lambda>n. 0 \<le> n) ?cached"
    "usage_number usage created_paths = opt_filter (\<lambda>n. 0 \<le> n) ?created"
    "usage_number usage reasoning_paths = opt_filter (\<lambda>n. 0 \<le> n) ?reasoning"
    unfolding usage_number_def find_map_pointer cached_paths_def created_paths_def reasoning_paths_def
    by (simp_all add: ignored opt_or_def split: option.split)
  have "\<exists>total_tokens. ?c = responses_usage (unwrap_or ?input 0) (unwrap_or ?output 0) (unwrap_or ?cached 0)
      (unwrap_or ?created 0) (unwrap_or ?reasoning 0) total_tokens"
    unfolding chat_usage_to_responses_def Let_def by blast
  then have read: "pointer_i64 ?c [''input_tokens''] = Some (unwrap_or ?input 0)"
    "pointer_i64 ?c [''output_tokens''] = Some (unwrap_or ?output 0)"
    "pointer_i64 ?c [''input_tokens_details'', ''cached_tokens''] = Some (unwrap_or ?cached 0)"
    "pointer_i64 ?c [''input_tokens_details'', ''cache_creation_tokens''] = Some (unwrap_or ?created 0)"
    "pointer_i64 ?c [''output_tokens_details'', ''reasoning_tokens''] = Some (unwrap_or ?reasoning 0)"
    using responses_usage_read range by auto
  have converted: "usage_number ?c [[''input_tokens''], [''prompt_tokens'']] = opt_filter (\<lambda>n. 0 \<le> n) (Some (unwrap_or ?input 0))"
    "usage_number ?c [[''output_tokens''], [''completion_tokens'']] = opt_filter (\<lambda>n. 0 \<le> n) (Some (unwrap_or ?output 0))"
    "usage_number ?c cached_paths = opt_filter (\<lambda>n. 0 \<le> n) (Some (unwrap_or ?cached 0))"
    "usage_number ?c created_paths = opt_filter (\<lambda>n. 0 \<le> n) (Some (unwrap_or ?created 0))"
    "usage_number ?c reasoning_paths = opt_filter (\<lambda>n. 0 \<le> n) (Some (unwrap_or ?reasoning 0))"
    unfolding usage_number_def find_map_pointer cached_paths_def created_paths_def reasoning_paths_def
    by (simp_all add: read)
  obtain i out where "opt_filter (\<lambda>n. 0 \<le> n) ?input = Some i" "opt_filter (\<lambda>n. 0 \<le> n) ?output = Some out"
    using parse_usage_numbers [OF assms(2)] unfolding original by blast
  then have i: "opt_filter (\<lambda>n. 0 \<le> n) ?input = Some i" "?input = Some i"
    and out: "opt_filter (\<lambda>n. 0 \<le> n) ?output = Some out" "?output = Some out"
    by (auto dest: opt_filter_Some)
  have "opt_filter (\<lambda>n. 0 \<le> n) (Some (unwrap_or ?input 0)) = Some i"
    "opt_filter (\<lambda>n. 0 \<le> n) (Some (unwrap_or ?output 0)) = Some out"
    using i out by (simp_all add: unwrap_or_def)
  then show ?thesis
    using assms(2) i(1) out(1) unfolding parse_usage_def original converted unwrap_nonneg by simp
qed

text \<open>
  Cached tokens that a provider reports as \<open>cache_read_input_tokens\<close> are billed at the full price
  after the conversion.
\<close>

lemma cache_read_tokens_lost:
  "let usage = JObject [(''cache_read_input_tokens'', JNumber ''90''), (''completion_tokens'', JNumber ''1''),
                        (''prompt_tokens'', JNumber ''100'')]
   in map_option u_cache_read_input_tokens (parse_usage usage) = Some 90 \<and>
      map_option u_cache_read_input_tokens (parse_usage (chat_usage_to_responses usage)) = Some 0"
  by code_simp

text \<open>A complete response with \<open>"error": null\<close> is refused; a streamed one is not (see Chat\_Stream).\<close>

lemma null_error_refused:
  "parse body = Some (JObject [(''choices'', choices), (''error'', JNull)]) \<Longrightarrow>
   chat_response_to_responses parse print blake3 body c = Inl (UpstreamError JNull)"
  by (simp add: chat_response_to_responses_def map_get_def)

section \<open>Calls and their outputs stay together\<close>

text \<open>
  The messages of a list of items, without the accumulators of the code: a maximal run of calls is
  one assistant message.
\<close>

definition item_messages :: "(json \<Rightarrow> string option) \<Rightarrow> json \<Rightarrow> json list" where
  "item_messages print item = fst (convert_item print item ([], []))"

function input_messages :: "(json \<Rightarrow> string option) \<Rightarrow> conversion_context \<Rightarrow> json list \<Rightarrow> json list" where
  "input_messages print c [] = []"
| "input_messages print c (item # items) =
     (if is_call_item item
      then calls_message (map (convert_call_input print c) (takeWhile is_call_item (item # items)))
             # input_messages print c (dropWhile is_call_item (item # items))
      else item_messages print item @ input_messages print c items)"
  by pat_completeness auto

termination
  by (relation "measure (\<lambda>(_, _, items). length items)") (auto simp: le_imp_less_Suc length_dropWhile_le)

declare input_messages.simps(2) [simp del]

lemma convert_item_messages:
  "fst (convert_item print item (messages, warnings)) = messages @ item_messages print item"
  by (auto simp: convert_item_def item_messages_def Let_def split: prod.splits)

lemma input_messages_call:
  "is_call_item item \<Longrightarrow>
   input_messages print c (item # items) =
     calls_message (convert_call_input print c item # map (convert_call_input print c) (takeWhile is_call_item items))
       # input_messages print c (dropWhile is_call_item items)"
  by (simp add: input_messages.simps(2))

lemma input_messages_other:
  "\<not> is_call_item item \<Longrightarrow>
   input_messages print c (item # items) = item_messages print item @ input_messages print c items"
  by (simp add: input_messages.simps(2))

lemma convert_items_pending:
  "fst (convert_items print c items pending (messages, warnings)) =
     messages @
     (let calls = pending @ map (convert_call_input print c) (takeWhile is_call_item items)
      in (if calls = [] then [] else [calls_message calls]) @ input_messages print c (dropWhile is_call_item items))"
proof (induction items arbitrary: pending messages warnings)
  case (Cons item items)
  show ?case
  proof (cases "is_call_item item")
    case True
    then show ?thesis using Cons.IH by (simp add: Let_def)
  next
    case False
    obtain messages' warnings' where step:
      "convert_item print item (flush_calls pending messages, warnings) = (messages', warnings')" by fastforce
    have m: "messages' = flush_calls pending messages @ item_messages print item"
      using convert_item_messages [of print item "flush_calls pending messages" warnings] step by simp
    have "fst (convert_items print c items [] (messages', warnings')) = messages' @ input_messages print c items"
      unfolding Cons.IH
      by (cases items) (auto simp: Let_def input_messages_call dropWhile_eq_self_iff)
    then show ?thesis using False step m by (simp add: input_messages_other flush_calls_def)
  qed
qed (simp add: flush_calls_def Let_def)

lemma convert_items_exact:
  "fst (convert_items print c items [] (messages, warnings)) = messages @ input_messages print c items"
  unfolding convert_items_pending by (cases items) (auto simp: Let_def input_messages_call dropWhile_eq_self_iff)

text \<open>
  What Chat Completions asks of a history: a tool message answers a call of the last assistant
  message with calls, with only other tool messages in between; \<open>ids\<close> are the calls it may answer.
\<close>

definition call_ids :: "json \<Rightarrow> string list" where
  "call_ids message =
     map (\<lambda>call. unwrap_or (get_str call ''id'') [])
       (unwrap_or (Option.bind (json_get message ''tool_calls'') as_array) [])"

fun chat_answers_ok :: "string list \<Rightarrow> json list \<Rightarrow> bool" where
  "chat_answers_ok ids [] = True"
| "chat_answers_ok ids (message # messages) =
     (if get_str message ''role'' = Some ''tool''
      then is_some_and (get_str message ''tool_call_id'') (\<lambda>i. i \<in> set ids) \<and> chat_answers_ok ids messages
      else chat_answers_ok (call_ids message) messages)"

text \<open>The same of the items: \<open>run\<close> says that the item before was a call.\<close>

definition is_output_item :: "json \<Rightarrow> bool" where
  "is_output_item item \<longleftrightarrow> item_kind item \<in> {''function_call_output'', ''custom_tool_call_output''}"

definition is_speech :: "json \<Rightarrow> bool" where
  "is_speech item \<longleftrightarrow> item_kind item = ''message'' \<or> (item_kind item = ''reasoning'' \<and> reasoning_summary_text item \<noteq> [])"

fun items_answers_ok :: "string list \<Rightarrow> bool \<Rightarrow> json list \<Rightarrow> bool" where
  "items_answers_ok ids run [] = True"
| "items_answers_ok ids run (item # items) =
     (if is_call_item item
      then items_answers_ok ((if run then ids else []) @ [call_id_of item]) True items
      else if is_output_item item then call_id_of item \<in> set ids \<and> items_answers_ok ids False items
      else if is_speech item
      then (item_kind item = ''message'' \<longrightarrow> get_str item ''role'' \<noteq> Some ''tool'') \<and> items_answers_ok [] False items
      else items_answers_ok ids False items)"

lemma call_id_chat_call [simp]: "get_str (convert_call_input print c item) ''id'' = Some (call_id_of item)"
  by (simp add: convert_call_input_def chat_call_def json_get_obj Let_def)

lemma call_ids_calls_message:
  "call_ids (calls_message (map (convert_call_input print c) items)) = map call_id_of items"
  by (simp add: call_ids_def calls_message_def json_get_obj unwrap_or_def)

lemma calls_message_role: "get_str (calls_message calls) ''role'' = Some ''assistant''"
  by (simp add: calls_message_def json_get_obj)

lemma text_message_role: "get_str (text_message role content) ''role'' = Some role" "call_ids (text_message role content) = []"
  by (simp_all add: text_message_def json_get_obj call_ids_def unwrap_or_def)

lemma text_message_id: "get_str (text_message role content) ''tool_call_id'' = None"
  by (simp add: text_message_def json_get_obj)

lemma output_messages:
  assumes "is_output_item item"
  shows "\<exists>message. item_messages print item = [message] \<and>
    get_str message ''role'' = Some ''tool'' \<and> get_str message ''tool_call_id'' = Some (call_id_of item)"
proof -
  have "item_kind item \<noteq> ''message''" "item_kind item \<in> {''function_call_output'', ''custom_tool_call_output''}"
    using assms by (auto simp: is_output_item_def)
  then show ?thesis by (simp add: item_messages_def convert_item_def Let_def json_get_obj)
qed

lemma message_messages:
  "item_kind item = ''message'' \<Longrightarrow>
   \<exists>content. item_messages print item = [text_message (unwrap_or (get_str item ''role'') ''user'') content]"
  by (cases "response_content_to_chat (or_null (json_get item ''content'')) []")
    (auto simp: item_messages_def convert_item_def Let_def)

lemma reasoning_messages:
  assumes "is_speech item" "item_kind item \<noteq> ''message''"
  shows "\<exists>content. item_messages print item = [text_message ''assistant'' content]"
proof -
  have "item_kind item = ''reasoning''" "reasoning_summary_text item \<noteq> []" using assms by (auto simp: is_speech_def)
  then show ?thesis by (auto simp: item_messages_def convert_item_def Let_def)
qed

lemma silent_messages:
  assumes "\<not> is_output_item item" "\<not> is_speech item"
  shows "item_messages print item = []"
proof -
  have "item_kind item \<noteq> ''message''" "item_kind item \<notin> {''function_call_output'', ''custom_tool_call_output''}"
    "item_kind item = ''reasoning'' \<Longrightarrow> reasoning_summary_text item = []"
    using assms unfolding is_speech_def is_output_item_def by blast+
  then show ?thesis by (simp add: item_messages_def convert_item_def Let_def)
qed

lemma items_answers_run:
  "items_answers_ok ids True items =
     items_answers_ok (ids @ map call_id_of (takeWhile is_call_item items)) False (dropWhile is_call_item items)"
proof (induction items arbitrary: ids)
  case (Cons item items)
  then show ?case by (cases "is_call_item item") simp_all
qed simp

lemma input_messages_answers:
  "chat_answers_ok ids (input_messages print c items) = items_answers_ok ids False items"
proof (induction print c items arbitrary: ids rule: input_messages.induct)
  case (2 print c item items)
  show ?case
  proof (cases "is_call_item item")
    case True
    let ?run = "item # takeWhile is_call_item items"
    have "chat_answers_ok ids (input_messages print c (item # items)) =
        chat_answers_ok (map call_id_of ?run) (input_messages print c (dropWhile is_call_item items))"
      using True call_ids_calls_message [of print c ?run]
      by (simp add: input_messages_call calls_message_role)
    also have "\<dots> = items_answers_ok (map call_id_of ?run) False (dropWhile is_call_item items)"
      using "2.IH"(1) [OF True] True by simp
    also have "\<dots> = items_answers_ok ids False (item # items)"
      using True by (simp add: items_answers_run)
    finally show ?thesis .
  next
    case False
    note IH = "2.IH"(2) [OF False]
    consider "is_output_item item" | "item_kind item = ''message''" "\<not> is_output_item item"
      | "is_speech item" "item_kind item \<noteq> ''message''" "\<not> is_output_item item"
      | "\<not> is_output_item item" "\<not> is_speech item"
      by (auto simp: is_output_item_def)
    then show ?thesis
    proof cases
      case 1
      obtain message where "item_messages print item = [message]" "get_str message ''role'' = Some ''tool''"
        "get_str message ''tool_call_id'' = Some (call_id_of item)" using output_messages [OF 1] by blast
      then show ?thesis using False 1 by (simp add: input_messages_other [OF False] IH is_some_and_def)
    next
      case 2
      obtain content where m: "item_messages print item = [text_message (unwrap_or (get_str item ''role'') ''user'') content]"
        using message_messages [OF 2(1)] by blast
      have "is_speech item" using 2 by (simp add: is_speech_def)
      then show ?thesis using False 2
        by (simp add: input_messages_other [OF False] IH m text_message_role text_message_id is_some_and_def
            unwrap_or_def split: option.split)
    next
      case 3
      obtain content where m: "item_messages print item = [text_message ''assistant'' content]"
        using reasoning_messages [OF 3(1,2)] by blast
      then show ?thesis using False 3
        by (simp add: input_messages_other [OF False] IH text_message_role)
    next
      case 4
      then show ?thesis using False
        by (simp add: input_messages_other [OF False] IH silent_messages [OF 4])
    qed
  qed
qed simp

text \<open>
  C29: A converted history is a valid Chat Completions history exactly when the client's outputs
  directly follow their calls.  In the messages of a list of input items every tool message answers a
  call of the assistant message right before it (with only tool messages between) if and only if in
  the items every output answers a call of the last uninterrupted run of calls, with only outputs and
  items that give no message in between: calls of one run share a message, and nothing is reordered.
\<close>

theorem history_answers_exact:
  "chat_answers_ok [] (fst (convert_input print c (JArray items) ([], warnings))) \<longleftrightarrow> items_answers_ok [] False items"
  by (simp add: convert_input_def convert_items_exact input_messages_answers)

text \<open>
  A reasoning item with a summary between two calls splits the run, so that the first call's output
  no longer follows its message: the converted history is not valid although the client's is.
\<close>

lemma reasoning_splits_run:
  "let call = (\<lambda>i. JObject [(''call_id'', JString i), (''type'', JString ''function_call'')]);
       answer = (\<lambda>i. JObject [(''call_id'', JString i), (''type'', JString ''function_call_output'')]);
       reasoning = JObject [(''summary'', JArray [JObject [(''text'', JString ''t'')]]), (''type'', JString ''reasoning'')]
   in \<not> items_answers_ok [] False [call ''a'', reasoning, call ''b'', answer ''a'', answer ''b''] \<and>
      items_answers_ok [] False [call ''a'', call ''b'', answer ''a'', answer ''b'']"
  by code_simp

section \<open>Concrete runs\<close>

definition wit_conversion :: "json_map \<times> conversion_context" where
  "wit_conversion = convert_request_object (\<lambda>_. Some ''X'') wit_tools ''m'' None"


definition wit_usage :: json where
  "wit_usage = JObject [(''completion_tokens'', JNumber ''5''), (''prompt_tokens'', JNumber ''100''),
     (''prompt_tokens_details'', JObject [(''cached_tokens'', JNumber ''60'')])]"

theorem usage_conversion_exact_witness:
  "map_option u_input_tokens (parse_usage (chat_usage_to_responses wit_usage)) = Some 40"
proof -
  have ignored: "\<forall>path \<in> set ignored_usage_paths. pointer_i64 wit_usage path = None" by code_simp
  have "map_option u_input_tokens (parse_usage wit_usage) = Some 40" by code_simp
  then obtain u where u: "parse_usage wit_usage = Some u" "u_input_tokens u = 40" by auto
  show ?thesis using usage_conversion_exact [OF ignored u(1)] u(2) by simp
qed

end
