(* ===== verification/Chat_Stream.thy ===== *)
theory Chat_Stream
  imports Chat_Conversion Response_Body
begin

text \<open>
  \<open>src/backend/src/responses_via_chat.rs\<close>: a streamed Chat Completions response as a stream of
  Responses events (\<open>ChatSseToResponses\<close>).  Every operation returns the events it emits, a name and
  a JSON object each, and the new state; \<open>wire\<close> is their encoding on the stream.  \<open>chat_env\<close> holds the
  JSON codec and the hash function.
\<close>

record chat_env =
  ce_parse :: "string \<Rightarrow> json option"
  ce_print :: "json \<Rightarrow> string option"
  ce_blake3 :: "string \<Rightarrow> string"

section \<open>The event-stream decoder\<close>

record chat_sse_event =
  se_event_name :: "string option"
  se_data :: string

record chat_decoder =
  cd_buffer :: string
  cd_event_name :: "string option"
  cd_data_lines :: "string list"

definition chat_decoder_new :: chat_decoder where
  "chat_decoder_new = \<lparr>cd_buffer = [], cd_event_name = None, cd_data_lines = []\<rparr>"

definition chat_dispatch :: "chat_decoder \<Rightarrow> chat_sse_event list \<times> chat_decoder" where
  "chat_dispatch d =
     (if cd_data_lines d = [] \<and> cd_event_name d = None then ([], d)
      else ([\<lparr>se_event_name = cd_event_name d, se_data = join_lf (cd_data_lines d)\<rparr>],
            d\<lparr>cd_event_name := None, cd_data_lines := []\<rparr>))"

definition split_field :: "string \<Rightarrow> string \<times> string" where
  "split_field line =
     (case position (\<lambda>c. c = CHR '':'') line of
        None \<Rightarrow> (line, [])
      | Some p \<Rightarrow> (take p line, unwrap_or (strip_prefix '' '' (drop (Suc p) line)) (drop (Suc p) line)))"

definition process_line :: "string \<Rightarrow> chat_decoder \<Rightarrow> chat_sse_event list \<times> chat_decoder" where
  "process_line line d =
     (if line = [] then chat_dispatch d
      else if hd line = CHR '':'' then ([], d)
      else (case split_field line of
              (field, v) \<Rightarrow>
                if field = ''event'' then ([], d\<lparr>cd_event_name := Some (from_utf8_lossy v)\<rparr>)
                else if field = ''data''
                then ([], d\<lparr>cd_data_lines := cd_data_lines d @ [from_utf8_lossy v]\<rparr>)
                else ([], d)))"

text \<open>The complete lines of the buffer, without their line ends, and what is left.\<close>

fun drain_lines :: "string \<Rightarrow> string \<Rightarrow> string list \<times> string" where
  "drain_lines line [] = ([], line)"
| "drain_lines line (c # s) =
     (if c = LF then (case drain_lines [] s of (lines, rest) \<Rightarrow> (strip_cr line # lines, rest))
      else drain_lines (line @ [c]) s)"

fun process_lines :: "string list \<Rightarrow> chat_decoder \<Rightarrow> chat_sse_event list \<times> chat_decoder" where
  "process_lines [] d = ([], d)"
| "process_lines (line # lines) d =
     (case process_line line d of
        (es, d') \<Rightarrow> (case process_lines lines d' of (es', d'') \<Rightarrow> (es @ es', d'')))"

text \<open>\<open>None\<close> is the error of a buffer beyond the limit.\<close>

definition chat_decoder_push :: "string \<Rightarrow> nat \<Rightarrow> chat_decoder \<Rightarrow> chat_sse_event list option \<times> chat_decoder" where
  "chat_decoder_push bytes max_bytes d =
     (let buffer = cd_buffer d @ bytes in
      if max_bytes < length buffer then (None, d\<lparr>cd_buffer := buffer\<rparr>)
      else (case drain_lines [] buffer of
              (lines, rest) \<Rightarrow>
                (case process_lines lines (d\<lparr>cd_buffer := rest\<rparr>) of (es, d') \<Rightarrow> (Some es, d'))))"

definition chat_decoder_finish :: "chat_decoder \<Rightarrow> chat_sse_event list \<times> chat_decoder" where
  "chat_decoder_finish d =
     (let (es, d1) = (if cd_buffer d = [] then ([], d) else process_line (cd_buffer d) (d\<lparr>cd_buffer := []\<rparr>));
          (es', d2) = chat_dispatch d1
      in (es @ es', d2))"

section \<open>The state of a conversion\<close>

record stream_tool =
  sl_call_id :: string
  sl_name :: string
  sl_arguments :: string
  sl_output_index :: nat
  sl_emitted :: bool
  sl_emitted_len :: nat

record chat_stream =
  cs_decoder :: chat_decoder
  cs_context :: conversion_context
  cs_max_bytes :: nat
  cs_response_id :: string
  cs_model :: json
  cs_created_at :: int
  cs_created :: bool
  cs_sequence :: int
  cs_output :: "json list"
  cs_message_index :: "nat option"
  cs_message_id :: string
  cs_text :: string
  cs_text_started :: bool
  cs_tools :: "nat \<rightharpoonup> stream_tool"
  cs_tool_order :: "nat list"
  cs_usage :: json
  cs_service_tier :: "string option"
  cs_finish_reason :: "string option"
  cs_saw_done :: bool
  cs_terminal :: bool
  cs_total_seen :: nat

definition chat_stream_new :: "chat_env \<Rightarrow> conversion_context \<Rightarrow> nat \<Rightarrow> chat_stream" where
  "chat_stream_new env c max_bytes =
     \<lparr>cs_decoder = chat_decoder_new, cs_context = c, cs_max_bytes = max max_bytes 1024,
      cs_response_id = response_id (ce_blake3 env) None, cs_model = JNull, cs_created_at = 0, cs_created = False,
      cs_sequence = 0, cs_output = [], cs_message_index = None,
      cs_message_id = ''msg_'' @ short_hash (ce_blake3 env) ''stream-message'', cs_text = [],
      cs_text_started = False, cs_tools = Map.empty, cs_tool_order = [], cs_usage = JNull, cs_service_tier = None,
      cs_finish_reason = None, cs_saw_done = False, cs_terminal = False, cs_total_seen = 0\<rparr>"

type_synonym stream_event = "string \<times> json"

text \<open>Two steps one after the other, with the events of both.\<close>

definition after ::
  "(chat_stream \<Rightarrow> stream_event list \<times> chat_stream) \<Rightarrow> (chat_stream \<Rightarrow> stream_event list \<times> chat_stream)
     \<Rightarrow> chat_stream \<Rightarrow> stream_event list \<times> chat_stream" where
  "after f g st = (case f st of (es, st1) \<Rightarrow> (case g st1 of (es', st2) \<Rightarrow> (es @ es', st2)))"

fun for_each ::
  "('a \<Rightarrow> chat_stream \<Rightarrow> stream_event list \<times> chat_stream) \<Rightarrow> 'a list \<Rightarrow> chat_stream
     \<Rightarrow> stream_event list \<times> chat_stream" where
  "for_each f [] st = ([], st)"
| "for_each f (x # xs) st = after (f x) (for_each f xs) st"

definition stream_event :: "string \<Rightarrow> (string \<times> json) list \<Rightarrow> chat_stream \<Rightarrow> stream_event list \<times> chat_stream" where
  "stream_event name members st =
     ([(name, JObject (map_insert ''sequence_number'' (json_int (cs_sequence st))
                         (map_from_list ((''type'', JString name) # members))))],
      st\<lparr>cs_sequence := i64_saturating_add (cs_sequence st) 1\<rparr>)"

definition encode_failed :: string where
  "encode_failed =
     (let q = [CHR 0x22]
      in [CHR 0x7B] @ q @ ''type'' @ q @ '':'' @ q @ ''error'' @ q @ '','' @ q @ ''code'' @ q @ '':'' @ q
         @ ''conversion_encode_failed'' @ q @ [CHR 0x7D])"

definition wire :: "chat_env \<Rightarrow> stream_event \<Rightarrow> string" where
  "wire env e =
     ''event: '' @ fst e @ [LF] @ ''data: '' @ unwrap_or (ce_print env (snd e)) encode_failed @ [LF, LF]"

definition response_snapshot :: "string \<Rightarrow> chat_stream \<Rightarrow> json" where
  "response_snapshot status st =
     json_obj
       [(''id'', JString (cs_response_id st)), (''object'', JString ''response''),
        (''created_at'', json_int (cs_created_at st)), (''status'', JString status), (''error'', JNull),
        (''incomplete_details'', or_null (incomplete_details (cs_finish_reason st))), (''model'', cs_model st),
        (''output'', JArray (cs_output st)), (''parallel_tool_calls'', JBool True), (''usage'', cs_usage st),
        (''service_tier'', json_opt JString (cs_service_tier st)), (''metadata'', JObject [])]"

section \<open>Emitting events\<close>

definition start_events :: "chat_stream \<Rightarrow> stream_event list \<times> chat_stream" where
  "start_events st0 =
     (let st = st0\<lparr>cs_created := True\<rparr>; response = response_snapshot ''in_progress'' st
      in after (stream_event ''response.created'' [(''response'', response)])
           (\<lambda>st1. stream_event ''response.in_progress'' [(''response'', response_snapshot ''in_progress'' st1)] st1) st)"

definition ensure_message :: "chat_stream \<Rightarrow> stream_event list \<times> chat_stream" where
  "ensure_message st =
     (if cs_message_index st \<noteq> None then ([], st)
      else (let output_index = length (cs_output st);
                item = message_item (cs_message_id st) ''in_progress'' []
            in stream_event ''response.output_item.added''
                 [(''output_index'', json_nat output_index), (''item'', item)]
                 (st\<lparr>cs_message_index := Some output_index, cs_output := cs_output st @ [item]\<rparr>)))"

definition start_text :: "chat_stream \<Rightarrow> stream_event list \<times> chat_stream" where
  "start_text st =
     (if cs_text_started st then ([], st)
      else stream_event ''response.content_part.added''
             [(''item_id'', JString (cs_message_id st)),
              (''output_index'', json_nat (unwrap_or (cs_message_index st) 0)), (''content_index'', json_nat 0),
              (''part'', output_text_part [])]
             (st\<lparr>cs_text_started := True\<rparr>))"

definition text_delta :: "string \<Rightarrow> chat_stream \<Rightarrow> stream_event list \<times> chat_stream" where
  "text_delta delta st =
     stream_event ''response.output_text.delta''
       [(''item_id'', JString (cs_message_id st)),
        (''output_index'', json_nat (unwrap_or (cs_message_index st) 0)), (''content_index'', json_nat 0),
        (''delta'', JString delta), (''logprobs'', JArray [])]
       (st\<lparr>cs_text := cs_text st @ delta\<rparr>)"

definition append_text :: "string \<Rightarrow> chat_stream \<Rightarrow> stream_event list \<times> chat_stream" where
  "append_text delta = after ensure_message (after start_text (text_delta delta))"

definition tool_item :: "chat_env \<Rightarrow> chat_stream \<Rightarrow> nat \<Rightarrow> stream_tool \<Rightarrow> string \<Rightarrow> json" where
  "tool_item env st index tool arguments =
     response_tool_item (ce_parse env) (ce_blake3 env)
       (json_obj [(''id'', JString (sl_call_id tool)),
                  (''function'', json_obj [(''name'', JString (sl_name tool)), (''arguments'', JString arguments)])])
       index (cs_context st)"

definition is_custom_tool :: "chat_stream \<Rightarrow> stream_tool \<Rightarrow> bool" where
  "is_custom_tool st tool \<longleftrightarrow>
     (case cc_tool_by_chat_name (cs_context st) (sl_name tool) of Some (ToolCustom _) \<Rightarrow> True | _ \<Rightarrow> False)"

definition stream_tool_item_id :: "chat_env \<Rightarrow> chat_stream \<Rightarrow> nat \<Rightarrow> stream_tool \<Rightarrow> string" where
  "stream_tool_item_id env st index tool =
     unwrap_or (get_str (tool_item env st index tool (sl_arguments tool)) ''id'') ''fc_missing''"

definition set_in_progress :: "json \<Rightarrow> json" where
  "set_in_progress item =
     (case item of JObject m \<Rightarrow> JObject (map_insert ''status'' (JString ''in_progress'') m) | _ \<Rightarrow> item)"

text \<open>The call is announced once its name and its id are known.\<close>

definition announce_tool :: "chat_env \<Rightarrow> nat \<Rightarrow> chat_stream \<Rightarrow> stream_event list \<times> chat_stream" where
  "announce_tool env index st =
     (case cs_tools st index of
        None \<Rightarrow> ([], st)
      | Some tool \<Rightarrow>
          if sl_emitted tool then ([], st)
          else (let item = set_in_progress (tool_item env st index tool [])
                in stream_event ''response.output_item.added''
                     [(''output_index'', json_nat (sl_output_index tool)), (''item'', item)]
                     (st\<lparr>cs_tools := (cs_tools st)(index \<mapsto> tool\<lparr>sl_emitted := True\<rparr>),
                         cs_output := (cs_output st)[sl_output_index tool := item]\<rparr>)))"

definition tool_delta_name :: "chat_stream \<Rightarrow> stream_tool \<Rightarrow> string" where
  "tool_delta_name st tool =
     (if is_custom_tool st tool then ''response.custom_tool_call_input.delta''
      else ''response.function_call_arguments.delta'')"

definition arguments_delta :: "chat_env \<Rightarrow> nat \<Rightarrow> chat_stream \<Rightarrow> stream_event list \<times> chat_stream" where
  "arguments_delta env index st =
     (case cs_tools st index of
        None \<Rightarrow> ([], st)
      | Some tool \<Rightarrow>
          if length (sl_arguments tool) \<le> sl_emitted_len tool then ([], st)
          else stream_event (tool_delta_name st tool)
                 [(''item_id'', JString (stream_tool_item_id env st index tool)),
                  (''output_index'', json_nat (sl_output_index tool)),
                  (''delta'', JString (drop (sl_emitted_len tool) (sl_arguments tool)))]
                 (st\<lparr>cs_tools := (cs_tools st)(index \<mapsto> tool\<lparr>sl_emitted_len := length (sl_arguments tool)\<rparr>)\<rparr>))"

definition force_tool :: "chat_env \<Rightarrow> nat \<Rightarrow> chat_stream \<Rightarrow> stream_tool \<Rightarrow> stream_tool" where
  "force_tool env index st tool =
     tool\<lparr>sl_call_id :=
            (if sl_call_id tool = []
             then ''call_'' @ short_hash (ce_blake3 env) (cs_response_id st @ '':'' @ show_nat index)
             else sl_call_id tool),
          sl_name := (if sl_name tool = [] then ''unknown_tool_'' @ show_nat index else sl_name tool)\<rparr>"

definition emit_tool :: "chat_env \<Rightarrow> nat \<Rightarrow> bool \<Rightarrow> chat_stream \<Rightarrow> stream_event list \<times> chat_stream" where
  "emit_tool env index force st =
     (case cs_tools st index of
        None \<Rightarrow> ([], st)
      | Some tool0 \<Rightarrow>
          (let tool = (if force then force_tool env index st tool0 else tool0);
               st1 = st\<lparr>cs_tools := (cs_tools st)(index \<mapsto> tool)\<rparr>
           in if sl_name tool = [] \<or> sl_call_id tool = [] then ([], st1)
              else after (announce_tool env index) (arguments_delta env index) st1))"

definition open_tool :: "nat \<Rightarrow> chat_stream \<Rightarrow> chat_stream" where
  "open_tool index st =
     (if cs_tools st index \<noteq> None then st
      else st\<lparr>cs_tool_order := cs_tool_order st @ [index],
              cs_tools := (cs_tools st)(index \<mapsto>
                \<lparr>sl_call_id = [], sl_name = [], sl_arguments = [], sl_output_index = length (cs_output st),
                 sl_emitted = False, sl_emitted_len = 0\<rparr>),
              cs_output := cs_output st @ [JNull]\<rparr>)"

definition extend_tool :: "string \<Rightarrow> string \<Rightarrow> string \<Rightarrow> stream_tool \<Rightarrow> stream_tool" where
  "extend_tool call_id name arguments tool =
     tool\<lparr>sl_call_id := sl_call_id tool @ call_id, sl_name := sl_name tool @ name,
          sl_arguments := sl_arguments tool @ arguments\<rparr>"

definition tool_delta_index :: "json \<Rightarrow> nat" where
  "tool_delta_index delta = unwrap_or (Option.bind (json_get delta ''index'') as_u64) 0"

definition pointer_str :: "json \<Rightarrow> string list \<Rightarrow> string" where
  "pointer_str v path = unwrap_or (Option.bind (json_pointer v path) as_str) []"

definition append_tool_delta :: "chat_env \<Rightarrow> json \<Rightarrow> chat_stream \<Rightarrow> stream_event list \<times> chat_stream" where
  "append_tool_delta env delta st0 =
     (let index = tool_delta_index delta; st = open_tool index st0
      in case cs_tools st index of
           None \<Rightarrow> ([], st)
         | Some tool \<Rightarrow>
             emit_tool env index False
               (st\<lparr>cs_tools := (cs_tools st)(index \<mapsto>
                  extend_tool (pointer_str delta [''id'']) (pointer_str delta [''function'', ''name''])
                    (pointer_str delta [''function'', ''arguments'']) tool)\<rparr>))"

section \<open>The end of a stream\<close>

definition finish_text :: "chat_stream \<Rightarrow> stream_event list \<times> chat_stream" where
  "finish_text st =
     (if \<not> cs_text_started st then ([], st)
      else after
        (stream_event ''response.output_text.done''
           [(''item_id'', JString (cs_message_id st)),
            (''output_index'', json_nat (unwrap_or (cs_message_index st) 0)), (''content_index'', json_nat 0),
            (''text'', JString (cs_text st)), (''logprobs'', JArray [])])
        (stream_event ''response.content_part.done''
           [(''item_id'', JString (cs_message_id st)),
            (''output_index'', json_nat (unwrap_or (cs_message_index st) 0)), (''content_index'', json_nat 0),
            (''part'', output_text_part (cs_text st))]) st)"

definition done_message :: "chat_stream \<Rightarrow> json" where
  "done_message st =
     message_item (cs_message_id st) ''completed''
       (if cs_text_started st then [output_text_part (cs_text st)] else [])"

definition finish_message :: "chat_stream \<Rightarrow> stream_event list \<times> chat_stream" where
  "finish_message st =
     (case cs_message_index st of
        None \<Rightarrow> ([], st)
      | Some output_index \<Rightarrow>
          after finish_text
            (\<lambda>st1. stream_event ''response.output_item.done''
               [(''output_index'', json_nat output_index), (''item'', done_message st1)]
               (st1\<lparr>cs_output := (cs_output st1)[output_index := done_message st1]\<rparr>)) st)"

definition finish_tool :: "chat_env \<Rightarrow> nat \<Rightarrow> chat_stream \<Rightarrow> stream_event list \<times> chat_stream" where
  "finish_tool env index st =
     (case cs_tools st index of
        None \<Rightarrow> ([], st)
      | Some tool \<Rightarrow>
          (let item = tool_item env st index tool (sl_arguments tool);
               custom = get_str item ''type'' = Some ''custom_tool_call'';
               st1 = st\<lparr>cs_output := (cs_output st)[sl_output_index tool := item]\<rparr>
           in after
                (stream_event (if custom then ''response.custom_tool_call_input.done''
                               else ''response.function_call_arguments.done'')
                   [(''item_id'', or_null (json_get item ''id'')),
                    (''output_index'', json_nat (sl_output_index tool)),
                    (if custom then ''input'' else ''arguments'',
                     or_null (json_get item (if custom then ''input'' else ''arguments'')))])
                (stream_event ''response.output_item.done''
                   [(''output_index'', json_nat (sl_output_index tool)), (''item'', item)]) st1))"

definition final_status :: "chat_stream \<Rightarrow> string" where
  "final_status st =
     (if cs_finish_reason st \<in> {Some ''length'', Some ''content_filter''} then ''incomplete'' else ''completed'')"

definition end_stream :: "chat_stream \<Rightarrow> stream_event list \<times> chat_stream" where
  "end_stream st0 =
     (let st = st0\<lparr>cs_terminal := True\<rparr>
      in stream_event ''response.completed'' [(''response'', response_snapshot (final_status st) st)] st)"

definition complete_stream :: "chat_env \<Rightarrow> chat_stream \<Rightarrow> stream_event list \<times> chat_stream" where
  "complete_stream env st =
     (if cs_terminal st then ([], st)
      else (let order = cs_tool_order st
            in after (for_each (\<lambda>index. emit_tool env index True) order)
                 (after finish_message (after (for_each (finish_tool env) order) end_stream)) st))"

definition failed_response :: "json \<Rightarrow> chat_stream \<Rightarrow> json" where
  "failed_response error st =
     json_obj
       [(''id'', JString (cs_response_id st)), (''object'', JString ''response''),
        (''created_at'', json_int (cs_created_at st)), (''status'', JString ''failed''), (''error'', error),
        (''output'', JArray (cs_output st)), (''model'', cs_model st), (''usage'', cs_usage st),
        (''service_tier'', json_opt JString (cs_service_tier st))]"

definition fail_stream :: "string \<Rightarrow> chat_stream \<Rightarrow> stream_event list \<times> chat_stream" where
  "fail_stream message st =
     (if cs_terminal st then ([], st)
      else (let code = (''code'', JString ''responses_via_chat_conversion_failed'');
                error = json_obj [(''type'', JString ''server_error''), code, (''message'', JString message)]
            in after (if cs_created st then (\<lambda>st1. ([], st1)) else start_events)
                 (after (stream_event ''error'' [code, (''message'', JString message)])
                    (\<lambda>st1. let st2 = st1\<lparr>cs_terminal := True\<rparr>
                           in stream_event ''response.failed'' [(''response'', failed_response error st2)] st2)) st))"

section \<open>Reading the upstream's stream\<close>

definition note_created :: "chat_env \<Rightarrow> json \<Rightarrow> chat_stream \<Rightarrow> chat_stream" where
  "note_created env chunk st =
     (let st1 = (case get_str chunk ''id'' of
                   None \<Rightarrow> st
                 | Some i \<Rightarrow>
                     st\<lparr>cs_response_id := response_id (ce_blake3 env) (Some i),
                        cs_message_id := ''msg_'' @ short_hash (ce_blake3 env) (response_id (ce_blake3 env) (Some i))\<rparr>)
      in st1\<lparr>cs_model := or_null (json_get chunk ''model''),
             cs_created_at := unwrap_or (pointer_i64 chunk [''created'']) 0\<rparr>)"

definition note_tier :: "json \<Rightarrow> chat_stream \<Rightarrow> chat_stream" where
  "note_tier chunk st =
     (case service_tier chunk of None \<Rightarrow> st | Some tier \<Rightarrow> st\<lparr>cs_service_tier := Some tier\<rparr>)"

definition note_usage :: "json \<Rightarrow> chat_stream \<Rightarrow> chat_stream" where
  "note_usage chunk st =
     (case json_get chunk ''usage'' of
        None \<Rightarrow> st
      | Some usage \<Rightarrow> if usage = JNull then st else st\<lparr>cs_usage := chat_usage_to_responses usage\<rparr>)"

definition note_finish :: "json \<Rightarrow> chat_stream \<Rightarrow> chat_stream" where
  "note_finish choice st =
     (case get_str choice ''finish_reason'' of None \<Rightarrow> st | Some r \<Rightarrow> st\<lparr>cs_finish_reason := Some r\<rparr>)"

definition read_delta :: "chat_env \<Rightarrow> json \<Rightarrow> chat_stream \<Rightarrow> stream_event list \<times> chat_stream" where
  "read_delta env delta =
     after (case get_str delta ''content'' of None \<Rightarrow> (\<lambda>st. ([], st)) | Some content \<Rightarrow> append_text content)
       (for_each (append_tool_delta env) (unwrap_or (Option.bind (json_get delta ''tool_calls'') as_array) []))"

definition read_choice :: "chat_env \<Rightarrow> json \<Rightarrow> chat_stream \<Rightarrow> stream_event list \<times> chat_stream" where
  "read_choice env chunk st0 =
     (let st = note_usage chunk st0 in
      case first_choice chunk of
        None \<Rightarrow> ([], st)
      | Some choice \<Rightarrow>
          (case json_get choice ''delta'' of
             Some (JObject m) \<Rightarrow> read_delta env (JObject m) (note_finish choice st)
           | _ \<Rightarrow> ([], note_finish choice st)))"

definition process_chunk :: "chat_env \<Rightarrow> json \<Rightarrow> chat_stream \<Rightarrow> stream_event list \<times> chat_stream" where
  "process_chunk env chunk st0 =
     (let st = note_tier chunk st0
      in if cs_created st then read_choice env chunk st
         else after start_events (read_choice env chunk) (note_created env chunk st))"

definition is_error_event :: "chat_sse_event \<Rightarrow> bool" where
  "is_error_event e \<longleftrightarrow>
     is_some_and (se_event_name e) (\<lambda>name. name = ''error'' \<or> ends_with ''.error'' name)"

definition process_event :: "chat_env \<Rightarrow> chat_sse_event \<Rightarrow> chat_stream \<Rightarrow> stream_event list \<times> chat_stream" where
  "process_event env e st =
     (if trim (se_data e) = ''[DONE]'' then complete_stream env (st\<lparr>cs_saw_done := True\<rparr>)
      else if is_error_event e then fail_stream (se_data e) st
      else (case ce_parse env (se_data e) of
              None \<Rightarrow> ([], st)
            | Some v \<Rightarrow>
                (case json_get v ''error'' of
                   Some error \<Rightarrow>
                     if error = JNull then process_chunk env v st
                     else fail_stream (unwrap_or (ce_print env error) []) st
                 | None \<Rightarrow> process_chunk env v st)))"

definition stream_push :: "chat_env \<Rightarrow> string \<Rightarrow> chat_stream \<Rightarrow> stream_event list \<times> chat_stream" where
  "stream_push env bytes st0 =
     (if cs_terminal st0 then ([], st0)
      else (let st = st0\<lparr>cs_total_seen := u64_saturating_add (cs_total_seen st0) (length bytes)\<rparr>
            in if cs_max_bytes st < cs_total_seen st
               then fail_stream (''SSE conversion state exceeded '' @ show_nat (cs_max_bytes st) @ '' bytes'') st
               else (case chat_decoder_push bytes (cs_max_bytes st) (cs_decoder st) of
                       (None, d) \<Rightarrow>
                         fail_stream (''SSE conversion buffer exceeded '' @ show_nat (cs_max_bytes st) @ '' bytes'')
                           (st\<lparr>cs_decoder := d\<rparr>)
                     | (Some es, d) \<Rightarrow> for_each (process_event env) es (st\<lparr>cs_decoder := d\<rparr>))))"

definition stream_finish :: "chat_env \<Rightarrow> chat_stream \<Rightarrow> stream_event list \<times> chat_stream" where
  "stream_finish env st =
     (if cs_terminal st then ([], st)
      else (case chat_decoder_finish (cs_decoder st) of
              (es, d) \<Rightarrow>
                after (for_each (process_event env) es)
                  (\<lambda>st1. if cs_terminal st1 then ([], st1)
                         else if cs_saw_done st1 then complete_stream env st1
                         else fail_stream ''upstream Chat Completions stream ended before [DONE]'' st1)
                  (st\<lparr>cs_decoder := d\<rparr>)))"

text \<open>\<open>ConvertedSseBody::poll_frame\<close> of proxy.rs: the converted body, from the frames of the upstream's.\<close>

fun converted_body :: "chat_env \<Rightarrow> body_item list \<Rightarrow> chat_stream \<Rightarrow> stream_event list \<times> chat_stream" where
  "converted_body env [] = stream_finish env"
| "converted_body env (Data bytes # frames) = after (stream_push env bytes) (converted_body env frames)"
| "converted_body env (Trailers # frames) = converted_body env frames"
| "converted_body env (Broken message # frames) = fail_stream (''upstream stream interrupted: '' @ message)"

datatype stream_op = Push string | Finish | FailWith string

fun run_op :: "chat_env \<Rightarrow> stream_op \<Rightarrow> chat_stream \<Rightarrow> stream_event list \<times> chat_stream" where
  "run_op env (Push bytes) = stream_push env bytes"
| "run_op env Finish = stream_finish env"
| "run_op env (FailWith message) = fail_stream message"

section \<open>Reasoning about steps\<close>

text \<open>
  \<open>hoare P f Q\<close>: from a trace of events and a state with \<open>P\<close>, the step \<open>f\<close> leads to a longer trace
  and a state with \<open>Q\<close>.
\<close>

type_synonym stream_pred = "stream_event list \<Rightarrow> chat_stream \<Rightarrow> bool"

definition hoare :: "stream_pred \<Rightarrow> (chat_stream \<Rightarrow> stream_event list \<times> chat_stream) \<Rightarrow> stream_pred \<Rightarrow> bool" where
  "hoare P f Q \<longleftrightarrow> (\<forall>tr st. P tr st \<longrightarrow> Q (tr @ fst (f st)) (snd (f st)))"

abbreviation keeps :: "stream_pred \<Rightarrow> (chat_stream \<Rightarrow> stream_event list \<times> chat_stream) \<Rightarrow> bool" where
  "keeps P f \<equiv> hoare P f P"

lemma hoareI: "(\<And>tr st. P tr st \<Longrightarrow> Q (tr @ fst (f st)) (snd (f st))) \<Longrightarrow> hoare P f Q"
  by (simp add: hoare_def)

lemma hoareD: "hoare P f Q \<Longrightarrow> P tr st \<Longrightarrow> Q (tr @ fst (f st)) (snd (f st))"
  by (simp add: hoare_def)

lemma after_result: "fst (after f g st) = fst (f st) @ fst (g (snd (f st)))" "snd (after f g st) = snd (g (snd (f st)))"
  by (simp_all add: after_def split_beta)

lemma after_skip: "after (\<lambda>st. ([], st)) g = g" "after (Pair []) g = g"
  by (simp_all add: fun_eq_iff after_def split_beta)

lemma hoare_after: "hoare P f Q \<Longrightarrow> hoare Q g R \<Longrightarrow> hoare P (after f g) R"
  by (simp add: hoare_def after_result flip: append_assoc)

lemma hoare_state: "hoare P f Q \<Longrightarrow> (\<And>tr st. P' tr st \<Longrightarrow> P tr (h st)) \<Longrightarrow> hoare P' (\<lambda>st. f (h st)) Q"
  by (simp add: hoare_def)

lemma keeps_skip [simp]: "keeps P (\<lambda>st. ([], st))" "keeps P (Pair [])"
  by (simp_all add: hoare_def)

lemma keeps_for_each: "(\<And>x. x \<in> set xs \<Longrightarrow> keeps P (f x)) \<Longrightarrow> keeps P (for_each f xs)"
proof (induction xs)
  case (Cons x xs)
  then have "keeps P (f x)" "keeps P (for_each f xs)" by auto
  from hoare_after [OF this] show ?case by (simp add: hoare_def)
qed (simp add: hoare_def)

lemma stream_event_result:
  "fst (stream_event name members st) =
     [(name, JObject (map_insert ''sequence_number'' (json_int (cs_sequence st))
               (map_from_list ((''type'', JString name) # members))))]"
  "snd (stream_event name members st) = st\<lparr>cs_sequence := i64_saturating_add (cs_sequence st) 1\<rparr>"
  by (simp_all add: stream_event_def)

lemma event_member:
  "map_get (map_insert ''sequence_number'' s (map_from_list ((''type'', t) # members))) k =
     (if k = ''sequence_number'' then Some s
      else (case map_of (rev members) k of Some v \<Rightarrow> Some v | None \<Rightarrow> if k = ''type'' then Some t else None))"
  by (simp add: map_get_insert map_get_from_list map_add_def split: option.splits)

section \<open>Events are numbered, and one ends the stream\<close>

definition sequence_of :: "stream_event \<Rightarrow> json option" where
  "sequence_of e = json_get (snd e) ''sequence_number''"

text \<open>The number of an event is its position (the largest i64 from there on).\<close>

definition position_number :: "nat \<Rightarrow> int" where
  "position_number k = min (int k) i64_max"

definition numbered :: stream_pred where
  "numbered tr st \<longleftrightarrow>
     cs_sequence st = position_number (length tr) \<and>
     map sequence_of tr = map (\<lambda>k. Some (json_int (position_number k))) [0..<length tr]"

definition terminal_events :: "stream_event list \<Rightarrow> stream_event list" where
  "terminal_events tr = filter (\<lambda>e. fst e \<in> {''response.completed'', ''response.failed''}) tr"

definition ended_once :: stream_pred where
  "ended_once tr st \<longleftrightarrow> length (terminal_events tr) = (if cs_terminal st then 1 else 0)"

definition orderly :: stream_pred where
  "orderly tr st \<longleftrightarrow> numbered tr st \<and> ended_once tr st"

definition still_open :: stream_pred where
  "still_open tr st \<longleftrightarrow> orderly tr st \<and> \<not> cs_terminal st"

lemma position_number_Suc: "i64_saturating_add (position_number k) 1 = position_number (Suc k)"
  by (simp add: position_number_def i64_saturating_add_def sat_i64_def i64_max_def i64_min_def)

text \<open>A step that emits through \<open>stream_event\<close> and leaves the numbers and the end of the stream alone.\<close>

lemma orderly_event:
  assumes "name \<notin> {''response.completed'', ''response.failed''}"
  shows "keeps orderly (stream_event name members)" "keeps still_open (stream_event name members)"
  using assms
  by (auto intro!: hoareI simp: orderly_def still_open_def numbered_def ended_once_def terminal_events_def
      stream_event_result position_number_Suc sequence_of_def event_member)

lemma terminal_event:
  assumes "name \<in> {''response.completed'', ''response.failed''}"
  shows "hoare still_open (\<lambda>st. stream_event name (members st) (st\<lparr>cs_terminal := True\<rparr>)) orderly"
  using assms
  by (auto intro!: hoareI simp: orderly_def still_open_def numbered_def ended_once_def terminal_events_def
      stream_event_result position_number_Suc sequence_of_def event_member)

definition quiet :: "chat_stream \<Rightarrow> stream_event list \<times> chat_stream \<Rightarrow> bool" where
  "quiet st r \<longleftrightarrow>
     (\<forall>tr. orderly tr st \<longrightarrow> orderly (tr @ fst r) (snd r)) \<and> cs_terminal (snd r) = cs_terminal st"

lemma same_orderly:
  "cs_sequence st' = cs_sequence st \<Longrightarrow> cs_terminal st' = cs_terminal st \<Longrightarrow> orderly tr st' = orderly tr st"
  by (simp add: orderly_def numbered_def ended_once_def)

lemma quiet_skip: "cs_sequence st' = cs_sequence st \<Longrightarrow> cs_terminal st' = cs_terminal st \<Longrightarrow> quiet st ([], st')"
  using same_orderly [of st' st] by (simp add: quiet_def)

lemma quiet_from:
  "quiet st' r \<Longrightarrow> cs_sequence st' = cs_sequence st \<Longrightarrow> cs_terminal st' = cs_terminal st \<Longrightarrow> quiet st r"
  using same_orderly [of st' st] by (simp add: quiet_def)

lemma quiet_event:
  assumes "name \<notin> {''response.completed'', ''response.failed''}"
    and "cs_sequence st' = cs_sequence st" "cs_terminal st' = cs_terminal st"
  shows "quiet st (stream_event name members st')"
  using hoareD [OF orderly_event(1) [OF assms(1)], of _ st' members] same_orderly [OF assms(2,3)] assms(2,3)
  unfolding quiet_def by (simp add: stream_event_result(2))

lemma quiet_after: "quiet st (f st) \<Longrightarrow> (\<And>st'. quiet st' (g st')) \<Longrightarrow> quiet st (after f g st)"
  by (simp add: quiet_def after_result flip: append_assoc)

lemma quiet_for_each: "(\<And>x st. quiet st (f x st)) \<Longrightarrow> quiet st (for_each f xs st)"
  by (induction xs arbitrary: st) (auto simp: quiet_skip intro: quiet_after)

lemmas quiet_rules = quiet_skip quiet_event quiet_after quiet_for_each

lemma quiet_text: "quiet st (append_text delta st)"
  unfolding append_text_def
  by (intro quiet_after) (auto simp: ensure_message_def start_text_def text_delta_def Let_def quiet_skip quiet_event)

lemma quiet_emit_tool: "quiet st (emit_tool env index force st)"
proof -
  have "quiet st' (announce_tool env index st')" "quiet st' (arguments_delta env index st')" for st'
    by (auto simp: announce_tool_def arguments_delta_def tool_delta_name_def Let_def quiet_skip quiet_event
        split: option.split)
  then have "quiet st' (after (announce_tool env index) (arguments_delta env index) st')" for st'
    by (intro quiet_after)
  from quiet_from [OF this] show ?thesis
    by (auto simp: emit_tool_def Let_def quiet_skip split: option.split)
qed

lemma open_tool_same [simp]:
  "cs_sequence (open_tool index st) = cs_sequence st" "cs_terminal (open_tool index st) = cs_terminal st"
  by (simp_all add: open_tool_def)

lemma quiet_tool_delta: "quiet st (append_tool_delta env delta st)"
  unfolding append_tool_delta_def Let_def
  by (auto intro: quiet_skip quiet_from [OF quiet_emit_tool] split: option.split)

lemma note_same [simp]:
  "cs_sequence (note_created env chunk st) = cs_sequence st" "cs_terminal (note_created env chunk st) = cs_terminal st"
  "cs_sequence (note_tier chunk st) = cs_sequence st" "cs_terminal (note_tier chunk st) = cs_terminal st"
  "cs_sequence (note_usage chunk st) = cs_sequence st" "cs_terminal (note_usage chunk st) = cs_terminal st"
  "cs_sequence (note_finish chunk st) = cs_sequence st" "cs_terminal (note_finish chunk st) = cs_terminal st"
  by (simp_all add: note_created_def note_tier_def note_usage_def note_finish_def Let_def split: option.split)

lemma quiet_start: "quiet st (start_events st)"
proof -
  have "quiet (st\<lparr>cs_created := True\<rparr>) (start_events st)"
    unfolding start_events_def Let_def by (intro quiet_after) (auto intro: quiet_event)
  then show ?thesis by (rule quiet_from) auto
qed

lemma quiet_read_delta: "quiet st (read_delta env delta st)"
  unfolding read_delta_def
  by (intro quiet_after) (auto intro: quiet_skip quiet_text quiet_for_each quiet_tool_delta split: option.split)

lemma quiet_chunk: "quiet st (process_chunk env chunk st)"
proof -
  have choice: "quiet st' (read_choice env chunk st')" for st'
    unfolding read_choice_def Let_def
    by (auto intro: quiet_skip quiet_from [OF quiet_read_delta] split: option.split json.split)
  have first: "quiet st' (after start_events (read_choice env chunk) st')" for st'
    by (intro quiet_after quiet_start choice)
  show ?thesis
    unfolding process_chunk_def Let_def by (auto intro: quiet_from [OF choice] quiet_from [OF first])
qed

lemma quiet_finishes:
  "quiet st (finish_message st)" "quiet st (finish_tool env index st)"
proof -
  have "quiet st' (finish_text st')" for st'
    unfolding finish_text_def by (auto intro!: quiet_skip quiet_after quiet_event)
  then show "quiet st (finish_message st)"
    unfolding finish_message_def by (auto intro!: quiet_skip quiet_after quiet_event split: option.split)
  have "quiet (st\<lparr>cs_output := out\<rparr>) (after (stream_event a ms) (stream_event b ms') (st\<lparr>cs_output := out\<rparr>))"
    if "a \<notin> {''response.completed'', ''response.failed''}" "b \<notin> {''response.completed'', ''response.failed''}"
    for out a b ms ms'
    using that by (intro quiet_after) (auto intro: quiet_event)
  from quiet_from [OF this] show "quiet st (finish_tool env index st)"
    unfolding finish_tool_def Let_def by (auto intro: quiet_skip split: option.split)
qed

text \<open>The two ends of a stream.\<close>

lemma quietD: "quiet st (f st) \<Longrightarrow> still_open tr st \<Longrightarrow> still_open (tr @ fst (f st)) (snd (f st))"
  by (simp add: quiet_def still_open_def)

lemma hoare_quiet: "(\<And>st. quiet st (f st)) \<Longrightarrow> keeps still_open f"
  using quietD by (auto simp: hoare_def)

lemma complete_orderly:
  assumes "orderly tr st"
  shows "orderly (tr @ fst (complete_stream env st)) (snd (complete_stream env st)) \<and>
    cs_terminal (snd (complete_stream env st))"
proof (cases "cs_terminal st")
  case True
  then show ?thesis using assms by (simp add: complete_stream_def)
next
  case False
  have "hoare still_open end_stream (\<lambda>tr st. orderly tr st \<and> cs_terminal st)"
    using hoareD [OF terminal_event, of "''response.completed''"]
    by (auto intro!: hoareI simp: end_stream_def Let_def stream_event_result(2))
  moreover have "keeps still_open (for_each (finish_tool env) order)" for order
    by (intro hoare_quiet quiet_for_each quiet_finishes)
  moreover have "keeps still_open finish_message" by (intro hoare_quiet quiet_finishes)
  moreover have "keeps still_open (for_each (\<lambda>index. emit_tool env index True) order)" for order
    by (intro hoare_quiet quiet_for_each quiet_emit_tool)
  ultimately have "hoare still_open
      (after (for_each (\<lambda>index. emit_tool env index True) order)
         (after finish_message (after (for_each (finish_tool env) order) end_stream)))
      (\<lambda>tr st. orderly tr st \<and> cs_terminal st)" for order
    by (intro hoare_after)
  from hoareD [OF this] assms False show ?thesis
    by (simp add: complete_stream_def Let_def still_open_def)
qed

lemma fail_orderly:
  assumes "orderly tr st"
  shows "orderly (tr @ fst (fail_stream message st)) (snd (fail_stream message st)) \<and>
    cs_terminal (snd (fail_stream message st))"
proof (cases "cs_terminal st")
  case True
  then show ?thesis using assms by (simp add: fail_stream_def)
next
  case False
  have last: "hoare still_open (\<lambda>st1. stream_event ''response.failed'' (ms st1) (st1\<lparr>cs_terminal := True\<rparr>))
      (\<lambda>tr st. orderly tr st \<and> cs_terminal st)" for ms
    using hoareD [OF terminal_event, of "''response.failed''"]
    by (auto intro!: hoareI simp: stream_event_result(2))
  have "keeps still_open (stream_event ''error'' ms)" for ms by (rule orderly_event(2)) simp
  from hoare_after [OF this last] have tail: "hoare still_open
      (after (stream_event ''error'' ms) (\<lambda>st1. stream_event ''response.failed'' (ms' st1) (st1\<lparr>cs_terminal := True\<rparr>)))
      (\<lambda>tr st. orderly tr st \<and> cs_terminal st)" for ms ms' .
  have "keeps still_open start_events" by (intro hoare_quiet quiet_start)
  note whole = hoare_after [OF this tail]
  have "still_open tr st" using assms False by (simp add: still_open_def)
  note run = hoareD [OF tail this] hoareD [OF whole this]
  show ?thesis
  proof (cases "cs_created st")
    case True
    show ?thesis unfolding fail_stream_def Let_def using True False by (simp add: after_skip) (rule run(1))
  next
    case False
    show ?thesis unfolding fail_stream_def Let_def using False \<open>\<not> cs_terminal st\<close> by simp (rule run(2))
  qed
qed

lemma orderly_event_step:
  "orderly tr st \<Longrightarrow> orderly (tr @ fst (process_event env e st)) (snd (process_event env e st))"
proof -
  assume o: "orderly tr st"
  have "orderly (tr @ fst (process_chunk env v st)) (snd (process_chunk env v st))" for v
    using quiet_chunk [of st env v] o by (simp add: quiet_def)
  moreover have "orderly tr (st\<lparr>cs_saw_done := True\<rparr>)" using o by (simp add: orderly_def numbered_def ended_once_def)
  ultimately show ?thesis
    using complete_orderly [of tr "st\<lparr>cs_saw_done := True\<rparr>" env] fail_orderly [OF o] o
    by (auto simp: process_event_def split: option.split)
qed

lemma new_orderly: "orderly [] (chat_stream_new env c max_bytes)"
  by (simp add: orderly_def numbered_def ended_once_def chat_stream_new_def terminal_events_def position_number_def
      i64_max_def)

lemma orderly_events:
  "orderly tr st \<Longrightarrow> orderly (tr @ fst (for_each (process_event env) es st)) (snd (for_each (process_event env) es st))"
  using hoareD [OF keeps_for_each, of es orderly "process_event env"] orderly_event_step
  by (simp add: hoare_def)

lemma push_orderly:
  assumes "orderly tr st"
  shows "orderly (tr @ fst (stream_push env bytes st)) (snd (stream_push env bytes st))"
proof -
  have o: "orderly tr (st\<lparr>cs_total_seen := n\<rparr>)" "orderly tr (st\<lparr>cs_total_seen := n, cs_decoder := d\<rparr>)" for n d
    using assms same_orderly [of "st\<lparr>cs_total_seen := n\<rparr>" st] same_orderly [of "st\<lparr>cs_total_seen := n, cs_decoder := d\<rparr>" st]
    by auto
  show ?thesis
    using assms o fail_orderly [OF o(1)] fail_orderly [OF o(2)] orderly_events [OF o(2)]
    by (auto simp: stream_push_def Let_def split: prod.splits option.splits)
qed

lemma finish_orderly:
  assumes "orderly tr st"
  shows "orderly (tr @ fst (stream_finish env st)) (snd (stream_finish env st)) \<and>
    cs_terminal (snd (stream_finish env st))"
proof (cases "cs_terminal st")
  case True
  then show ?thesis using assms by (simp add: stream_finish_def)
next
  case False
  obtain es d where d: "chat_decoder_finish (cs_decoder st) = (es, d)" by fastforce
  let ?st = "st\<lparr>cs_decoder := d\<rparr>"
  have "orderly tr ?st" using assms same_orderly [of ?st st] by auto
  note read = orderly_events [OF this, of env es]
  show ?thesis
    using False complete_orderly [OF read] fail_orderly [OF read] read
    by (auto simp: stream_finish_def d after_result)
qed

lemma body_orderly:
  "orderly tr st \<Longrightarrow> orderly (tr @ fst (converted_body env frames st)) (snd (converted_body env frames st)) \<and>
     cs_terminal (snd (converted_body env frames st))"
proof (induction env frames arbitrary: tr st rule: converted_body.induct)
  case (2 env bytes frames)
  show ?case
    using "2.IH" [OF push_orderly [OF "2.prems"], of env bytes] by (simp add: after_result)
qed (auto simp: finish_orderly fail_orderly)

text \<open>
  C18: A converted stream is numbered without gaps and ends exactly once.  Whatever frames the upstream
  sends and however its body ends (in the middle of a line, without an end marker, with a transport
  error, beyond the size limit), the events for the client carry the numbers 0, 1, 2, \<dots> in order, and
  exactly one of them is \<open>response.completed\<close> or \<open>response.failed\<close>.
\<close>

theorem stream_ends_once:
  "let events = fst (converted_body env frames (chat_stream_new env c max_bytes))
   in length (terminal_events events) = 1 \<and>
      map sequence_of events = map (\<lambda>k. Some (json_int (position_number k))) [0..<length events]"
  using body_orderly [OF new_orderly, of env frames env c max_bytes]
  by (simp add: Let_def orderly_def numbered_def ended_once_def)

text \<open>
  The end is not always the last event: what follows the end marker in the same push is still
  converted, so a client sees events after \<open>response.completed\<close>, and without a chunk before the marker
  the stream is completed before it was created.
\<close>

definition wit_chunk :: json where
  "wit_chunk = JObject [(''choices'', JArray [JObject [(''delta'', JObject [(''content'', JString ''hi'')])]])]"

definition wit_env :: chat_env where
  "wit_env = \<lparr>ce_parse = (\<lambda>s. if s = ''A'' then Some wit_chunk else None), ce_print = (\<lambda>_. None), ce_blake3 = id\<rparr>"

lemma trim_done: "trim ''[DONE]'' = ''[DONE]''" "trim ''A'' = ''A''"
  by code_simp+

lemma events_after_end:
  "map fst (fst (for_each (process_event wit_env)
      [\<lparr>se_event_name = None, se_data = ''[DONE]''\<rparr>, \<lparr>se_event_name = None, se_data = ''A''\<rparr>]
      (chat_stream_new wit_env context_default 4096))) =
   [''response.completed'', ''response.created'', ''response.in_progress'', ''response.output_item.added'',
    ''response.content_part.added'', ''response.output_text.delta'']"
proof -
  let ?st = "chat_stream_new wit_env context_default 4096"
  have chunk: "first_choice wit_chunk = Some (JObject [(''delta'', JObject [(''content'', JString ''hi'')])])"
    "json_get wit_chunk ''error'' = None" "json_get wit_chunk ''usage'' = None" "service_tier wit_chunk = None"
    "get_str wit_chunk ''id'' = None"
    by (simp_all add: wit_chunk_def first_choice_def map_get_def service_tier_def opt_or_def)
  note step = process_event_def trim_done is_error_event_def is_some_and_def after_def Let_def
  have "fst (process_event wit_env \<lparr>se_event_name = None, se_data = ''[DONE]''\<rparr> ?st) =
      fst (end_stream (?st\<lparr>cs_saw_done := True\<rparr>))"
    "snd (process_event wit_env \<lparr>se_event_name = None, se_data = ''[DONE]''\<rparr> ?st) =
      snd (end_stream (?st\<lparr>cs_saw_done := True\<rparr>))"
    by (simp_all add: step complete_stream_def chat_stream_new_def finish_message_def split_beta)
  moreover have "map fst (fst (process_event wit_env \<lparr>se_event_name = None, se_data = ''A''\<rparr> st)) =
      [''response.created'', ''response.in_progress'', ''response.output_item.added'',
       ''response.content_part.added'', ''response.output_text.delta'']"
    if "\<not> cs_created st" "cs_message_index st = None" "\<not> cs_text_started st" for st
    using that chunk
    by (simp add: step wit_env_def process_chunk_def note_created_def note_tier_def note_usage_def read_choice_def
        note_finish_def read_delta_def start_events_def append_text_def ensure_message_def start_text_def text_delta_def
        stream_event_def map_get_def unwrap_or_def split_beta)
  ultimately show ?thesis
    by (simp add: after_result end_stream_def stream_event_result chat_stream_new_def Let_def)
qed

end
