(* ===== verification/Chat_Delivery.thy ===== *)
theory Chat_Delivery
  imports Chat_Stream
begin

text \<open>
  What a converted stream (Chat\_Stream) delivers: the text and the arguments of the upstream, in the
  deltas and again in the items of the final response; and that the gateway's own decoder
  (Response\_Events) reads from the converted bytes exactly the events that were emitted.
\<close>

section \<open>Nothing of the content is lost\<close>

definition text_delta_of :: "stream_event \<Rightarrow> string" where
  "text_delta_of e =
     (if fst e = ''response.output_text.delta'' then unwrap_or (get_str (snd e) ''delta'') [] else [])"

definition text_deltas :: "stream_event list \<Rightarrow> string" where
  "text_deltas tr = concat (map text_delta_of tr)"

definition argument_events :: "string list" where
  "argument_events = [''response.custom_tool_call_input.delta'', ''response.function_call_arguments.delta'']"

definition argument_delta_of :: "nat \<Rightarrow> stream_event \<Rightarrow> string" where
  "argument_delta_of i e =
     (if fst e \<in> set argument_events \<and> json_get (snd e) ''output_index'' = Some (json_nat i)
      then unwrap_or (get_str (snd e) ''delta'') [] else [])"

definition argument_deltas :: "nat \<Rightarrow> stream_event list \<Rightarrow> string" where
  "argument_deltas i tr = concat (map (argument_delta_of i) tr)"

lemma deltas_append [simp]:
  "text_deltas (tr @ es) = text_deltas tr @ text_deltas es"
  "argument_deltas i (tr @ es) = argument_deltas i tr @ argument_deltas i es"
  "text_deltas [] = []" "argument_deltas i [] = []"
  by (simp_all add: text_deltas_def argument_deltas_def)

text \<open>The owners of the slots of the output: the message and the tools, in the order they appeared.\<close>

definition tool_slot :: "chat_stream \<Rightarrow> nat \<Rightarrow> nat" where
  "tool_slot st index = (case cs_tools st index of None \<Rightarrow> 0 | Some tool \<Rightarrow> sl_output_index tool)"

definition owners :: "chat_stream \<Rightarrow> nat list" where
  "owners st = (case cs_message_index st of None \<Rightarrow> [] | Some i \<Rightarrow> [i]) @ map (tool_slot st) (cs_tool_order st)"

definition slots_ok :: "chat_stream \<Rightarrow> bool" where
  "slots_ok st \<longleftrightarrow>
     distinct (cs_tool_order st) \<and> set (cs_tool_order st) = dom (cs_tools st) \<and>
     distinct (owners st) \<and> set (owners st) = {..<length (cs_output st)}"

definition tool_ok :: "stream_event list \<Rightarrow> stream_tool \<Rightarrow> bool" where
  "tool_ok tr tool \<longleftrightarrow>
     sl_emitted_len tool \<le> length (sl_arguments tool) \<and>
     argument_deltas (sl_output_index tool) tr = take (sl_emitted_len tool) (sl_arguments tool)"

definition faithful :: stream_pred where
  "faithful tr st \<longleftrightarrow>
     text_deltas tr = cs_text st \<and>
     (cs_text_started st \<longrightarrow> cs_message_index st \<noteq> None) \<and> (\<not> cs_text_started st \<longrightarrow> cs_text st = []) \<and>
     slots_ok st \<and> (\<forall>tool \<in> ran (cs_tools st). tool_ok tr tool) \<and>
     (\<forall>i. i \<notin> tool_slot st ` set (cs_tool_order st) \<longrightarrow> argument_deltas i tr = [])"

text \<open>Steps that emit no delta and leave this view of the state alone.\<close>

definition view :: "chat_stream \<Rightarrow> string \<times> bool \<times> nat option \<times> (nat \<rightharpoonup> stream_tool) \<times> nat list \<times> nat" where
  "view st = (cs_text st, cs_text_started st, cs_message_index st, cs_tools st, cs_tool_order st, length (cs_output st))"

definition no_delta :: "string \<Rightarrow> bool" where
  "no_delta name \<longleftrightarrow> name \<noteq> ''response.output_text.delta'' \<and> name \<notin> set argument_events"

definition silent :: "chat_stream \<Rightarrow> stream_event list \<times> chat_stream \<Rightarrow> bool" where
  "silent st r \<longleftrightarrow> view (snd r) = view st \<and> (\<forall>e \<in> set (fst r). no_delta (fst e))"

lemma no_delta_text: "\<forall>e \<in> set es. no_delta (fst e) \<Longrightarrow> text_deltas es = [] \<and> argument_deltas i es = []"
  by (induction es) (auto simp: text_deltas_def argument_deltas_def text_delta_of_def argument_delta_of_def no_delta_def)

lemma faithful_view: "view st' = view st \<Longrightarrow> faithful tr st' = faithful tr st"
  by (simp add: faithful_def view_def slots_ok_def owners_def tool_slot_def [abs_def])

lemma tool_ok_extend: "argument_deltas (sl_output_index tool) es = [] \<Longrightarrow> tool_ok (tr @ es) tool = tool_ok tr tool"
  by (simp add: tool_ok_def)

lemma faithful_no_delta:
  assumes "\<forall>e \<in> set es. no_delta (fst e)"
  shows "faithful (tr @ es) st = faithful tr st"
  using no_delta_text [OF assms] by (simp add: faithful_def tool_ok_def)

lemma silent_faithful: "silent st r \<Longrightarrow> faithful tr st \<Longrightarrow> faithful (tr @ fst r) (snd r)"
  using faithful_no_delta [of "fst r" tr "snd r"] faithful_view [of "snd r" st] by (auto simp: silent_def)

lemma silent_event: "no_delta name \<Longrightarrow> view st' = view st \<Longrightarrow> silent st (stream_event name members st')"
  by (simp add: silent_def stream_event_result view_def)

lemma faithful_event:
  "no_delta name \<Longrightarrow> faithful tr st \<Longrightarrow>
   faithful (tr @ fst (stream_event name members st)) (snd (stream_event name members st))"
  by (rule silent_faithful [OF silent_event]) simp_all

lemma silent_skip: "view st' = view st \<Longrightarrow> silent st ([], st')"
  by (simp add: silent_def)

lemma silent_after: "silent st (f st) \<Longrightarrow> (\<And>st'. silent st' (g st')) \<Longrightarrow> silent st (after f g st)"
  by (auto simp: silent_def after_result)

lemma silent_from: "silent st' r \<Longrightarrow> view st' = view st \<Longrightarrow> silent st r"
  by (simp add: silent_def)

lemma silent_start: "silent st (start_events st)"
proof -
  have "silent (st\<lparr>cs_created := True\<rparr>) (start_events st)"
    unfolding start_events_def Let_def
    by (intro silent_after) (auto intro!: silent_event simp: no_delta_def argument_events_def)
  then show ?thesis by (rule silent_from) (simp add: view_def)
qed

lemma silent_finishes:
  "silent st (finish_message st)" "silent st (finish_tool env index st)" "silent st (end_stream st)"
  "silent st (fail_stream message st)"
proof -
  have "silent st' (finish_text st')" for st'
    unfolding finish_text_def
    by (auto intro!: silent_skip silent_after silent_event simp: no_delta_def argument_events_def)
  then show "silent st (finish_message st)"
    unfolding finish_message_def
    by (auto intro!: silent_skip silent_after silent_event simp: no_delta_def argument_events_def view_def split: option.split)
  have "silent (st\<lparr>cs_output := out\<rparr>) (after (stream_event a ms) (stream_event b ms') (st\<lparr>cs_output := out\<rparr>))"
    if "no_delta a" "no_delta b" for out a b ms ms'
    using that by (intro silent_after) (auto intro: silent_event)
  from silent_from [OF this] show "silent st (finish_tool env index st)"
    unfolding finish_tool_def Let_def
    by (auto intro!: silent_skip simp: no_delta_def argument_events_def view_def split: option.split)
  show "silent st (end_stream st)"
    unfolding end_stream_def Let_def by (rule silent_event) (simp_all add: no_delta_def argument_events_def view_def)
  have tail: "silent st' (after (stream_event ''error'' ms)
      (\<lambda>st1. stream_event ''response.failed'' (ms' st1) (st1\<lparr>cs_terminal := True\<rparr>)) st')" for ms ms' st'
    by (intro silent_after) (auto intro!: silent_event simp: no_delta_def argument_events_def view_def)
  show "silent st (fail_stream message st)"
  proof (cases "cs_terminal st \<or> cs_created st")
    case True
    then show ?thesis unfolding fail_stream_def Let_def by (auto simp: after_skip intro: silent_skip tail)
  next
    case False
    then show ?thesis unfolding fail_stream_def Let_def by simp (intro silent_after silent_start tail)
  qed
qed

lemma view_notes [simp]:
  "view (note_created env chunk st) = view st" "view (note_tier chunk st) = view st"
  "view (note_usage chunk st) = view st" "view (note_finish chunk st) = view st"
  by (simp_all add: view_def note_created_def note_tier_def note_usage_def note_finish_def Let_def split: option.split)

text \<open>The steps that do emit deltas, or open a slot.\<close>

lemma event_delta:
  "json_get (snd (name, JObject (map_insert ''sequence_number'' s (map_from_list ((''type'', t) # members))))) k =
     (if k = ''sequence_number'' then Some s
      else (case map_of (rev members) k of Some v \<Rightarrow> Some v | None \<Rightarrow> if k = ''type'' then Some t else None))"
  by (simp add: event_member)

lemma json_nat_inj [simp]: "json_nat m = json_nat n \<longleftrightarrow> m = n"
  by (auto simp: json_nat_def dest: show_nat_inj)

lemma text_delta_deltas:
  "text_deltas (fst (text_delta delta st)) = delta" "argument_deltas i (fst (text_delta delta st)) = []"
  by (simp_all add: text_deltas_def argument_deltas_def text_delta_def text_delta_of_def argument_delta_of_def
      stream_event_result event_member argument_events_def unwrap_or_def)

lemma faithful_cong:
  assumes "cs_tools st' = cs_tools st" "cs_tool_order st' = cs_tool_order st" "cs_message_index st' = cs_message_index st"
    and "cs_output st' = cs_output st"
  shows "slots_ok st' = slots_ok st" "tool_slot st' = tool_slot st" "owners st' = owners st"
  using assms by (simp_all add: slots_ok_def owners_def tool_slot_def [abs_def])

lemma ensure_message_faithful:
  assumes "faithful tr st"
  shows "faithful (tr @ fst (ensure_message st)) (snd (ensure_message st)) \<and>
    cs_message_index (snd (ensure_message st)) \<noteq> None"
proof (cases "cs_message_index st")
  case None
  let ?n = "length (cs_output st)"
  have "?n \<notin> tool_slot st ` set (cs_tool_order st)"
    using assms by (auto simp: faithful_def slots_ok_def owners_def)
  then have "faithful tr (st\<lparr>cs_message_index := Some ?n, cs_output := cs_output st @ [item]\<rparr>)" for item
    using assms None
    by (auto simp: faithful_def slots_ok_def owners_def tool_slot_def [abs_def] lessThan_Suc)
  note added = faithful_event [OF _ this, of "''response.output_item.added''"]
  obtain members item where "ensure_message st = stream_event ''response.output_item.added'' members
      (st\<lparr>cs_message_index := Some ?n, cs_output := cs_output st @ [item]\<rparr>)"
    using None unfolding ensure_message_def Let_def by auto
  then show ?thesis using added by (simp add: no_delta_def argument_events_def stream_event_result(2))
qed (use assms in \<open>simp add: ensure_message_def\<close>)

lemma start_text_faithful:
  assumes "faithful tr st" "cs_message_index st \<noteq> None"
  shows "faithful (tr @ fst (start_text st)) (snd (start_text st)) \<and>
    cs_message_index (snd (start_text st)) \<noteq> None \<and> cs_text_started (snd (start_text st))"
proof (cases "cs_text_started st")
  case False
  have "faithful tr (st\<lparr>cs_text_started := True\<rparr>)"
    using assms False faithful_cong [of "st\<lparr>cs_text_started := True\<rparr>" st] by (simp add: faithful_def)
  note added = faithful_event [OF _ this, of "''response.content_part.added''"]
  obtain members where "start_text st = stream_event ''response.content_part.added'' members
      (st\<lparr>cs_text_started := True\<rparr>)"
    using False unfolding start_text_def by auto
  then show ?thesis using added assms(2) by (simp add: no_delta_def argument_events_def stream_event_result(2))
qed (use assms in \<open>simp add: start_text_def\<close>)

lemma text_delta_faithful:
  assumes "faithful tr st" "cs_message_index st \<noteq> None" "cs_text_started st"
  shows "faithful (tr @ fst (text_delta delta st)) (snd (text_delta delta st))"
proof -
  let ?st = "snd (text_delta delta st)"
  have s: "cs_tools ?st = cs_tools st" "cs_tool_order ?st = cs_tool_order st" "cs_message_index ?st = cs_message_index st"
    "cs_output ?st = cs_output st" "cs_text ?st = cs_text st @ delta" "cs_text_started ?st = cs_text_started st"
    by (simp_all add: text_delta_def stream_event_result(2))
  show ?thesis
    using assms unfolding faithful_def deltas_append text_delta_deltas s faithful_cong [OF s(1-4)]
    by (simp add: tool_ok_extend text_delta_deltas)
qed

lemma append_text_faithful:
  "faithful tr st \<Longrightarrow> faithful (tr @ fst (append_text delta st)) (snd (append_text delta st))"
proof -
  assume "faithful tr st"
  note one = ensure_message_faithful [OF this]
  note two = start_text_faithful [OF conjunct1 [OF one] conjunct2 [OF one]]
  note three = text_delta_faithful [OF two [THEN conjunct1] two [THEN conjunct2, THEN conjunct1]
      two [THEN conjunct2, THEN conjunct2], of delta]
  then show ?thesis by (simp add: append_text_def after_result)
qed

lemma tool_slots_differ:
  assumes "slots_ok st" "cs_tools st i = Some t" "cs_tools st j = Some u" "i \<noteq> j"
  shows "sl_output_index t \<noteq> sl_output_index u"
proof -
  have "i \<in> set (cs_tool_order st)" "j \<in> set (cs_tool_order st)" using assms(1-3) by (auto simp: slots_ok_def)
  moreover have "inj_on (tool_slot st) (set (cs_tool_order st))"
    using assms(1) by (auto simp: slots_ok_def owners_def distinct_map)
  ultimately show ?thesis using assms(2-4) by (auto simp: inj_on_def tool_slot_def)
qed

lemma tool_slot_in:
  "slots_ok st \<Longrightarrow> cs_tools st i = Some t \<Longrightarrow>
   sl_output_index t < length (cs_output st) \<and> sl_output_index t \<in> tool_slot st ` set (cs_tool_order st)"
proof -
  assume a: "slots_ok st" "cs_tools st i = Some t"
  then have "i \<in> set (cs_tool_order st)" "tool_slot st i = sl_output_index t"
    by (auto simp: slots_ok_def tool_slot_def)
  then have m: "sl_output_index t \<in> tool_slot st ` set (cs_tool_order st)" by force
  then have "sl_output_index t \<in> set (owners st)" by (simp add: owners_def)
  then show ?thesis using a(1) m by (simp add: slots_ok_def)
qed

lemma open_tool_faithful:
  assumes "faithful tr st"
  shows "faithful tr (open_tool index st) \<and> cs_tools (open_tool index st) index \<noteq> None"
proof (cases "cs_tools st index")
  case None
  let ?n = "length (cs_output st)" and ?st = "open_tool index st"
  have slots: "slots_ok st" using assms by (simp add: faithful_def)
  have new: "index \<notin> set (cs_tool_order st)" using None slots by (auto simp: slots_ok_def)
  then have same: "map (tool_slot ?st) (cs_tool_order st) = map (tool_slot st) (cs_tool_order st)"
    using None by (auto simp: open_tool_def tool_slot_def)
  then have image: "tool_slot ?st ` set (cs_tool_order st) = tool_slot st ` set (cs_tool_order st)"
    by (metis set_map)
  have at_end: "tool_slot ?st index = ?n" using None by (simp add: open_tool_def tool_slot_def)
  have o: "owners ?st = owners st @ [?n]"
    using None same at_end by (simp add: owners_def open_tool_def split: option.split)
  have "?n \<notin> set (owners st)" using slots by (simp add: slots_ok_def)
  then have s: "slots_ok ?st"
    using slots None new o by (auto simp: slots_ok_def open_tool_def lessThan_Suc)
  have "?n \<notin> tool_slot st ` set (cs_tool_order st)" using \<open>?n \<notin> set (owners st)\<close> by (auto simp: owners_def)
  then have "argument_deltas ?n tr = []" using assms by (simp add: faithful_def)
  then have "\<forall>tool \<in> ran (cs_tools ?st). tool_ok tr tool"
    using assms None by (auto simp: faithful_def open_tool_def tool_ok_def ran_def)
  moreover have "argument_deltas i tr = []" if "i \<notin> tool_slot ?st ` set (cs_tool_order ?st)" for i
  proof -
    have "cs_tool_order ?st = cs_tool_order st @ [index]" using None by (simp add: open_tool_def)
    then have "i \<notin> tool_slot st ` set (cs_tool_order st)" using that image by auto
    then show ?thesis using assms by (simp add: faithful_def)
  qed
  moreover have "cs_text ?st = cs_text st" "cs_text_started ?st = cs_text_started st"
    "cs_message_index ?st = cs_message_index st" "cs_tools ?st index \<noteq> None"
    using None by (simp_all add: open_tool_def)
  ultimately show ?thesis using assms s by (simp add: faithful_def)
qed (use assms in \<open>simp add: open_tool_def\<close>)

lemma update_tool_slots:
  assumes "slots_ok st" "cs_tools st index = Some t" "sl_output_index t' = sl_output_index t"
  shows "slots_ok (st\<lparr>cs_tools := (cs_tools st)(index \<mapsto> t')\<rparr>)"
    "tool_slot (st\<lparr>cs_tools := (cs_tools st)(index \<mapsto> t')\<rparr>) = tool_slot st"
proof -
  show t: "tool_slot (st\<lparr>cs_tools := (cs_tools st)(index \<mapsto> t')\<rparr>) = tool_slot st"
    using assms by (auto simp: tool_slot_def fun_eq_iff)
  then have "owners (st\<lparr>cs_tools := (cs_tools st)(index \<mapsto> t')\<rparr>) = owners st" by (simp add: owners_def)
  then show "slots_ok (st\<lparr>cs_tools := (cs_tools st)(index \<mapsto> t')\<rparr>)"
    using assms by (auto simp: slots_ok_def)
qed

lemma update_tool_faithful:
  assumes "faithful tr st" "cs_tools st index = Some t" "sl_output_index t' = sl_output_index t" "tool_ok tr t'"
  shows "faithful tr (st\<lparr>cs_tools := (cs_tools st)(index \<mapsto> t')\<rparr>)"
proof -
  have slots: "slots_ok st" using assms(1) by (simp add: faithful_def)
  have "\<forall>tool \<in> ran ((cs_tools st)(index \<mapsto> t')). tool_ok tr tool"
    using assms(1,4) by (auto simp: faithful_def ran_def)
  then show ?thesis
    using assms(1) update_tool_slots [OF slots assms(2,3)] by (simp add: faithful_def)
qed

lemma tool_ok_members:
  "tool_ok tr t \<Longrightarrow> tool_ok tr (extend_tool call_id name arguments t)"
  "tool_ok tr t \<Longrightarrow> tool_ok tr (force_tool env index st t)"
  "tool_ok tr t \<Longrightarrow> tool_ok tr (t\<lparr>sl_emitted := True\<rparr>)"
  by (simp_all add: tool_ok_def extend_tool_def force_tool_def)

lemma slot_kept [simp]:
  "sl_output_index (extend_tool call_id name arguments t) = sl_output_index t"
  "sl_output_index (force_tool env index st t) = sl_output_index t"
  by (simp_all add: extend_tool_def force_tool_def)

lemma faithful_tool: "faithful tr st \<Longrightarrow> cs_tools st index = Some t \<Longrightarrow> tool_ok tr t"
  by (auto simp: faithful_def ran_def)

lemma announce_tool_faithful:
  assumes "faithful tr st"
  shows "faithful (tr @ fst (announce_tool env index st)) (snd (announce_tool env index st))"
proof (cases "cs_tools st index")
  case (Some tool)
  show ?thesis
  proof (cases "sl_emitted tool")
    case False
    have "faithful tr (st\<lparr>cs_tools := (cs_tools st)(index \<mapsto> tool\<lparr>sl_emitted := True\<rparr>)\<rparr>)"
      by (rule update_tool_faithful [OF assms Some])
        (auto intro: tool_ok_members(3) faithful_tool [OF assms Some])
    then have "faithful tr (st\<lparr>cs_tools := (cs_tools st)(index \<mapsto> tool\<lparr>sl_emitted := True\<rparr>),
        cs_output := (cs_output st)[sl_output_index tool := item]\<rparr>)" for item
      by (rule faithful_view [THEN iffD1, rotated]) (simp add: view_def)
    note added = faithful_event [OF _ this, of "''response.output_item.added''"]
    obtain members item where "announce_tool env index st = stream_event ''response.output_item.added'' members
        (st\<lparr>cs_tools := (cs_tools st)(index \<mapsto> tool\<lparr>sl_emitted := True\<rparr>),
            cs_output := (cs_output st)[sl_output_index tool := item]\<rparr>)"
      using Some False unfolding announce_tool_def Let_def by auto
    then show ?thesis using added by (simp add: no_delta_def argument_events_def)
  qed (use assms Some in \<open>simp add: announce_tool_def\<close>)
qed (use assms in \<open>simp add: announce_tool_def\<close>)

definition delta_members :: "json \<Rightarrow> nat \<Rightarrow> string \<Rightarrow> (string \<times> json) list" where
  "delta_members i slot delta = [(''item_id'', i), (''output_index'', json_nat slot), (''delta'', JString delta)]"

lemma tool_delta_deltas:
  "text_deltas (fst (stream_event (tool_delta_name st' tool) (delta_members i slot delta) st)) = []"
  "argument_deltas slot (fst (stream_event (tool_delta_name st' tool) (delta_members i slot delta) st)) = delta"
  "j \<noteq> slot \<Longrightarrow>
   argument_deltas j (fst (stream_event (tool_delta_name st' tool) (delta_members i slot delta) st)) = []"
  by (auto simp: text_deltas_def argument_deltas_def text_delta_of_def argument_delta_of_def stream_event_result
      event_member argument_events_def tool_delta_name_def unwrap_or_def delta_members_def)

lemma arguments_delta_faithful:
  assumes "faithful tr st"
  shows "faithful (tr @ fst (arguments_delta env index st)) (snd (arguments_delta env index st))"
proof (cases "cs_tools st index")
  case (Some tool)
  show ?thesis
  proof (cases "length (sl_arguments tool) \<le> sl_emitted_len tool")
    case False
    let ?tool = "tool\<lparr>sl_emitted_len := length (sl_arguments tool)\<rparr>"
    let ?st = "st\<lparr>cs_tools := (cs_tools st)(index \<mapsto> ?tool)\<rparr>"
    let ?step = "stream_event (tool_delta_name st tool)
        (delta_members (JString (stream_tool_item_id env st index tool)) (sl_output_index tool)
           (drop (sl_emitted_len tool) (sl_arguments tool))) ?st"
    have step: "arguments_delta env index st = ?step"
      using Some False by (simp add: arguments_delta_def delta_members_def)
    have slots: "slots_ok st" using assms by (simp add: faithful_def)
    note tool_ok = faithful_tool [OF assms Some, unfolded tool_ok_def]
    note deltas = tool_delta_deltas [where st' = st and tool = tool and st = ?st]
    have mine: "tool_ok (tr @ fst ?step) ?tool"
      using tool_ok deltas(2) by (simp add: tool_ok_def)
    have others: "tool_ok (tr @ fst ?step) t" if "cs_tools st j = Some t" "j \<noteq> index" for j t
      using faithful_tool [OF assms that(1)] deltas(3) tool_slots_differ [OF slots that(1) Some that(2)]
      by (simp add: tool_ok_extend)
    have ran: "\<forall>t \<in> ran (cs_tools ?st). tool_ok (tr @ fst ?step) t"
      using mine others by (auto simp: ran_def)
    note same = update_tool_slots [OF slots Some, of ?tool, simplified]
    have "argument_deltas i (tr @ fst ?step) = []" if "i \<notin> tool_slot st ` set (cs_tool_order st)" for i
    proof -
      have "i \<noteq> sl_output_index tool" using that tool_slot_in [OF slots Some] by auto
      then have "argument_deltas i (fst ?step) = []" by (rule deltas(3))
      moreover have "argument_deltas i tr = []" using assms that unfolding faithful_def by blast
      ultimately show ?thesis by simp
    qed
    then have "faithful (tr @ fst ?step) ?st"
      using assms ran same deltas(1) by (simp add: faithful_def)
    then show ?thesis unfolding step
      by (rule faithful_view [THEN iffD1, rotated]) (simp add: view_def stream_event_result(2))
  qed (use assms Some in \<open>simp add: arguments_delta_def\<close>)
qed (use assms in \<open>simp add: arguments_delta_def\<close>)

lemma emit_tool_faithful:
  assumes "faithful tr st"
  shows "faithful (tr @ fst (emit_tool env index force st)) (snd (emit_tool env index force st))"
proof (cases "cs_tools st index")
  case (Some tool0)
  let ?tool = "if force then force_tool env index st tool0 else tool0"
  let ?st = "st\<lparr>cs_tools := (cs_tools st)(index \<mapsto> ?tool)\<rparr>"
  have "faithful tr ?st"
    by (rule update_tool_faithful [OF assms Some])
      (auto intro: tool_ok_members(2) faithful_tool [OF assms Some])
  moreover from arguments_delta_faithful [OF announce_tool_faithful [OF this]]
  have "faithful (tr @ fst (after (announce_tool env index) (arguments_delta env index) ?st))
      (snd (after (announce_tool env index) (arguments_delta env index) ?st))"
    by (simp add: after_result)
  ultimately show ?thesis using Some by (simp add: emit_tool_def Let_def)
qed (use assms in \<open>simp add: emit_tool_def\<close>)

lemma append_tool_delta_faithful:
  assumes "faithful tr st"
  shows "faithful (tr @ fst (append_tool_delta env delta st)) (snd (append_tool_delta env delta st))"
proof -
  let ?st = "open_tool (tool_delta_index delta) st"
  obtain tool where opened: "faithful tr ?st" "cs_tools ?st (tool_delta_index delta) = Some tool"
    using open_tool_faithful [OF assms] by blast
  have "faithful tr (?st\<lparr>cs_tools := (cs_tools ?st)(tool_delta_index delta \<mapsto> extend_tool i n a tool)\<rparr>)" for i n a
    by (rule update_tool_faithful [OF opened])
      (auto intro: tool_ok_members(1) faithful_tool [OF opened])
  from emit_tool_faithful [OF this] show ?thesis using opened(2) by (simp add: append_tool_delta_def Let_def)
qed

section \<open>What a stream delivers\<close>

definition chunk_delta :: "json \<Rightarrow> json option" where
  "chunk_delta chunk =
     (case Option.bind (first_choice chunk) (\<lambda>choice. json_get choice ''delta'') of
        Some (JObject m) \<Rightarrow> Some (JObject m)
      | _ \<Rightarrow> None)"

definition chunk_text :: "json \<Rightarrow> string" where
  "chunk_text chunk = unwrap_or (Option.bind (chunk_delta chunk) (\<lambda>delta. get_str delta ''content'')) []"

definition chunk_calls :: "json \<Rightarrow> json list" where
  "chunk_calls chunk =
     unwrap_or (Option.bind (Option.bind (chunk_delta chunk) (\<lambda>delta. json_get delta ''tool_calls'')) as_array) []"

definition call_arguments :: "nat \<Rightarrow> json list \<Rightarrow> string" where
  "call_arguments index calls =
     concat (map (\<lambda>call. if tool_delta_index call = index then pointer_str call [''function'', ''arguments''] else [])
       calls)"

definition tool_arguments :: "chat_stream \<Rightarrow> nat \<Rightarrow> string" where
  "tool_arguments st index = (case cs_tools st index of None \<Rightarrow> [] | Some tool \<Rightarrow> sl_arguments tool)"

text \<open>What the steps do to the text and to the arguments.\<close>

lemma event_keeps [simp]:
  "cs_text (snd (stream_event name members st)) = cs_text st"
  "cs_tools (snd (stream_event name members st)) = cs_tools st"
  "cs_tool_order (snd (stream_event name members st)) = cs_tool_order st"
  "cs_message_index (snd (stream_event name members st)) = cs_message_index st"
  "cs_message_id (snd (stream_event name members st)) = cs_message_id st"
  "cs_text_started (snd (stream_event name members st)) = cs_text_started st"
  "cs_output (snd (stream_event name members st)) = cs_output st"
  "cs_context (snd (stream_event name members st)) = cs_context st"
  by (simp_all add: stream_event_result(2))

lemma append_text_effect:
  "cs_text (snd (append_text delta st)) = cs_text st @ delta"
  "tool_arguments (snd (append_text delta st)) = tool_arguments st"
  by (auto simp: append_text_def after_result ensure_message_def start_text_def text_delta_def Let_def
      tool_arguments_def [abs_def])

lemma announce_effect:
  "cs_text (snd (announce_tool env index st)) = cs_text st"
  "tool_arguments (snd (announce_tool env index st)) = tool_arguments st"
  "cs_tool_order (snd (announce_tool env index st)) = cs_tool_order st"
  "j \<noteq> index \<Longrightarrow> cs_tools (snd (announce_tool env index st)) j = cs_tools st j"
  by (auto simp: announce_tool_def Let_def tool_arguments_def [abs_def] fun_eq_iff split: option.splits)

lemma arguments_effect:
  "cs_text (snd (arguments_delta env index st)) = cs_text st"
  "tool_arguments (snd (arguments_delta env index st)) = tool_arguments st"
  "cs_tool_order (snd (arguments_delta env index st)) = cs_tool_order st"
  "j \<noteq> index \<Longrightarrow> cs_tools (snd (arguments_delta env index st)) j = cs_tools st j"
  by (auto simp: arguments_delta_def tool_arguments_def [abs_def] fun_eq_iff split: option.splits)

lemma tool_arguments_update:
  "cs_tools st index = Some tool \<Longrightarrow> sl_arguments tool' = sl_arguments tool \<Longrightarrow>
   tool_arguments (st\<lparr>cs_tools := (cs_tools st)(index \<mapsto> tool')\<rparr>) = tool_arguments st"
  by (auto simp: tool_arguments_def fun_eq_iff)

lemma force_tool_arguments [simp]: "sl_arguments (force_tool env index st tool) = sl_arguments tool"
  by (simp add: force_tool_def)

lemma emit_effect:
  "cs_text (snd (emit_tool env index force st)) = cs_text st"
  "tool_arguments (snd (emit_tool env index force st)) = tool_arguments st"
  "cs_tool_order (snd (emit_tool env index force st)) = cs_tool_order st"
  "j \<noteq> index \<Longrightarrow> cs_tools (snd (emit_tool env index force st)) j = cs_tools st j"
  by (cases "cs_tools st index";
      simp add: emit_tool_def Let_def after_result announce_effect arguments_effect tool_arguments_update)+

lemma open_tool_effect:
  "cs_text (open_tool index st) = cs_text st" "tool_arguments (open_tool index st) = tool_arguments st"
  "\<exists>tool. cs_tools (open_tool index st) index = Some tool"
  by (auto simp: open_tool_def tool_arguments_def fun_eq_iff)

lemma tool_delta_effect:
  "cs_text (snd (append_tool_delta env delta st)) = cs_text st"
  "tool_arguments (snd (append_tool_delta env delta st)) index = tool_arguments st index @ call_arguments index [delta]"
proof -
  let ?i = "tool_delta_index delta"
  let ?st = "open_tool ?i st"
  obtain tool where tool: "cs_tools ?st ?i = Some tool" using open_tool_effect(3) by blast
  show "cs_text (snd (append_tool_delta env delta st)) = cs_text st"
    using tool by (simp add: append_tool_delta_def Let_def emit_effect open_tool_effect)
  have "tool_arguments (snd (append_tool_delta env delta st)) index =
      (if index = ?i then sl_arguments tool @ pointer_str delta [''function'', ''arguments'']
       else tool_arguments ?st index)"
    using tool by (simp add: append_tool_delta_def Let_def emit_effect tool_arguments_def extend_tool_def)
  moreover have "tool_arguments ?st ?i = sl_arguments tool" using tool by (simp add: tool_arguments_def)
  ultimately show "tool_arguments (snd (append_tool_delta env delta st)) index =
      tool_arguments st index @ call_arguments index [delta]"
    by (simp add: open_tool_effect call_arguments_def)
qed

lemma tool_deltas_effect:
  "cs_text (snd (for_each (append_tool_delta env) calls st)) = cs_text st"
  "tool_arguments (snd (for_each (append_tool_delta env) calls st)) index =
     tool_arguments st index @ call_arguments index calls"
  by (induction calls arbitrary: st) (auto simp: after_result tool_delta_effect call_arguments_def)

lemma read_delta_effect:
  "cs_text (snd (read_delta env delta st)) = cs_text st @ unwrap_or (get_str delta ''content'') []"
  "tool_arguments (snd (read_delta env delta st)) index =
     tool_arguments st index @ call_arguments index (unwrap_or (Option.bind (json_get delta ''tool_calls'') as_array) [])"
  by (cases "get_str delta ''content''";
      simp add: read_delta_def after_result append_text_effect tool_deltas_effect unwrap_or_def)+

lemma start_keeps:
  "cs_text (snd (start_events st)) = cs_text st" "tool_arguments (snd (start_events st)) = tool_arguments st"
  by (simp_all add: start_events_def Let_def after_result tool_arguments_def [abs_def])

lemma note_keeps:
  "cs_text (note_created env chunk st) = cs_text st" "tool_arguments (note_created env chunk st) = tool_arguments st"
  "cs_text (note_tier chunk st) = cs_text st" "tool_arguments (note_tier chunk st) = tool_arguments st"
  "cs_text (note_usage chunk st) = cs_text st" "tool_arguments (note_usage chunk st) = tool_arguments st"
  "cs_text (note_finish chunk st) = cs_text st" "tool_arguments (note_finish chunk st) = tool_arguments st"
  by (simp_all add: note_created_def note_tier_def note_usage_def note_finish_def Let_def tool_arguments_def [abs_def]
      split: option.split)

lemma read_choice_effect:
  "cs_text (snd (read_choice env chunk st)) = cs_text st @ chunk_text chunk"
  "tool_arguments (snd (read_choice env chunk st)) index =
     tool_arguments st index @ call_arguments index (chunk_calls chunk)"
  by (auto simp: read_choice_def Let_def chunk_text_def chunk_calls_def chunk_delta_def note_keeps read_delta_effect
      call_arguments_def unwrap_or_def split: option.split json.split)

lemma chunk_effect:
  "cs_text (snd (process_chunk env chunk st)) = cs_text st @ chunk_text chunk"
  "tool_arguments (snd (process_chunk env chunk st)) index =
     tool_arguments st index @ call_arguments index (chunk_calls chunk)"
  by (auto simp: process_chunk_def Let_def after_result read_choice_effect start_keeps note_keeps)

lemma chunks_effect:
  "cs_text (snd (for_each (process_chunk env) chunks st)) = cs_text st @ concat (map chunk_text chunks)"
  "tool_arguments (snd (for_each (process_chunk env) chunks st)) index =
     tool_arguments st index @ call_arguments index (concat (map chunk_calls chunks))"
  by (induction chunks arbitrary: st) (auto simp: after_result chunk_effect call_arguments_def)

lemma chunk_faithful:
  assumes "faithful tr st"
  shows "faithful (tr @ fst (process_chunk env chunk st)) (snd (process_chunk env chunk st))"
proof -
  have calls: "keeps faithful (for_each (append_tool_delta env) calls)" for calls
    by (rule keeps_for_each) (simp add: hoare_def append_tool_delta_faithful)
  have texts: "keeps faithful (case get_str delta ''content'' of None \<Rightarrow> (\<lambda>st. ([], st)) | Some s \<Rightarrow> append_text s)" for delta
    by (auto simp: hoare_def append_text_faithful split: option.split)
  have delta: "keeps faithful (read_delta env delta)" for delta
    unfolding read_delta_def by (rule hoare_after [OF texts calls])
  have noted: "faithful tr (note_finish choice (note_usage chunk st)) = faithful tr st" for choice tr st
    by (rule faithful_view) simp
  have used: "faithful tr (note_usage chunk st) = faithful tr st" for tr st
    by (rule faithful_view) simp
  have choice: "keeps faithful (read_choice env chunk)"
    using delta unfolding hoare_def read_choice_def Let_def
    by (auto simp: noted used split: option.split json.split)
  have start: "keeps faithful start_events"
    using silent_faithful [OF silent_start] by (simp add: hoare_def)
  have tier: "faithful tr (note_tier chunk st)" "faithful tr (note_created env chunk (note_tier chunk st))"
    using assms faithful_view [of "note_tier chunk st" st] faithful_view [of "note_created env chunk (note_tier chunk st)" st]
    by auto
  show ?thesis
    using hoareD [OF choice tier(1)] hoareD [OF hoare_after [OF start choice] tier(2)]
    by (auto simp: process_chunk_def Let_def)
qed

lemma new_faithful: "faithful [] (chat_stream_new env c max_bytes)"
  by (simp add: faithful_def chat_stream_new_def slots_ok_def owners_def)

lemma chunks_faithful:
  "faithful tr st \<Longrightarrow> faithful (tr @ fst (for_each (process_chunk env) chunks st)) (snd (for_each (process_chunk env) chunks st))"
  using hoareD [OF keeps_for_each, of chunks faithful "process_chunk env"] chunk_faithful
  by (simp add: hoare_def)

text \<open>At the end every tool is announced and all its arguments are emitted.\<close>

definition all_emitted :: "chat_stream \<Rightarrow> nat \<Rightarrow> bool" where
  "all_emitted st index \<longleftrightarrow>
     (\<exists>tool. cs_tools st index = Some tool \<and> length (sl_arguments tool) \<le> sl_emitted_len tool)"

lemma announce_tool_some:
  "cs_tools st index = Some tool \<Longrightarrow> \<exists>tool'. cs_tools (snd (announce_tool env index st)) index = Some tool'"
  by (auto simp: announce_tool_def Let_def)

lemma arguments_delta_all:
  "cs_tools st index = Some tool \<Longrightarrow> all_emitted (snd (arguments_delta env index st)) index"
  by (auto simp: arguments_delta_def all_emitted_def)

lemma forced_all:
  assumes "cs_tools st index = Some tool"
  shows "all_emitted (snd (emit_tool env index True st)) index"
proof -
  let ?st = "st\<lparr>cs_tools := (cs_tools st)(index \<mapsto> force_tool env index st tool)\<rparr>"
  have "sl_name (force_tool env index st tool) \<noteq> []" "sl_call_id (force_tool env index st tool) \<noteq> []"
    by (simp_all add: force_tool_def)
  moreover obtain tool' where "cs_tools (snd (announce_tool env index ?st)) index = Some tool'"
    using announce_tool_some [of ?st index] by auto
  note arguments_delta_all [OF this, of env]
  ultimately show ?thesis using assms by (simp add: emit_tool_def Let_def after_result)
qed

lemma forced_others: "j \<noteq> index \<Longrightarrow> all_emitted (snd (emit_tool env index force st)) j = all_emitted st j"
  by (simp add: all_emitted_def emit_effect)

lemma emitted_tools_some: "cs_tools st j \<noteq> None \<Longrightarrow> cs_tools (snd (emit_tool env index force st)) j \<noteq> None"
proof (cases "j = index")
  case True
  assume "cs_tools st j \<noteq> None"
  then obtain tool where tool: "cs_tools st index = Some tool" using True by auto
  have announced: "\<exists>t. cs_tools (snd (announce_tool env index st')) index = Some t" if "cs_tools st' index = Some t0" for st' t0
    using announce_tool_some [OF that] .
  have delta: "\<exists>t. cs_tools (snd (arguments_delta env index st')) index = Some t" if "cs_tools st' index = Some t0" for st' t0
    using arguments_delta_all [OF that, of env] by (auto simp: all_emitted_def)
  show ?thesis
    using tool True announced delta
    by (fastforce simp: emit_tool_def Let_def after_result)
qed (simp add: emit_effect)

lemma all_forced:
  "distinct order \<Longrightarrow> \<forall>i \<in> set order. cs_tools st i \<noteq> None \<Longrightarrow>
   (\<forall>i \<in> set order. all_emitted (snd (for_each (\<lambda>index. emit_tool env index True) order st)) i) \<and>
   (\<forall>j. j \<notin> set order \<longrightarrow>
      all_emitted (snd (for_each (\<lambda>index. emit_tool env index True) order st)) j = all_emitted st j) \<and>
   cs_tool_order (snd (for_each (\<lambda>index. emit_tool env index True) order st)) = cs_tool_order st \<and>
   cs_text (snd (for_each (\<lambda>index. emit_tool env index True) order st)) = cs_text st \<and>
   tool_arguments (snd (for_each (\<lambda>index. emit_tool env index True) order st)) = tool_arguments st"
proof (induction order arbitrary: st)
  case (Cons index order)
  let ?st = "snd (emit_tool env index True st)"
  have "\<forall>i \<in> set order. cs_tools ?st i \<noteq> None" using Cons.prems(2) emitted_tools_some by auto
  note IH = Cons.IH [OF _ this]
  obtain tool where tool: "cs_tools st index = Some tool" using Cons.prems(2) by auto
  note forced = forced_all [OF tool, of env]
  have "index \<notin> set order" "distinct order" using Cons.prems(1) by auto
  then have "(\<forall>i \<in> set order. all_emitted (snd (for_each (\<lambda>index. emit_tool env index True) order ?st)) i)"
    "all_emitted (snd (for_each (\<lambda>index. emit_tool env index True) order ?st)) index"
    "\<forall>j. j \<notin> set order \<longrightarrow> all_emitted (snd (for_each (\<lambda>index. emit_tool env index True) order ?st)) j = all_emitted ?st j"
    using IH forced by auto
  then show ?case
    using IH [OF \<open>distinct order\<close>] forced_others [of _ index env True st]
    by (simp add: after_result emit_effect)
qed simp

text \<open>The completed items fill the slots.\<close>

lemma finish_tool_effect:
  "cs_tools (snd (finish_tool env index st)) = cs_tools st" "cs_context (snd (finish_tool env index st)) = cs_context st"
  "cs_tool_order (snd (finish_tool env index st)) = cs_tool_order st"
  "cs_output (snd (finish_tool env index st)) =
     (case cs_tools st index of
        None \<Rightarrow> cs_output st
      | Some tool \<Rightarrow> (cs_output st)[sl_output_index tool := tool_item env st index tool (sl_arguments tool)])"
  by (simp_all add: finish_tool_def Let_def after_result split: option.split)

lemma tool_item_context: "cs_context st' = cs_context st \<Longrightarrow> tool_item env st' index tool arguments = tool_item env st index tool arguments"
  by (simp add: tool_item_def)

lemma finish_tools_output:
  assumes "distinct order" "inj_on (tool_slot st) (set order)" "\<forall>i \<in> set order. tool_slot st i < length (cs_output st)"
  shows "length (cs_output (snd (for_each (finish_tool env) order st))) = length (cs_output st) \<and>
    cs_tools (snd (for_each (finish_tool env) order st)) = cs_tools st \<and>
    cs_context (snd (for_each (finish_tool env) order st)) = cs_context st \<and>
    cs_tool_order (snd (for_each (finish_tool env) order st)) = cs_tool_order st \<and>
    (\<forall>i tool. i \<in> set order \<longrightarrow> cs_tools st i = Some tool \<longrightarrow>
       cs_output (snd (for_each (finish_tool env) order st)) ! sl_output_index tool =
         tool_item env st i tool (sl_arguments tool)) \<and>
    (\<forall>k. k \<notin> tool_slot st ` set order \<longrightarrow>
       cs_output (snd (for_each (finish_tool env) order st)) ! k = cs_output st ! k)"
  using assms
proof (induction order arbitrary: st)
  case (Cons index order)
  let ?st = "snd (finish_tool env index st)"
  have slot: "tool_slot ?st = tool_slot st" by (simp add: tool_slot_def fun_eq_iff finish_tool_effect)
  have len: "length (cs_output ?st) = length (cs_output st)" by (simp add: finish_tool_effect split: option.split)
  have "distinct order" "inj_on (tool_slot ?st) (set order)"
    "\<forall>i \<in> set order. tool_slot ?st i < length (cs_output ?st)"
    using Cons.prems slot len by auto
  note IH = Cons.IH [OF this]
  have fresh: "tool_slot st index \<notin> tool_slot st ` set order" using Cons.prems(1,2) by auto
  have first: "cs_output (snd (for_each (finish_tool env) order ?st)) ! sl_output_index tool =
      tool_item env st index tool (sl_arguments tool)" if t: "cs_tools st index = Some tool" for tool
  proof -
    have s: "tool_slot st index = sl_output_index tool" using t by (simp add: tool_slot_def)
    then have "cs_output (snd (for_each (finish_tool env) order ?st)) ! sl_output_index tool =
        cs_output ?st ! sl_output_index tool" using IH fresh slot by simp
    also have "\<dots> = tool_item env st index tool (sl_arguments tool)"
      using t s Cons.prems(3) by (simp add: finish_tool_effect)
    finally show ?thesis .
  qed
  have rest: "cs_output ?st ! k = cs_output st ! k" if "k \<noteq> tool_slot st index" for k
    using that by (auto simp: finish_tool_effect tool_slot_def split: option.split)
  have items: "tool_item env ?st i tool a = tool_item env st i tool a" for i tool a
    by (rule tool_item_context) (simp add: finish_tool_effect)
  show ?case
    using IH first rest slot len by (auto simp: after_result finish_tool_effect(1-3) items)
qed simp

definition message_view :: "chat_stream \<Rightarrow> nat option \<times> string \<times> string \<times> bool" where
  "message_view st = (cs_message_index st, cs_message_id st, cs_text st, cs_text_started st)"

lemma done_message_view: "message_view st' = message_view st \<Longrightarrow> done_message st' = done_message st"
  by (simp add: message_view_def done_message_def)

lemma finish_tools_view: "message_view (snd (for_each (finish_tool env) order st)) = message_view st"
proof (induction order arbitrary: st)
  case (Cons index order)
  have "message_view (snd (finish_tool env index st)) = message_view st"
    by (simp add: message_view_def finish_tool_def Let_def after_result split: option.split)
  then show ?case using Cons.IH by (simp add: after_result)
qed simp

lemma finish_text_keeps:
  "message_view (snd (finish_text st)) = message_view st" "cs_tools (snd (finish_text st)) = cs_tools st"
  "cs_tool_order (snd (finish_text st)) = cs_tool_order st" "cs_context (snd (finish_text st)) = cs_context st"
  "cs_output (snd (finish_text st)) = cs_output st"
  by (simp_all add: finish_text_def after_result message_view_def)

lemma finish_message_effect:
  "message_view (snd (finish_message st)) = message_view st" "cs_tools (snd (finish_message st)) = cs_tools st"
  "cs_tool_order (snd (finish_message st)) = cs_tool_order st" "cs_context (snd (finish_message st)) = cs_context st"
  "cs_output (snd (finish_message st)) =
     (case cs_message_index st of None \<Rightarrow> cs_output st | Some i \<Rightarrow> (cs_output st)[i := done_message st])"
  using done_message_view [OF finish_text_keeps(1) [of st]] finish_text_keeps [of st]
  by (auto simp: finish_message_def after_result message_view_def split: option.split)

lemma end_stream_effect:
  "fst (end_stream st) \<noteq> []" "fst (last (fst (end_stream st))) = ''response.completed''"
  "json_pointer (snd (last (fst (end_stream st)))) [''response'', ''output''] = Some (JArray (cs_output st))"
  "cs_output (snd (end_stream st)) = cs_output st" "cs_tools (snd (end_stream st)) = cs_tools st"
  "cs_tool_order (snd (end_stream st)) = cs_tool_order st" "cs_context (snd (end_stream st)) = cs_context st"
  "message_view (snd (end_stream st)) = message_view st"
  by (simp_all add: end_stream_def Let_def stream_event_result(1) event_member response_snapshot_def json_get_obj
      message_view_def)

lemma complete_faithful:
  assumes "faithful tr st" "\<not> cs_terminal st"
  shows "faithful (tr @ fst (complete_stream env st)) (snd (complete_stream env st))"
proof -
  have emit: "keeps faithful (for_each (\<lambda>index. emit_tool env index True) order)" for order
    by (rule keeps_for_each) (simp add: hoare_def emit_tool_faithful)
  have silent: "(\<And>st. silent st (f st)) \<Longrightarrow> keeps faithful f" for f
    unfolding hoare_def by (intro allI impI silent_faithful)
  have tools: "keeps faithful (for_each (finish_tool env) order)" for order
    by (rule keeps_for_each) (rule silent, rule silent_finishes)
  have ends: "keeps faithful finish_message" "keeps faithful end_stream" by (rule silent, rule silent_finishes)+
  from hoareD [OF hoare_after [OF emit hoare_after [OF ends(1) hoare_after [OF tools ends(2)]]] assms(1)]
  show ?thesis using assms(2) by (simp add: complete_stream_def Let_def)
qed

lemma complete_slots:
  assumes "faithful tr st" "\<not> cs_terminal st" "complete_stream env st = (es, st')"
  shows "\<forall>index \<in> set (cs_tool_order st'). all_emitted st' index \<and> tool_arguments st' index = tool_arguments st index"
    "\<forall>index \<in> set (cs_tool_order st'). \<forall>tool. cs_tools st' index = Some tool \<longrightarrow>
       cs_output st' ! sl_output_index tool = tool_item env st' index tool (sl_arguments tool)"
    "\<forall>i. cs_message_index st' = Some i \<longrightarrow> cs_output st' ! i = done_message st'"
    "fst (last es) = ''response.completed''"
    "json_pointer (snd (last es)) [''response'', ''output''] = Some (JArray (cs_output st'))"
    "cs_text st' = cs_text st"
proof -
  let ?order = "cs_tool_order st"
  let ?emit = "for_each (\<lambda>index. emit_tool env index True) ?order"
  let ?st1 = "snd (?emit st)"
  let ?st2 = "snd (finish_message ?st1)"
  let ?st3 = "snd (for_each (finish_tool env) ?order ?st2)"
  have run: "es = fst (?emit st) @ fst (finish_message ?st1) @ fst (for_each (finish_tool env) ?order ?st2) @ fst (end_stream ?st3)"
    "st' = snd (end_stream ?st3)"
  proof -
    have whole: "complete_stream env st =
        after ?emit (after finish_message (after (for_each (finish_tool env) ?order) end_stream)) st"
      using assms(2) by (simp add: complete_stream_def Let_def)
    have "es = fst (complete_stream env st)" "st' = snd (complete_stream env st)" by (simp_all add: assms(3))
    then show "es = fst (?emit st) @ fst (finish_message ?st1) @ fst (for_each (finish_tool env) ?order ?st2) @ fst (end_stream ?st3)"
      "st' = snd (end_stream ?st3)"
      unfolding whole after_result by simp_all
  qed
  have slots: "slots_ok st" using assms(1) by (simp add: faithful_def)
  then have order: "distinct ?order" "\<forall>i \<in> set ?order. cs_tools st i \<noteq> None" by (auto simp: slots_ok_def)
  note forced = all_forced [OF order, of env]
  have "keeps faithful ?emit" by (rule keeps_for_each) (simp add: hoare_def emit_tool_faithful)
  from hoareD [OF this assms(1)] have slots1: "slots_ok ?st1" by (simp add: faithful_def)
  have order1: "cs_tool_order ?st1 = ?order" using forced by simp
  have len2: "length (cs_output ?st2) = length (cs_output ?st1)" by (simp add: finish_message_effect split: option.split)
  have slot2: "tool_slot ?st2 = tool_slot ?st1" by (simp add: tool_slot_def fun_eq_iff finish_message_effect)
  have own: "distinct (owners ?st1)" "set (owners ?st1) = {..<length (cs_output ?st1)}"
    using slots1 by (auto simp: slots_ok_def)
  have inj: "inj_on (tool_slot ?st2) (set ?order)"
    using own(1) slot2 order1 by (auto simp: owners_def distinct_map)
  have "\<forall>i \<in> set ?order. tool_slot ?st2 i < length (cs_output ?st2)"
    using own(2) slot2 len2 order1 by (auto simp: owners_def)
  note finished = finish_tools_output [OF order(1) inj this, of env]
  have same: "cs_tools st' = cs_tools ?st1" "cs_tool_order st' = ?order" "cs_context st' = cs_context ?st2"
    "cs_output st' = cs_output ?st3" "message_view st' = message_view ?st1" "cs_tools ?st2 = cs_tools ?st1"
    using finished order1 by (simp_all add: run(2) end_stream_effect finish_message_effect finish_tools_view)
  show "\<forall>index \<in> set (cs_tool_order st'). all_emitted st' index \<and> tool_arguments st' index = tool_arguments st index"
  proof -
    have "all_emitted st' index = all_emitted ?st1 index" "tool_arguments st' index = tool_arguments ?st1 index" for index
      by (simp_all add: all_emitted_def tool_arguments_def same(1))
    then show ?thesis using forced same(2) by simp
  qed
  show "\<forall>index \<in> set (cs_tool_order st'). \<forall>tool. cs_tools st' index = Some tool \<longrightarrow>
       cs_output st' ! sl_output_index tool = tool_item env st' index tool (sl_arguments tool)"
    using finished same tool_item_context [OF same(3)] by auto
  show "\<forall>i. cs_message_index st' = Some i \<longrightarrow> cs_output st' ! i = done_message st'"
  proof (intro allI impI)
    fix i assume i: "cs_message_index st' = Some i"
    then have i1: "cs_message_index ?st1 = Some i" using same(5) by (simp add: message_view_def)
    then have "i \<notin> tool_slot ?st2 ` set ?order" "i < length (cs_output ?st1)"
      using own slot2 order1 by (auto simp: owners_def)
    then have "cs_output ?st3 ! i = done_message ?st1"
      using finished i1 by (simp add: finish_message_effect)
    then show "cs_output st' ! i = done_message st'" using same(4) done_message_view [OF same(5)] by simp
  qed
  show "fst (last es) = ''response.completed''"
    "json_pointer (snd (last es)) [''response'', ''output''] = Some (JArray (cs_output st'))"
    using end_stream_effect(1-4) [of ?st3] run by simp_all
  show "cs_text st' = cs_text st"
    using forced same(5) by (simp add: message_view_def)
qed



section \<open>The gateway's own decoder reads the converted stream\<close>

definition typed :: "stream_event \<Rightarrow> bool" where
  "typed e \<longleftrightarrow>
     get_str (snd e) ''type'' = Some (fst e) \<and> LF \<notin> set (fst e) \<and> CR \<notin> set (fst e) \<and> length (fst e) \<le> 100"

definition all_typed :: "stream_event list \<times> chat_stream \<Rightarrow> bool" where
  "all_typed r \<longleftrightarrow> (\<forall>e \<in> set (fst r). typed e)"

lemma typed_event:
  "map_of (rev members) ''type'' = None \<Longrightarrow> LF \<notin> set name \<Longrightarrow> CR \<notin> set name \<Longrightarrow> length name \<le> 100 \<Longrightarrow>
   all_typed (stream_event name members st)"
  by (simp add: all_typed_def typed_def stream_event_result(1) event_member)

lemma typed_skip [simp]: "all_typed ([], st)"
  by (simp add: all_typed_def)

lemma typed_after: "all_typed (f st) \<Longrightarrow> (\<And>st. all_typed (g st)) \<Longrightarrow> all_typed (after f g st)"
  by (auto simp: all_typed_def after_result)

lemma typed_for_each: "(\<And>x st. all_typed (f x st)) \<Longrightarrow> all_typed (for_each f xs st)"
  by (induction xs arbitrary: st) (auto intro: typed_after)

lemma typed_start: "all_typed (start_events st)"
  unfolding start_events_def Let_def by (intro typed_after) (auto intro!: typed_event)

lemma typed_text: "all_typed (append_text delta st)"
  unfolding append_text_def
  by (intro typed_after)
    (auto intro!: typed_event simp: ensure_message_def start_text_def text_delta_def Let_def)

lemma typed_emit: "all_typed (emit_tool env index force st)"
proof -
  have "all_typed (announce_tool env index st')" "all_typed (arguments_delta env index st')" for st'
    by (auto intro!: typed_event simp: announce_tool_def arguments_delta_def tool_delta_name_def Let_def split: option.split)
  from typed_after [OF this] show ?thesis by (auto simp: emit_tool_def Let_def split: option.split)
qed

lemma typed_chunk: "all_typed (process_chunk env chunk st)"
proof -
  have "all_typed (append_tool_delta env call st')" for call st'
    by (auto simp: append_tool_delta_def Let_def typed_emit split: option.split)
  from typed_for_each [OF this] have "all_typed (read_delta env delta st')" for delta st'
    unfolding read_delta_def by (intro typed_after) (auto simp: typed_text split: option.split)
  then have choice: "all_typed (read_choice env chunk st')" for st'
    by (auto simp: read_choice_def Let_def split: option.split json.split)
  show ?thesis
    unfolding process_chunk_def Let_def by (auto simp: choice intro: typed_after typed_start)
qed

lemma typed_ends: "all_typed (complete_stream env st)" "all_typed (fail_stream message st)"
proof -
  have finish: "all_typed (finish_message st')" "all_typed (finish_tool env index st')" "all_typed (end_stream st')" for st' index
    by (auto intro!: typed_after typed_event simp: finish_message_def finish_text_def finish_tool_def end_stream_def Let_def
        split: option.split)
  show "all_typed (complete_stream env st)"
    unfolding complete_stream_def Let_def by (auto intro!: typed_after typed_for_each simp: typed_emit finish)
  have tail: "all_typed (after (stream_event ''error'' [(''code'', a), (''message'', b)])
      (\<lambda>st1. stream_event ''response.failed'' [(''response'', ms st1)] (st1\<lparr>cs_terminal := True\<rparr>)) st')" for a b ms st'
    by (auto intro!: typed_after typed_event)
  show "all_typed (fail_stream message st)"
    unfolding fail_stream_def Let_def by (auto intro!: typed_after [OF _ tail] simp: typed_start tail after_skip)
qed

lemma typed_body: "all_typed (converted_body env frames st)"
proof -
  have events: "all_typed (for_each (process_event env) es st')" for env es st'
    by (rule typed_for_each) (auto simp: process_event_def typed_ends typed_chunk split: option.split)
  have push: "all_typed (stream_push env bytes st')" for env bytes st'
    by (auto simp: stream_push_def Let_def typed_ends events split: prod.split option.split)
  have finish: "all_typed (stream_finish env st')" for env st'
    by (auto intro!: typed_after simp: stream_finish_def events typed_ends split: prod.split)
  show ?thesis
    by (induction env frames arbitrary: st rule: converted_body.induct)
      (auto intro!: typed_after simp: finish typed_ends push)
qed

lemma strip_cr_empty: "strip_cr [] = []"
  by (simp add: strip_cr_def)

lemma sse_lines_line: "LF \<notin> set l \<Longrightarrow> sse_lines (l @ LF # rest) = l # sse_lines rest"
  by (induction l) auto

definition wire_ok :: "chat_env \<Rightarrow> stream_event \<Rightarrow> bool" where
  "wire_ok env e \<longleftrightarrow>
     (\<exists>t. ce_print env (snd e) = Some (CHR 0x7B # t) \<and> ce_parse env (CHR 0x7B # t) = Some (snd e) \<and>
          LF \<notin> set t \<and> CR \<notin> set t \<and> length t + 120 \<le> MAX_EVENT_BYTES)"

lemma wire_frame:
  assumes "typed e" "ce_print env (snd e) = Some (CHR 0x7B # t)" "ce_parse env (CHR 0x7B # t) = Some (snd e)"
    and "LF \<notin> set t" "CR \<notin> set t" "length t + 120 \<le> MAX_EVENT_BYTES"
  shows "frames_from [] (sse_lines (wire env e @ rest)) =
           [''event: '' @ fst e, ''data: '' @ CHR 0x7B # t, []] # frames_from [] (sse_lines rest)"
    "frame_event (ce_parse env) [''event: '' @ fst e, ''data: '' @ CHR 0x7B # t, []] = Some (snd e)"
proof -
  have event: "LF \<notin> set (''event: '' @ fst e)" "CR \<notin> set (''event: '' @ fst e)"
    and data: "LF \<notin> set (''data: '' @ CHR 0x7B # t)" "CR \<notin> set (''data: '' @ CHR 0x7B # t)"
    using assms by (auto simp: typed_def)
  have strip: "strip_cr l = l" if "CR \<notin> set l" for l
    using that by (metis last_in_set strip_cr_def)
  have "wire env e @ rest = (''event: '' @ fst e) @ LF # (''data: '' @ CHR 0x7B # t) @ LF # [] @ LF # rest"
    using assms(2) by (simp add: wire_def unwrap_or_def)
  then have "sse_lines (wire env e @ rest) =
      (''event: '' @ fst e) # (''data: '' @ CHR 0x7B # t) # [] # sse_lines rest"
    by (simp only: sse_lines_line [OF event(1)] sse_lines_line [OF data(1)] append_Nil sse_lines.simps(2) if_True refl)
  then show "frames_from [] (sse_lines (wire env e @ rest)) =
      [''event: '' @ fst e, ''data: '' @ CHR 0x7B # t, []] # frames_from [] (sse_lines rest)"
    using strip [OF event(2)] strip [OF data(2)] by (simp add: strip_cr_def)
  have "frame_size [''event: '' @ fst e, ''data: '' @ CHR 0x7B # t, []] \<le> MAX_EVENT_BYTES"
    using assms(1,6) by (simp add: frame_size_def typed_def)
  moreover have "frame_data [''event: '' @ fst e, ''data: '' @ CHR 0x7B # t, []] = CHR 0x7B # t"
    using strip [OF event(2)] strip [OF data(2)]
    by (simp add: frame_data_def frame_field_def strip_prefix_def starts_with_def strip_space_def strip_cr_empty)
  moreover have "with_type k (snd e) = snd e" for k using assms(1) by (simp add: typed_def with_type_def)
  ultimately show "frame_event (ce_parse env) [''event: '' @ fst e, ''data: '' @ CHR 0x7B # t, []] = Some (snd e)"
    using assms(3) by (simp add: frame_event_def)
qed

lemma wire_events:
  "\<forall>e \<in> set es. typed e \<and> wire_ok env e \<Longrightarrow> sse_events (ce_parse env) (concat (map (wire env) es)) = map snd es"
proof (induction es)
  case (Cons e es)
  obtain t where "ce_print env (snd e) = Some (CHR 0x7B # t)" "ce_parse env (CHR 0x7B # t) = Some (snd e)"
    "LF \<notin> set t" "CR \<notin> set t" "length t + 120 \<le> MAX_EVENT_BYTES" "typed e"
    using Cons.prems by (auto simp: wire_ok_def)
  note frame = wire_frame [OF this(6,1-5)]
  show ?case
    using Cons.IH Cons.prems unfolding sse_events_def list.map concat.simps frame somes.simps by simp
qed (simp add: sse_events_def)

lemma concat_no_cr: "\<forall>l \<in> set ls. CR \<notin> set l \<Longrightarrow> no_overrun_at_cr f ls"
proof (induction ls arbitrary: f)
  case (Cons l ls)
  have "l \<noteq> [] \<Longrightarrow> last l \<noteq> CR" using Cons.prems last_in_set [of l] by force
  then have "\<not> overruns_at_cr f l" by (cases l) (auto simp: overruns_at_cr_def strip_cr_def)
  then show ?case using Cons by simp
qed simp

lemma wire_no_cr: "typed e \<Longrightarrow> wire_ok env e \<Longrightarrow> CR \<notin> set (wire env e)"
  by (auto simp: typed_def wire_ok_def wire_def unwrap_or_def)

lemma sse_lines_chars: "l \<in> set (sse_lines s) \<Longrightarrow> set l \<subseteq> set s"
proof (induction s arbitrary: l rule: sse_lines.induct)
  case (2 b bs)
  then show ?case by (cases "sse_lines bs"; fastforce split: if_splits)
qed simp

text \<open>
  C17: What the gateway sends is what it meters.  The response tap decodes the converted stream with the
  decoder of the native streams; however the bytes are cut, it reads exactly the events the converter
  emitted, in order, for whatever frames the upstream sent.  \<open>wire_ok\<close> states of an event that printing
  it gives one line that parses back, within the frame limit.
\<close>

theorem converted_stream_decodes:
  assumes "\<forall>e \<in> set (fst (converted_body env frames st)). wire_ok env e"
    and "concat pieces = concat (map (wire env) (fst (converted_body env frames st)))"
  shows "decode_chunks (ce_parse env) pieces = map snd (fst (converted_body env frames st))"
proof -
  let ?es = "fst (converted_body env frames st)"
  have ok: "\<forall>e \<in> set ?es. typed e \<and> wire_ok env e" using typed_body assms(1) by (auto simp: all_typed_def)
  then have "CR \<notin> set (concat pieces)" unfolding assms(2) using wire_no_cr by (auto simp: set_concat)
  then have "\<forall>l \<in> set (sse_lines (concat pieces)). CR \<notin> set l" using sse_lines_chars by blast
  then have "decode_chunks (ce_parse env) pieces = sse_events (ce_parse env) (concat pieces)"
    by (intro decoder_exact concat_no_cr)
  then show ?thesis using wire_events [OF ok] by (simp add: assms(2))
qed

definition wit_open :: chat_stream where
  "wit_open = (chat_stream_new wit_env context_default 4096)\<lparr>cs_created := True\<rparr>"

definition wit_failure :: "stream_event list" where
  "wit_failure = fst (converted_body wit_env [Broken ''reset''] wit_open)"

definition wit_codec_env :: chat_env where
  "wit_codec_env =
     \<lparr>ce_parse = (\<lambda>s. Some (snd (wit_failure ! (if s = [CHR 0x7B, CHR ''0''] then 0 else 1)))),
      ce_print = (\<lambda>v. Some [CHR 0x7B, if v = snd (wit_failure ! 0) then CHR ''0'' else CHR ''1'']), ce_blake3 = id\<rparr>"

theorem converted_stream_decodes_witness:
  "map fst wit_failure = [''error'', ''response.failed''] \<and>
   decode_chunks (ce_parse wit_codec_env) [concat (map (wire wit_codec_env) wit_failure)] = map snd wit_failure"
proof -
  have body: "fst (converted_body wit_codec_env [Broken ''reset''] wit_open) = wit_failure"
    by (simp add: wit_failure_def)
  have names: "map fst wit_failure = [''error'', ''response.failed'']"
    by (simp add: wit_failure_def wit_open_def chat_stream_new_def fail_stream_def Let_def after_result
        stream_event_result)
  then obtain e1 e2 where es: "wit_failure = [e1, e2]" by auto
  have types: "typed (wit_failure ! 0)" "typed (wit_failure ! 1)"
    using typed_body [of wit_codec_env "[Broken ''reset'']" wit_open] unfolding all_typed_def body es by simp_all
  have "fst (wit_failure ! 0) = ''error''" "fst (wit_failure ! 1) = ''response.failed''"
    using names by (simp_all add: es)
  then have "snd (wit_failure ! 1) \<noteq> snd (wit_failure ! 0)" using types by (auto simp: typed_def)
  then have "wire_ok wit_codec_env (wit_failure ! 0)" "wire_ok wit_codec_env (wit_failure ! 1)"
    by (simp_all add: wire_ok_def wit_codec_env_def MAX_EVENT_BYTES_def)
  then have "\<forall>e \<in> set (fst (converted_body wit_codec_env [Broken ''reset''] wit_open)). wire_ok wit_codec_env e"
    unfolding body by (simp add: es)
  note decoded = converted_stream_decodes [OF this, of "[concat (map (wire wit_codec_env) wit_failure)]",
      unfolded body]
  have "decode_chunks (ce_parse wit_codec_env) [concat (map (wire wit_codec_env) wit_failure)] = map snd wit_failure"
    by (rule decoded) simp
  then show ?thesis using names by simp
qed

end
