(* ===== verification/Spec2Isabelle.thy ===== *)
theory Spec2Isabelle
  imports Prelude Float64 Text Headers Json Types Breaker Resilience Health Provider_Runtime Quota
    Selector Affinity Pricing Upstream_Snapshot Caches Routing_Availability
    Route_Collection Runtime_Settings Upstream_Plan Attempt
    Request_Loop Utf8 Response_Events Usage_Capture Response_Body Response_Tap
    Request_Overrides Encrypted_Content Chat_Tools Chat_Conversion Chat_Stream Chat_Delivery
begin

text \<open>
  Verification of the routing core of the gateway (backend/src/): the decisions it takes for every
  request it forwards to an upstream provider.

  What the program does.  The gateway receives requests of its own API keys, picks an upstream
  provider, one of the provider's keys and one of its endpoints, and forwards the request, with a
  bounded number of further attempts when one fails.  What it knows about the outside is kept in
  books in memory: a health book for endpoints and one for keys (circuit breakers), a provider
  runtime book (capacity, a configurable circuit breaker, recent errors), a quota book (announced
  rate limits), an affinity book (which provider a client session is bound to), a rotation book,
  and caches of the configuration that the database holds.

  The theories, each for one part of the code:

  - Prelude, Text, Headers, Json, Float64: the parts of Rust's standard library and of its JSON
    values that the code uses: options, saturating and wrapping integers, trimming and number
    parsing, header maps, JSON objects, binary64 arithmetic (rounding written out on rationals).
  - Types: the records of types.rs, db/upstream_config.rs and request_overrides.rs.
  - Breaker: the contract of a circuit breaker with half-open probes as the locale
    circuit\_breaker (begin, finish and control operations with a generation and a probe owner),
    with the safety of probes and the absence of lost probes proved once inside it.  Health and
    Provider\_Runtime interpret it on their own definitions.
  - Resilience (resilience.rs): cooldown\_ms, the AttemptBudget, retry\_after\_ms.
  - Health (health.rs): HealthBook; per entry the functions health\_begin, health\_success,
    health\_failure, health\_neutral, health\_reset, health\_defer, per book the hb\_ operations,
    the guard with its drop, and the provider summary.
  - Provider\_Runtime (provider\_runtime.rs, first half): ProviderRuntimeBook, its permits and guards.
  - Quota (provider\_runtime.rs, second half): QuotaBook and the rate-limit headers.
  - Selector (selector.rs, key\_rotation.rs): weighted and health-aware ordering, rotation.
  - Affinity (affinity.rs): session identities and the AffinityBook.
  - Pricing (pricing.rs): price cards, tiers and the evaluation of a usage.
  - Upstream\_Snapshot (cache/upstream\_cache.rs): the configuration snapshot, how it is built from
    the rows of the database, price lookup, the model registry; the routing view of a Codex
    account (codex\_oauth.rs).
  - Caches (cache/): the API key cache, the snapshot cache with its reload split at the await
    points, the WebSocket capability cache.
  - Routing\_Availability (routing\_availability.rs): whether an account or a provider can take a
    request now, and when to retry one that cannot.
  - Route\_Collection (proxy.rs, collect\_provider\_routes): the providers a model can be sent to
    under the model policy, the aliases, the provider inventories and the gateway routes, with the
    diagnostics of every provider that was left out and the error when none is left.
  - Runtime\_Settings (runtime\_settings.rs): the settings an administrator can change at run time,
    their validation, loading and updating.
  - Upstream\_Plan (proxy.rs, build\_upstream\_plan): from the routes to the ordered list of attempts
    of a request; the affinity preference; the retry times of a plan; the exclusions of a request.
  - Attempt (proxy.rs): failure scopes, the reservation of an attempt in all books at once, and what
    each outcome reports to which book.
  - Request\_Loop (proxy.rs, proxy\_openai): the loop over the attempts of a plan, from the reservation
    to the answer that is handed to the client.  The outside (the network, the database, and the other
    requests, which may change the books at every await point) is an argument, attempt\_world.
  - Utf8: String::from\_utf8\_lossy of the standard library.
  - Response\_Events (response\_events.rs and SseParser of proxy.rs): the decoder of event streams, the
    usage, tier, output and status read from events, and the parser of a streamed response.
  - Usage\_Capture (proxy.rs): the two ends of a body that are kept, and the usage and errors in them.
  - Response\_Body (proxy.rs): bodies that are looked at before they are passed on: a rejection of
    encrypted content, usage in a retryable response, the first event of a stream.  Request\_Loop takes
    what these find as a part of the upstream's reply.
  - Response\_Tap (proxy.rs, ProxyTapBody and finalize\_tap): the task that reads the response body and
    settles the request.
  - Request\_Overrides (request\_overrides.rs): the administrator's rules that set or remove headers and
    body fields: validation, template expansion, application.
  - Encrypted\_Content (encrypted\_content.rs): the book of rejected ciphertexts, the cleaning of
    request bodies and the one retry without ciphertext.
  - Chat\_Tools, Chat\_Conversion, Chat\_Stream, Chat\_Delivery (responses\_via\_chat.rs and
    ConvertedSseBody of proxy.rs): a Responses request for a provider that only offers Chat
    Completions.  Chat\_Tools renames the tools, Chat\_Conversion converts the request and a complete
    response, Chat\_Stream a streamed response with its own decoder, Chat\_Delivery shows what of the
    upstream's answer reaches the client and the response tap.

  How state and operations correspond.  A Rust struct is a record with the fields' names behind a
  short prefix; an entry of a concurrent map that is guarded by a lock is a value passed in and
  returned, and every operation under one lock is one definition, so that a history of operations
  is a list of events in the order in which they take the lock.  Generations and probe identifiers
  are \<open>64 word\<close> values and wrap; i64 times are \<open>int\<close> with the saturating operations of Prelude;
  u32 counters are \<open>nat\<close> with saturation.  Hash maps that are only read are partial functions;
  where the code iterates over one it is an association list in its iteration order, over which
  the properties quantify.  The clock is an argument.  Errors are sums or options.

  What is a parameter: the random generator (a function from a state and a bound to a draw and a
  state; draw\_ok says a draw lies below its bound), BLAKE3, the JSON parser on bytes, the HTTP and
  RFC 3339 date parsers, the decimal crate of Pricing, and the rows a database query returns.

  What the properties show, by group.  Breakers: one probe at a time, no probe lost, a failure
  takes the entry out of use for a bounded time, results that come late do nothing, recovery takes
  the configured number of successes.  Capacity: the in-flight counter is the number of live
  permits and stays below the limit.  Quota: an announced limit of n lets n requests through and a
  429 blocks for at least the announced time.  Budget: a request makes at most three sends.
  Affinity: sticky, left after a failure, bounded memory.  Selection: exact candidate sets, orders
  and draw probabilities.  Pricing: the right tier and a round trip.  Snapshot and caches: the
  model list is exact, keys are never accepted when disabled or expired, age bounds, and an
  invalidation that a concurrent load undoes.  Availability: an account is reported available
  exactly when every gate on its path would admit a request, and a retry time is a lower bound.
  Routing: the routes of a model are exactly those its configuration allows; every attempt of a plan
  is authorised, enabled and admitted by every gate; providers come by priority and a bound session's
  provider first; the error of an empty plan is the first stage that left nothing.  Attempts: a
  reservation is all or nothing and an outcome is charged to the one layer at fault.  The request loop:
  the number of sends is bounded, no failed target is tried again, and every permit comes back.
  Responses: events do not depend on how the bytes are cut and are those of a reference reading of the
  stream; what is kept of a body is its two ends; the search for usage ends and misses no occurrence;
  looking at a body keeps it whole; a stream is only given up while it has shown nothing; the outcome of
  a stream is that of its last terminal event; a client that goes away costs its target nothing.
  Conversions: tool names are acceptable and stand for one tool each, a tool call makes the round
  trip, usage is kept where it is read, a converted stream is numbered, ends exactly once, delivers
  the whole answer and decodes to what was sent.  Rewriting: a body rule sets what it names and
  leaves the rest, managed fields stay managed, rejected ciphertext is not sent a second time.

  Bounds.  Properties of histories assume fewer than \<open>2 ^ 64 - 1\<close> events (the probe counter is a
  wrapping u64) or \<open>2 ^ 32\<close> events (the in-flight counter is a u32); times are assumed to stay
  within an i64.  No definition uses fuel: every loop is structural or has a measure, except
  the search for usage (search\_usage), which is a partial function with a proof that it returns.  The
  numbers that bound the peeks of Response\_Body say how many frames arrive before their timeout.

  Not modelled: HTTP and WebSocket transport, SQL, the admin interface, logging, notification
  delivery, metrics, price downloads, the login flow of Codex accounts and the web console; and,
  so far, the session of a Responses WebSocket and the scanning of request bodies in openai.rs.
\<close>

end
